(* ===== verification/Prelude.thy ===== *)
theory Prelude
  imports Main "HOL-Library.Char_ord" "HOL-Library.List_Lexorder" "HOL-Library.Sublist"
begin

text \<open>
  Shared vocabulary of the development: checks that return the first error as Go's
  \<open>if err := f(x); err != nil { return err }\<close> does, the byte-string operations of the
  Go packages \<open>strings\<close> and \<open>sort\<close> the program calls, and signed 64 bit arithmetic.
  A Go string is a sequence of bytes; here it is a \<^typ>\<open>string\<close>, whose characters are bytes.
\<close>

named_theorems check_simps "equations of the error-returning checks"
named_theorems str_simps "equations of the byte-string operations"

section \<open>Checks: the first error wins\<close>

text \<open>A Go function of result type \<open>error\<close>: \<open>None\<close> is \<open>nil\<close>.\<close>

type_synonym 'e check = "'e option"

text \<open>Statements run one after the other, each returning early on an error.\<close>

fun checks :: "'e check list \<Rightarrow> 'e check" where
  "checks [] = None"
| "checks (None # cs) = checks cs"
| "checks (Some e # cs) = Some e"

text \<open>A loop whose body returns early on an error.\<close>

fun check_each :: "('a \<Rightarrow> 'e check) \<Rightarrow> 'a list \<Rightarrow> 'e check" where
  "check_each f [] = None"
| "check_each f (x # xs) = (case f x of Some e \<Rightarrow> Some e | None \<Rightarrow> check_each f xs)"

text \<open>The same loop with its index.\<close>

fun check_idx :: "(nat \<Rightarrow> 'a \<Rightarrow> 'e check) \<Rightarrow> nat \<Rightarrow> 'a list \<Rightarrow> 'e check" where
  "check_idx f i [] = None"
| "check_idx f i (x # xs) = (case f i x of Some e \<Rightarrow> Some e | None \<Rightarrow> check_idx f (Suc i) xs)"

definition fail_if :: "bool \<Rightarrow> 'e \<Rightarrow> 'e check" where
  "fail_if b e = (if b then Some e else None)"

text \<open>\<open>v, err := f(); if err != nil { return err }\<close> followed by the rest.\<close>

definition with_ok :: "'e + 'a \<Rightarrow> ('a \<Rightarrow> 'e check) \<Rightarrow> 'e check" where
  "with_ok r k = (case r of Inl e \<Rightarrow> Some e | Inr v \<Rightarrow> k v)"

lemma checks_None [simp, check_simps]: "checks cs = None \<longleftrightarrow> (\<forall>c \<in> set cs. c = None)"
  by (induction cs rule: checks.induct) auto

lemma check_each_None [simp, check_simps]:
  "check_each f xs = None \<longleftrightarrow> (\<forall>x \<in> set xs. f x = None)"
  by (induction xs) (auto split: option.splits)

lemma check_idx_None [check_simps]:
  "check_idx f i xs = None \<longleftrightarrow> (\<forall>j < length xs. f (i + j) (xs ! j) = None)"
proof (induction xs arbitrary: i)
  case Nil
  then show ?case by simp
next
  case (Cons x xs)
  have "(\<forall>j < length (x # xs). f (i + j) ((x # xs) ! j) = None) \<longleftrightarrow>
      f i x = None \<and> (\<forall>j < length xs. f (Suc i + j) (xs ! j) = None)"
    by (auto simp: less_Suc_eq_0_disj)
  with Cons.IH show ?case by (auto split: option.splits)
qed

lemma check_idx_NoneD:
  assumes "check_idx f i xs = None" and "x \<in> set xs"
  shows "\<exists>j. f j x = None"
  using assms by (induction xs arbitrary: i) (auto split: option.splits)

lemma fail_if_None [simp, check_simps]: "fail_if b e = None \<longleftrightarrow> \<not> b"
  by (simp add: fail_if_def)

lemma with_ok_None [check_simps]:
  "with_ok r k = None \<longleftrightarrow> (\<exists>v. r = Inr v \<and> k v = None)"
  by (cases r) (auto simp: with_ok_def)

lemma with_ok_simps [simp]: "with_ok (Inr v) k = k v" "with_ok (Inl e) k = Some e"
  by (simp_all add: with_ok_def)

text \<open>Whether a loop of checks succeeds does not depend on the order of the iteration.\<close>

text \<open>Sequencing of steps that may fail, and a guard before one.\<close>

definition bind_ok :: "'e + 'a \<Rightarrow> ('a \<Rightarrow> 'e + 'b) \<Rightarrow> 'e + 'b" where
  "bind_ok r k = (case r of Inl e \<Rightarrow> Inl e | Inr v \<Rightarrow> k v)"

definition guard_ok :: "bool \<Rightarrow> 'e \<Rightarrow> 'e + 'a \<Rightarrow> 'e + 'a" where
  "guard_ok b e r = (if b then r else Inl e)"

lemma bind_ok_simps [simp]: "bind_ok (Inr v) k = k v" "bind_ok (Inl e) k = Inl e"
  by (simp_all add: bind_ok_def)

lemma bind_ok_Inr [check_simps]: "bind_ok r k = Inr v \<longleftrightarrow> (\<exists>u. r = Inr u \<and> k u = Inr v)"
  by (cases r) simp_all

lemma guard_ok_Inr [check_simps]: "guard_ok b e r = Inr v \<longleftrightarrow> b \<and> r = Inr v"
  by (simp add: guard_ok_def)

lemma guard_ok_simps [simp]: "guard_ok True e r = r" "guard_ok False e r = Inl e"
  by (simp_all add: guard_ok_def)

lemma if_Inl_Inr [check_simps]:
  "(if b then Inl e else r) = Inr v \<longleftrightarrow> \<not> b \<and> r = Inr v"
  "(if b then r else Inl e) = Inr v \<longleftrightarrow> b \<and> r = Inr v"
  by simp_all

lemma check_each_perm:
  "set xs = set ys \<Longrightarrow> (check_each f xs = None) = (check_each f ys = None)"
  by simp

text \<open>The elements a filtering map keeps.\<close>

lemma in_map_filter [simp]:
  "y \<in> set (List.map_filter f xs) \<longleftrightarrow> (\<exists>x \<in> set xs. f x = Some y)"
  by (induction xs) (auto simp: map_filter_simps split: option.splits)

section \<open>Byte strings\<close>

text \<open>\<open>strings.Split(s, sep)\<close> for a one-byte separator: never the empty list.\<close>

fun split_on :: "char \<Rightarrow> string \<Rightarrow> string list" where
  "split_on c [] = [[]]"
| "split_on c (x # xs) =
     (if x = c then [] # split_on c xs
      else (case split_on c xs of [] \<Rightarrow> [[x]] | w # ws \<Rightarrow> (x # w) # ws))"

text \<open>\<open>strings.Join(parts, sep)\<close>.\<close>

fun join :: "string \<Rightarrow> string list \<Rightarrow> string" where
  "join sep [] = []"
| "join sep [w] = w"
| "join sep (w # v # ws) = w @ sep @ join sep (v # ws)"

lemma split_on_not_Nil [simp]: "split_on c s \<noteq> []"
  by (induction s) (auto split: list.splits)

lemma split_on_free [simp]: "c \<notin> set w \<Longrightarrow> split_on c w = [w]"
  by (induction w) auto

lemma split_on_append [str_simps]:
  "c \<notin> set w \<Longrightarrow> split_on c (w @ c # s) = w # split_on c s"
  by (induction w) auto

lemma split_on_parts: "w \<in> set (split_on c s) \<Longrightarrow> c \<notin> set w"
  by (induction s arbitrary: w) (auto split: list.splits if_splits)

lemma split_join:
  "ws \<noteq> [] \<Longrightarrow> \<forall>w \<in> set ws. c \<notin> set w \<Longrightarrow> split_on c (join [c] ws) = ws"
  by (induction "[c]" ws rule: join.induct) (auto simp: split_on_append)

lemma join_Cons [str_simps]:
  "join sep (w # ws) = (if ws = [] then w else w @ sep @ join sep ws)"
  by (cases ws) auto

lemma join_append:
  "join sep (us @ vs) =
     (if us = [] then join sep vs else if vs = [] then join sep us
      else join sep us @ sep @ join sep vs)"
  by (induction us) (auto simp: join_Cons)

text \<open>
  \<open>strings.TrimSpace\<close>: the UTF-8 encodings of the code points \<open>unicode.IsSpace\<close> accepts,
  removed from both ends. A string that begins (ends) with one of these byte sequences
  begins (ends) with that code point, so stripping by bytes is stripping by runes.
\<close>

definition space_runes :: "string list" where
  "space_runes =
     [[CHR 0x09], [CHR 0x0A], [CHR 0x0B], [CHR 0x0C], [CHR 0x0D], [CHR 0x20],
      [CHR 0xC2, CHR 0x85], [CHR 0xC2, CHR 0xA0], [CHR 0xE1, CHR 0x9A, CHR 0x80],
      [CHR 0xE2, CHR 0x80, CHR 0x80], [CHR 0xE2, CHR 0x80, CHR 0x81],
      [CHR 0xE2, CHR 0x80, CHR 0x82], [CHR 0xE2, CHR 0x80, CHR 0x83],
      [CHR 0xE2, CHR 0x80, CHR 0x84], [CHR 0xE2, CHR 0x80, CHR 0x85],
      [CHR 0xE2, CHR 0x80, CHR 0x86], [CHR 0xE2, CHR 0x80, CHR 0x87],
      [CHR 0xE2, CHR 0x80, CHR 0x88], [CHR 0xE2, CHR 0x80, CHR 0x89],
      [CHR 0xE2, CHR 0x80, CHR 0x8A], [CHR 0xE2, CHR 0x80, CHR 0xA8],
      [CHR 0xE2, CHR 0x80, CHR 0xA9], [CHR 0xE2, CHR 0x80, CHR 0xAF],
      [CHR 0xE2, CHR 0x81, CHR 0x9F], [CHR 0xE3, CHR 0x80, CHR 0x80]]"

fun strip_one :: "string list \<Rightarrow> string \<Rightarrow> string option" where
  "strip_one [] s = None"
| "strip_one (w # ws) s =
     (if w \<noteq> [] \<and> prefix w s then Some (drop (length w) s) else strip_one ws s)"

lemma strip_one_shorter: "strip_one ws s = Some t \<Longrightarrow> length t < length s"
proof (induction ws)
  case Nil
  then show ?case by simp
next
  case (Cons w ws)
  show ?case
  proof (cases "w \<noteq> [] \<and> prefix w s")
    case True
    moreover from this have "length w \<le> length s" by (simp add: prefix_length_le)
    moreover have "t = drop (length w) s" using True Cons.prems by simp
    ultimately show ?thesis by (cases w) auto
  next
    case False
    with Cons show ?thesis by auto
  qed
qed

function strip_all :: "string list \<Rightarrow> string \<Rightarrow> string" where
  "strip_all ws s = (case strip_one ws s of None \<Rightarrow> s | Some t \<Rightarrow> strip_all ws t)"
  by pat_completeness auto
termination
  by (relation "measure (\<lambda>(ws, s). length s)") (auto dest: strip_one_shorter)

declare strip_all.simps [simp del]

definition trim_space :: "string \<Rightarrow> string" where
  "trim_space s = rev (strip_all (map rev space_runes) (rev (strip_all space_runes s)))"

text \<open>\<open>strings.TrimRight(s, cutset)\<close> for a one-byte cutset.\<close>

definition trim_right :: "char \<Rightarrow> string \<Rightarrow> string" where
  "trim_right c s = rev (dropWhile (\<lambda>x. x = c) (rev s))"

lemma trim_right_id [str_simps]: "s = [] \<or> last s \<noteq> c \<Longrightarrow> trim_right c s = s"
proof (cases s rule: rev_cases)
  case Nil
  then show ?thesis by (simp add: trim_right_def)
next
  case (snoc ys y)
  moreover assume "s = [] \<or> last s \<noteq> c"
  ultimately show ?thesis by (simp add: trim_right_def)
qed

text \<open>\<open>strings.ContainsAny(s, chars)\<close>.\<close>

definition contains_any :: "string \<Rightarrow> string \<Rightarrow> bool" where
  "contains_any s cs \<longleftrightarrow> list_ex (\<lambda>x. x \<in> set cs) s"

text \<open>Decimal rendering of an index, as \<open>%d\<close> prints it.\<close>

fun show_nat :: "nat \<Rightarrow> string" where
  "show_nat n =
     (if n < 10 then [char_of (48 + n)] else show_nat (n div 10) @ [char_of (48 + n mod 10)])"

declare show_nat.simps [simp del]

definition show_int :: "int \<Rightarrow> string" where
  "show_int i = (if i < 0 then CHR ''-'' # show_nat (nat (- i)) else show_nat (nat i))"

lemma show_int_nonempty: "show_int i \<noteq> []"
  by (simp add: show_int_def show_nat.simps[of "nat i"])

section \<open>Signed 64 bit integers\<close>

text \<open>Go's \<open>int\<close>, \<open>int64\<close> and \<open>time.Duration\<close> wrap around at 64 bits.\<close>

definition wrap64 :: "int \<Rightarrow> int" where
  "wrap64 i = (i + 2 ^ 63) mod 2 ^ 64 - 2 ^ 63"

lemma wrap64_id: "- (2 ^ 63) \<le> i \<Longrightarrow> i < 2 ^ 63 \<Longrightarrow> wrap64 i = i"
  by (simp add: wrap64_def)

lemma wrap64_range: "- (2 ^ 63) \<le> wrap64 i \<and> wrap64 i < 2 ^ 63"
  by (simp add: wrap64_def)

section \<open>Sorting and deduplication\<close>

text \<open>\<open>sort.Strings\<close> sorts by bytes, which is the lexicographic order of \<^typ>\<open>string\<close>.\<close>

abbreviation sort_strings :: "string list \<Rightarrow> string list" where
  "sort_strings \<equiv> sort"

lemma sort_perm_eq:
  fixes xs ys :: "'a::linorder list"
  assumes "distinct xs" and "distinct ys" and "set xs = set ys"
  shows "sort xs = sort ys"
  using assms by (metis distinct_sort set_sort sorted_distinct_set_unique sorted_sort)

end
