(* ===== verification/GoValue.thy ===== *)
theory GoValue
  imports Prelude
begin

text \<open>
  Dynamic values: what a Go variable of type \<open>any\<close> can hold in this program (decoded JSON,
  database rows, values built in process), the type assertions on it, and the accessors the
  packages \<open>workflowauthoring\<close>, \<open>runreconcile\<close> and \<open>mutations\<close> put on top.
  A map is an association list whose order is the order Go iterates over it, which the
  language leaves open; its keys are unique.
\<close>

section \<open>Values\<close>

text \<open>
  A \<open>float64\<close>: the exact value \<open>m * 2^e\<close> (\<open>None\<close> for NaN and the infinities) with the
  text \<open>fmt\<close> prints for it.
\<close>

datatype float64 = Float64 (f_value: "(int \<times> int) option") (f_text: string)

datatype goval =
    VNil
  | VBool bool
  | VNumber string            \<comment> \<open>\<open>json.Number\<close>: the literal as written\<close>
  | VInt int                  \<comment> \<open>\<open>int\<close>\<close>
  | VInt32 int
  | VInt64 int
  | VFloat float64
  | VStr string
  | VTime int string          \<comment> \<open>\<open>time.Time\<close>: nanoseconds, and the text \<open>fmt\<close> prints for it\<close>
  | VList "goval list"        \<comment> \<open>\<open>[]any\<close>\<close>
  | VStrs "string list"       \<comment> \<open>\<open>[]string\<close>\<close>
  | VMaps "(string \<times> goval) list list" \<comment> \<open>\<open>[]map[string]any\<close>\<close>
  | VMap "(string \<times> goval) list"       \<comment> \<open>\<open>map[string]any\<close>\<close>

type_synonym gomap = "(string \<times> goval) list"

text \<open>Indexing a map: the zero value \<open>nil\<close> for a missing key, and the comma-ok form.\<close>

definition mget :: "gomap \<Rightarrow> string \<Rightarrow> goval" where
  "mget m k = (case map_of m k of Some v \<Rightarrow> v | None \<Rightarrow> VNil)"

definition mhas :: "gomap \<Rightarrow> string \<Rightarrow> bool" where
  "mhas m k \<longleftrightarrow> map_of m k \<noteq> None"

text \<open>Type assertions.\<close>

fun as_map :: "goval \<Rightarrow> gomap option" where
  "as_map (VMap m) = Some m"
| "as_map _ = None"

fun as_str :: "goval \<Rightarrow> string option" where
  "as_str (VStr s) = Some s"
| "as_str _ = None"

fun as_bool :: "goval \<Rightarrow> bool option" where
  "as_bool (VBool b) = Some b"
| "as_bool _ = None"

text \<open>\<open>m, _ := v.(map[string]any)\<close>: the nil map, which reads as empty, when it is none.\<close>

definition map_or_empty :: "goval \<Rightarrow> gomap" where
  "map_or_empty v = (case as_map v of Some m \<Rightarrow> m | None \<Rightarrow> [])"

section \<open>Rendering with fmt.Sprint\<close>

fun go_sprint :: "goval \<Rightarrow> string" where
  "go_sprint VNil = ''<nil>''"
| "go_sprint (VBool b) = (if b then ''true'' else ''false'')"
| "go_sprint (VNumber s) = s"
| "go_sprint (VInt i) = show_int i"
| "go_sprint (VInt32 i) = show_int i"
| "go_sprint (VInt64 i) = show_int i"
| "go_sprint (VFloat f) = f_text f"
| "go_sprint (VStr s) = s"
| "go_sprint (VTime t s) = s"
| "go_sprint (VList vs) = ''['' @ join '' '' (map go_sprint vs) @ '']''"
| "go_sprint (VStrs ss) = ''['' @ join '' '' ss @ '']''"
| "go_sprint (VMaps ms) =
     ''['' @ join '' '' (map (\<lambda>m. ''map['' @ join '' ''
       (map (\<lambda>(k, s). k @ '':'' @ s)
         (sort_key fst (map (\<lambda>(k, v). (k, go_sprint v)) m))) @ '']'') ms) @ '']''"
| "go_sprint (VMap m) =
     ''map['' @ join '' ''
       (map (\<lambda>(k, s). k @ '':'' @ s)
         (sort_key fst (map (\<lambda>(k, v). (k, go_sprint v)) m))) @ '']''"

section \<open>Accessors of workflowauthoring\<close>

fun anySlice :: "goval \<Rightarrow> goval list" where
  "anySlice (VList vs) = vs"
| "anySlice (VStrs ss) = map VStr ss"
| "anySlice (VMaps ms) = map VMap ms"
| "anySlice _ = []"

fun stringsFromSlice :: "goval \<Rightarrow> string list" where
  "stringsFromSlice (VStrs ss) = ss"
| "stringsFromSlice v = List.map_filter as_str (anySlice v)"

definition stringValue :: "goval \<Rightarrow> string" where
  "stringValue v = (case as_str v of Some s \<Rightarrow> s | None \<Rightarrow> [])"

definition defaultString :: "goval \<Rightarrow> string \<Rightarrow> string" where
  "defaultString v fallback = (if stringValue v \<noteq> [] then stringValue v else fallback)"

fun typedMaps :: "goval \<Rightarrow> gomap list" where
  "typedMaps (VMaps ms) = ms"
| "typedMaps (VList vs) = List.map_filter as_map vs"
| "typedMaps _ = []"

text \<open>\<open>json.Number.Int64\<close> is \<open>strconv.ParseInt(s, 10, 64)\<close>: an optional sign, digits only, in range.\<close>

definition is_digit :: "char \<Rightarrow> bool" where
  "is_digit c \<longleftrightarrow> 48 \<le> (of_char c :: nat) \<and> (of_char c :: nat) \<le> 57"

fun digits_value :: "nat \<Rightarrow> string \<Rightarrow> nat" where
  "digits_value acc [] = acc"
| "digits_value acc (c # cs) = digits_value (10 * acc + (of_char c - 48)) cs"

definition parse_digits :: "string \<Rightarrow> int option" where
  "parse_digits s = (if s \<noteq> [] \<and> list_all is_digit s then Some (int (digits_value 0 s)) else None)"

definition parse_int64 :: "string \<Rightarrow> int option" where
  "parse_int64 s =
     (let r = (case s of
          c # cs \<Rightarrow> (if c = CHR ''-'' then map_option uminus (parse_digits cs)
                   else if c = CHR ''+'' then parse_digits cs else parse_digits s)
        | [] \<Rightarrow> None)
      in case r of Some i \<Rightarrow> (if - (2 ^ 63) \<le> i \<and> i < 2 ^ 63 then Some i else None)
         | None \<Rightarrow> None)"

text \<open>\<open>int64(f)\<close>: truncation; out of range (and NaN) gives the minimum, as on amd64.\<close>

definition float_trunc :: "float64 \<Rightarrow> int" where
  "float_trunc f =
     (case f_value f of None \<Rightarrow> - (2 ^ 63)
      | Some (m, e) \<Rightarrow>
          (let q = (if 0 \<le> e then m * 2 ^ nat e else sgn m * (\<bar>m\<bar> div 2 ^ nat (- e)))
           in if - (2 ^ 63) \<le> q \<and> q < 2 ^ 63 then q else - (2 ^ 63)))"

text \<open>The comparisons of a \<open>float64\<close> with an integer constant, exact.\<close>

definition float_ge :: "float64 \<Rightarrow> int \<Rightarrow> bool" where
  "float_ge f k =
     (case f_value f of None \<Rightarrow> False
      | Some (m, e) \<Rightarrow> (if 0 \<le> e then k \<le> m * 2 ^ nat e else k * 2 ^ nat (- e) \<le> m))"

definition float_eq_int :: "float64 \<Rightarrow> int \<Rightarrow> bool" where
  "float_eq_int f k =
     (case f_value f of None \<Rightarrow> False
      | Some (m, e) \<Rightarrow> (if 0 \<le> e then k = m * 2 ^ nat e else k * 2 ^ nat (- e) = m))"

fun wholeNumberAtLeast :: "int \<Rightarrow> goval \<Rightarrow> bool" where
  "wholeNumberAtLeast k (VNumber s) = (case parse_int64 s of Some i \<Rightarrow> k \<le> i | None \<Rightarrow> False)"
| "wholeNumberAtLeast k (VInt i) = (k \<le> i)"
| "wholeNumberAtLeast k (VInt64 i) = (k \<le> i)"
| "wholeNumberAtLeast k (VFloat f) = (float_ge f k \<and> float_eq_int f (float_trunc f))"
| "wholeNumberAtLeast k _ = False"

definition positiveWholeNumber :: "goval \<Rightarrow> bool" where
  "positiveWholeNumber v = wholeNumberAtLeast 1 v"

definition nonNegativeWholeNumber :: "goval \<Rightarrow> bool" where
  "nonNegativeWholeNumber v = wholeNumberAtLeast 0 v"

section \<open>Accessors of runreconcile\<close>

definition StringValue :: "goval \<Rightarrow> string" where
  "StringValue v = (if v = VNil then [] else trim_space (go_sprint v))"

definition AsMap :: "goval \<Rightarrow> gomap" where
  "AsMap v = map_or_empty v"

fun AsList :: "goval \<Rightarrow> goval list" where
  "AsList (VList vs) = vs"
| "AsList (VMaps ms) = map VMap ms"
| "AsList _ = []"

text \<open>
  \<open>strconv.Atoi\<close> whose error is ignored: on a syntax error the value is 0, out of range it
  is the nearest bound.
\<close>

definition atoi_value :: "string \<Rightarrow> int" where
  "atoi_value s =
     (let r = (case s of
          c # cs \<Rightarrow> (if c = CHR ''-'' then map_option uminus (parse_digits cs)
                   else if c = CHR ''+'' then parse_digits cs else parse_digits s)
        | [] \<Rightarrow> None)
      in case r of Some i \<Rightarrow> max (- (2 ^ 63)) (min (2 ^ 63 - 1) i) | None \<Rightarrow> 0)"

fun IntValue :: "goval \<Rightarrow> int" where
  "IntValue (VInt i) = i"
| "IntValue (VInt32 i) = i"
| "IntValue (VInt64 i) = i"
| "IntValue (VFloat f) = float_trunc f"
| "IntValue (VStr s) = atoi_value s"
| "IntValue _ = 0"

section \<open>Accessors of mutations\<close>

text \<open>
  \<open>intFromAny\<close> of \<open>mutations/recovery_auto_finalize.go\<close>.
\<close>

fun intFromAny :: "goval \<Rightarrow> int \<Rightarrow> int" where
  "intFromAny (VInt i) d = i"
| "intFromAny (VInt32 i) d = i"
| "intFromAny (VInt64 i) d = i"
| "intFromAny (VFloat f) d = float_trunc f"
| "intFromAny (VNumber s) d = (case parse_int64 s of Some i \<Rightarrow> i | None \<Rightarrow> d)"
| "intFromAny _ d = d"

section \<open>Laws\<close>

lemma stringValue_simps [simp]:
  "stringValue (VStr s) = s" "stringValue VNil = []" "stringValue (VBool b) = []"
  "stringValue (VMap m) = []" "stringValue (VList l) = []"
  by (simp_all add: stringValue_def)

lemma stringValue_nonempty: "stringValue v \<noteq> [] \<Longrightarrow> v = VStr (stringValue v)"
  by (cases v) (auto simp: stringValue_def)

lemma as_map_Some [simp]: "as_map v = Some m \<longleftrightarrow> v = VMap m"
  by (cases v) auto

lemma as_str_Some [simp]: "as_str v = Some s \<longleftrightarrow> v = VStr s"
  by (cases v) auto

lemma mget_in: "mget m k \<noteq> VNil \<Longrightarrow> (k, mget m k) \<in> set m"
  by (auto simp: mget_def split: option.splits dest: map_of_SomeD)

end
