(* ===== verification/RunReconcile.thy ===== *)
theory RunReconcile
  imports GoValue "HOL-Library.Product_Lexorder" "HOL-Library.Multiset"
begin

text \<open>
  The launch predicate \<open>go/pkg/runreconcile/runreconcile.go\<close>, shared by the operator's
  \<open>run drive\<close> loop and the daemon's auto-spawn scheduler: which queued jobs get a lane this
  pass, by adopting an idle session or registering a fresh one, under the global cap on
  active lanes and the cap of one job per lane. Rows are maps as the two callers read them;
  Go maps used as sets are duplicate-free lists.
\<close>

section \<open>Slots and decisions\<close>

record slot_key =
  WorkflowJobID :: string
  Attempt :: int

record role_lane =
  Role :: string
  Lane :: string

datatype launch_kind =
  LaunchAmbiguousLane | LaunchAdoptExisting | LaunchRegisterFresh | LaunchUnadvanceable

text \<open>The three remediation texts.\<close>

datatype remediation = RemNone | RemSealFailed | RemWaitingUpstream | RemOther string

record launch_decision =
  d_Job :: gomap
  d_Slot :: slot_key
  d_Role :: string
  d_Lane :: string
  d_Kind :: launch_kind
  d_SessionID :: string
  d_State :: string
  d_Remediation :: remediation

section \<open>Reading the rows\<close>

definition IsTerminalRunState :: "string \<Rightarrow> bool" where
  "IsTerminalRunState state \<longleftrightarrow>
     state \<in> set [''completed'', ''failed'', ''canceled'', ''needs_operator'', ''waiting_human'']"

definition ShouldCloseLaunchedBeforeTerminal :: "string \<Rightarrow> bool" where
  "ShouldCloseLaunchedBeforeTerminal state \<longleftrightarrow> state \<in> set [''needs_operator'', ''waiting_human'']"

definition IsLaunchedJobDone :: "string \<Rightarrow> bool" where
  "IsLaunchedJobDone state \<longleftrightarrow>
     state \<in> set [''completed'', ''failed'', ''canceled'', ''skipped'', ''waiting_human'']"

definition IsPausedRun :: "gomap \<Rightarrow> bool" where
  "IsPausedRun run =
     (case map_of run ''paused_at'' of
        None \<Rightarrow> False
      | Some VNil \<Rightarrow> False
      | Some (VStr s) \<Rightarrow> s \<noteq> []
      | Some _ \<Rightarrow> True)"

definition inFlightJobState :: "string \<Rightarrow> bool" where
  "inFlightJobState state \<longleftrightarrow> state \<in> set [''claimed'', ''running'', ''stale_lease'']"

definition UnadvanceableJobState :: "string \<Rightarrow> bool" where
  "UnadvanceableJobState state \<longleftrightarrow> state = ''blocked''"

definition UnadvanceableRemediation :: "gomap \<Rightarrow> remediation" where
  "UnadvanceableRemediation job =
     (let state = StringValue (mget job ''state'')
      in if state = ''blocked''
         then (if mget job ''started_at'' \<noteq> VNil \<and> mget job ''started_at'' \<noteq> VStr []
               then RemSealFailed else RemWaitingUpstream)
         else RemOther state)"

definition MaxActiveJobs :: "gomap \<Rightarrow> int" where
  "MaxActiveJobs workflow =
     (let m = IntValue (mget (AsMap (mget workflow ''parallelism'')) ''max_active_jobs'')
      in if m < 0 then 0 else m)"

definition JobSlot :: "gomap \<Rightarrow> slot_key" where
  "JobSlot job = \<lparr>WorkflowJobID = StringValue (mget job ''workflow_job_id''),
                  Attempt = IntValue (mget job ''attempt'')\<rparr>"

definition ResolveLane :: "gomap \<Rightarrow> gomap \<Rightarrow> string option" where
  "ResolveLane job workflow =
     (let lane = StringValue (mget job ''lane_id'')
      in if lane \<noteq> [] then Some lane
         else let lane = StringValue (mget (AsMap (mget job ''lane_selector_json'')) ''lane_id'')
         in if lane \<noteq> [] then Some lane
         else let workflowJobID = StringValue (mget job ''workflow_job_id'')
         in map_option (\<lambda>item. StringValue (mget (AsMap item) ''lane_id''))
              (find (\<lambda>item. StringValue (mget (AsMap item) ''id'') = workflowJobID \<and>
                            StringValue (mget (AsMap item) ''lane_id'') \<noteq> [])
                 (AsList (mget workflow ''jobs''))))"

text \<open>The active sessions of one role and lane, in row order.\<close>

definition session_slot :: "gomap \<Rightarrow> role_lane" where
  "session_slot session = \<lparr>Role = StringValue (mget session ''role_id''),
                           Lane = StringValue (mget session ''lane_id'')\<rparr>"

definition ActiveSessionsBySlot :: "gomap list \<Rightarrow> role_lane \<Rightarrow> string list" where
  "ActiveSessionsBySlot sessions slot =
     (if Role slot = [] \<or> Lane slot = [] then []
      else map (\<lambda>s. StringValue (mget s ''session_id''))
             (filter (\<lambda>s. StringValue (mget s ''state'') = ''active'' \<and> session_slot s = slot) sessions))"

definition ActiveSessionIDs :: "gomap list \<Rightarrow> string list" where
  "ActiveSessionIDs sessions =
     filter (\<lambda>sid. sid \<noteq> [])
       (map (\<lambda>s. StringValue (mget s ''session_id''))
          (filter (\<lambda>s. StringValue (mget s ''state'') = ''active'') sessions))"

definition NextUnusedSession :: "string list \<Rightarrow> string list \<Rightarrow> string" where
  "NextUnusedSession sessions used =
     (case find (\<lambda>sid. sid \<noteq> [] \<and> sid \<notin> set used) sessions of Some sid \<Rightarrow> sid | None \<Rightarrow> [])"

definition job_order :: "gomap \<Rightarrow> string \<times> int" where
  "job_order job = (StringValue (mget job ''workflow_job_id''), IntValue (mget job ''attempt''))"

definition SortedJobs :: "gomap list \<Rightarrow> gomap list" where
  "SortedJobs jobs = sort_key job_order jobs"

section \<open>PlanLaunch\<close>

text \<open>The three sets the loop grows.\<close>

record launch_state =
  ls_used :: "string list"            \<comment> \<open>sessions already claimed by a slot\<close>
  ls_inFlight :: "slot_key list"      \<comment> \<open>slots that hold a lane\<close>
  ls_occupied :: "string list"        \<comment> \<open>lanes that hold a job\<close>

type_synonym launched_map = "(slot_key \<times> string) list"

definition launched_session :: "launched_map \<Rightarrow> slot_key \<Rightarrow> string" where
  "launched_session launched slot = (case map_of launched slot of Some s \<Rightarrow> s | None \<Rightarrow> [])"

definition occupy :: "string option \<Rightarrow> string list \<Rightarrow> string list" where
  "occupy lane lanes = (case lane of Some l \<Rightarrow> List.insert l lanes | None \<Rightarrow> lanes)"

fun seed_row :: "gomap \<Rightarrow> gomap \<Rightarrow> launch_state \<Rightarrow> launch_state" where
  "seed_row workflow job st =
     (if inFlightJobState (StringValue (mget job ''state''))
      then st\<lparr>ls_inFlight := List.insert (JobSlot job) (ls_inFlight st),
              ls_occupied := occupy (ResolveLane job workflow) (ls_occupied st)\<rparr>
      else st)"

text \<open>\<open>jobBySlot\<close>: the last row with the slot wins.\<close>

definition job_by_slot :: "gomap list \<Rightarrow> slot_key \<Rightarrow> gomap option" where
  "job_by_slot jobs slot = find (\<lambda>job. JobSlot job = slot) (rev jobs)"

fun seed_launched :: "gomap \<Rightarrow> gomap list \<Rightarrow> slot_key \<times> string \<Rightarrow> launch_state \<Rightarrow> launch_state" where
  "seed_launched workflow jobs (slot, sid) st =
     (if slot \<in> set (ls_inFlight st) then st
      else st\<lparr>ls_inFlight := List.insert slot (ls_inFlight st),
              ls_occupied :=
                (case job_by_slot jobs slot of
                   Some job \<Rightarrow> occupy (ResolveLane job workflow) (ls_occupied st)
                 | None \<Rightarrow> ls_occupied st)\<rparr>)"

definition launch_seed :: "gomap list \<Rightarrow> gomap \<Rightarrow> launched_map \<Rightarrow> launch_state" where
  "launch_seed jobs workflow launched =
     fold (seed_launched workflow jobs) launched
       (fold (seed_row workflow) jobs
          \<lparr>ls_used = map snd launched, ls_inFlight = [], ls_occupied = []\<rparr>)"

definition blank_decision :: "gomap \<Rightarrow> launch_kind \<Rightarrow> launch_decision" where
  "blank_decision job kind =
     \<lparr>d_Job = job, d_Slot = JobSlot job, d_Role = StringValue (mget job ''role_id''), d_Lane = [],
      d_Kind = kind, d_SessionID = [], d_State = [], d_Remediation = RemNone\<rparr>"

definition unadvanceable_decision :: "gomap \<Rightarrow> launch_decision" where
  "unadvanceable_decision job = (blank_decision job LaunchUnadvanceable)
     \<lparr>d_State := StringValue (mget job ''state''), d_Remediation := UnadvanceableRemediation job\<rparr>"

text \<open>The session a queued job on this lane would adopt, or the empty string.\<close>

definition adoptable :: "gomap list \<Rightarrow> gomap \<Rightarrow> string \<Rightarrow> string list \<Rightarrow> string" where
  "adoptable sessions job lane used =
     NextUnusedSession
       (ActiveSessionsBySlot sessions \<lparr>Role = StringValue (mget job ''role_id''), Lane = lane\<rparr>) used"

fun launch_loop ::
  "gomap \<Rightarrow> gomap list \<Rightarrow> launched_map \<Rightarrow> gomap list \<Rightarrow> launch_state \<Rightarrow> launch_decision list" where
  "launch_loop workflow sessions launched [] st = []"
| "launch_loop workflow sessions launched (job # jobs) st =
     (let state = StringValue (mget job ''state''); slot = JobSlot job in
      if state \<noteq> ''queued'' then
        (if UnadvanceableJobState state
         then unadvanceable_decision job # launch_loop workflow sessions launched jobs st
         else launch_loop workflow sessions launched jobs st)
      else if launched_session launched slot \<noteq> [] then
        launch_loop workflow sessions launched jobs st
      else if MaxActiveJobs workflow > 0 \<and>
              int (length (ls_inFlight st)) \<ge> MaxActiveJobs workflow then []
      else (case ResolveLane job workflow of
        None \<Rightarrow> blank_decision job LaunchAmbiguousLane
                  # launch_loop workflow sessions launched jobs st
      | Some lane \<Rightarrow>
          (if lane \<in> set (ls_occupied st) then launch_loop workflow sessions launched jobs st
           else
             let sid = adoptable sessions job lane (ls_used st);
                 st' = st\<lparr>ls_inFlight := List.insert slot (ls_inFlight st),
                          ls_occupied := List.insert lane (ls_occupied st)\<rparr>
             in if sid \<noteq> [] then
                  (blank_decision job LaunchAdoptExisting)\<lparr>d_Lane := lane, d_SessionID := sid\<rparr>
                    # launch_loop workflow sessions launched jobs
                        (st'\<lparr>ls_used := List.insert sid (ls_used st)\<rparr>)
                else
                  (blank_decision job LaunchRegisterFresh)\<lparr>d_Lane := lane\<rparr>
                    # launch_loop workflow sessions launched jobs st')))"

declare launch_loop.simps(2) [simp del]

definition PlanLaunch ::
  "gomap list \<Rightarrow> gomap \<Rightarrow> gomap list \<Rightarrow> launched_map \<Rightarrow> launch_decision list" where
  "PlanLaunch jobs workflow sessions launched =
     launch_loop workflow sessions launched (SortedJobs jobs) (launch_seed jobs workflow launched)"


section \<open>The session picker and its interface\<close>

text \<open>What the loop relies on when it takes an idle session.\<close>

locale session_picker =
  fixes pick :: "string list \<Rightarrow> string list \<Rightarrow> string"
  assumes pick_idle: "pick cands used \<noteq> [] \<Longrightarrow> pick cands used \<in> set cands \<and> pick cands used \<notin> set used"
    and pick_none: "pick cands used = [] \<Longrightarrow> c \<in> set cands \<Longrightarrow> c = [] \<or> c \<in> set used"
begin

lemma never_repicked:
  "pick cands (List.insert s used) \<noteq> [] \<Longrightarrow> pick cands (List.insert s used) \<noteq> s"
  using pick_idle [of cands "List.insert s used"] by auto

lemma pick_exhausts:
  "\<exists>c \<in> set cands. c \<noteq> [] \<and> c \<notin> set used \<Longrightarrow> pick cands used \<noteq> []"
  using pick_none by blast

end

lemma NextUnusedSession_Nil:
  "NextUnusedSession cands used = [] \<longleftrightarrow> (\<forall>c \<in> set cands. c = [] \<or> c \<in> set used)"
proof (cases "find (\<lambda>sid. sid \<noteq> [] \<and> sid \<notin> set used) cands")
  case None
  then have "NextUnusedSession cands used = []" by (simp add: NextUnusedSession_def)
  moreover from None have "\<forall>c \<in> set cands. c = [] \<or> c \<in> set used" by (auto simp: find_None_iff)
  ultimately show ?thesis by simp
next
  case (Some sid)
  then have "sid \<in> set cands" "sid \<noteq> []" "sid \<notin> set used"
    by (auto simp: find_Some_iff)
  with Some show ?thesis by (auto simp: NextUnusedSession_def)
qed

lemma NextUnusedSession_found:
  assumes "NextUnusedSession cands used \<noteq> []"
  shows "NextUnusedSession cands used \<in> set cands \<and> NextUnusedSession cands used \<notin> set used"
proof (cases "find (\<lambda>sid. sid \<noteq> [] \<and> sid \<notin> set used) cands")
  case None
  with assms show ?thesis by (simp add: NextUnusedSession_def)
next
  case (Some sid)
  then have "sid \<in> set cands \<and> sid \<notin> set used" by (auto simp: find_Some_iff)
  with Some show ?thesis by (simp add: NextUnusedSession_def)
qed

interpretation idle_pick: session_picker NextUnusedSession
proof
  fix cands used :: "string list" and c
  show "NextUnusedSession cands used \<noteq> [] \<Longrightarrow>
      NextUnusedSession cands used \<in> set cands \<and> NextUnusedSession cands used \<notin> set used"
    by (rule NextUnusedSession_found)
  show "NextUnusedSession cands used = [] \<Longrightarrow> c \<in> set cands \<Longrightarrow> c = [] \<or> c \<in> set used"
    by (simp add: NextUnusedSession_Nil)
qed

section \<open>The loop\<close>

definition is_launch :: "launch_decision \<Rightarrow> bool" where
  "is_launch d \<longleftrightarrow> d_Kind d = LaunchAdoptExisting \<or> d_Kind d = LaunchRegisterFresh"

definition launches :: "launch_decision list \<Rightarrow> launch_decision list" where
  "launches ds = filter is_launch ds"

definition adoptions :: "launch_decision list \<Rightarrow> launch_decision list" where
  "adoptions ds = filter (\<lambda>d. d_Kind d = LaunchAdoptExisting) ds"

text \<open>What one job does, by the branch it takes.\<close>

definition over_cap :: "gomap \<Rightarrow> launch_state \<Rightarrow> bool" where
  "over_cap workflow st \<longleftrightarrow>
     MaxActiveJobs workflow > 0 \<and> int (length (ls_inFlight st)) \<ge> MaxActiveJobs workflow"

definition candidate :: "launched_map \<Rightarrow> gomap \<Rightarrow> bool" where
  "candidate launched job \<longleftrightarrow>
     StringValue (mget job ''state'') = ''queued'' \<and> launched_session launched (JobSlot job) = []"

definition launch_decision_of :: "gomap list \<Rightarrow> gomap \<Rightarrow> string \<Rightarrow> launch_state \<Rightarrow> launch_decision" where
  "launch_decision_of sessions job lane st =
     (let sid = adoptable sessions job lane (ls_used st)
      in if sid \<noteq> [] then (blank_decision job LaunchAdoptExisting)\<lparr>d_Lane := lane, d_SessionID := sid\<rparr>
         else (blank_decision job LaunchRegisterFresh)\<lparr>d_Lane := lane\<rparr>)"

definition launch_update :: "gomap list \<Rightarrow> gomap \<Rightarrow> string \<Rightarrow> launch_state \<Rightarrow> launch_state" where
  "launch_update sessions job lane st =
     (let sid = adoptable sessions job lane (ls_used st);
          st' = st\<lparr>ls_inFlight := List.insert (JobSlot job) (ls_inFlight st),
                   ls_occupied := List.insert lane (ls_occupied st)\<rparr>
      in if sid \<noteq> [] then st'\<lparr>ls_used := List.insert sid (ls_used st)\<rparr> else st')"

lemma launch_loop_Cons:
  "launch_loop workflow sessions launched (job # jobs) st =
     (if StringValue (mget job ''state'') \<noteq> ''queued'' then
        (if UnadvanceableJobState (StringValue (mget job ''state''))
         then unadvanceable_decision job # launch_loop workflow sessions launched jobs st
         else launch_loop workflow sessions launched jobs st)
      else if \<not> candidate launched job then launch_loop workflow sessions launched jobs st
      else if over_cap workflow st then []
      else (case ResolveLane job workflow of
        None \<Rightarrow> blank_decision job LaunchAmbiguousLane
                  # launch_loop workflow sessions launched jobs st
      | Some lane \<Rightarrow>
          (if lane \<in> set (ls_occupied st) then launch_loop workflow sessions launched jobs st
           else launch_decision_of sessions job lane st
                  # launch_loop workflow sessions launched jobs (launch_update sessions job lane st))))"
  by (simp add: launch_loop.simps Let_def candidate_def over_cap_def launch_decision_of_def
        launch_update_def split: option.splits)

lemma launch_loop_cases:
  obtains
    (skip) "\<not> candidate launched job \<or>
        (\<exists>lane. ResolveLane job workflow = Some lane \<and> lane \<in> set (ls_occupied st))"
      "launch_loop workflow sessions launched (job # jobs) st =
        launch_loop workflow sessions launched jobs st"
  | (signal) d where "d = unadvanceable_decision job \<or> d = blank_decision job LaunchAmbiguousLane"
      "candidate launched job \<Longrightarrow> ResolveLane job workflow = None"
      "launch_loop workflow sessions launched (job # jobs) st =
        d # launch_loop workflow sessions launched jobs st"
  | (stop) "candidate launched job" "over_cap workflow st"
      "launch_loop workflow sessions launched (job # jobs) st = []"
  | (launch) lane where "candidate launched job" "\<not> over_cap workflow st"
      "ResolveLane job workflow = Some lane" "lane \<notin> set (ls_occupied st)"
      "launch_loop workflow sessions launched (job # jobs) st =
        launch_decision_of sessions job lane st
          # launch_loop workflow sessions launched jobs (launch_update sessions job lane st)"
proof (cases "candidate launched job")
  case False
  then show thesis
    by (cases "UnadvanceableJobState (StringValue (mget job ''state''))";
        cases "StringValue (mget job ''state'') = ''queued''")
       (auto simp: launch_loop_Cons intro: skip signal)
next
  case True
  then have q: "StringValue (mget job ''state'') = ''queued''" by (simp add: candidate_def)
  show thesis
  proof (cases "over_cap workflow st")
    case True
    with q \<open>candidate launched job\<close> show thesis by (intro stop) (simp_all add: launch_loop_Cons)
  next
    case False
    with q True skip signal launch show thesis
      by (cases "ResolveLane job workflow") (auto simp: launch_loop_Cons)
  qed
qed

lemma decision_simps [simp]:
  "is_launch (unadvanceable_decision job) = False"
  "is_launch (blank_decision job LaunchAmbiguousLane) = False"
  "is_launch (launch_decision_of sessions job lane st)"
  "d_Kind (unadvanceable_decision job) = LaunchUnadvanceable"
  "d_Kind (blank_decision job k) = k"
  "d_Lane (launch_decision_of sessions job lane st) = lane"
  "d_Slot (launch_decision_of sessions job lane st) = JobSlot job"
  "d_Role (launch_decision_of sessions job lane st) = StringValue (mget job ''role_id'')"
  by (simp_all add: is_launch_def unadvanceable_decision_def blank_decision_def
        launch_decision_of_def Let_def)

lemma update_simps [simp]:
  "ls_inFlight (launch_update sessions job lane st) = List.insert (JobSlot job) (ls_inFlight st)"
  "ls_occupied (launch_update sessions job lane st) = List.insert lane (ls_occupied st)"
  by (simp_all add: launch_update_def Let_def)

lemma launches_simps [simp]:
  "launches [] = []" "launches (d # ds) = (if is_launch d then d # launches ds else launches ds)"
  by (simp_all add: launches_def)

lemma adoptions_simps [simp]:
  "adoptions [] = []"
  "adoptions (d # ds) = (if d_Kind d = LaunchAdoptExisting then d # adoptions ds else adoptions ds)"
  by (simp_all add: adoptions_def)

lemma launch_loop_cap:
  assumes "MaxActiveJobs workflow > 0" and "distinct (ls_inFlight st)"
  shows "int (card (set (ls_inFlight st) \<union>
           d_Slot ` set (launches (launch_loop workflow sessions launched jobs st))))
         \<le> max (MaxActiveJobs workflow) (int (card (set (ls_inFlight st))))"
  using assms(2)
proof (induction jobs arbitrary: st)
  case Nil
  then show ?case by simp
next
  case (Cons job jobs)
  show ?case
  proof (cases rule: launch_loop_cases [of launched job workflow st sessions jobs])
    case skip
    with Cons show ?thesis by simp
  next
    case (signal d)
    with Cons show ?thesis by auto
  next
    case stop
    then show ?thesis by simp
  next
    case (launch lane)
    let ?st = "launch_update sessions job lane st"
    have "int (card (set (ls_inFlight ?st))) \<le> MaxActiveJobs workflow"
      using launch(2) Cons.prems assms(1)
      by (simp add: over_cap_def distinct_card card_insert_if)
    with Cons.IH [of ?st] Cons.prems launch show ?thesis by simp
  qed
qed

lemma launch_loop_lanes:
  "distinct (map d_Lane (launches (launch_loop workflow sessions launched jobs st))) \<and>
   set (map d_Lane (launches (launch_loop workflow sessions launched jobs st))) \<inter> set (ls_occupied st) = {}"
proof (induction jobs arbitrary: st)
  case Nil
  then show ?case by simp
next
  case (Cons job jobs)
  show ?case
  proof (cases rule: launch_loop_cases [of launched job workflow st sessions jobs])
    case (launch lane)
    with Cons.IH [of "launch_update sessions job lane st"] show ?thesis by auto
  qed (use Cons.IH [of st] in auto)
qed

lemma adoptable_active:
  assumes "adoptable sessions job lane used \<noteq> []"
  shows "adoptable sessions job lane used \<notin> set used"
    and "\<exists>s \<in> set sessions. StringValue (mget s ''session_id'') = adoptable sessions job lane used \<and>
      StringValue (mget s ''state'') = ''active'' \<and>
      session_slot s = \<lparr>Role = StringValue (mget job ''role_id''), Lane = lane\<rparr>"
  using idle_pick.pick_idle [OF assms [unfolded adoptable_def]]
  by (auto simp: adoptable_def ActiveSessionsBySlot_def split: if_splits)

definition serves :: "gomap list \<Rightarrow> launch_decision \<Rightarrow> bool" where
  "serves sessions d \<longleftrightarrow>
     list_ex (\<lambda>s. StringValue (mget s ''session_id'') = d_SessionID d \<and>
       StringValue (mget s ''state'') = ''active'' \<and>
       StringValue (mget s ''role_id'') = d_Role d \<and> StringValue (mget s ''lane_id'') = d_Lane d)
     sessions"

lemma launch_loop_sessions:
  "distinct (map d_SessionID (adoptions (launch_loop workflow sessions launched jobs st))) \<and>
   (\<forall>d \<in> set (adoptions (launch_loop workflow sessions launched jobs st)).
      d_SessionID d \<noteq> [] \<and> d_SessionID d \<notin> set (ls_used st) \<and> serves sessions d)"
proof (induction jobs arbitrary: st)
  case Nil
  then show ?case by simp
next
  case (Cons job jobs)
  show ?case
  proof (cases rule: launch_loop_cases [of launched job workflow st sessions jobs])
    case (signal d)
    with Cons.IH [of st] show ?thesis by auto
  next
    case (launch lane)
    let ?st = "launch_update sessions job lane st" and ?d = "launch_decision_of sessions job lane st"
    let ?sid = "adoptable sessions job lane (ls_used st)"
    note IH = Cons.IH [of ?st]
    show ?thesis
    proof (cases "?sid = []")
      case True
      then have "d_Kind ?d = LaunchRegisterFresh" and "ls_used ?st = ls_used st"
        by (simp_all add: launch_decision_of_def launch_update_def)
      with IH launch show ?thesis by simp
    next
      case False
      then have d: "d_Kind ?d = LaunchAdoptExisting" "d_SessionID ?d = ?sid"
        and u: "ls_used ?st = List.insert ?sid (ls_used st)"
        by (simp_all add: launch_decision_of_def launch_update_def blank_decision_def Let_def)
      from adoptable_active [OF False]
      have "?sid \<notin> set (ls_used st)" and "serves sessions ?d"
        by (auto simp: serves_def d list_ex_iff session_slot_def)
      with IH launch d u False show ?thesis by auto
    qed
  qed (use Cons.IH [of st] in auto)
qed

text \<open>The loop reads its three sets as sets.\<close>

definition same_state :: "launch_state \<Rightarrow> launch_state \<Rightarrow> bool" where
  "same_state a b \<longleftrightarrow> set (ls_used a) = set (ls_used b) \<and>
     set (ls_inFlight a) = set (ls_inFlight b) \<and> distinct (ls_inFlight a) \<and> distinct (ls_inFlight b) \<and>
     set (ls_occupied a) = set (ls_occupied b)"

lemma same_state_length: "same_state a b \<Longrightarrow> length (ls_inFlight a) = length (ls_inFlight b)"
  using distinct_card [of "ls_inFlight a"] distinct_card [of "ls_inFlight b"]
  by (simp add: same_state_def)

lemma adoptable_cong:
  "set used = set used' \<Longrightarrow> adoptable sessions job lane used = adoptable sessions job lane used'"
  by (simp add: adoptable_def NextUnusedSession_def)

lemma same_state_update:
  assumes "same_state a b"
  shows "same_state (launch_update sessions job lane a) (launch_update sessions job lane b)"
    and "launch_decision_of sessions job lane a = launch_decision_of sessions job lane b"
proof -
  have ad: "adoptable sessions job lane (ls_used a) = adoptable sessions job lane (ls_used b)"
    using assms by (intro adoptable_cong) (simp add: same_state_def)
  show "launch_decision_of sessions job lane a = launch_decision_of sessions job lane b"
    by (simp add: launch_decision_of_def ad)
  show "same_state (launch_update sessions job lane a) (launch_update sessions job lane b)"
    using assms by (cases "adoptable sessions job lane (ls_used b) = []")
      (simp_all add: same_state_def launch_update_def ad)
qed

lemma launch_loop_cong:
  "same_state a b \<Longrightarrow>
   launch_loop workflow sessions launched jobs a = launch_loop workflow sessions launched jobs b"
proof (induction jobs arbitrary: a b)
  case Nil
  then show ?case by simp
next
  case (Cons job jobs)
  have cap: "over_cap workflow a = over_cap workflow b"
    using same_state_length [OF Cons.prems] by (simp add: over_cap_def)
  have occ: "set (ls_occupied a) = set (ls_occupied b)" using Cons.prems by (simp add: same_state_def)
  have upd: "launch_loop workflow sessions launched jobs (launch_update sessions job lane a) =
      launch_loop workflow sessions launched jobs (launch_update sessions job lane b)" for lane
    by (rule Cons.IH, rule same_state_update, rule Cons.prems)
  have dec: "launch_decision_of sessions job lane a = launch_decision_of sessions job lane b" for lane
    by (rule same_state_update(2), rule Cons.prems)
  show ?case
    unfolding launch_loop_Cons [of workflow sessions launched job jobs a]
      launch_loop_Cons [of workflow sessions launched job jobs b] cap occ upd dec Cons.IH [OF Cons.prems]
    by (rule refl)
qed

section \<open>The seed of the accounting\<close>

text \<open>The slots that hold a lane when the pass starts, and the lanes they hold.\<close>

definition held_slots :: "gomap list \<Rightarrow> launched_map \<Rightarrow> slot_key set" where
  "held_slots jobs launched =
     JobSlot ` set (filter (\<lambda>job. inFlightJobState (StringValue (mget job ''state''))) jobs)
       \<union> fst ` set launched"

definition row_lanes :: "gomap \<Rightarrow> gomap list \<Rightarrow> string set" where
  "row_lanes workflow jobs = set (List.map_filter (\<lambda>job. ResolveLane job workflow) jobs)"

definition row_seed :: "gomap list \<Rightarrow> gomap \<Rightarrow> launched_map \<Rightarrow> launch_state" where
  "row_seed jobs workflow launched =
     fold (seed_row workflow) jobs \<lparr>ls_used = map snd launched, ls_inFlight = [], ls_occupied = []\<rparr>"

lemma set_occupy [simp]: "set (occupy l lanes) = set lanes \<union> set_option l"
  by (cases l) (auto simp: occupy_def)

lemma fold_seed_row:
  "set (ls_inFlight (fold (seed_row workflow) jobs st)) =
     set (ls_inFlight st) \<union>
       JobSlot ` set (filter (\<lambda>job. inFlightJobState (StringValue (mget job ''state''))) jobs)"
  "set (ls_occupied (fold (seed_row workflow) jobs st)) =
     set (ls_occupied st) \<union> row_lanes workflow
       (filter (\<lambda>job. inFlightJobState (StringValue (mget job ''state''))) jobs)"
  "ls_used (fold (seed_row workflow) jobs st) = ls_used st"
  "distinct (ls_inFlight st) \<Longrightarrow> distinct (ls_inFlight (fold (seed_row workflow) jobs st))"
  by (induction jobs arbitrary: st)
     (auto simp: row_lanes_def map_filter_simps split: option.splits)

lemma seed_launched_step:
  "set (ls_inFlight (seed_launched workflow jobs l st)) = insert (fst l) (set (ls_inFlight st))"
  "ls_used (seed_launched workflow jobs l st) = ls_used st"
  "distinct (ls_inFlight st) \<Longrightarrow> distinct (ls_inFlight (seed_launched workflow jobs l st))"
  "set (ls_occupied (seed_launched workflow jobs l st)) = set (ls_occupied st) \<union>
     row_lanes workflow (List.map_filter (job_by_slot jobs)
       (filter (\<lambda>slot. slot \<notin> set (ls_inFlight st)) [fst l]))"
  by (cases l; auto simp: row_lanes_def map_filter_simps split: option.splits)+

declare seed_launched.simps [simp del]

lemma row_lanes_append: "row_lanes workflow (xs @ ys) = row_lanes workflow xs \<union> row_lanes workflow ys"
  by (auto simp: row_lanes_def)

lemma in_row_lanes:
  "x \<in> row_lanes workflow (List.map_filter f xs) \<longleftrightarrow>
     (\<exists>s \<in> set xs. \<exists>job. f s = Some job \<and> ResolveLane job workflow = Some x)"
  unfolding row_lanes_def in_map_filter Bex_def by blast

lemma fold_seed_launched:
  "set (ls_inFlight (fold (seed_launched workflow jobs) launched st)) =
     set (ls_inFlight st) \<union> fst ` set launched"
  "ls_used (fold (seed_launched workflow jobs) launched st) = ls_used st"
  "distinct (ls_inFlight st) \<Longrightarrow>
     distinct (ls_inFlight (fold (seed_launched workflow jobs) launched st))"
  by (induction launched arbitrary: st) (simp_all add: seed_launched_step)

text \<open>The lanes of the launched slots that no in-flight row of the seed covers.\<close>

lemma fold_seed_lanes:
  "set (ls_occupied (fold (seed_launched workflow jobs) launched st)) =
     set (ls_occupied st) \<union>
       row_lanes workflow (List.map_filter (job_by_slot jobs)
         (filter (\<lambda>slot. slot \<notin> set (ls_inFlight st)) (map fst launched)))"
proof (induction launched arbitrary: st)
  case Nil
  show ?case by (simp add: row_lanes_def map_filter_simps)
next
  case (Cons l launched)
  show ?case
    unfolding fold_simps Cons.IH [of "seed_launched workflow jobs l st"] seed_launched_step
    by (rule set_eqI) (simp only: Un_iff in_row_lanes, force)
qed

lemma seed_facts:
  "set (ls_inFlight (launch_seed jobs workflow launched)) = held_slots jobs launched"
  "distinct (ls_inFlight (launch_seed jobs workflow launched))"
  "ls_used (launch_seed jobs workflow launched) = map snd launched"
  by (simp_all add: launch_seed_def held_slots_def fold_seed_launched fold_seed_row)

definition held_lanes :: "gomap list \<Rightarrow> gomap \<Rightarrow> launched_map \<Rightarrow> string set" where
  "held_lanes jobs workflow launched =
     (let rows = filter (\<lambda>job. inFlightJobState (StringValue (mget job ''state''))) jobs
      in row_lanes workflow rows \<union>
         row_lanes workflow (List.map_filter (job_by_slot jobs)
           (filter (\<lambda>slot. slot \<notin> JobSlot ` set rows) (map fst launched))))"

lemma seed_lanes:
  "set (ls_occupied (launch_seed jobs workflow launched)) = held_lanes jobs workflow launched"
  by (simp add: launch_seed_def held_lanes_def fold_seed_lanes fold_seed_row Let_def)

lemmas seed_simps = seed_facts seed_lanes

lemma launch_loop_serves_all:
  assumes "job \<in> set jobs" and "candidate launched job" and "ResolveLane job workflow = Some lane"
  shows "lane \<in> set (ls_occupied st) \<union>
           d_Lane ` set (launches (launch_loop workflow sessions launched jobs st)) \<or>
         MaxActiveJobs workflow > 0 \<and>
         MaxActiveJobs workflow \<le> int (length (ls_inFlight st)) +
           int (length (launches (launch_loop workflow sessions launched jobs st)))"
  using assms
proof (induction jobs arbitrary: st)
  case Nil
  then show ?case by simp
next
  case (Cons j jobs)
  show ?case
  proof (cases rule: launch_loop_cases [of launched j workflow st sessions jobs])
    case skip
    then show ?thesis using Cons by auto
  next
    case (signal d)
    then show ?thesis using Cons by auto
  next
    case stop
    then show ?thesis by (simp add: over_cap_def)
  next
    case (launch l)
    let ?st = "launch_update sessions j l st"
    have len: "length (ls_inFlight ?st) \<le> Suc (length (ls_inFlight st))"
      by (simp add: List.insert_def)
    show ?thesis
    proof (cases "job = j")
      case True
      with launch Cons.prems show ?thesis by simp
    next
      case False
      with Cons.IH [of ?st] Cons.prems launch len show ?thesis by auto
    qed
  qed
qed

section \<open>Reordered inputs\<close>

text \<open>Rows whose slots are pairwise distinct are found by their slot in any order.\<close>

lemma job_order_slot: "job_order a = job_order b \<longleftrightarrow> JobSlot a = JobSlot b"
  by (simp add: job_order_def JobSlot_def)

lemma findSomeD: "find P xs = Some x \<Longrightarrow> x \<in> set xs \<and> P x"
  by (induction xs) (auto split: if_splits)

lemma job_by_slot_iff:
  assumes "inj_on JobSlot (set jobs)"
  shows "job_by_slot jobs slot = Some job \<longleftrightarrow> job \<in> set jobs \<and> JobSlot job = slot"
proof (cases "find (\<lambda>job. JobSlot job = slot) (rev jobs)")
  case None
  from this have "job_by_slot jobs slot = None" by (simp add: job_by_slot_def)
  with None show ?thesis by (auto simp: find_None_iff)
next
  case (Some j)
  from findSomeD [OF this] have "j \<in> set jobs" "JobSlot j = slot" by simp_all
  with assms Some show ?thesis by (auto simp: job_by_slot_def dest: inj_onD)
qed

lemma job_by_slot_perm:
  assumes "inj_on JobSlot (set jobs)" and "mset jobs = mset jobs'"
  shows "job_by_slot jobs = job_by_slot jobs'"
proof
  fix slot
  from assms(2) have s: "set jobs = set jobs'" by (rule mset_eq_setD)
  show "job_by_slot jobs slot = job_by_slot jobs' slot"
    by (rule option.expand) (use job_by_slot_iff assms(1) s in \<open>metis not_Some_eq option.collapse\<close>)+
qed

lemma row_lanes_set: "set jobs = set jobs' \<Longrightarrow> row_lanes workflow jobs = row_lanes workflow jobs'"
  by (rule set_eqI) (simp only: row_lanes_def in_map_filter)

lemma launch_seed_perm:
  assumes "inj_on JobSlot (set jobs)" and "mset jobs = mset jobs'" and "set launched = set launched'"
  shows "same_state (launch_seed jobs workflow launched) (launch_seed jobs' workflow launched')"
proof -
  from assms(2) have s: "set jobs = set jobs'" by (rule mset_eq_setD)
  have "held_lanes jobs workflow launched = held_lanes jobs' workflow launched'"
    unfolding held_lanes_def Let_def job_by_slot_perm [OF assms(1,2)]
    by (intro arg_cong2 [where f = union] row_lanes_set set_eqI)
       (simp_all only: in_map_filter set_filter set_map s assms(3))
  with s assms(3) show ?thesis
    by (simp add: same_state_def seed_simps held_slots_def)
qed

lemma SortedJobs_perm:
  assumes "inj_on JobSlot (set jobs)" and "mset jobs = mset jobs'"
  shows "SortedJobs jobs = SortedJobs jobs'"
  unfolding SortedJobs_def
  by (rule sort_key_inj_key_eq) (use assms in \<open>auto simp: inj_on_def job_order_slot\<close>)

lemma launched_perm:
  assumes "set launched = set launched'" and "distinct (map fst launched)" "distinct (map fst launched')"
  shows "launched_session launched = launched_session launched'"
  using map_of_inject_set [OF assms(2,3)] assms(1) by (simp add: launched_session_def fun_eq_iff)

lemma launch_loop_launched_cong:
  "launched_session launched = launched_session launched' \<Longrightarrow>
   launch_loop workflow sessions launched jobs st = launch_loop workflow sessions launched' jobs st"
proof (induction jobs arbitrary: st)
  case Nil
  then show ?case by simp
next
  case (Cons job jobs)
  then have "candidate launched job = candidate launched' job" by (simp add: candidate_def)
  with Cons.IH [OF Cons.prems] show ?case by (simp only: launch_loop_Cons)
qed

lemma PlanLaunch_unfold:
  "set (SortedJobs jobs) = set jobs" 
  "PlanLaunch jobs workflow sessions launched =
     launch_loop workflow sessions launched (SortedJobs jobs) (launch_seed jobs workflow launched)"
  by (simp_all add: SortedJobs_def PlanLaunch_def)

lemma launch_loop_signals:
  assumes "job \<in> set jobs" and "MaxActiveJobs workflow = 0"
  shows "StringValue (mget job ''state'') = ''blocked'' \<Longrightarrow>
           unadvanceable_decision job \<in> set (launch_loop workflow sessions launched jobs st)"
    and "candidate launched job \<Longrightarrow> ResolveLane job workflow = None \<Longrightarrow>
           blank_decision job LaunchAmbiguousLane \<in> set (launch_loop workflow sessions launched jobs st)"
  using assms
  by (induction jobs arbitrary: st)
     (auto simp: launch_loop_Cons over_cap_def UnadvanceableJobState_def candidate_def
        split: option.splits)

section \<open>Properties\<close>

text \<open>The global cap. With \<open>parallelism.max_active_jobs\<close> set, the slots that held a lane
  before the pass together with the slots the pass launches number at most the cap, or at
  most what was already in flight when that exceeded the cap.\<close>

theorem PlanLaunch_global_cap:
  assumes "MaxActiveJobs workflow > 0"
  shows "int (card (held_slots jobs launched \<union>
           d_Slot ` set (launches (PlanLaunch jobs workflow sessions launched))))
         \<le> max (MaxActiveJobs workflow) (int (card (held_slots jobs launched)))"
  using launch_loop_cap [OF assms seed_facts(2)] by (simp add: PlanLaunch_unfold(2) seed_facts(1))

text \<open>C3: one job per lane. The lanes of the launch decisions of a pass are pairwise distinct,
  and none of them holds an in-flight row or an already launched slot.\<close>

theorem PlanLaunch_lane_exclusive:
  "distinct (map d_Lane (launches (PlanLaunch jobs workflow sessions launched))) \<and>
   d_Lane ` set (launches (PlanLaunch jobs workflow sessions launched))
     \<inter> held_lanes jobs workflow launched = {}"
  using launch_loop_lanes [of workflow sessions launched "SortedJobs jobs" "launch_seed jobs workflow launched"]
  by (simp add: PlanLaunch_unfold(2) seed_lanes)

text \<open>Adopted sessions. No session is adopted twice in a pass, none that a launched slot
  holds is adopted, and every adopted session is an active row for the role and lane of its job.\<close>

theorem PlanLaunch_adoptions_sound:
  "distinct (map d_SessionID (adoptions (PlanLaunch jobs workflow sessions launched))) \<and>
   (\<forall>d \<in> set (adoptions (PlanLaunch jobs workflow sessions launched)).
      d_SessionID d \<noteq> [] \<and> d_SessionID d \<notin> snd ` set launched \<and> serves sessions d)"
  using launch_loop_sessions [of workflow sessions launched "SortedJobs jobs" "launch_seed jobs workflow launched"]
  by (simp add: PlanLaunch_unfold(2) seed_facts(3))

text \<open>The pass is work conserving. A queued job that is not yet launched and whose lane
  resolves is left behind only because its lane is taken (by a held slot or by a launch of
  this pass) or because the global cap is used up.\<close>

theorem PlanLaunch_work_conserving:
  assumes "job \<in> set jobs" and "candidate launched job" and "ResolveLane job workflow = Some lane"
  shows "lane \<in> held_lanes jobs workflow launched \<union>
           d_Lane ` set (launches (PlanLaunch jobs workflow sessions launched)) \<or>
         MaxActiveJobs workflow > 0 \<and>
         MaxActiveJobs workflow \<le> int (card (held_slots jobs launched)) +
           int (length (launches (PlanLaunch jobs workflow sessions launched)))"
  using launch_loop_serves_all [of job "SortedJobs jobs" launched workflow lane
      "launch_seed jobs workflow launched" sessions] assms distinct_card [OF seed_facts(2)]
  by (simp add: PlanLaunch_unfold seed_facts(1) seed_lanes)

text \<open>Predicate parity. The decisions depend neither on the order in which the two callers
  read the job rows (with one row per slot) nor on the iteration order of the launched map.\<close>

theorem PlanLaunch_order_independent:
  assumes "inj_on JobSlot (set jobs)" and "mset jobs = mset jobs'"
    and "set launched = set launched'" and "distinct (map fst launched)" "distinct (map fst launched')"
  shows "PlanLaunch jobs workflow sessions launched = PlanLaunch jobs' workflow sessions launched'"
  unfolding PlanLaunch_unfold(2) SortedJobs_perm [OF assms(1,2)]
    launch_loop_cong [OF launch_seed_perm [OF assms(1-3)]]
  by (rule launch_loop_launched_cong [OF launched_perm [OF assms(3-5)]])

text \<open>Nothing stays silent without a cap. When no cap is set every blocked row gets its
  cannot-advance signal and every queued, unlaunched row without a resolvable lane its
  ambiguous-lane signal.\<close>

theorem PlanLaunch_signals_complete:
  assumes "job \<in> set jobs" and "MaxActiveJobs workflow = 0"
  shows "(StringValue (mget job ''state'') = ''blocked'' \<longrightarrow>
            unadvanceable_decision job \<in> set (PlanLaunch jobs workflow sessions launched)) \<and>
         (candidate launched job \<and> ResolveLane job workflow = None \<longrightarrow>
            blank_decision job LaunchAmbiguousLane \<in> set (PlanLaunch jobs workflow sessions launched))"
  using launch_loop_signals [of job "SortedJobs jobs" workflow] assms
  by (simp add: PlanLaunch_unfold)

section \<open>Concrete passes\<close>

definition ex_workflow :: gomap where
  "ex_workflow = [(''parallelism'', VMap [(''max_active_jobs'', VInt 1)])]"

definition ex_row :: "string \<Rightarrow> string \<Rightarrow> string \<Rightarrow> gomap" where
  "ex_row wid state lane =
     [(''workflow_job_id'', VStr wid), (''attempt'', VInt 1), (''state'', VStr state),
      (''lane_id'', VStr lane), (''role_id'', VStr ''dev'')]"

definition ex_session :: gomap where
  "ex_session = [(''session_id'', VStr ''s''), (''state'', VStr ''active''), (''lane_id'', VStr ''l1''),
     (''role_id'', VStr ''dev'')]"

lemma ex_eval:
  "PlanLaunch [ex_row ''a'' ''queued'' ''l1'', ex_row ''b'' ''queued'' ''l2''] ex_workflow [] [] =
     [(blank_decision (ex_row ''a'' ''queued'' ''l1'') LaunchRegisterFresh)\<lparr>d_Lane := ''l1''\<rparr>]"
  by code_simp

theorem PlanLaunch_global_cap_witness:
  "int (card (held_slots [ex_row ''a'' ''queued'' ''l1'', ex_row ''b'' ''queued'' ''l2''] [] \<union>
     d_Slot ` set (launches (PlanLaunch [ex_row ''a'' ''queued'' ''l1'', ex_row ''b'' ''queued'' ''l2'']
       ex_workflow [] [])))) \<le> max (MaxActiveJobs ex_workflow) (int (card
     (held_slots [ex_row ''a'' ''queued'' ''l1'', ex_row ''b'' ''queued'' ''l2''] [])))"
  by (rule PlanLaunch_global_cap) code_simp

theorem PlanLaunch_adoptions_sound_witness:
  "\<exists>d \<in> set (PlanLaunch [ex_row ''a'' ''queued'' ''l1''] [] [ex_session] []).
     d_SessionID d \<noteq> [] \<and> serves [ex_session] d"
proof -
  have "adoptions (PlanLaunch [ex_row ''a'' ''queued'' ''l1''] [] [ex_session] []) \<noteq> []" by code_simp
  then obtain d where "d \<in> set (adoptions (PlanLaunch [ex_row ''a'' ''queued'' ''l1''] [] [ex_session] []))"
    by (metis list.set_intros(1) neq_Nil_conv)
  with PlanLaunch_adoptions_sound [of "[ex_row ''a'' ''queued'' ''l1'']" "[]" "[ex_session]" "[]"]
  show ?thesis by (auto simp: adoptions_def)
qed

theorem PlanLaunch_work_conserving_witness:
  "''l2'' \<in> held_lanes [ex_row ''a'' ''queued'' ''l1'', ex_row ''b'' ''queued'' ''l2''] ex_workflow [] \<union>
     d_Lane ` set (launches (PlanLaunch [ex_row ''a'' ''queued'' ''l1'', ex_row ''b'' ''queued'' ''l2'']
       ex_workflow [] [])) \<or>
   MaxActiveJobs ex_workflow > 0 \<and>
   MaxActiveJobs ex_workflow \<le>
     int (card (held_slots [ex_row ''a'' ''queued'' ''l1'', ex_row ''b'' ''queued'' ''l2''] [])) +
     int (length (launches (PlanLaunch [ex_row ''a'' ''queued'' ''l1'', ex_row ''b'' ''queued'' ''l2'']
       ex_workflow [] [])))"
  by (rule PlanLaunch_work_conserving [of "ex_row ''b'' ''queued'' ''l2''"]; code_simp)

theorem PlanLaunch_order_independent_witness:
  "PlanLaunch [ex_row ''b'' ''queued'' ''l2'', ex_row ''a'' ''queued'' ''l1''] ex_workflow [] [] =
   PlanLaunch [ex_row ''a'' ''queued'' ''l1'', ex_row ''b'' ''queued'' ''l2''] ex_workflow [] []"
proof (rule PlanLaunch_order_independent)
  have "JobSlot (ex_row ''b'' ''queued'' ''l2'') \<noteq> JobSlot (ex_row ''a'' ''queued'' ''l1'')"
    by code_simp
  then show "inj_on JobSlot (set [ex_row ''b'' ''queued'' ''l2'', ex_row ''a'' ''queued'' ''l1''])"
    by (auto simp: inj_on_def)
qed simp_all

theorem PlanLaunch_signals_complete_witness:
  "unadvanceable_decision (ex_row ''z'' ''blocked'' ''l'')
     \<in> set (PlanLaunch [ex_row ''z'' ''blocked'' ''l''] [] [] [])"
proof -
  have "StringValue (mget (ex_row ''z'' ''blocked'' ''l'') ''state'') = ''blocked''" by code_simp
  moreover have "MaxActiveJobs [] = 0" by code_simp
  ultimately show ?thesis
    using PlanLaunch_signals_complete [of "ex_row ''z'' ''blocked'' ''l''" "[ex_row ''z'' ''blocked'' ''l'']" "[]"]
    by simp
qed

text \<open>At the cap the pass ends before it has looked at the remaining rows, so a blocked
  job that sorts after the first queued row over the cap gets no cannot-advance signal,
  although that signal uses no cap budget; the same row alone is signalled.\<close>

theorem PlanLaunch_cap_hides_blocked:
  "PlanLaunch [ex_row ''a'' ''running'' ''l1'', ex_row ''b'' ''queued'' ''l2'', ex_row ''z'' ''blocked'' ''l3'']
     ex_workflow [] [] = [] \<and>
   PlanLaunch [ex_row ''z'' ''blocked'' ''l3''] ex_workflow [] [] =
     [unadvanceable_decision (ex_row ''z'' ''blocked'' ''l3'')]"
  by code_simp

end
