(* ===== verification/Liveness.thy ===== *)
theory Liveness
  imports GoValue
begin

text \<open>
  The session liveness classifier \<open>go/pkg/sessionliveness/liveness.go\<close>: a pure function of
  the recorded activity of a session, a policy of deadlines in seconds and the current time.
  An instant is its number of nanoseconds (a \<open>*time.Time\<close> that is nil is \<open>None\<close>); a deadline
  is \<open>time.Duration(seconds) * time.Second\<close>, a 64 bit product, and sums of policy fields are
  64 bit too.
\<close>

section \<open>States, classes and records\<close>

type_synonym instant = int

datatype stall_class =
    NoStall | StallDiscovery | StallAwaitPacket | StallAck | StallLeaseHeartbeat
  | StallQuestionPending | StallEscalationPending | StallProtocolIdle | StallToolProgress
  | StallText string \<comment> \<open>any other text in the persisted column\<close>

datatype deadline_name =
    NoDeadline | DeadlineDiscovery | DeadlineAwaitPacket | DeadlineAck | DeadlineLeaseHeartbeat
  | DeadlineQuestionPending | DeadlineEscalation | DeadlineProtocolIdle | DeadlineToolCall
  | DeadlineToolProgress

datatype protocol =
    ProtocolInactive | ProtocolLive | ProtocolStalled | ProtocolAttention
  | ProtocolWorkingProtocol | ProtocolWorkingLocal | ProtocolWorkingTool | ProtocolQuiet
  | ProtocolDead

datatype lease_state = NoLease | LeaseStalled | LeaseLive

datatype transport = TransportUnknown | TransportPTYHelper | TransportPipe

datatype probe_basis = BasisNone | BasisDeadlineElapsedOnly | BasisPTYConfirmedDead

record policy =
  DiscoverySeconds :: int
  BootstrapGraceSeconds :: int
  AwaitPacketSeconds :: int
  AckSeconds :: int
  LeaseHeartbeatSeconds :: int
  LeaseHeartbeatSlack :: int
  ProtocolIdleSeconds :: int
  ProtocolFreshSeconds :: int
  PTYFreshSeconds :: int
  ToolCallSeconds :: int
  ToolProgressSeconds :: int

record activity =
  SessionState :: string
  RegisteredAt :: "instant option"
  LastMCPRequestAt :: "instant option"
  LastToolsListAt :: "instant option"
  LastAwaitPacketAt :: "instant option"
  LastPacketDeliveredAt :: "instant option"
  LastAckAt :: "instant option"
  LastWorkBlockAt :: "instant option"
  LastWorkReleaseAt :: "instant option"
  LastWorkCompleteAt :: "instant option"
  LastWorkHeartbeatAt :: "instant option"
  LastSessionReadyAt :: "instant option"
  LastSessionHeartbeatAt :: "instant option"
  LastSessionQuestionAt :: "instant option"
  LastSessionEscalateAt :: "instant option"
  LastPTYActivityAt :: "instant option"
  LastPipeReadAt :: "instant option"
  LastToolCallStartedAt :: "instant option"
  LastToolCallFinishedAt :: "instant option"
  PersistedStallClass :: stall_class
  PersistedStallSince :: "instant option"
  ActiveLeaseID :: string
  ActiveLeaseAcquiredAt :: "instant option"
  ActiveLeaseExpiresAt :: "instant option"
  ActiveLeaseHeartbeatAt :: "instant option"
  Transport :: transport

record result =
  Protocol :: protocol
  Lease :: lease_state
  StallClass :: stall_class
  StallSince :: "instant option"
  DeadlineName :: deadline_name
  DeadlineSeconds :: int
  ToolCallSince :: "instant option"
  ToolCallDeadline :: "instant option"
  ProbeBasis :: probe_basis

definition DefaultPolicy :: policy where
  "DefaultPolicy =
     \<lparr>DiscoverySeconds = 60, BootstrapGraceSeconds = 120, AwaitPacketSeconds = 90, AckSeconds = 60,
      LeaseHeartbeatSeconds = 300, LeaseHeartbeatSlack = 30, ProtocolIdleSeconds = 300,
      ProtocolFreshSeconds = 60, PTYFreshSeconds = 60, ToolCallSeconds = 180, ToolProgressSeconds = 600\<rparr>"

text \<open>\<open>Result{Protocol: p, Lease: l}\<close>: every other field has its zero value.\<close>

definition plain_result :: "protocol \<Rightarrow> lease_state \<Rightarrow> result" where
  "plain_result p l =
     \<lparr>Protocol = p, Lease = l, StallClass = NoStall, StallSince = None, DeadlineName = NoDeadline,
      DeadlineSeconds = 0, ToolCallSince = None, ToolCallDeadline = None, ProbeBasis = BasisNone\<rparr>"

definition UpgradeProbeBasisConfirmedDead :: "transport \<Rightarrow> probe_basis \<Rightarrow> probe_basis" where
  "UpgradeProbeBasisConfirmedDead t current =
     (if t = TransportPTYHelper \<and> current = BasisDeadlineElapsedOnly then BasisPTYConfirmedDead
      else current)"

text \<open>\<open>transportFromMetadata\<close>, on the decoded pointer metadata.\<close>

definition transportFromMetadata :: "gomap \<Rightarrow> transport" where
  "transportFromMetadata metadata =
     (let t = (case mget metadata ''transport'' of VNil \<Rightarrow> [] | VStr s \<Rightarrow> s | v \<Rightarrow> go_sprint v)
      in if t = ''pty_helper'' then TransportPTYHelper
         else if t = ''pipe'' then TransportPipe else TransportUnknown)"

section \<open>Times\<close>

definition seconds :: "int \<Rightarrow> int" where
  "seconds s = wrap64 (s * 1000000000)"

fun after :: "instant option \<Rightarrow> instant option \<Rightarrow> bool" where
  "after None b = False"
| "after (Some c) None = True"
| "after (Some c) (Some b) = (c > b)"

definition anyAfter :: "instant option \<Rightarrow> instant option list \<Rightarrow> bool" where
  "anyAfter base candidates = list_ex (\<lambda>c. after c base) candidates"

definition latestTime :: "instant option list \<Rightarrow> instant option" where
  "latestTime vs = fold (\<lambda>v latest. if after v latest then v else latest) vs None"

definition missed :: "instant option \<Rightarrow> int \<Rightarrow> instant \<Rightarrow> bool" where
  "missed base secs now =
     (case base of None \<Rightarrow> False | Some b \<Rightarrow> secs \<ge> 0 \<and> b + seconds secs \<le> now)"

definition add_seconds :: "int \<Rightarrow> instant option \<Rightarrow> instant option" where
  "add_seconds secs t = map_option (\<lambda>b. b + seconds secs) t"

section \<open>Signals\<close>

definition inToolCall :: "activity \<Rightarrow> instant option option" where
  "inToolCall a =
     (case LastToolCallStartedAt a of
        None \<Rightarrow> None
      | Some s \<Rightarrow>
          (if after (LastToolCallFinishedAt a) (Some s) then None
           else if LastToolCallFinishedAt a = Some s then None
           else Some (Some s)))"

definition ptyActive :: "activity \<Rightarrow> bool" where
  "ptyActive a \<longleftrightarrow> LastPTYActivityAt a \<noteq> None \<or> LastPipeReadAt a \<noteq> None"

definition localOutputAt :: "activity \<Rightarrow> instant option" where
  "localOutputAt a = latestTime [LastPTYActivityAt a, LastPipeReadAt a]"

definition toolProgressBase :: "activity \<Rightarrow> instant option" where
  "toolProgressBase a = latestTime [LastToolCallStartedAt a, LastToolCallFinishedAt a]"

definition toolProgressWedged :: "activity \<Rightarrow> policy \<Rightarrow> instant \<Rightarrow> bool" where
  "toolProgressWedged a p now =
     (if ToolProgressSeconds p \<le> 0 then False
      else if toolProgressBase a = None then False
      else if inToolCall a \<noteq> None then False
      else missed (toolProgressBase a) (ToolProgressSeconds p) now)"

definition pipeMidRPCFresh :: "activity \<Rightarrow> policy \<Rightarrow> instant \<Rightarrow> bool" where
  "pipeMidRPCFresh a p now =
     (if ProtocolFreshSeconds p \<le> 0 then False
      else LastMCPRequestAt a \<noteq> None \<and> \<not> missed (LastMCPRequestAt a) (ProtocolFreshSeconds p) now)"

definition protocol_signals :: "activity \<Rightarrow> instant option list" where
  "protocol_signals a =
     [LastMCPRequestAt a, LastToolsListAt a, LastAwaitPacketAt a, LastPacketDeliveredAt a, LastAckAt a,
      LastWorkBlockAt a, LastWorkReleaseAt a, LastWorkCompleteAt a, LastWorkHeartbeatAt a,
      LastSessionReadyAt a, LastSessionHeartbeatAt a, LastSessionQuestionAt a, LastSessionEscalateAt a]"

definition protocolActivityFresh :: "activity \<Rightarrow> policy \<Rightarrow> instant \<Rightarrow> bool" where
  "protocolActivityFresh a p now =
     (if ProtocolFreshSeconds p \<le> 0 then False
      else (let latest = latestTime (protocol_signals a @ [ActiveLeaseHeartbeatAt a])
            in latest \<noteq> None \<and> \<not> missed latest (ProtocolFreshSeconds p) now))"

definition discovered :: "activity \<Rightarrow> bool" where
  "discovered a = list_ex (\<lambda>t. t \<noteq> None) (protocol_signals a)"

definition progressAfter :: "activity \<Rightarrow> instant option \<Rightarrow> bool" where
  "progressAfter a at =
     anyAfter at
       [LastToolsListAt a, LastAwaitPacketAt a, LastPacketDeliveredAt a, LastAckAt a, LastWorkBlockAt a,
        LastWorkReleaseAt a, LastWorkCompleteAt a, LastWorkHeartbeatAt a, LastSessionReadyAt a,
        LastSessionHeartbeatAt a]"

definition hasAckEquivalentAfter :: "activity \<Rightarrow> instant option \<Rightarrow> bool" where
  "hasAckEquivalentAfter a deliveredAt =
     anyAfter deliveredAt
       [LastAckAt a, LastWorkBlockAt a, LastWorkReleaseAt a, LastWorkCompleteAt a,
        LastSessionQuestionAt a, LastSessionEscalateAt a]"

definition attentionPending :: "activity \<Rightarrow> stall_class \<times> instant option" where
  "attentionPending a =
     (let (kind, at) =
        (if LastSessionQuestionAt a \<noteq> None then (StallQuestionPending, LastSessionQuestionAt a)
         else (NoStall, None));
          (kind, at) =
        (if after (LastSessionEscalateAt a) at then (StallEscalationPending, LastSessionEscalateAt a)
         else (kind, at))
      in if kind = NoStall \<or> progressAfter a at then (NoStall, None) else (kind, at))"

fun protocolState :: "stall_class \<Rightarrow> protocol" where
  "protocolState StallQuestionPending = ProtocolAttention"
| "protocolState StallEscalationPending = ProtocolAttention"
| "protocolState NoStall = ProtocolLive"
| "protocolState _ = ProtocolStalled"

definition leaseState :: "activity \<Rightarrow> stall_class \<Rightarrow> lease_state" where
  "leaseState a c =
     (if ActiveLeaseID a = [] then NoLease
      else if c = StallLeaseHeartbeat then LeaseStalled else LeaseLive)"

definition stallResult ::
  "activity \<Rightarrow> stall_class \<Rightarrow> deadline_name \<Rightarrow> int \<Rightarrow> instant option \<Rightarrow> result" where
  "stallResult a c deadline secs base =
     (let since = (if PersistedStallClass a = c then PersistedStallSince a else None)
      in \<lparr>Protocol = protocolState c, Lease = leaseState a c, StallClass = c,
          StallSince = (if since = None then add_seconds secs base else since),
          DeadlineName = deadline, DeadlineSeconds = secs,
          ToolCallSince = None, ToolCallDeadline = None, ProbeBasis = BasisDeadlineElapsedOnly\<rparr>)"

definition staleToolCallResult :: "activity \<Rightarrow> policy \<Rightarrow> instant \<Rightarrow> result option" where
  "staleToolCallResult a p now =
     (case inToolCall a of
        None \<Rightarrow> None
      | Some since \<Rightarrow>
          (if ToolCallSeconds p \<le> 0 \<or> \<not> missed since (ToolCallSeconds p) now then None
           else Some ((stallResult a StallProtocolIdle DeadlineToolCall (ToolCallSeconds p) since)
             \<lparr>ToolCallSince := since, ToolCallDeadline := add_seconds (ToolCallSeconds p) since\<rparr>)))"

definition workingResult :: "activity \<Rightarrow> policy \<Rightarrow> instant \<Rightarrow> result" where
  "workingResult a p now =
     (let lease = leaseState a NoStall in
      case inToolCall a of
        Some since \<Rightarrow>
          (let r = (plain_result ProtocolWorkingTool lease)\<lparr>DeadlineName := DeadlineToolCall, ToolCallSince := since\<rparr>
           in if ToolCallSeconds p > 0
              then r\<lparr>DeadlineSeconds := ToolCallSeconds p, ToolCallDeadline := add_seconds (ToolCallSeconds p) since\<rparr>
              else r)
      | None \<Rightarrow>
          if protocolActivityFresh a p now then plain_result ProtocolWorkingProtocol lease
          else if localOutputAt a \<noteq> None \<and> \<not> missed (localOutputAt a) (PTYFreshSeconds p) now
          then plain_result ProtocolWorkingLocal lease
          else plain_result ProtocolQuiet lease)"

definition wedgeResult :: "activity \<Rightarrow> policy \<Rightarrow> result" where
  "wedgeResult a p = stallResult a StallToolProgress DeadlineToolProgress (ToolProgressSeconds p) (toolProgressBase a)"

text \<open>The rungs of a lane that holds a lease, and of one that holds none.\<close>

definition classify_lease :: "activity \<Rightarrow> policy \<Rightarrow> instant \<Rightarrow> result" where
  "classify_lease a p now =
     (let base = latestTime [LastWorkHeartbeatAt a, ActiveLeaseHeartbeatAt a, ActiveLeaseAcquiredAt a];
          threshold = wrap64 (LeaseHeartbeatSeconds p + LeaseHeartbeatSlack p);
          working = workingResult a p now in
      if missed base threshold now then
        (if Protocol working \<noteq> ProtocolQuiet then
           (if Protocol working = ProtocolWorkingLocal \<and> toolProgressWedged a p now then wedgeResult a p
            else working)
         else stallResult a StallLeaseHeartbeat DeadlineLeaseHeartbeat threshold base)
      else if Protocol working = ProtocolWorkingLocal \<and> toolProgressWedged a p now then wedgeResult a p
      else working)"

definition classify_idle :: "activity \<Rightarrow> policy \<Rightarrow> instant \<Rightarrow> result" where
  "classify_idle a p now =
     (let base = latestTime (protocol_signals a @ [localOutputAt a, RegisteredAt a]) in
      if missed base (ProtocolIdleSeconds p) now
      then stallResult a StallProtocolIdle DeadlineProtocolIdle (ProtocolIdleSeconds p) base
      else workingResult a p now)"

definition classify_undiscovered :: "activity \<Rightarrow> policy \<Rightarrow> instant \<Rightarrow> result" where
  "classify_undiscovered a p now =
     (let bootstrap = wrap64 (DiscoverySeconds p + BootstrapGraceSeconds p) in
      if missed (RegisteredAt a) bootstrap now then
        (let r = stallResult a StallDiscovery DeadlineDiscovery bootstrap (RegisteredAt a)
         in if \<not> ptyActive a then r\<lparr>Protocol := ProtocolDead\<rparr> else r)
      else workingResult a p now)"

text \<open>\<open>Classify\<close>: the rungs in the order of the code.\<close>

definition Classify :: "activity \<Rightarrow> policy \<Rightarrow> instant \<Rightarrow> result" where
  "Classify a p now =
     (if SessionState a \<noteq> [] \<and> SessionState a \<noteq> ''active''
      then plain_result ProtocolInactive (leaseState a NoStall)
      else (let (pending, at) = attentionPending a in
      if pending \<noteq> NoStall then
        (if pending = StallQuestionPending
         then stallResult a StallQuestionPending DeadlineQuestionPending 0 at
         else stallResult a StallEscalationPending DeadlineEscalation 0 at)
      else (case staleToolCallResult a p now of
        Some r \<Rightarrow> r
      | None \<Rightarrow>
        if \<not> discovered a then classify_undiscovered a p now
        else if Transport a = TransportPipe \<and> pipeMidRPCFresh a p now
        then plain_result ProtocolWorkingLocal (leaseState a NoStall)
        else if LastToolsListAt a \<noteq> None \<and> \<not> after (LastAwaitPacketAt a) (LastToolsListAt a) then
          (if missed (LastToolsListAt a) (AwaitPacketSeconds p) now
           then stallResult a StallAwaitPacket DeadlineAwaitPacket (AwaitPacketSeconds p) (LastToolsListAt a)
           else workingResult a p now)
        else if LastPacketDeliveredAt a \<noteq> None \<and> \<not> hasAckEquivalentAfter a (LastPacketDeliveredAt a) then
          (if missed (LastPacketDeliveredAt a) (AckSeconds p) now
           then stallResult a StallAck DeadlineAck (AckSeconds p) (LastPacketDeliveredAt a)
           else workingResult a p now)
        else if ActiveLeaseID a \<noteq> [] then classify_lease a p now
        else classify_idle a p now)))"

definition lastSessionReportKind :: "activity \<Rightarrow> string" where
  "lastSessionReportKind a =
     fst (fold (\<lambda>(kind, at) (best, latest). if after at latest then (kind, at) else (best, latest))
       [(''ready'', LastSessionReadyAt a), (''heartbeat'', LastSessionHeartbeatAt a),
        (''question'', LastSessionQuestionAt a), (''escalate'', LastSessionEscalateAt a)] ([], None))"

section \<open>Laws of the signals\<close>

lemma missed_mono: "missed b s now \<Longrightarrow> now \<le> now' \<Longrightarrow> missed b s now'"
  by (auto simp: missed_def split: option.splits)

definition later :: "instant option \<Rightarrow> instant option \<Rightarrow> instant option" where
  "later v latest = (if after v latest then v else latest)"

lemma later_cases:
  "later None latest = latest" "later v None = v" "later (Some c) (Some d) = Some (max c d)"
  by (cases v; simp add: later_def max_def)+

lemma fold_later_Some: "\<exists>t. fold later vs (Some u) = Some t \<and> u \<le> t"
proof (induction vs arbitrary: u)
  case Nil
  then show ?case by simp
next
  case (Cons v vs)
  then show ?case
  proof (cases v)
    case None
    with Cons show ?thesis by (simp add: later_cases)
  next
    case (Some c)
    from Cons.IH [of "max c u"] obtain t where "fold later vs (Some (max c u)) = Some t" "max c u \<le> t" by blast
    with Some show ?thesis by (simp add: later_cases)
  qed
qed

lemma fold_later_ge: "Some u \<in> set vs \<Longrightarrow> \<exists>t. fold later vs acc = Some t \<and> u \<le> t"
proof (induction vs arbitrary: acc)
  case Nil
  then show ?case by simp
next
  case (Cons v vs)
  show ?case
  proof (cases "v = Some u")
    case True
    then obtain m where m: "later v acc = Some m" "u \<le> m" by (cases acc) (auto simp: later_cases)
    with fold_later_Some [of vs m] show ?thesis by auto
  next
    case False
    with Cons show ?thesis by simp
  qed
qed

lemma fold_later_in: "fold later vs acc = Some t \<Longrightarrow> Some t \<in> set vs \<or> acc = Some t"
proof (induction vs arbitrary: acc)
  case Nil
  then show ?case by simp
next
  case (Cons v vs)
  then have "Some t \<in> set vs \<or> later v acc = Some t" by simp
  then show ?case by (auto simp: later_def split: if_splits)
qed

lemma latestTime_later: "latestTime vs = fold later vs None"
  unfolding latestTime_def later_def [abs_def] ..

lemma latestTime_Some:
  assumes "latestTime vs = Some t"
  shows "Some t \<in> set vs" and "Some u \<in> set vs \<Longrightarrow> u \<le> t"
  using assms fold_later_in [of vs None t] fold_later_ge [of u vs None] by (auto simp: latestTime_later)

lemma latestTime_None [simp]: "latestTime vs = None \<longleftrightarrow> (\<forall>v \<in> set vs. v = None)"
proof
  assume n: "latestTime vs = None"
  show "\<forall>v \<in> set vs. v = None"
  proof
    fix v
    assume "v \<in> set vs"
    with n fold_later_ge [of _ vs None] show "v = None" by (cases v) (fastforce simp: latestTime_later)+
  qed
next
  assume "\<forall>v \<in> set vs. v = None"
  then show "latestTime vs = None" using latestTime_Some(1) [of vs] by (cases "latestTime vs") auto
qed

lemma fresh_antimono:
  "now \<le> now' \<Longrightarrow> protocolActivityFresh a p now' \<Longrightarrow> protocolActivityFresh a p now"
  "now \<le> now' \<Longrightarrow> pipeMidRPCFresh a p now' \<Longrightarrow> pipeMidRPCFresh a p now"
  by (auto simp: protocolActivityFresh_def pipeMidRPCFresh_def Let_def missed_mono split: if_splits)

lemma working_no_stall [simp]:
  "StallClass (workingResult a p now) = NoStall" "ProbeBasis (workingResult a p now) = BasisNone"
  by (simp_all add: workingResult_def plain_result_def Let_def split: option.splits)

lemma plain_no_stall [simp]:
  "StallClass (plain_result pr l) = NoStall" "ProbeBasis (plain_result pr l) = BasisNone"
  "Protocol (plain_result pr l) = pr"
  by (simp_all add: plain_result_def)

lemma stallResult_simps [simp]:
  "StallClass (stallResult a c d s b) = c" "ProbeBasis (stallResult a c d s b) = BasisDeadlineElapsedOnly"
  "Protocol (stallResult a c d s b) = protocolState c" "DeadlineSeconds (stallResult a c d s b) = s"
  by (simp_all add: stallResult_def Let_def)

lemma working_quiet_mono:
  "Protocol (workingResult a p now) = ProtocolQuiet \<Longrightarrow> now \<le> now' \<Longrightarrow>
   Protocol (workingResult a p now') = ProtocolQuiet"
  using fresh_antimono(1) [of now now' a p] missed_mono [of "localOutputAt a" "PTYFreshSeconds p" now now']
  by (auto simp: workingResult_def Let_def split: option.splits if_splits)

lemma staleToolCall_Some:
  "staleToolCallResult a p now = Some r \<Longrightarrow> StallClass r = StallProtocolIdle \<and>
     ProbeBasis r = BasisDeadlineElapsedOnly \<and> Protocol r = ProtocolStalled"
  by (auto simp: staleToolCallResult_def split: option.splits if_splits)

lemma staleToolCall_mono:
  "staleToolCallResult a p now = Some r \<Longrightarrow> now \<le> now' \<Longrightarrow> staleToolCallResult a p now' = Some r"
  by (auto simp: staleToolCallResult_def missed_mono split: option.splits if_splits)

section \<open>Silent lanes\<close>

text \<open>Every recorded instant of a session lies before a point in time.\<close>

definition instants :: "activity \<Rightarrow> instant option list" where
  "instants a = protocol_signals a @ [RegisteredAt a, LastPTYActivityAt a, LastPipeReadAt a,
     LastToolCallStartedAt a, LastToolCallFinishedAt a, ActiveLeaseAcquiredAt a, ActiveLeaseHeartbeatAt a]"

definition quiet_since :: "activity \<Rightarrow> instant \<Rightarrow> bool" where
  "quiet_since a h \<longleftrightarrow> list_all (\<lambda>t. case t of None \<Rightarrow> True | Some u \<Rightarrow> u \<le> h) (instants a)"

lemma quiet_sinceD: "quiet_since a h \<Longrightarrow> Some u \<in> set (instants a) \<Longrightarrow> u \<le> h"
  unfolding quiet_since_def list_all_iff by (drule bspec) auto

lemma quiet_latest:
  assumes "quiet_since a h" and "set vs \<subseteq> set (instants a)" and "latestTime vs = Some t"
  shows "t \<le> h"
  using quiet_sinceD [OF assms(1)] latestTime_Some(1) [OF assms(3)] assms(2) by blast

text \<open>The default policy's longest deadline of a silent lane is 330 seconds.\<close>

definition late :: "instant \<Rightarrow> instant \<Rightarrow> bool" where
  "late h now \<longleftrightarrow> h + 330 * 1000000000 \<le> now"

lemma missed_late:
  assumes "late h now" and "t \<le> h" and "0 \<le> s" and "s \<le> 330"
  shows "missed (Some t) s now"
  using assms by (simp add: missed_def seconds_def wrap64_id late_def)

lemma latest_missed:
  assumes "quiet_since a h" and "late h now" and "set vs \<subseteq> set (instants a)" and "0 \<le> s" and "s \<le> 330"
  shows "latestTime vs = None \<or> missed (latestTime vs) s now"
proof (cases "latestTime vs")
  case (Some t)
  with missed_late [OF assms(2) quiet_latest [OF assms(1,3) Some] assms(4,5)] show ?thesis by simp
qed simp

lemma quiet_missed:
  assumes "quiet_since a h" and "late h now" and "t \<in> set (instants a)" and "t \<noteq> None" and "0 \<le> s" and "s \<le> 330"
  shows "missed t s now"
  using missed_late [OF assms(2) quiet_sinceD [OF assms(1)] assms(5,6)] assms(3,4) by (cases t) auto

lemma instants_sub:
  "set (protocol_signals a @ [ActiveLeaseHeartbeatAt a]) \<subseteq> set (instants a)"
  "set [LastPTYActivityAt a, LastPipeReadAt a] \<subseteq> set (instants a)"
  "set [LastWorkHeartbeatAt a, ActiveLeaseHeartbeatAt a, ActiveLeaseAcquiredAt a] \<subseteq> set (instants a)"
  "LastMCPRequestAt a \<in> set (instants a)" "LastToolsListAt a \<in> set (instants a)"
  "LastPacketDeliveredAt a \<in> set (instants a)" "LastToolCallStartedAt a \<in> set (instants a)"
  "RegisteredAt a \<in> set (instants a)"
  by (auto simp: instants_def protocol_signals_def)

lemma quiet_stale:
  assumes "quiet_since a h" and "late h now"
  shows "\<not> protocolActivityFresh a DefaultPolicy now" and "\<not> pipeMidRPCFresh a DefaultPolicy now"
    and "localOutputAt a = None \<or> missed (localOutputAt a) 60 now"
proof -
  show "\<not> protocolActivityFresh a DefaultPolicy now"
    using latest_missed [OF assms instants_sub(1), of 60]
    by (simp add: protocolActivityFresh_def DefaultPolicy_def Let_def del: latestTime_None)
  show "\<not> pipeMidRPCFresh a DefaultPolicy now"
    by (cases "LastMCPRequestAt a = None")
       (use quiet_missed [OF assms instants_sub(4), of 60] in
         \<open>simp_all add: pipeMidRPCFresh_def DefaultPolicy_def\<close>)
  show "localOutputAt a = None \<or> missed (localOutputAt a) 60 now"
    unfolding localOutputAt_def by (rule latest_missed [OF assms instants_sub(2)]) simp_all
qed

lemma quiet_working:
  assumes "quiet_since a h" and "late h now" and "inToolCall a = None"
  shows "workingResult a DefaultPolicy now = plain_result ProtocolQuiet (leaseState a NoStall)"
proof -
  have "PTYFreshSeconds DefaultPolicy = 60" by (simp add: DefaultPolicy_def)
  with quiet_stale [OF assms(1,2)] assms(3) show ?thesis by (auto simp: workingResult_def Let_def)
qed

lemma classify_idle_quiet:
  assumes "quiet_since a h" and "late h now" and "RegisteredAt a \<noteq> None"
  shows "StallClass (classify_idle a DefaultPolicy now) \<noteq> NoStall"
proof -
  let ?vs = "protocol_signals a @ [localOutputAt a, RegisteredAt a]"
  from assms(3) obtain t where t: "latestTime ?vs = Some t" by (cases "latestTime ?vs") auto
  have "localOutputAt a = None \<or> localOutputAt a \<in> set (instants a)"
    using latestTime_Some(1) instants_sub(2) unfolding localOutputAt_def
    by (cases "latestTime [LastPTYActivityAt a, LastPipeReadAt a]") fastforce+
  then have "Some t \<in> set (instants a)"
    using latestTime_Some(1) [OF t] by (auto simp: instants_def)
  from missed_late [OF assms(2) quiet_sinceD [OF assms(1) this], of 300] show ?thesis
    by (simp add: classify_idle_def t DefaultPolicy_def)
qed

lemma classify_lease_quiet:
  assumes "quiet_since a h" and "late h now" and "ActiveLeaseAcquiredAt a \<noteq> None" and "inToolCall a = None"
  shows "StallClass (classify_lease a DefaultPolicy now) \<noteq> NoStall"
proof -
  let ?vs = "[LastWorkHeartbeatAt a, ActiveLeaseHeartbeatAt a, ActiveLeaseAcquiredAt a]"
  have "latestTime ?vs \<noteq> None" using assms(3) by simp
  with latest_missed [OF assms(1,2) instants_sub(3), of 330] have "missed (latestTime ?vs) 330 now" by auto
  moreover have "wrap64 (LeaseHeartbeatSeconds DefaultPolicy + LeaseHeartbeatSlack DefaultPolicy) = 330"
    by (simp add: DefaultPolicy_def wrap64_id)
  ultimately show ?thesis
    by (simp add: classify_lease_def quiet_working [OF assms(1,2,4)] Let_def)
qed

lemma attention_class: "attentionPending a = (c, at) \<Longrightarrow> c \<in> {NoStall, StallQuestionPending, StallEscalationPending}"
  by (auto simp: attentionPending_def Let_def split: if_splits)

text \<open>The rungs below attention and stale tool calls, as a case rule.\<close>

lemma Classify_cases:
  obtains (inactive) "SessionState a \<noteq> []" "SessionState a \<noteq> ''active''"
      "Classify a p now = plain_result ProtocolInactive (leaseState a NoStall)"
  | (attention) c d at where "attentionPending a = (c, at)" "c \<noteq> NoStall" "Classify a p now = stallResult a c d 0 at"
  | (tool) r where "staleToolCallResult a p now = Some r" "Classify a p now = r"
  | (undiscovered) "\<not> discovered a" "Classify a p now = classify_undiscovered a p now"
  | (pipe) "Transport a = TransportPipe" "pipeMidRPCFresh a p now"
      "Classify a p now = plain_result ProtocolWorkingLocal (leaseState a NoStall)"
  | (await) "LastToolsListAt a \<noteq> None"
      "Classify a p now = (if missed (LastToolsListAt a) (AwaitPacketSeconds p) now
        then stallResult a StallAwaitPacket DeadlineAwaitPacket (AwaitPacketSeconds p) (LastToolsListAt a)
        else workingResult a p now)"
  | (ack) "LastPacketDeliveredAt a \<noteq> None"
      "Classify a p now = (if missed (LastPacketDeliveredAt a) (AckSeconds p) now
        then stallResult a StallAck DeadlineAck (AckSeconds p) (LastPacketDeliveredAt a)
        else workingResult a p now)"
  | (lease) "ActiveLeaseID a \<noteq> []" "staleToolCallResult a p now = None" "Classify a p now = classify_lease a p now"
  | (idle) "ActiveLeaseID a = []" "Classify a p now = classify_idle a p now"
proof (cases "SessionState a \<noteq> [] \<and> SessionState a \<noteq> ''active''")
  case True
  then show thesis by (intro inactive) (simp_all add: Classify_def)
next
  case active: False
  obtain c at where at: "attentionPending a = (c, at)" by (cases "attentionPending a")
  show thesis
  proof (cases "c = NoStall")
    case False
    with attention_class [OF at] active at show thesis
      by (intro attention [OF at False,
            of "if c = StallQuestionPending then DeadlineQuestionPending else DeadlineEscalation"])
         (auto simp: Classify_def)
  next
    case no: True
    note C = Classify_def [of a p now, unfolded at no Let_def prod.case if_not_P [OF active], simplified]
    show thesis
    proof (cases "staleToolCallResult a p now")
      case (Some r)
      then show thesis by (intro tool [OF Some]) (simp add: C)
    next
      case None
      note C' = C [unfolded None option.case]
      from C' None show thesis
        by (auto intro: undiscovered pipe await ack lease idle split: if_splits)
    qed
  qed
qed

lemma silent_stalled:
  assumes "SessionState a = [] \<or> SessionState a = ''active''" and "RegisteredAt a \<noteq> None"
    and "ActiveLeaseID a \<noteq> [] \<longrightarrow> ActiveLeaseAcquiredAt a \<noteq> None"
    and "quiet_since a h" and "late h now"
  shows "StallClass (Classify a DefaultPolicy now) \<noteq> NoStall"
proof (cases rule: Classify_cases [of a DefaultPolicy now])
  case inactive
  with assms(1) show ?thesis by simp
next
  case (attention c d at)
  then show ?thesis by simp
next
  case (tool r)
  then show ?thesis using staleToolCall_Some [OF tool(1)] by simp
next
  case undiscovered
  have "wrap64 (DiscoverySeconds DefaultPolicy + BootstrapGraceSeconds DefaultPolicy) = 180"
    by (simp add: DefaultPolicy_def wrap64_id)
  with quiet_missed [OF assms(4,5) instants_sub(8) assms(2), of 180] undiscovered(2)
  show ?thesis by (simp add: classify_undiscovered_def Let_def)
next
  case pipe
  with quiet_stale(2) [OF assms(4,5)] show ?thesis by simp
next
  case await
  with quiet_missed [OF assms(4,5) instants_sub(5) await(1), of 90] show ?thesis by (simp add: DefaultPolicy_def)
next
  case ack
  with quiet_missed [OF assms(4,5) instants_sub(6) ack(1), of 60] show ?thesis by (simp add: DefaultPolicy_def)
next
  case lease
  have "inToolCall a = None"
  proof (rule ccontr)
    assume "inToolCall a \<noteq> None"
    then have i: "inToolCall a = Some (LastToolCallStartedAt a)" "LastToolCallStartedAt a \<noteq> None"
      by (auto simp: inToolCall_def split: option.splits if_splits)
    have "ToolCallSeconds DefaultPolicy = 180" by (simp add: DefaultPolicy_def)
    with quiet_missed [OF assms(4,5) instants_sub(7) i(2), of 180] i(1)
    have "staleToolCallResult a DefaultPolicy now \<noteq> None" by (simp add: staleToolCallResult_def)
    with lease(2) show False by simp
  qed
  with classify_lease_quiet [OF assms(4,5)] assms(3) lease show ?thesis by simp
next
  case idle
  with classify_idle_quiet [OF assms(4,5,2)] show ?thesis by simp
qed

lemma stall_basis:
  "(StallClass (Classify a p now) \<noteq> NoStall \<longleftrightarrow> ProbeBasis (Classify a p now) = BasisDeadlineElapsedOnly) \<and>
   (StallClass (Classify a p now) \<noteq> NoStall \<longleftrightarrow>
      Protocol (Classify a p now) \<in> {ProtocolStalled, ProtocolAttention, ProtocolDead})"
proof -
  have w: "Protocol (workingResult a p now) \<notin> {ProtocolStalled, ProtocolAttention, ProtocolDead}"
    by (simp add: workingResult_def plain_result_def Let_def split: option.splits)
  have l: "(StallClass (classify_lease a p now) \<noteq> NoStall \<longleftrightarrow> ProbeBasis (classify_lease a p now) = BasisDeadlineElapsedOnly) \<and>
    (StallClass (classify_lease a p now) \<noteq> NoStall \<longleftrightarrow>
      Protocol (classify_lease a p now) \<in> {ProtocolStalled, ProtocolAttention, ProtocolDead})"
    using w by (auto simp: classify_lease_def wedgeResult_def Let_def)
  show ?thesis
  proof (cases rule: Classify_cases [of a p now])
    case (attention c d at)
    with attention_class [OF attention(1)] show ?thesis by auto
  next
    case (tool r)
    with staleToolCall_Some [OF tool(1)] show ?thesis by simp
  next
    case lease
    show ?thesis unfolding lease(3) by (rule l)
  qed (use w in \<open>auto simp: classify_undiscovered_def classify_idle_def Let_def\<close>)
qed

lemma no_stall_no_basis:
  "StallClass (Classify a p now) = NoStall \<Longrightarrow> ProbeBasis (Classify a p now) = BasisNone"
proof (cases rule: Classify_cases [of a p now])
  case (tool r)
  then show "StallClass (Classify a p now) = NoStall \<Longrightarrow> ?thesis" using staleToolCall_Some [OF tool(1)] by simp
next
  case lease
  then show "StallClass (Classify a p now) = NoStall \<Longrightarrow> ?thesis"
    by (auto simp: classify_lease_def wedgeResult_def Let_def split: if_splits)
qed (auto simp: classify_undiscovered_def classify_idle_def Let_def split: if_splits)

section \<open>Verdicts as time passes\<close>

text \<open>The rung that decides depends on the activity alone, except for stale tool calls and fresh
  pipe requests, which only let a lane through while they are fresh.\<close>

lemma classify_lease_mono:
  assumes "StallClass (classify_lease a p now) \<noteq> NoStall"
    and "StallClass (classify_lease a p now) \<noteq> StallToolProgress" and "now \<le> now'"
  shows "StallClass (classify_lease a p now') = StallLeaseHeartbeat"
proof -
  let ?base = "latestTime [LastWorkHeartbeatAt a, ActiveLeaseHeartbeatAt a, ActiveLeaseAcquiredAt a]"
  let ?th = "wrap64 (LeaseHeartbeatSeconds p + LeaseHeartbeatSlack p)"
  from assms(1,2) have "missed ?base ?th now" and "Protocol (workingResult a p now) = ProtocolQuiet"
    by (auto simp: classify_lease_def wedgeResult_def Let_def split: if_splits)
  with missed_mono [OF _ assms(3)] working_quiet_mono [OF _ assms(3)] show ?thesis
    by (simp add: classify_lease_def Let_def)
qed

lemma classify_other_mono:
  assumes "now \<le> now'"
  shows "StallClass (classify_idle a p now) \<noteq> NoStall \<Longrightarrow> StallClass (classify_idle a p now') \<noteq> NoStall"
    and "StallClass (classify_undiscovered a p now) \<noteq> NoStall \<Longrightarrow>
      StallClass (classify_undiscovered a p now') \<noteq> NoStall"
  using missed_mono [OF _ assms]
  by (auto simp: classify_idle_def classify_undiscovered_def Let_def split: if_splits)

text \<open>Below attention and stale tool calls, with the fresh-request rung singled out.\<close>

definition classify_rest :: "activity \<Rightarrow> policy \<Rightarrow> instant \<Rightarrow> result" where
  "classify_rest a p now =
     (if LastToolsListAt a \<noteq> None \<and> \<not> after (LastAwaitPacketAt a) (LastToolsListAt a) then
        (if missed (LastToolsListAt a) (AwaitPacketSeconds p) now
         then stallResult a StallAwaitPacket DeadlineAwaitPacket (AwaitPacketSeconds p) (LastToolsListAt a)
         else workingResult a p now)
      else if LastPacketDeliveredAt a \<noteq> None \<and> \<not> hasAckEquivalentAfter a (LastPacketDeliveredAt a) then
        (if missed (LastPacketDeliveredAt a) (AckSeconds p) now
         then stallResult a StallAck DeadlineAck (AckSeconds p) (LastPacketDeliveredAt a)
         else workingResult a p now)
      else if ActiveLeaseID a \<noteq> [] then classify_lease a p now
      else classify_idle a p now)"

lemma classify_rest_mono:
  assumes le: "now \<le> now'" and st: "StallClass (classify_rest a p now) \<noteq> NoStall"
    and nt: "StallClass (classify_rest a p now) \<noteq> StallToolProgress"
  shows "StallClass (classify_rest a p now') \<noteq> NoStall"
proof -
  let ?await = "LastToolsListAt a \<noteq> None \<and> \<not> after (LastAwaitPacketAt a) (LastToolsListAt a)"
  let ?ack = "LastPacketDeliveredAt a \<noteq> None \<and> \<not> hasAckEquivalentAfter a (LastPacketDeliveredAt a)"
  consider (await) "?await" | (ack) "\<not> ?await" "?ack" | (lease) "\<not> ?await" "\<not> ?ack" "ActiveLeaseID a \<noteq> []"
    | (idle) "\<not> ?await" "\<not> ?ack" "ActiveLeaseID a = []" by blast
  then show ?thesis
  proof cases
    case await
    with st have "missed (LastToolsListAt a) (AwaitPacketSeconds p) now"
      by (simp add: classify_rest_def split: if_splits)
    from await missed_mono [OF this le] show ?thesis by (simp add: classify_rest_def)
  next
    case ack
    with st have "missed (LastPacketDeliveredAt a) (AckSeconds p) now"
      unfolding classify_rest_def by (simp only: if_False if_True) (simp split: if_splits)
    from missed_mono [OF this le] ack show ?thesis
      unfolding classify_rest_def by (simp only: if_False if_True) simp
  next
    case lease
    then have eq: "classify_rest a p t = classify_lease a p t" for t
      unfolding classify_rest_def by (simp only: if_False if_True) simp
    from classify_lease_mono [OF _ _ le] st nt show ?thesis unfolding eq by simp
  next
    case idle
    then have eq: "classify_rest a p t = classify_idle a p t" for t
      unfolding classify_rest_def by (simp only: if_False if_True) simp
    from classify_other_mono(1) [OF le] st show ?thesis unfolding eq .
  qed
qed

lemma Classify_rest:
  "Classify a p now =
     (if SessionState a \<noteq> [] \<and> SessionState a \<noteq> ''active''
      then plain_result ProtocolInactive (leaseState a NoStall)
      else if fst (attentionPending a) \<noteq> NoStall then
        (if fst (attentionPending a) = StallQuestionPending
         then stallResult a StallQuestionPending DeadlineQuestionPending 0 (snd (attentionPending a))
         else stallResult a StallEscalationPending DeadlineEscalation 0 (snd (attentionPending a)))
      else (case staleToolCallResult a p now of
        Some r \<Rightarrow> r
      | None \<Rightarrow>
        if \<not> discovered a then classify_undiscovered a p now
        else if Transport a = TransportPipe \<and> pipeMidRPCFresh a p now
        then plain_result ProtocolWorkingLocal (leaseState a NoStall)
        else classify_rest a p now))"
  by (simp only: Classify_def classify_rest_def Let_def case_prod_beta)

lemma stall_persists:
  assumes st: "StallClass (Classify a p now) \<noteq> NoStall" and nt: "StallClass (Classify a p now) \<noteq> StallToolProgress"
    and le: "now \<le> now'"
  shows "StallClass (Classify a p now') \<noteq> NoStall"
proof (cases "SessionState a \<noteq> [] \<and> SessionState a \<noteq> ''active'' \<or> fst (attentionPending a) \<noteq> NoStall")
  case True
  then have "Classify a p now' = Classify a p now" by (auto simp: Classify_rest)
  with st show ?thesis by simp
next
  case False
  define rest where "rest t = (if \<not> discovered a then classify_undiscovered a p t
      else if Transport a = TransportPipe \<and> pipeMidRPCFresh a p t
      then plain_result ProtocolWorkingLocal (leaseState a NoStall) else classify_rest a p t)" for t
  from False have no: "\<not> (SessionState a \<noteq> [] \<and> SessionState a \<noteq> ''active'')"
    "\<not> fst (attentionPending a) \<noteq> NoStall" by blast+
  have C: "Classify a p t = (case staleToolCallResult a p t of Some r \<Rightarrow> r | None \<Rightarrow> rest t)" for t
    unfolding Classify_rest rest_def if_not_P [OF no(1)] if_not_P [OF no(2)] ..
  show ?thesis
  proof (cases "staleToolCallResult a p now'")
    case (Some r)
    with staleToolCall_Some [OF Some] show ?thesis by (simp add: C)
  next
    case None
    then have "staleToolCallResult a p now = None"
      using staleToolCall_mono [OF _ le] by (cases "staleToolCallResult a p now") auto
    with st nt have r: "StallClass (rest now) \<noteq> NoStall" "StallClass (rest now) \<noteq> StallToolProgress"
      by (simp_all add: C)
    have "StallClass (rest now') \<noteq> NoStall"
      using r classify_other_mono(2) [OF le] classify_rest_mono [OF le] fresh_antimono(2) [OF le]
      unfolding rest_def by (simp split: if_splits) blast
    with None show ?thesis by (simp add: C)
  qed
qed

text \<open>A verdict computed afresh names an instant that has passed.\<close>

lemma missed_since: "missed b s now \<Longrightarrow> \<exists>t. add_seconds s b = Some t \<and> t \<le> now"
  by (auto simp: missed_def add_seconds_def split: option.splits)

lemma stall_since_fresh:
  "PersistedStallClass a \<noteq> c \<Longrightarrow> StallSince (stallResult a c d s b) = add_seconds s b"
  by (simp add: stallResult_def)

lemma stall_not_early:
  assumes "StallClass (Classify a p now) = c" and "c \<notin> {NoStall, StallQuestionPending, StallEscalationPending}"
    and "PersistedStallClass a \<noteq> c"
  shows "\<exists>t. StallSince (Classify a p now) = Some t \<and> t \<le> now"
proof -
  define P where "P r \<longleftrightarrow> (StallClass r = c \<longrightarrow> (\<exists>t. StallSince r = Some t \<and> t \<le> now))" for r :: result
  have s: "missed b s now \<Longrightarrow> P (stallResult a c' d s b)" for c' d s b
    using missed_since [of b s now] stall_since_fresh [of a c'] assms(3) by (auto simp: P_def)
  have w: "P (workingResult a p now)" "P (plain_result pr l)" for pr l
    using assms(2) by (auto simp: P_def)
  have wedge: "toolProgressWedged a p now \<Longrightarrow> P (wedgeResult a p)"
    unfolding wedgeResult_def toolProgressWedged_def by (rule s) (simp split: if_splits)
  have lease: "P (classify_lease a p now)"
    unfolding classify_lease_def Let_def by (simp add: s w wedge)
  have idle: "P (classify_idle a p now)"
    unfolding classify_idle_def Let_def by (simp add: s w)
  have dead: "P r \<Longrightarrow> P (r\<lparr>Protocol := pr\<rparr>)" for r pr
    by (simp add: P_def)
  have und: "P (classify_undiscovered a p now)"
    unfolding classify_undiscovered_def Let_def by (simp add: s w dead)
  have "P (Classify a p now)"
  proof (cases rule: Classify_cases [of a p now])
    case (attention c' d at)
    with attention_class [OF attention(1)] assms(2) show ?thesis by (auto simp: P_def)
  next
    case (tool r)
    then obtain since where "missed since (ToolCallSeconds p) now"
      and "r = (stallResult a StallProtocolIdle DeadlineToolCall (ToolCallSeconds p) since)
             \<lparr>ToolCallSince := since, ToolCallDeadline := add_seconds (ToolCallSeconds p) since\<rparr>"
      by (auto simp: staleToolCallResult_def split: option.splits if_splits)
    with s [of since "ToolCallSeconds p" StallProtocolIdle DeadlineToolCall] tool(2) show ?thesis
      by (simp add: P_def)
  qed (simp_all add: s w lease idle und)
  with assms(1) show ?thesis by (simp add: P_def)
qed

lemma wedge_cause:
  assumes "StallClass (Classify a p now) = StallToolProgress"
  shows "toolProgressWedged a p now"
proof (cases rule: Classify_cases [of a p now])
  case lease
  with assms show ?thesis
    by (auto simp: classify_lease_def wedgeResult_def Let_def split: if_splits)
next
  case (attention c d at)
  with attention_class [OF attention(1)] assms show ?thesis by auto
next
  case (tool r)
  with staleToolCall_Some [OF tool(1)] assms show ?thesis by simp
qed (use assms in \<open>auto simp: classify_undiscovered_def classify_idle_def Let_def split: if_splits\<close>)

lemma lease_protected:
  assumes "fst (attentionPending a) = NoStall" and "staleToolCallResult a p now = None" and "discovered a"
    and "after (LastAwaitPacketAt a) (LastToolsListAt a)"
    and "LastPacketDeliveredAt a = None \<or> hasAckEquivalentAfter a (LastPacketDeliveredAt a)"
    and "ActiveLeaseID a \<noteq> []"
    and "\<not> missed (latestTime [LastWorkHeartbeatAt a, ActiveLeaseHeartbeatAt a, ActiveLeaseAcquiredAt a])
           (wrap64 (LeaseHeartbeatSeconds p + LeaseHeartbeatSlack p)) now"
  shows "StallClass (Classify a p now) \<in> {NoStall, StallToolProgress}"
proof -
  have "StallClass (classify_lease a p now) \<in> {NoStall, StallToolProgress}"
    using assms(7) by (simp add: classify_lease_def wedgeResult_def Let_def)
  moreover have "classify_rest a p now = classify_lease a p now"
    unfolding classify_rest_def using assms(4-6) by auto
  ultimately show ?thesis
    unfolding Classify_rest using assms(1-3) by simp
qed

section \<open>Properties\<close>

text \<open>C34: silent lanes are caught. Under the default policy a registered, active session (whose
  lease, if it holds one, has an acquisition time) about which nothing has been recorded for 330
  seconds is classified as stalled, whatever its history was.\<close>

theorem Classify_catches_silence:
  assumes "SessionState a = [] \<or> SessionState a = ''active''" and "RegisteredAt a \<noteq> None"
    and "ActiveLeaseID a \<noteq> [] \<longrightarrow> ActiveLeaseAcquiredAt a \<noteq> None"
    and "quiet_since a h" and "h + 330 * 1000000000 \<le> now"
  shows "StallClass (Classify a DefaultPolicy now) \<noteq> NoStall"
  using silent_stalled assms by (simp add: late_def)

text \<open>No verdict ahead of its deadline. For every policy, a stall verdict that is neither a
  pending question nor a pending escalation, and was not persisted before, dates the stall at an
  instant that has passed.\<close>

theorem Classify_never_early:
  assumes "StallClass (Classify a p now) \<notin> {NoStall, StallQuestionPending, StallEscalationPending}"
    and "PersistedStallClass a \<noteq> StallClass (Classify a p now)"
  shows "\<exists>t. StallSince (Classify a p now) = Some t \<and> t \<le> now"
  using stall_not_early [OF refl assms] .

text \<open>A stall verdict other than the wedge persists as long as no new activity is recorded.\<close>

theorem Classify_verdict_persists:
  assumes "StallClass (Classify a p now) \<notin> {NoStall, StallToolProgress}" and "now \<le> now'"
  shows "StallClass (Classify a p now') \<noteq> NoStall"
  using stall_persists [OF _ _ assms(2)] assms(1) by simp

text \<open>Evidence is typed honestly. A result carries the probe basis \<open>deadline_elapsed_only\<close>, and a
  protocol state of stalled, attention or dead, exactly when it names a stall class; only a
  \<open>pty_helper\<close> lane's basis can be upgraded to a confirmed death.\<close>

theorem Classify_probe_basis:
  "(StallClass (Classify a p now) \<noteq> NoStall \<longleftrightarrow> ProbeBasis (Classify a p now) = BasisDeadlineElapsedOnly) \<and>
   (StallClass (Classify a p now) \<noteq> NoStall \<longleftrightarrow>
      Protocol (Classify a p now) \<in> {ProtocolStalled, ProtocolAttention, ProtocolDead}) \<and>
   (UpgradeProbeBasisConfirmedDead t (ProbeBasis (Classify a p now)) = BasisPTYConfirmedDead \<longleftrightarrow>
      t = TransportPTYHelper \<and> StallClass (Classify a p now) \<noteq> NoStall)"
  using stall_basis [of a p now] no_stall_no_basis [of a p now]
  by (cases "ProbeBasis (Classify a p now)") (auto simp: UpgradeProbeBasisConfirmedDead_def)

text \<open>A heartbeat protects. A lease holder past discovery, await and ack whose lease heartbeat
  is inside its window is never reported as stalled, unless its tool-call history shows the wedge.\<close>

theorem Classify_heartbeat_protects:
  assumes "fst (attentionPending a) = NoStall" and "staleToolCallResult a p now = None" and "discovered a"
    and "after (LastAwaitPacketAt a) (LastToolsListAt a)"
    and "LastPacketDeliveredAt a = None \<or> hasAckEquivalentAfter a (LastPacketDeliveredAt a)"
    and "ActiveLeaseID a \<noteq> []"
    and "\<not> missed (latestTime [LastWorkHeartbeatAt a, ActiveLeaseHeartbeatAt a, ActiveLeaseAcquiredAt a])
           (wrap64 (LeaseHeartbeatSeconds p + LeaseHeartbeatSlack p)) now"
  shows "StallClass (Classify a p now) = NoStall \<or>
    StallClass (Classify a p now) = StallToolProgress \<and> toolProgressWedged a p now"
  using lease_protected [OF assms] wedge_cause by blast

section \<open>Concrete lanes\<close>

definition sec :: "int \<Rightarrow> instant option" where
  "sec s = Some (s * 1000000000)"

definition ex_activity :: activity where
  "ex_activity =
     \<lparr>SessionState = ''active'', RegisteredAt = sec 0, LastMCPRequestAt = sec 100, LastToolsListAt = sec 10,
      LastAwaitPacketAt = sec 20, LastPacketDeliveredAt = None, LastAckAt = None, LastWorkBlockAt = None,
      LastWorkReleaseAt = None, LastWorkCompleteAt = None, LastWorkHeartbeatAt = None, LastSessionReadyAt = None,
      LastSessionHeartbeatAt = None, LastSessionQuestionAt = None, LastSessionEscalateAt = None,
      LastPTYActivityAt = sec 995, LastPipeReadAt = None, LastToolCallStartedAt = sec 90,
      LastToolCallFinishedAt = sec 100, PersistedStallClass = NoStall, PersistedStallSince = None,
      ActiveLeaseID = ''lease'', ActiveLeaseAcquiredAt = sec 50, ActiveLeaseExpiresAt = None,
      ActiveLeaseHeartbeatAt = sec 900, Transport = TransportPTYHelper\<rparr>"

theorem Classify_catches_silence_witness:
  "StallClass (Classify ex_activity DefaultPolicy (1325 * 1000000000)) \<noteq> NoStall"
proof (rule Classify_catches_silence [of _ "995 * 1000000000"])
  show "quiet_since ex_activity (995 * 1000000000)" by code_simp
qed (simp_all add: ex_activity_def sec_def)

theorem Classify_never_early_witness:
  "StallClass (Classify ex_activity DefaultPolicy (1325 * 1000000000)) = StallLeaseHeartbeat \<and>
   (\<exists>t. StallSince (Classify ex_activity DefaultPolicy (1325 * 1000000000)) = Some t \<and> t \<le> 1325 * 1000000000)"
proof
  show c: "StallClass (Classify ex_activity DefaultPolicy (1325 * 1000000000)) = StallLeaseHeartbeat" by code_simp
  show "\<exists>t. StallSince (Classify ex_activity DefaultPolicy (1325 * 1000000000)) = Some t \<and> t \<le> 1325 * 1000000000"
    by (rule Classify_never_early) (simp_all only: c, simp_all add: ex_activity_def)
qed

theorem Classify_verdict_persists_witness:
  "StallClass (Classify ex_activity DefaultPolicy (2000 * 1000000000)) \<noteq> NoStall"
proof (rule Classify_verdict_persists [of _ _ "1325 * 1000000000"])
  have "StallClass (Classify ex_activity DefaultPolicy (1325 * 1000000000)) = StallLeaseHeartbeat" by code_simp
  then show "StallClass (Classify ex_activity DefaultPolicy (1325 * 1000000000)) \<notin> {NoStall, StallToolProgress}" by simp
qed simp

theorem Classify_heartbeat_protects_witness:
  "StallClass (Classify ex_activity DefaultPolicy (1060 * 1000000000)) = NoStall \<or>
   StallClass (Classify ex_activity DefaultPolicy (1060 * 1000000000)) = StallToolProgress \<and>
   toolProgressWedged ex_activity DefaultPolicy (1060 * 1000000000)"
  by (rule Classify_heartbeat_protects; code_simp)

text \<open>The wedge verdict needs the spinner. A lane without tool progress for ten minutes is
  reported as wedged while its terminal still repaints; when the terminal falls silent as well,
  and nothing else is recorded, the verdict is withdrawn and the lane reads quiet for as long as
  its lease heartbeat is fresh.\<close>

theorem wedge_withdrawn_by_silence:
  "StallClass (Classify ex_activity DefaultPolicy (1000 * 1000000000)) = StallToolProgress \<and>
   Protocol (Classify ex_activity DefaultPolicy (1060 * 1000000000)) = ProtocolQuiet \<and>
   StallClass (Classify ex_activity DefaultPolicy (1060 * 1000000000)) = NoStall"
  by code_simp

end
