(* ===== verification/RpcDedupe.thy ===== *)
theory RpcDedupe
  imports GoValue Liveness
begin

text \<open>
  The bounded set of keys behind the request ids and the handshakes of the daemon
  (\<open>rpc/dedupe.go\<close>): insertion with an expiry of old entries and a hard cap, what it promises
  about duplicates, and its bound.
\<close>

section \<open>The store\<close>

record boundedSeen =
  maxEntries :: int
  ttl :: int
  entries :: "(string \<times> instant) list"

definition defaultDedupeMaxEntries :: int where
  "defaultDedupeMaxEntries = 50000"

definition defaultDedupeTTL :: int where
  "defaultDedupeTTL = seconds (10 * 60)"

definition newBoundedSeen :: "int \<Rightarrow> int \<Rightarrow> boundedSeen" where
  "newBoundedSeen n t =
     \<lparr>maxEntries = (if n \<le> 0 then defaultDedupeMaxEntries else n),
      ttl = (if t \<le> 0 then defaultDedupeTTL else t), entries = []\<rparr>"

definition sweepLocked :: "instant \<Rightarrow> boundedSeen \<Rightarrow> boundedSeen" where
  "sweepLocked now b = b\<lparr>entries := filter (\<lambda>e. \<not> snd e < now - ttl b) (entries b)\<rparr>"

text \<open>The scan for the oldest entry: the first of the earliest ones.\<close>

fun oldest :: "string \<times> instant \<Rightarrow> (string \<times> instant) list \<Rightarrow> string \<times> instant" where
  "oldest m [] = m"
| "oldest m (e # es) = oldest (if snd e < snd m then e else m) es"

lemma oldest_in: "oldest m es \<in> set (m # es)"
  by (induction es arbitrary: m) (fastforce split: if_splits)+

lemma drop_key_shorter: "e \<in> set es \<Longrightarrow> length (filter (\<lambda>x. fst x \<noteq> fst e) es) < length es"
  by (rule length_filter_less) auto

function enforceCap :: "int \<Rightarrow> (string \<times> instant) list \<Rightarrow> (string \<times> instant) list" where
  "enforceCap n [] = []"
| "enforceCap n (e # es) =
     (if int (length (e # es)) > n
      then enforceCap n (filter (\<lambda>x. fst x \<noteq> fst (oldest e es)) (e # es)) else e # es)"
  by pat_completeness auto

termination enforceCap
proof (relation "measure (\<lambda>(n, es). length es)")
  fix n e es
  show "((n, filter (\<lambda>x. fst x \<noteq> fst (oldest e es)) (e # es)), n, e # es) \<in> measure (\<lambda>(n, es). length es)"
    using drop_key_shorter[OF oldest_in[of e es]] by (simp del: filter.simps)
qed simp

declare enforceCap.simps [simp del]

definition enforceCapLocked :: "boundedSeen \<Rightarrow> boundedSeen" where
  "enforceCapLocked b = b\<lparr>entries := enforceCap (maxEntries b) (entries b)\<rparr>"

definition Add :: "instant \<Rightarrow> string \<Rightarrow> boundedSeen \<Rightarrow> bool \<times> boundedSeen" where
  "Add now key b =
     (if key = [] then (False, b)
      else let b1 = sweepLocked now b in
        if key \<in> fst ` set (entries b1) then (True, b1)
        else (False, enforceCapLocked (b1\<lparr>entries := entries b1 @ [(key, now)]\<rparr>)))"

definition Contains :: "instant \<Rightarrow> string \<Rightarrow> boundedSeen \<Rightarrow> bool \<times> boundedSeen" where
  "Contains now key b = (let b1 = sweepLocked now b in (key \<in> fst ` set (entries b1), b1))"

section \<open>Laws\<close>

lemma enforceCap_id: "int (length es) \<le> n \<Longrightarrow> enforceCap n es = es"
  by (cases es) (simp_all add: enforceCap.simps)

lemma enforceCap_step:
  "n < int (length (e # es)) \<Longrightarrow> enforceCap n (e # es) = enforceCap n (filter (\<lambda>x. fst x \<noteq> fst (oldest e es)) (e # es))"
  by (subst enforceCap.simps) (simp del: filter.simps)

text \<open>What every removal of an entry keeps, the loop keeps.\<close>

lemma enforceCap_keeps:
  assumes "P es" "\<And>q es. P es \<Longrightarrow> P (filter q es)"
  shows "P (enforceCap n es)"
  using assms(1)
proof (induction n es rule: enforceCap.induct)
  case (2 n e es)
  show ?case
  proof (cases "n < int (length (e # es))")
    case True
    then show ?thesis using 2(1)[OF _ assms(2)[OF 2(2)]] by (simp add: enforceCap_step del: filter.simps)
  qed (use 2(2) in \<open>simp add: enforceCap_id\<close>)
qed (use assms in \<open>simp add: enforceCap.simps\<close>)

lemma enforceCap_length: "0 \<le> n \<Longrightarrow> int (length (enforceCap n es)) \<le> n"
proof (induction n es rule: enforceCap.induct)
  case (2 n e es)
  show ?case
  proof (cases "n < int (length (e # es))")
    case True
    then show ?thesis using 2 by (simp add: enforceCap_step del: filter.simps)
  qed (simp add: enforceCap_id)
qed (simp add: enforceCap.simps)

lemma enforceCap_subset: "set (enforceCap n es) \<subseteq> set es"
  by (rule enforceCap_keeps) auto

lemma enforceCap_distinct: "distinct (map fst es) \<Longrightarrow> distinct (map fst (enforceCap n es))"
  by (rule enforceCap_keeps) (auto intro: distinct_map_filter)

definition seen_ok :: "boundedSeen \<Rightarrow> bool" where
  "seen_ok b \<longleftrightarrow>
     0 < maxEntries b \<and> 0 < ttl b \<and> int (length (entries b)) \<le> maxEntries b \<and>
     distinct (map fst (entries b)) \<and> [] \<notin> fst ` set (entries b)"

lemma newBoundedSeen_ok: "seen_ok (newBoundedSeen n t)"
  by (simp add: seen_ok_def newBoundedSeen_def defaultDedupeMaxEntries_def defaultDedupeTTL_def seconds_def wrap64_def)

lemma sweep_ok: "seen_ok b \<Longrightarrow> seen_ok (sweepLocked now b)"
  by (auto simp: seen_ok_def sweepLocked_def distinct_map_filter intro: order_trans[OF of_nat_mono[OF length_filter_le]])

lemma Add_ok:
  assumes "seen_ok b"
  shows "seen_ok (snd (Add now key b))"
proof -
  let ?b = "sweepLocked now b"
  have ok: "seen_ok ?b" by (rule sweep_ok[OF assms])
  show ?thesis
  proof (cases "key = [] \<or> key \<in> fst ` set (entries ?b)")
    case True
    then show ?thesis using assms ok by (auto simp: Add_def Let_def)
  next
    case False
    let ?es = "entries ?b @ [(key, now)]"
    have "distinct (map fst ?es)" "[] \<notin> fst ` set ?es" using ok False by (auto simp: seen_ok_def)
    then have "distinct (map fst (enforceCap (maxEntries ?b) ?es))" "[] \<notin> fst ` set (enforceCap (maxEntries ?b) ?es)"
      using enforceCap_distinct enforceCap_subset by blast+
    then show ?thesis using ok False enforceCap_length[of "maxEntries ?b" ?es]
      by (auto simp: Add_def Let_def enforceCapLocked_def seen_ok_def)
  qed
qed

lemma Contains_ok: "seen_ok b \<Longrightarrow> seen_ok (snd (Contains now key b))"
  by (simp add: Contains_def Let_def sweep_ok)

section \<open>What the store promises\<close>

text \<open>
  The window: of the keys ever accepted, the ones not older than the expiry are the duplicates. It
  remembers everything; the store agrees with it as long as no window is fuller than the cap.
\<close>

definition recent :: "int \<Rightarrow> instant \<Rightarrow> (string \<times> instant) list \<Rightarrow> (string \<times> instant) list" where
  "recent d now = filter (\<lambda>e. now - d \<le> snd e)"

fun window_adds :: "int \<Rightarrow> (string \<times> instant) list \<Rightarrow> (instant \<times> string) list \<Rightarrow> bool list" where
  "window_adds d hist [] = []"
| "window_adds d hist ((now, key) # evs) =
     (let dup = key \<noteq> [] \<and> key \<in> fst ` set (recent d now hist) in
      dup # window_adds d (if dup \<or> key = [] then hist else hist @ [(key, now)]) evs)"

fun run_adds :: "boundedSeen \<Rightarrow> (instant \<times> string) list \<Rightarrow> bool list \<times> boundedSeen" where
  "run_adds b [] = ([], b)"
| "run_adds b ((now, key) # evs) =
     (let r = Add now key b; rs = run_adds (snd r) evs in (fst r # fst rs, snd rs))"

lemma run_adds_ok: "seen_ok b \<Longrightarrow> seen_ok (snd (run_adds b evs)) \<and> maxEntries (snd (run_adds b evs)) = maxEntries b"
proof (induction b evs rule: run_adds.induct)
  case (2 b now key evs)
  have "maxEntries (snd (Add now key b)) = maxEntries b"
    by (simp add: Add_def Let_def sweepLocked_def enforceCapLocked_def)
  then show ?case using 2(1)[OF refl] Add_ok[OF 2(2)] by (simp add: Let_def)
qed simp

lemma entries_sweep: "entries (sweepLocked now b) = recent (ttl b) now (entries b)"
  by (simp add: sweepLocked_def recent_def not_less)

lemma recent_later:
  assumes "t \<le> now" "recent d t xs = recent d t ys"
  shows "recent d now xs = recent d now ys"
proof -
  have "recent d now zs = recent d now (recent d t zs)" for zs
    using assms(1) by (auto simp: recent_def intro!: filter_cong)
  then show ?thesis using assms(2) by metis
qed

definition in_window :: "int \<Rightarrow> instant \<Rightarrow> (instant \<times> string) list \<Rightarrow> nat" where
  "in_window d t evs = length (filter (\<lambda>e. t - d \<le> fst e \<and> fst e \<le> t) evs)"

lemma recent_append [simp]: "recent d now (recent d now xs) = recent d now xs"
    "recent d now (xs @ ys) = recent d now xs @ recent d now ys" "0 < d \<Longrightarrow> recent d now [(k, now)] = [(k, now)]"
  by (simp_all add: recent_def)

lemma Add_empty: "Add now [] b = (False, b)"
  by (simp add: Add_def)

lemma Add_dup: "key \<noteq> [] \<Longrightarrow> key \<in> fst ` set (recent (ttl b) now (entries b)) \<Longrightarrow> Add now key b = (True, sweepLocked now b)"
  by (simp add: Add_def Let_def entries_sweep)

lemma Add_new:
  "key \<noteq> [] \<Longrightarrow> key \<notin> fst ` set (recent (ttl b) now (entries b)) \<Longrightarrow>
   int (length (recent (ttl b) now (entries b))) + 1 \<le> maxEntries b \<Longrightarrow>
   Add now key b = (False, b\<lparr>entries := recent (ttl b) now (entries b) @ [(key, now)]\<rparr>)"
  by (simp add: Add_def Let_def entries_sweep enforceCapLocked_def enforceCap_id)
    (simp add: sweepLocked_def enforceCap_id)

lemma run_adds_window:
  assumes "0 < ttl b" "recent (ttl b) t0 (entries b) = recent (ttl b) t0 hist" "sorted (map fst evs)"
    "\<forall>e \<in> set evs. t0 \<le> fst e"
    "\<forall>e \<in> set evs. int (length (recent (ttl b) (fst e) hist) + in_window (ttl b) (fst e) evs) \<le> maxEntries b"
  shows "fst (run_adds b evs) = window_adds (ttl b) hist evs"
  using assms
proof (induction evs arbitrary: b t0 hist)
  case (Cons e evs)
  obtain now key where e: "e = (now, key)" by (cases e)
  let ?d = "ttl b"
  define dup where "dup = (key \<noteq> [] \<and> key \<in> fst ` set (recent ?d now hist))"
  define hist' where "hist' = (if dup \<or> key = [] then hist else hist @ [(key, now)])"
  have now: "recent ?d now (entries b) = recent ?d now hist"
    using recent_later[OF _ Cons.prems(2)] Cons.prems(4) e by simp
  have fit: "int (length (recent ?d now hist)) + 1 \<le> maxEntries b"
    using Cons.prems(1,5) e by (auto simp: in_window_def)
  have step: "fst (Add now key b) = dup \<and> recent ?d now (entries (snd (Add now key b))) = recent ?d now hist' \<and>
      ttl (snd (Add now key b)) = ?d \<and> maxEntries (snd (Add now key b)) = maxEntries b"
  proof (cases "key = []")
    case True
    then show ?thesis using now by (simp add: Add_empty dup_def hist'_def)
  next
    case ne: False
    show ?thesis
    proof (cases dup)
      case True
      then have "Add now key b = (True, sweepLocked now b)" using ne now by (intro Add_dup) (simp_all add: dup_def)
      then show ?thesis using True now by (simp add: hist'_def entries_sweep recent_append) (simp add: sweepLocked_def)
    next
      case False
      then have "Add now key b = (False, b\<lparr>entries := recent ?d now (entries b) @ [(key, now)]\<rparr>)"
        using ne now fit by (intro Add_new) (simp_all add: dup_def)
      then show ?thesis using False ne now Cons.prems(1) by (simp add: hist'_def recent_append)
    qed
  qed
  have room: "int (length (recent ?d (fst x) hist') + in_window ?d (fst x) evs) \<le> maxEntries b" if x: "x \<in> set evs" for x
  proof -
    have le: "now \<le> fst x" using Cons.prems(3) e x by auto
    have "length (recent ?d (fst x) hist') \<le> length (recent ?d (fst x) hist) + (if fst x - ?d \<le> now then 1 else 0)"
      by (simp add: hist'_def recent_def)
    moreover have "in_window ?d (fst x) (e # evs) = (if fst x - ?d \<le> now then 1 else 0) + in_window ?d (fst x) evs"
      using le e by (simp add: in_window_def)
    moreover have "int (length (recent ?d (fst x) hist) + in_window ?d (fst x) (e # evs)) \<le> maxEntries b"
      using Cons.prems(5) x by simp
    ultimately show ?thesis by linarith
  qed
  have "fst (run_adds (snd (Add now key b)) evs) = window_adds ?d hist' evs"
    using Cons.IH[of "snd (Add now key b)" now hist'] Cons.prems(1,3) step room e by auto
  then show ?case using step by (simp add: e Let_def dup_def hist'_def)
qed simp

text \<open>Memory of the daemon stays bounded before authorization. Whatever keys arrive at whatever times,
  the store never holds more entries than its cap, no key twice, and never the empty key.\<close>

theorem seen_bounded:
  "int (length (entries (snd (run_adds (newBoundedSeen n t) evs)))) \<le> (if n \<le> 0 then 50000 else n) \<and>
   distinct (map fst (entries (snd (run_adds (newBoundedSeen n t) evs)))) \<and>
   [] \<notin> fst ` set (entries (snd (run_adds (newBoundedSeen n t) evs)))"
  using run_adds_ok[OF newBoundedSeen_ok[of n t], of evs]
  by (simp add: seen_ok_def) (simp add: newBoundedSeen_def defaultDedupeMaxEntries_def split: if_splits)

text \<open>C33: The duplicate signal is exact within the cap. While the clock does not go back and no window of
  the expiry holds more events than the cap, the store answers that a key is a duplicate exactly when
  the same key was accepted within the expiry before, as the unbounded record of all keys does.\<close>

theorem dedupe_refines_window:
  assumes "sorted (map fst evs)" "\<forall>e \<in> set evs. int (in_window (ttl (newBoundedSeen n t)) (fst e) evs) \<le> maxEntries (newBoundedSeen n t)"
  shows "fst (run_adds (newBoundedSeen n t) evs) = window_adds (ttl (newBoundedSeen n t)) [] evs"
proof (cases evs)
  case (Cons e es)
  let ?b = "newBoundedSeen n t"
  have first: "\<forall>x \<in> set evs. fst e \<le> fst x" using assms(1) Cons by auto
  have new: "0 < ttl ?b" "entries ?b = []" using newBoundedSeen_ok[of n t] by (simp_all add: seen_ok_def newBoundedSeen_def)
  show ?thesis
    by (rule run_adds_window[OF new(1) _ assms(1) first]) (use assms(2) new(2) in \<open>simp_all add: recent_def\<close>)
qed simp

theorem dedupe_refines_window_witness:
  "fst (run_adds (newBoundedSeen 3 0) [(0, ''a''), (seconds 5, ''a''), (seconds 6, ''b''), (seconds 601, ''a'')]) =
     window_adds (ttl (newBoundedSeen 3 0)) [] [(0, ''a''), (seconds 5, ''a''), (seconds 6, ''b''), (seconds 601, ''a'')] \<and>
   window_adds (ttl (newBoundedSeen 3 0)) [] [(0, ''a''), (seconds 5, ''a''), (seconds 6, ''b''), (seconds 601, ''a'')] =
     [False, True, False, False]"
proof
  let ?evs = "[(0, ''a''), (seconds 5, ''a''), (seconds 6, ''b''), (seconds 601, ''a'')]"
  have "sorted (map fst ?evs)" by code_simp
  moreover have "list_all (\<lambda>e. int (in_window (ttl (newBoundedSeen 3 0)) (fst e) ?evs) \<le> maxEntries (newBoundedSeen 3 0)) ?evs"
    by code_simp
  ultimately show "fst (run_adds (newBoundedSeen 3 0) ?evs) = window_adds (ttl (newBoundedSeen 3 0)) [] ?evs"
    by (intro dedupe_refines_window) (auto simp only: list_all_iff)
  show "window_adds (ttl (newBoundedSeen 3 0)) [] ?evs = [False, True, False, False]" by code_simp
qed

end
