(* ===== verification/RpcCatalog.thy ===== *)
theory RpcCatalog
  imports Prelude
begin

text \<open>
  The two tables of the RPC surface: the registry of its methods (\<open>rpc/registry.go\<close>,
  \<open>rpc/registry_methods.go\<close>), with the capability and the scope a call needs, and the catalog of the
  error codes (\<open>rpc/error_catalog.go\<close>). The texts of the catalog are bytes of UTF-8.
\<close>

section \<open>The method registry\<close>

definition Capabilities :: "string list" where
  "Capabilities =
     [''read'', ''write'', ''review'', ''claim'', ''apply'', ''admin'', ''recovery'', ''surgical_recovery'']"

record MethodEntry =
  me_method :: string
  me_capability :: "string option"
  me_repo_scope :: bool
  me_mode :: string
  me_params_version :: int
  me_audit_class :: string
  me_min_envelope :: int
  me_deprecated :: bool

definition NewMethod :: "string \<Rightarrow> string option \<Rightarrow> bool \<Rightarrow> string \<Rightarrow> MethodEntry" where
  "NewMethod m c scope mode =
     \<lparr>me_method = m, me_capability = c, me_repo_scope = scope,
      me_mode = (if mode = [] then (if scope then ''single_repo'' else ''daemon_global'') else mode),
      me_params_version = 1, me_audit_class = ''metadata'', me_min_envelope = 1, me_deprecated = False\<rparr>"

definition DeprecatedAlias :: "string \<Rightarrow> string \<Rightarrow> MethodEntry" where
  "DeprecatedAlias m c = (NewMethod m (Some c) True [])\<lparr>me_deprecated := True\<rparr>"

text \<open>The literals of the generated table: the fields it does not show are the same in every row.\<close>

fun method_row :: "string \<times> string option \<times> bool \<times> string \<times> bool \<Rightarrow> MethodEntry" where
  "method_row (m, c, scope, mode, deprecated) =
     \<lparr>me_method = m, me_capability = c, me_repo_scope = scope, me_mode = mode,
      me_params_version = 1, me_audit_class = ''metadata'', me_min_envelope = 1, me_deprecated = deprecated\<rparr>"

definition methodEntries :: "MethodEntry list" where
  "methodEntries = map method_row
     [(''trajectory.export'', Some ''read'', True, ''single_repo'', False),
      (''trajectory.watch'', Some ''read'', True, ''single_repo'', False),
      (''interrogation.open'', Some ''write'', True, ''single_repo'', False),
      (''interrogation.ask'', Some ''write'', True, ''single_repo'', False),
      (''interrogation.answer'', Some ''write'', True, ''single_repo'', False),
      (''interrogation.close'', Some ''write'', True, ''single_repo'', False),
      (''interrogation.list'', Some ''read'', True, ''single_repo'', False),
      (''interrogation.show'', Some ''read'', True, ''single_repo'', False),
      (''conversation.open'', Some ''write'', True, ''single_repo'', False),
      (''conversation.say'', Some ''write'', True, ''single_repo'', False),
      (''conversation.close'', Some ''write'', True, ''single_repo'', False),
      (''conversation.list'', Some ''read'', True, ''single_repo'', False),
      (''conversation.show'', Some ''read'', True, ''single_repo'', False),
      (''daemon.hello'', None, False, ''daemon_global'', False),
      (''daemon.describe'', Some ''read'', False, ''daemon_global'', False),
      (''status'', Some ''read'', True, ''single_repo'', False),
      (''why'', Some ''read'', True, ''single_repo'', False),
      (''whose'', Some ''read'', True, ''single_repo'', False),
      (''operator.bootstrap'', Some ''admin'', True, ''single_repo'', False),
      (''operator.heartbeat'', Some ''admin'', True, ''single_repo'', False),
      (''operator.close'', Some ''admin'', True, ''single_repo'', False),
      (''doctor'', Some ''read'', True, ''single_repo'', False),
      (''join.verify'', Some ''read'', True, ''single_repo'', False),
      (''doctor.blob_block'', Some ''read'', False, ''daemon_global'', False),
      (''dashboard'', Some ''read'', True, ''single_repo'', False),
      (''evidence.export'', Some ''read'', True, ''single_repo'', False),
      (''corpus.export'', Some ''read'', True, ''single_repo'', False),
      (''recall.search'', Some ''read'', True, ''single_repo'', False),
      (''archive.create'', Some ''read'', True, ''single_repo'', False),
      (''git.snapshot'', Some ''read'', True, ''single_repo'', False),
      (''git.commit_apply'', Some ''apply'', True, ''single_repo'', False),
      (''run.summary'', Some ''read'', True, ''single_repo'', False),
      (''run.detail'', Some ''read'', True, ''single_repo'', False),
      (''job.detail'', Some ''read'', True, ''single_repo'', False),
      (''run.graph'', Some ''read'', True, ''single_repo'', False),
      (''run.events'', Some ''read'', True, ''single_repo'', False),
      (''run.posture_verdicts'', Some ''read'', True, ''single_repo'', False),
      (''workflow.validate'', Some ''read'', True, ''single_repo'', False),
      (''workflow.lint'', Some ''read'', True, ''single_repo'', False),
      (''workflow.plan'', Some ''read'', True, ''single_repo'', False),
      (''workflow.graph'', Some ''read'', True, ''single_repo'', False),
      (''workflow.accepted_risks.list'', Some ''read'', True, ''single_repo'', False),
      (''workflow.templates.list'', Some ''read'', True, ''single_repo'', False),
      (''workflow.templates.show'', Some ''read'', True, ''single_repo'', False),
      (''workflow.generate.preview'', Some ''read'', True, ''single_repo'', False),
      (''list.runs'', Some ''read'', True, ''single_repo'', False),
      (''list.sessions'', Some ''read'', True, ''single_repo'', False),
      (''list.jobs'', Some ''read'', True, ''single_repo'', False),
      (''list.artifacts'', Some ''read'', True, ''single_repo'', False),
      (''artifact.show'', Some ''read'', True, ''single_repo'', False),
      (''artifact.get_content'', Some ''read'', True, ''single_repo'', False),
      (''artifact.list_for_run'', Some ''read'', True, ''single_repo'', False),
      (''records.docket'', Some ''read'', True, ''single_repo'', False),
      (''corpus.migrate_historical_dogfood_file'', Some ''write'', True, ''single_repo'', False),
      (''artifact.backfill_blob'', Some ''write'', True, ''single_repo'', False),
      (''corpus.list_historical_dogfoods'', Some ''read'', True, ''single_repo'', False),
      (''corpus.list_historical_dogfood_files'', Some ''read'', True, ''single_repo'', False),
      (''corpus.fetch_historical_dogfood_file'', Some ''read'', True, ''single_repo'', False),
      (''list.workflows'', Some ''read'', True, ''single_repo'', False),
      (''escalation.list'', Some ''read'', True, ''single_repo'', False),
      (''escalation.show'', Some ''read'', True, ''single_repo'', False),
      (''escalation.resolve'', Some ''admin'', True, ''single_repo'', False),
      (''worktree.list'', Some ''read'', True, ''single_repo'', False),
      (''dashboard.all'', Some ''read'', False, ''daemon_global'', False),
      (''repo.list'', Some ''read'', False, ''daemon_global'', False),
      (''repo.resolve'', Some ''read'', False, ''daemon_global'', False),
      (''session.register'', Some ''claim'', True, ''single_repo'', False),
      (''session.close'', Some ''claim'', True, ''single_repo'', False),
      (''session.report'', Some ''claim'', True, ''single_repo'', False),
      (''wake.wait'', Some ''read'', True, ''single_repo'', False),
      (''work.claim_next'', Some ''claim'', True, ''single_repo'', False),
      (''work.claim_override'', Some ''admin'', True, ''single_repo'', False),
      (''work.await_packet'', Some ''claim'', True, ''single_repo'', False),
      (''work.packet_show'', Some ''read'', True, ''single_repo'', False),
      (''work.ack'', Some ''claim'', True, ''single_repo'', False),
      (''work.heartbeat'', Some ''claim'', True, ''single_repo'', False),
      (''work.release'', Some ''claim'', True, ''single_repo'', False),
      (''supervise.start'', Some ''claim'', True, ''single_repo'', False),
      (''supervise.send'', Some ''claim'', True, ''single_repo'', False),
      (''supervise.rebridge'', Some ''claim'', True, ''single_repo'', False),
      (''supervise.report'', Some ''claim'', True, ''single_repo'', False),
      (''supervise.stop'', Some ''claim'', True, ''single_repo'', False),
      (''supervise.status'', Some ''read'', True, ''single_repo'', False),
      (''supervise.list'', Some ''read'', True, ''single_repo'', False),
      (''supervise.trajectory'', Some ''read'', True, ''single_repo'', False),
      (''supervise.reattach_status'', Some ''read'', True, ''single_repo'', False),
      (''work.send_message'', Some ''write'', True, ''single_repo'', False),
      (''work.block'', Some ''write'', True, ''single_repo'', False),
      (''work.complete'', Some ''write'', True, ''single_repo'', False),
      (''artifact.publish'', Some ''write'', True, ''single_repo'', False),
      (''repo.write'', Some ''write'', True, ''single_repo'', False),
      (''repo.patch_preview'', Some ''write'', True, ''single_repo'', False),
      (''repo.patch_apply'', Some ''write'', True, ''single_repo'', False),
      (''process.run'', Some ''write'', True, ''single_repo'', False),
      (''worktree.create'', Some ''write'', True, ''single_repo'', False),
      (''worktree.release'', Some ''write'', True, ''single_repo'', False),
      (''worktree.anchor'', Some ''write'', True, ''single_repo'', False),
      (''worktree.gc'', Some ''write'', True, ''single_repo'', False),
      (''workflow.init'', Some ''write'', True, ''single_repo'', False),
      (''workflow.generate'', Some ''write'', True, ''single_repo'', False),
      (''workflow.upgrade'', Some ''write'', True, ''single_repo'', False),
      (''workflow.accept_risk'', Some ''admin'', True, ''single_repo'', False),
      (''review.submit'', Some ''review'', True, ''single_repo'', False),
      (''review.verdict'', Some ''review'', True, ''single_repo'', False),
      (''review.override'', Some ''admin'', True, ''single_repo'', False),
      (''decision.record'', Some ''admin'', True, ''single_repo'', False),
      (''checkpoint.resolve'', Some ''admin'', True, ''single_repo'', False),
      (''verifier.attest'', Some ''admin'', True, ''single_repo'', False),
      (''branch.confirm'', Some ''admin'', True, ''single_repo'', False),
      (''run.prepare'', Some ''admin'', True, ''single_repo'', False),
      (''run.start'', Some ''admin'', True, ''single_repo'', False),
      (''run.pause'', Some ''admin'', True, ''single_repo'', False),
      (''run.resume'', Some ''admin'', True, ''single_repo'', False),
      (''run.cancel'', Some ''admin'', True, ''single_repo'', False),
      (''run.retry_job'', Some ''admin'', True, ''single_repo'', False),
      (''run.integrate'', Some ''apply'', True, ''single_repo'', False),
      (''repo.init'', Some ''admin'', True, ''single_repo'', False),
      (''recovery.stale_leases'', Some ''recovery'', True, ''single_repo'', False),
      (''recovery.requeue_stale'', Some ''recovery'', True, ''single_repo'', False),
      (''recovery.cancel_job'', Some ''recovery'', True, ''single_repo'', False),
      (''recovery.process_reconcile'', Some ''recovery'', True, ''single_repo'', False),
      (''recovery.resume'', Some ''recovery'', True, ''single_repo'', False),
      (''recovery.sweep'', Some ''recovery'', True, ''single_repo'', False),
      (''recovery.auto'', Some ''recovery'', True, ''single_repo'', True),
      (''recovery.auto_publish_stale_artifacts'', Some ''recovery'', True, ''single_repo'', False),
      (''recovery.auto_finalize'', Some ''recovery'', True, ''single_repo'', False),
      (''recovery.invalidate_job'', Some ''recovery'', True, ''single_repo'', False),
      (''recovery.reseal'', Some ''recovery'', True, ''single_repo'', False),
      (''recovery.complete_stalled'', Some ''recovery'', True, ''single_repo'', False),
      (''recovery.accept_quarantined'', Some ''recovery'', True, ''single_repo'', False),
      (''recovery.resolve_blocker'', Some ''recovery'', True, ''single_repo'', False),
      (''recovery.prune_debris'', Some ''recovery'', True, ''single_repo'', False),
      (''recovery.quarantine_lane'', Some ''recovery'', True, ''single_repo'', False),
      (''apply.receipt.show'', Some ''read'', True, ''single_repo'', False),
      (''apply.receipt.verify'', Some ''read'', True, ''single_repo'', False),
      (''repo.add'', Some ''admin'', False, ''daemon_global'', False),
      (''repo.remove'', Some ''admin'', False, ''daemon_global'', False),
      (''daemon.token.create'', Some ''admin'', False, ''daemon_global'', False),
      (''daemon.token.revoke'', Some ''admin'', False, ''daemon_global'', False),
      (''daemon.token.rotate'', Some ''admin'', False, ''daemon_global'', False),
      (''daemon.key.rotate'', Some ''admin'', False, ''daemon_global'', False),
      (''daemon.shutdown'', Some ''admin'', False, ''daemon_global'', False),
      (''daemon.migrate'', Some ''admin'', False, ''daemon_global'', False),
      (''ack'', Some ''claim'', True, ''single_repo'', True),
      (''heartbeat'', Some ''claim'', True, ''single_repo'', True),
      (''release'', Some ''claim'', True, ''single_repo'', True),
      (''block'', Some ''write'', True, ''single_repo'', True),
      (''complete'', Some ''write'', True, ''single_repo'', True),
      (''publish_artifact'', Some ''write'', True, ''single_repo'', True),
      (''claim_next'', Some ''claim'', True, ''single_repo'', True),
      (''verdict'', Some ''review'', True, ''single_repo'', True),
      (''submit_review'', Some ''review'', True, ''single_repo'', True)]"

definition buildRegistry :: "MethodEntry list \<Rightarrow> string \<rightharpoonup> MethodEntry" where
  "buildRegistry es = fold (\<lambda>e r. r(me_method e \<mapsto> e)) es Map.empty"

definition MethodRegistry :: "string \<rightharpoonup> MethodEntry" where
  "MethodRegistry = buildRegistry methodEntries"

definition SortedMethods :: "MethodEntry list" where
  "SortedMethods = sort_key me_method methodEntries"

section \<open>The error catalog\<close>

definition em_dash :: string where
  "em_dash = [CHR 0xE2, CHR 0x80, CHR 0x94]"

definition section_sign :: string where
  "section_sign = [CHR 0xC2, CHR 0xA7]"

text \<open>A code, its meaning and its default remediation.\<close>

definition ErrorCatalog :: "(string \<times> string \<times> string) list" where
  "ErrorCatalog =
     [
      (''artifact_error'',
       ''An artifact operation (publish, read, validation, or flag contract) failed.'',
       ''Read the message for the failing artifact constraint, fix the artifact (front matter, paths, required flags), and retry the publish.''),
      (''audit_append_failed'',
       ''The daemon could not append the audit row, so the operation was refused or rolled back (fail-closed provenance).'',
       ''Retry once; if it persists, check daemon PostgreSQL health with `striatum doctor` and report the audit_id.''),
      (''autonomous_worktree_isolation_required'',
       ''A supervised or agent-loop repo-write lane is configured to use the shared checkout without a recorded interactive-human compatibility override.'',
       ''Set worktree_isolation: per_job on the repo-write lane, or set allow_shared_checkout_repo_write=true with a non-empty shared_checkout_repo_write_rationale for an explicit interactive-human compatibility workflow.''),
      (''bad_host'',
       ''The MCP endpoint rejected a request whose Host header is not loopback.'',
       ''Call the daemon MCP endpoint via its loopback address exactly as provided in STRIATUM_MCP_URL.''),
      (''bad_origin'',
       ''The MCP endpoint rejected a browser-style request whose Origin header is not loopback.'',
       ''Send requests from a loopback origin or drop the Origin header.''),
      (''base_head_mismatch'',
       ''The current git HEAD does not match the commit_request base_head.'',
       ''Regenerate the commit_request against the current HEAD, then re-run git.commit_apply.''),
      (''barrier_blocked'',
       ''A sealed expectation barrier (RFC 0135) cannot fire because a live in-edge is a blocking contribution or an unresolvable seat (BARRIER_BLOCKED), not a clean terminal gap.'',
       ''Resolve the blocked seat(s) listed in blocked_manifest (clear the blocker, complete or recover the seat), or recover the run; then re-run `striatum join verify <barrier-id>`.''),
      (''barrier_integrity_failed'',
       ''A sealed expectation barrier (RFC 0135) failed integrity verification: its manifest does not match the staged refs at the live seal, or its assembly journal is inconsistent (unreachable target, committed-manifest mismatch, or terminal failure).'',
       ''Inspect the problems and manifest in the verify result; recover the assembly through the daemon (do not hand-finish), then re-run `striatum join verify <barrier-id>`.''),
      (''barrier_smuggled_content'',
       ''A fan-in staging contribution smuggles content into the join (RFC 0133 Risks / #352, #353): a merge commit in its chain grafts an off-base side branch, the frozen tip's tree no longer matches the sealed frozen_tip_tree_sha, or the contribution does not descend from the frozen base AND is a contaminated base rather than a recoverable drift (disjoint history, or an off-base foreign root the frozen base does not share). A legitimate base drift (the run branch evolved under the sibling's feet, sharing a real merge-base and no foreign root) is recovered as an extra-parent leg, not refused; this code marks the cases that cannot be recovered.'',
       ''Re-author the contribution on top of the frozen base or its evolved lineage (no merge of an off-base / disjoint branch) and re-stage; if the frozen tip's tree was re-pointed, the run is exposing a corrupted base '' @ em_dash @ '' recover it through the daemon, do not hand-finish.''),
      (''blob_apply_required'',
       ''The blob bucket does not exist and creation was not authorized.'',
       ''Re-run `striatum repo add <path> --apply-blob-creation` to create the bucket.''),
      (''blob_disabled'',
       ''The daemon is not configured for blob storage.'',
       []),
      (''blob_head_failed'',
       ''The blob backend failed to stat an object.'',
       []),
      (''blob_list_failed'',
       ''The blob backend failed to list a bucket.'',
       []),
      (''blob_provision_failed'',
       ''The blob backend failed to provision the repository bucket.'',
       []),
      (''blob_publish_failed'',
       ''Uploading an artifact body to the blob backend failed (including post-upload sha256 mismatch).'',
       []),
      (''blob_read_failed'',
       ''Reading an object from the blob backend failed.'',
       []),
      (''branch_confirmation_required'',
       ''The run branch is not confirmed (or the run is not started), so claims are refused.'',
       ''Confirm the run branch and start the run (`striatum run start --run-id <id> --branch <name>`) before claiming work.''),
      (''branch_mismatch'',
       ''The current git branch does not match the commit_request branch.'',
       ''Check out the branch named in the commit_request, then retry.''),
      (''capability_denied'',
       ''The token is valid but this session may not perform the requested action (for example: not the floor holder, interrogator, or target session).'',
       ''Verify you are the session the action belongs to and re-issue the call from that session; do not act for other lanes.''),
      (''capability_expired'',
       ''The granted capability has expired.'',
       ''Re-register the session (session.register) or ask the operator to mint a fresh capability token, then retry.''),
      (''capability_missing'',
       ''The token does not carry the capability the method requires.'',
       ''Use a token that grants the required capability the error names: re-register the session, or have an admin mint one with `striatum daemon token-create --capability <name>` (see docs/how-to/how-to-human.md).''),
      (''capability_scope_mismatch'',
       ''The capability is scoped to a different repository than the request targets.'',
       ''Re-issue the call with the repository_id the token is scoped to, or obtain a token scoped to this repository.''),
      (''commit_request_not_found'',
       ''The referenced commit_request artifact does not exist or is not readable.'',
       ''Publish the commit_request artifact first, then retry with its request_id.''),
      (''concurrent_run_isolation_required'',
       ''Another run is already active on the repository and this run has a repo-write job on a lane without worktree_isolation: per_job, so starting it would share the main checkout (RFC 0108 Phase 2).'',
       ''Set worktree_isolation: per_job on the run's repo-write lane so each run gets its own detached worktree, then start the run; or wait for the active run to finish.''),
      (''confirmation_required'',
       ''A mutating verb needs an explicit confirmation that was not supplied or did not match.'',
       ''Re-run with the explicit confirmation the message names (for example confirm=true with a matching confirm_request_id).''),
      (''conflict'',
       ''A uniqueness or attribution conflict (for example a client already attributed to another principal).'',
       []),
      (''cross_run_collision'',
       ''Starting this run collides with another active run on the repository '' @ em_dash @ '' they target the same git branch (RFC 0108 Phase 3).'',
       ''Give this run a distinct branch (each parallel run integrates on its own branch), or pass --allow-overlap to start anyway and resolve the overlap at integration.''),
      (''daemon_auth_lost'',
       ''The daemon's authority secret no longer matches the database registry (the row is missing or was superseded by a concurrent rotator), so an authorized write was refused (RFC 0110 '' @ section_sign @ ''4.5).'',
       ''Restart the daemon to re-bootstrap its authority, or check for a concurrent rotator on the same runtime role (use per-instance roles for a shared PostgreSQL).''),
      (''daemon_db_missing'',
       ''The operation requires daemon PostgreSQL, which is not configured or reachable.'',
       ''Check daemon PostgreSQL health with `striatum doctor` and restore the database before retrying.''),
      (''daemon_under_load'',
       ''The operation timed out behind transient daemon back-pressure (a statement_timeout/57014 or lock_timeout/55P03 event-append/lifecycle convoy under multi-run supervise load) rather than a real refusal, after the daemon already retried it (#198/#355/#389/#383).'',
       ''Retry the operation shortly; if it persists, check daemon PostgreSQL load with `striatum doctor` and look for a long-held lock on repo_event_chain_heads.''),
      (''daemon_unreachable'',
       ''The CLI could not reach the daemon RPC socket.'',
       ''Ensure striatumd is running (`striatum doctor` reports daemon health), then retry.''),
      (''dirty_tree_outside_commit_request'',
       ''The working tree has changes outside the commit_request included_paths.'',
       ''Commit or revert the changes outside included_paths, then retry.''),
      (''displaced_session_live'',
       ''session.register --replace would displace a session that has heartbeated within the lease's heartbeat window, so it is still live and may be actively driving the same work packet (#189).'',
       ''Confirm the displaced session is genuinely wedged (check `striatum list sessions` and recent heartbeats); if so, retry with --force-live --reason \"...\" to record why the live lane is being superseded, or close it first with `striatum session close <id>`.''),
      (''duplicate_request'',
       ''The RPC request_id was already used.'',
       ''Re-issue the call with a fresh request_id.''),
      (''event_payload_rejected'',
       ''A durable event payload was refused by the database write boundary: it carried a transcript key (stdout/stderr/transcript/raw_output/provider_output) or exceeded the durable-event size cap (RFC 0110 '' @ section_sign @ ''12, C-EVENT-NO-TRANSCRIPTS).'',
       ''Record curated coordination state in the event, not captured agent output; transcripts belong in operator-local diagnostics, not the durable event chain.''),
      (''file_read_failed'',
       ''The daemon could not read a repository file it was asked to operate on.'',
       ''Verify the path exists and is readable inside the repository, then retry.''),
      (''fresh_review_byte_identical'',
       ''A review.submit finding is byte-identical (content_sha256) to this job's prior-attempt finding, so it re-asserts a stale verdict against a revised target instead of a fresh review (#206).'',
       ''Delete the stale finding file left at the artifact path by the prior round, read the CURRENT revision of the target, and write your own finding before resubmitting.''),
      (''git_commit_apply_failed'',
       ''A git step of commit apply failed.'',
       []),
      (''git_snapshot_failed'',
       ''Capturing the git snapshot failed.'',
       []),
      (''git_unavailable'',
       ''The git executable is not available to the daemon.'',
       ''Install git and ensure it is on the daemon's PATH.''),
      (''internal_error'',
       ''An unexpected daemon-side failure that does not map to a stable code.'',
       ''Retry once; if it persists, report the failure with its audit_id.''),
      (''invalid_transition'',
       ''The requested state transition is not legal from the current job, run, lease, or session state.'',
       ''Re-read the live state (job.detail / run.detail, or `striatum status`) and take only the transition the current state allows.''),
      (''key_rotation_unavailable'',
       ''daemon.key.rotate is not wired in this daemon build; signing keys were not modified.'',
       []),
      (''lease_error'',
       ''The supplied lease is missing, expired, inactive, owned by another session, or bound to a different job.'',
       ''Heartbeat your lease (work.heartbeat); if it is stale, recover stale leases (`striatum recovery stale-leases`) and re-claim via work.await_packet.''),
      (''lane_credential_cache_inside_repo'',
       ''A provider-owned credential/cache selector resolves inside the target repository, where a repo-write lane could read or mutate it.'',
       ''Move the provider credential/cache directory outside the target repository, then retry supervise.start.''),
      (''lane_provider_auth_failed'',
       ''The lane provider-auth preflight found missing, stale, expired, revoked, or unrefreshable provider credentials for the lane identity.'',
       ''Refresh the provider login for the lane OS user, then retry supervise.start.''),
      (''lane_provider_binary_missing'',
       ''The lane provider-auth preflight could not find or execute the provider CLI under the lane launch environment.'',
       ''Install the provider CLI for the lane launch environment or add the binary directory to lane path_prefix.''),
      (''lane_provider_preflight_launch_failed'',
       ''Striatum could not start the closed provider-auth smoke command under the intended lane identity.'',
       ''Fix lane run-as user, sudo, home directory, and launch environment provisioning.''),
      (''lane_provider_preflight_timeout'',
       ''The lane provider-auth preflight timed out, including hung refresh paths or interactive prompts.'',
       ''Inspect the lane provider login for an interactive prompt or hung refresh path.''),
      (''lane_provider_preflight_unexpected_result'',
       ''The lane provider-auth smoke reached an unsupported result shape that cannot be classified as auth success, auth failure, launch failure, timeout, binary missing, or provider unavailable.'',
       ''Inspect the provider CLI manually; the smoke completed with an unsupported result shape.''),
      (''lane_provider_preflight_unsupported'',
       ''The selected provider-auth gate mode requires a provider or lane shape that has no supported smoke.'',
       ''Use --provider-auth-gate off or configure a provider with a supported auth preflight.''),
      (''lane_provider_unavailable'',
       ''Network, provider service, rate limit, or provider-side availability prevented the lane provider-auth preflight from reaching an auth conclusion.'',
       ''Retry after provider or network availability recovers.''),
      (''lane_uid_generation_mismatch'',
       ''A supervised lane's uid lease generation no longer matches the active daemon lease row, so attestation/control/reporting was refused fail-closed.'',
       ''Stop and relaunch the supervised lane so it receives a fresh uid lease generation; inspect `striatum doctor` if the old lease is quarantined.''),
      (''lane_uid_generation_missing'',
       ''A supervised lane references a uid lease without carrying the expected lease generation metadata.'',
       ''Stop and relaunch the supervised lane with the current daemon binary; inspect supervisor metadata if this persists.''),
      (''lane_uid_lease_missing'',
       ''A supervised lane references a uid lease row that is absent from the daemon ledger.'',
       ''Stop and relaunch the supervised lane; run `striatum doctor` to check lane_uid_leases integrity.''),
      (''lane_uid_pool_exhausted'',
       ''Every configured lane uid pool entry is active, scrubbing, or quarantined, so supervise.start cannot allocate an isolated OS uid.'',
       ''Wait for active lanes to finish, recover/quarantine stuck uid leases, or add more users to STRIATUM_LANE_UID_POOL.''),
      (''lane_uncovered_credential_selector_inside_repo'',
       ''A provider-owned credential/cache selector not modeled by Striatum resolves inside the target repository, so the provider auth boundary cannot be proven.'',
       ''Move that provider selector outside the repository or add an explicit resolver model before retrying supervise.start.''),
      (''merge_conflict'',
       ''Integrating a run's branch into the target mainline conflicts; the merge was refused and mainline left untouched (RFC 0108 Phase 4 never auto-resolves).'',
       ''Rebase or resolve the run branch against the target on a branch a maintainer merges, then re-run run.integrate; the conflicting paths are in the error details.''),
      (''worktree_head_unreachable'',
       ''worktree.release refused because the worktree HEAD is not reachable from the run branch or a refs/striatum pin.'',
       ''Complete the job so work.complete anchors the commits, or rerun worktree release with --force only if discarding that HEAD is intentional.''),
      (''worktree_required'',
       ''A repo-write job on a lane with worktree_isolation: per_job tried to publish, write, run, or complete without an active job worktree.'',
       ''Run worktree.create using the active session, job, and lease from the work packet, then retry the operation.''),
      (''method_unknown'',
       ''The method has no registered handler.'',
       ''Call tools/list and use a method the daemon actually exposes.''),
      (''not_found'',
       ''A referenced entity (session, job, artifact, interrogation, ...) does not exist.'',
       ''List the live entities first (list.runs / list.jobs / list.sessions / artifact.list_for_run) and re-issue with an id that exists.''),
      (''not_implemented'',
       ''The method is registered but not implemented in this daemon build.'',
       []),
      (''path_conflict'',
       ''The active repository path is occupied by a different repository identity.'',
       []),
      (''path_outside_scope'',
       ''The path escapes the allowed scope (write scope, export directory, or repository root).'',
       ''Use a path inside your packet's write_scope.allowed_paths (or the allowed output directory) and retry.''),
      (''path_traversal'',
       ''Path traversal outside the repository was refused.'',
       ''Use a repository-relative path without `..` segments.''),
      (''receipt_missing'',
       ''The apply receipt was not found.'',
       []),
      (''repo_blob_conflict'',
       ''The repository's blob bucket is owned by a different repository identity.'',
       []),
      (''repo_not_found'',
       ''The repository path does not exist on disk.'',
       ''Verify the repository path and re-run `striatum repo add` with the correct location.''),
      (''repo_not_registered'',
       ''The repository is not registered with the daemon.'',
       ''Register the repository first (`striatum repo add`), then retry.''),
      (''repo_scratch_missing'',
       ''The repository scratch area is not initialized.'',
       ''Run `striatum repo add <path> --init` for the target repository, then retry.''),
      (''review_provenance_override_required'',
       ''An unattested/operator-authored accepting review verdict requires an explicit run-level review provenance decision.'',
       ''Record an accepting decision with `--escape-surface review_provenance --escape-action <action> --rationale <reason>`, then retry with `--review-provenance-decision-id <decision_id>`.''),
      (''run_not_found'',
       ''The run_id was not found.'',
       ''List runs (list.runs) and use an existing run_id.''),
      (''schema_invalid'',
       ''The request failed schema validation (missing, ill-typed, or malformed parameters or envelope).'',
       ''Fix the named parameter to match the documented schema and resend the request.''),
      (''session_token_stale'',
       ''A session-bound token belongs to a closed predecessor session but was used to act as that lane's active successor session.'',
       ''Stop the stale lane and run supervise.start for the active successor session so it receives its own session-bound token; use supervise.rebridge only to repair that successor's existing supervisor, then retry from the successor lane.''),
      (''session_inactive'',
       ''A terminal or inactive session tried to publish or complete work after losing authority for the lane.'',
       ''Recover through daemon state: requeue the job on the same attempt (`striatum recovery requeue-stale --run-id <run_id> --job-id <job_id> --force --justification \"...\"`), then register or supervise.start a fresh session and retry from that fresh session. If the session is still active but about to be closed, use `striatum session close --session-id <session_id> --reason \"...\" --requeue-job`.''),
      (''sha256_mismatch'',
       ''A file body sha256 does not match the published artifact's content_sha256 (the repo file drifted).'',
       ''Re-publish the artifact from the current file (artifact.publish) or restore the file to the published content before retrying.''),
      (''shutdown_unavailable'',
       ''daemon.shutdown is not wired in this daemon process.'',
       ''Stop the daemon with its service manager or a signal instead.''),
      (''signing_key_insecure'',
       ''The sealed-apply signing key fails security requirements (for example permissions).'',
       []),
      (''signing_key_invalid'',
       ''The sealed-apply signing key is invalid or unusable.'',
       []),
      (''spawn_grant_expired'',
       ''The run's spawn-authorization grant has expired, so the daemon auto_spawn scheduler refuses to spawn under a stale grant (RFC 0122 C2).'',
       ''Re-authorize the run by restarting it (run.start re-captures a fresh grant), or drive the run manually.''),
      (''spawn_grant_missing'',
       ''An auto_spawn run has queued lane work but no active spawn-authorization grant; the daemon scheduler cannot invent authority (RFC 0122 C2).'',
       ''Re-run run.start to capture a grant, or drive the run manually with `run drive`.''),
      (''spawn_grant_no_owner_principal'',
       ''An auto_spawn run.start had no authenticated owner principal to capture, so there is no identity for the scheduler to replay.'',
       ''Authenticate run.start with a capability token that carries a principal, then retry.''),
      (''spawn_run_as_unresolved'',
       ''An auto_spawn run's run-as identity (the configured lane OS user) cannot be resolved on this host, so the scheduler would spawn into a non-existent identity (RFC 0122 '' @ section_sign @ ''4).'',
       ''Provision the lane OS user (with a home directory) or unset STRIATUM_LANE_OS_USER to run lanes as the daemon user, then restart the run.''),
      (''stale_daemon_identity'',
       ''The MCP request presented a boot epoch that does not match the live daemon's, so it dialed a recycled port now bound by a different daemon process run and was refused before touching run state (#316).'',
       ''Relaunch the lane against the current daemon (re-run supervise.start, or recover the stalled lane) so it carries the live daemon's boot epoch; do not reuse a stale on-disk MCP endpoint/config pin.''),
      (''symlink_refused'',
       ''A symlinked path was refused (repository registration and scoped writes resolve real paths).'',
       ''Use the real (non-symlinked) path and retry.''),
      (''target_unavailable'',
       ''The target session for the requested operation does not exist or is unavailable.'',
       ''List live sessions (list.sessions) and target one that is active.''),
      (''token_expired'',
       ''The capability token is expired.'',
       ''Obtain a fresh capability token (re-register the session or ask the operator), then resend with the new token.''),
      (''token_invalid'',
       ''The capability token does not exist or its secret does not match.'',
       ''Resend with a valid capability token exactly as issued; if yours was rotated, obtain a fresh one from the operator or session registration.''),
      (''token_malformed'',
       ''The capability token is not in the issued token_id.secret form.'',
       ''Send the capability token exactly as issued (token_id.secret) in the Authorization bearer header.''),
      (''token_missing'',
       ''No capability token was supplied on a method that requires one.'',
       ''Send your capability token as an Authorization bearer header (lane environments provide STRIATUM_MCP_TOKEN).''),
      (''token_revoked'',
       ''The capability token has been revoked.'',
       ''Obtain a fresh capability token (re-register the session or ask the operator), then resend with the new token.''),
      (''token_scope_ambiguous'',
       ''The token carries duplicate active capability scopes, so the daemon cannot pick one.'',
       []),
      (''token_unavailable'',
       ''The CLI could not load a capability token from its configured token file.'',
       ''Run inside a workflow lane (which provides the token) or point the CLI at a readable capability-token file.''),
      (''version_incompatible'',
       ''The client and daemon share no supported envelope version.'',
       ''Upgrade so client and daemon match (`make install`, then restart striatumd so the running image is the new build).''),
      (''write_scope_drift'',
       ''A job attempted to publish or complete work outside the frozen write scope for its current attempt.'',
       ''Use the path in the active work packet, clear or move out-of-scope changes, or route through audited recovery (`striatum recovery resume` for remediated write-scope blockers, or a fresh/replacement attempt for legitimate scope changes).''),
      (''workflow_error'',
       ''Workflow validation, preparation, or run orchestration failed.'',
       []),
      (''workflow_snapshot_not_found'',
       ''The workflow_snapshot_id was not found.'',
       ''Read the run's workflow_snapshot_id from run.detail and re-issue with it.'')]"

text \<open>A code entered twice has its last entry.\<close>

definition LookupErrorCode :: "string \<Rightarrow> (string \<times> string) option" where
  "LookupErrorCode code = fold (\<lambda>e r. r(fst e \<mapsto> snd e)) ErrorCatalog Map.empty code"

definition DefaultSuggestion :: "string \<Rightarrow> string" where
  "DefaultSuggestion code = (case LookupErrorCode code of None \<Rightarrow> [] | Some (_, s) \<Rightarrow> s)"

section \<open>Laws\<close>

lemma fold_updates: "fold (\<lambda>e r. r(key e \<mapsto> value e)) es r = r ++ map_of (rev (map (\<lambda>e. (key e, value e)) es))"
  by (induction es arbitrary: r) (simp_all add: map_add_def fun_eq_iff split: option.split)

lemma MethodRegistry_eq: "MethodRegistry = map_of (rev (map (\<lambda>e. (me_method e, e)) methodEntries))"
  by (simp add: MethodRegistry_def buildRegistry_def fold_updates)

lemma registered: "MethodRegistry m = Some e \<Longrightarrow> e \<in> set methodEntries \<and> me_method e = m"
  by (auto simp: MethodRegistry_eq dest!: map_of_SomeD)

lemma LookupErrorCode_eq: "LookupErrorCode code = map_of (rev ErrorCatalog) code"
  by (simp add: LookupErrorCode_def fold_updates)

definition entry_ok :: "MethodEntry \<Rightarrow> bool" where
  "entry_ok e \<longleftrightarrow> (case me_capability e of None \<Rightarrow> me_method e = ''daemon.hello'' \<and> \<not> me_repo_scope e
      | Some c \<Rightarrow> me_method e \<noteq> ''daemon.hello'' \<and> list_ex ((=) c) Capabilities) \<and>
    me_mode e = (if me_repo_scope e then ''single_repo'' else ''daemon_global'')"

lemma entries_ok: "list_all entry_ok methodEntries"
  by code_simp

lemma registered_ok: "MethodRegistry m = Some e \<Longrightarrow> entry_ok e \<and> me_method e = m"
  using registered entries_ok by (auto simp: list_all_iff)

text \<open>The registry is closed. A registered method is the one it was registered for, needs a
  capability of the closed set unless it is the handshake, and is repository-scoped exactly when its scope
  mode says so.\<close>

theorem registry_closed:
  assumes "MethodRegistry m = Some e"
  shows "me_method e = m \<and> (me_capability e = None) = (m = ''daemon.hello'') \<and>
    (case me_capability e of None \<Rightarrow> True | Some c \<Rightarrow> c \<in> set Capabilities) \<and>
    me_repo_scope e = (me_mode e = ''single_repo'')"
proof -
  have "entry_ok e" "me_method e = m" using registered_ok[OF assms] by simp_all
  then show ?thesis by (auto simp: entry_ok_def list_ex_iff split: option.splits if_splits)
qed

lemma ErrorCatalog_codes: "map fst ErrorCatalog =
    [''artifact_error'', ''audit_append_failed'', ''autonomous_worktree_isolation_required'', ''bad_host'',
     ''bad_origin'', ''base_head_mismatch'', ''barrier_blocked'', ''barrier_integrity_failed'',
     ''barrier_smuggled_content'', ''blob_apply_required'', ''blob_disabled'', ''blob_head_failed'',
     ''blob_list_failed'', ''blob_provision_failed'', ''blob_publish_failed'', ''blob_read_failed'',
     ''branch_confirmation_required'', ''branch_mismatch'', ''capability_denied'', ''capability_expired'',
     ''capability_missing'', ''capability_scope_mismatch'', ''commit_request_not_found'', ''concurrent_run_isolation_required'',
     ''confirmation_required'', ''conflict'', ''cross_run_collision'', ''daemon_auth_lost'',
     ''daemon_db_missing'', ''daemon_under_load'', ''daemon_unreachable'', ''dirty_tree_outside_commit_request'',
     ''displaced_session_live'', ''duplicate_request'', ''event_payload_rejected'', ''file_read_failed'',
     ''fresh_review_byte_identical'', ''git_commit_apply_failed'', ''git_snapshot_failed'', ''git_unavailable'',
     ''internal_error'', ''invalid_transition'', ''key_rotation_unavailable'', ''lease_error'',
     ''lane_credential_cache_inside_repo'', ''lane_provider_auth_failed'', ''lane_provider_binary_missing'', ''lane_provider_preflight_launch_failed'',
     ''lane_provider_preflight_timeout'', ''lane_provider_preflight_unexpected_result'', ''lane_provider_preflight_unsupported'', ''lane_provider_unavailable'',
     ''lane_uid_generation_mismatch'', ''lane_uid_generation_missing'', ''lane_uid_lease_missing'', ''lane_uid_pool_exhausted'',
     ''lane_uncovered_credential_selector_inside_repo'', ''merge_conflict'', ''worktree_head_unreachable'', ''worktree_required'',
     ''method_unknown'', ''not_found'', ''not_implemented'', ''path_conflict'',
     ''path_outside_scope'', ''path_traversal'', ''receipt_missing'', ''repo_blob_conflict'',
     ''repo_not_found'', ''repo_not_registered'', ''repo_scratch_missing'', ''review_provenance_override_required'',
     ''run_not_found'', ''schema_invalid'', ''session_token_stale'', ''session_inactive'',
     ''sha256_mismatch'', ''shutdown_unavailable'', ''signing_key_insecure'', ''signing_key_invalid'',
     ''spawn_grant_expired'', ''spawn_grant_missing'', ''spawn_grant_no_owner_principal'', ''spawn_run_as_unresolved'',
     ''stale_daemon_identity'', ''symlink_refused'', ''target_unavailable'', ''token_expired'',
     ''token_invalid'', ''token_malformed'', ''token_missing'', ''token_revoked'',
     ''token_scope_ambiguous'', ''token_unavailable'', ''version_incompatible'', ''write_scope_drift'',
     ''workflow_error'', ''workflow_snapshot_not_found'']"
  by (simp only: ErrorCatalog_def list.map fst_conv)

lemma in_catalog: "LookupErrorCode c \<noteq> None \<longleftrightarrow> c \<in> set (map fst ErrorCatalog)"
  by (force simp: LookupErrorCode_eq map_of_eq_None_iff)

lemma catalogued:
  "LookupErrorCode ''schema_invalid'' \<noteq> None" "LookupErrorCode ''token_missing'' \<noteq> None"
  "LookupErrorCode ''token_malformed'' \<noteq> None" "LookupErrorCode ''internal_error'' \<noteq> None"
  "LookupErrorCode ''token_invalid'' \<noteq> None" "LookupErrorCode ''token_revoked'' \<noteq> None"
  "LookupErrorCode ''token_expired'' \<noteq> None" "LookupErrorCode ''capability_missing'' \<noteq> None"
  "LookupErrorCode ''capability_scope_mismatch'' \<noteq> None" "LookupErrorCode ''capability_expired'' \<noteq> None"
  unfolding in_catalog ErrorCatalog_codes by simp_all

lemma hello_listed: "list_ex (\<lambda>e. me_method e = ''daemon.hello'') methodEntries"
  by code_simp

lemma hello_entry: "\<exists>e. MethodRegistry ''daemon.hello'' = Some e \<and> \<not> me_repo_scope e"
proof -
  have "''daemon.hello'' \<in> me_method ` set methodEntries" using hello_listed by (auto simp: list_ex_iff image_iff) (metis)
  then have "MethodRegistry ''daemon.hello'' \<noteq> None" by (simp add: MethodRegistry_eq map_of_eq_None_iff image_image)
  then obtain e where e: "MethodRegistry ''daemon.hello'' = Some e" by auto
  then show ?thesis using registered_ok[OF e] by (auto simp: entry_ok_def split: option.splits)
qed

theorem registry_closed_witness:
  "\<exists>e. MethodRegistry ''daemon.hello'' = Some e \<and> me_method e = ''daemon.hello'' \<and> me_capability e = None"
proof -
  obtain e where e: "MethodRegistry ''daemon.hello'' = Some e" using hello_entry by auto
  then show ?thesis using registry_closed[OF e] by simp
qed

end
