(* ===== verification/RpcAuth.thy ===== *)
theory RpcAuth
  imports GoValue Liveness RpcCatalog
begin

text \<open>
  Authorization of RPC calls (\<open>rpc/capability.go\<close>, \<open>rpc/auth_pg.go\<close>, \<open>rpc/principal_session.go\<close>):
  the resolved decision, the authorizers behind it, and what they promise to the server. The hash
  of a secret and the authenticating function of the token table are parameters, as is the SQL
  function of the projection. A time that is not set is \<open>None\<close>.
\<close>

section \<open>Decisions\<close>

record auth_context =
  ac_client :: string
  ac_token :: string
  ac_repo :: string
  ac_session :: string
  ac_capability :: string
  ac_decision :: string
  ac_reason :: string

definition decided :: "string \<Rightarrow> string \<Rightarrow> string \<Rightarrow> auth_context" where
  "decided repo decision reason =
     \<lparr>ac_client = [], ac_token = [], ac_repo = repo, ac_session = [], ac_capability = [],
      ac_decision = decision, ac_reason = reason\<rparr>"

definition deny :: "string \<Rightarrow> string \<Rightarrow> string \<Rightarrow> string \<Rightarrow> auth_context" where
  "deny client tid repo reason = (decided repo ''denied'' reason)\<lparr>ac_client := client, ac_token := tid\<rparr>"

definition IsSessionBound :: "auth_context \<Rightarrow> bool" where
  "IsSessionBound a \<longleftrightarrow> ac_session a \<noteq> []"

definition MayActAsSession :: "auth_context \<Rightarrow> string \<Rightarrow> bool" where
  "MayActAsSession a sid \<longleftrightarrow> (if \<not> IsSessionBound a then True else ac_session a = sid)"

definition AllowAllAuthorize :: "string option \<Rightarrow> string \<Rightarrow> string \<Rightarrow> auth_context" where
  "AllowAllAuthorize required repo token =
     (decided repo ''allowed'' [])\<lparr>ac_capability := (case required of None \<Rightarrow> [] | Some c \<Rightarrow> c)\<rparr>"

text \<open>\<open>strings.Cut\<close> at the first dot; both parts have to be there.\<close>

fun cut_at :: "char \<Rightarrow> string \<Rightarrow> (string \<times> string) option" where
  "cut_at d [] = None"
| "cut_at d (c # cs) = (if c = d then Some ([], cs) else map_option (apfst ((#) c)) (cut_at d cs))"

definition splitToken :: "string \<Rightarrow> string \<times> string \<times> bool" where
  "splitToken token =
     (case cut_at (CHR ''.'') token of None \<Rightarrow> (token, [], False)
      | Some (tid, secret) \<Rightarrow> (tid, secret, tid \<noteq> [] \<and> secret \<noteq> []))"

text \<open>\<open>!value.After(now)\<close> for a time that is set.\<close>

definition expired :: "instant \<Rightarrow> instant option \<Rightarrow> bool" where
  "expired now v \<longleftrightarrow> (case v of None \<Rightarrow> False | Some t \<Rightarrow> t \<le> now)"

section \<open>MemoryAuthorizer\<close>

record capability_grant =
  g_repo :: string
  g_session :: string
  g_expires :: "instant option"
  g_revoked :: bool

record token_record =
  t_id :: string
  t_hash :: string
  t_client :: string
  t_caps :: "(string \<times> capability_grant) list"
  t_revoked :: bool
  t_expires :: "instant option"

definition AddToken ::
  "(string \<Rightarrow> string) \<Rightarrow> string \<Rightarrow> string \<Rightarrow> (string \<times> capability_grant) list \<Rightarrow> instant option \<Rightarrow>
   (string \<times> token_record) list \<Rightarrow> (string \<times> token_record) list" where
  "AddToken hash token client caps expires tokens =
     (case splitToken token of (tid, secret, ok) \<Rightarrow>
        if \<not> ok then tokens
        else (tid, \<lparr>t_id = tid, t_hash = hash secret, t_client = client, t_caps = caps, t_revoked = False,
                    t_expires = expires\<rparr>) # filter (\<lambda>e. fst e \<noteq> tid) tokens)"

definition MemoryAuthorize ::
  "(string \<Rightarrow> string) \<Rightarrow> instant \<Rightarrow> (string \<times> token_record) list \<Rightarrow> string option \<Rightarrow> string \<Rightarrow> string \<Rightarrow> auth_context" where
  "MemoryAuthorize hash now tokens required repo token =
     (case required of None \<Rightarrow> decided repo ''allowed'' []
      | Some c \<Rightarrow>
        if c \<notin> set Capabilities then decided repo ''denied'' ''schema_invalid''
        else if token = [] then decided repo ''denied'' ''token_missing''
        else (case splitToken token of (tid, secret, ok) \<Rightarrow>
          if \<not> ok then deny [] tid repo ''token_malformed''
          else (case map_of tokens tid of None \<Rightarrow> deny [] tid repo ''token_invalid''
            | Some r \<Rightarrow>
              if t_hash r \<noteq> hash secret then deny (t_client r) tid repo ''token_invalid''
              else if t_revoked r then deny (t_client r) tid repo ''token_revoked''
              else if expired now (t_expires r) then deny (t_client r) tid repo ''token_expired''
              else (case map_of (t_caps r) c of None \<Rightarrow> deny (t_client r) tid repo ''capability_missing''
                | Some g \<Rightarrow>
                  if g_revoked g then deny (t_client r) tid repo ''capability_missing''
                  else if g_repo g \<noteq> [] \<and> g_repo g \<noteq> repo then deny (t_client r) tid repo ''capability_scope_mismatch''
                  else if expired now (g_expires g) then deny (t_client r) tid repo ''capability_expired''
                  else \<lparr>ac_client = t_client r, ac_token = tid, ac_repo = repo, ac_session = g_session g,
                        ac_capability = c, ac_decision = ''allowed'', ac_reason = []\<rparr>))))"

section \<open>PostgresAuthorizer\<close>

record client_row =
  cl_token :: string
  cl_client :: string
  cl_hash :: string
  cl_salt :: string
  cl_revoked :: bool
  cl_expires :: "instant option"

record capability_row =
  cp_client :: string
  cp_capability :: string
  cp_repo :: "string option"
  cp_session :: "string option"
  cp_expires :: "instant option"
  cp_revoked :: bool
  cp_granted :: instant

record token_db =
  td_clients :: "client_row list"
  td_caps :: "capability_row list"
  td_client_fails :: bool
  td_caps_fail :: bool
  td_scope_fails :: bool

text \<open>The grant a call uses: the narrowest of the ones in force, \<open>ORDER BY session_id IS NULL, repository_id IS NULL\<close>.\<close>

definition usable :: "string \<Rightarrow> string \<Rightarrow> string \<Rightarrow> capability_row \<Rightarrow> bool" where
  "usable client c repo r \<longleftrightarrow>
     cp_client r = client \<and> cp_capability r = c \<and> (cp_repo r = None \<or> cp_repo r = Some repo) \<and> \<not> cp_revoked r"

definition breadth :: "capability_row \<Rightarrow> nat" where
  "breadth r = (if cp_session r = None then 2 else 0) + (if cp_repo r = None then 1 else 0)"

definition narrowest :: "capability_row list \<Rightarrow> capability_row option" where
  "narrowest rs = (case sort_key breadth rs of [] \<Rightarrow> None | r # _ \<Rightarrow> Some r)"

definition client_of :: "token_db \<Rightarrow> string \<Rightarrow> client_row option" where
  "client_of db tid = find (\<lambda>r. cl_token r = tid) (td_clients db)"

definition text_or_empty :: "string option \<Rightarrow> string" where
  "text_or_empty v = (case v of None \<Rightarrow> [] | Some s \<Rightarrow> s)"

definition PostgresAuthorize ::
  "(string \<Rightarrow> string \<Rightarrow> string) \<Rightarrow> instant \<Rightarrow> (string \<Rightarrow> string \<Rightarrow> string \<Rightarrow> string \<Rightarrow> auth_context option) \<Rightarrow>
   token_db \<Rightarrow> string option \<Rightarrow> string \<Rightarrow> string \<Rightarrow> auth_context" where
  "PostgresAuthorize mac now projection db required repo token =
     (case required of None \<Rightarrow> decided repo ''allowed'' []
      | Some c \<Rightarrow>
        if c \<notin> set Capabilities then decided repo ''denied'' ''schema_invalid''
        else if token = [] then decided repo ''denied'' ''token_missing''
        else (case splitToken token of (tid, secret, ok) \<Rightarrow>
          if \<not> ok then deny [] tid repo ''token_malformed''
          else (case projection c repo tid secret of Some a \<Rightarrow> a
            | None \<Rightarrow>
              if td_client_fails db then deny [] tid repo ''internal_error''
              else (case client_of db tid of None \<Rightarrow> deny [] tid repo ''token_invalid''
                | Some r \<Rightarrow>
                  if mac (cl_salt r) secret \<noteq> cl_hash r then deny (cl_client r) tid repo ''token_invalid''
                  else if cl_revoked r then deny (cl_client r) tid repo ''token_revoked''
                  else if expired now (cl_expires r) then deny (cl_client r) tid repo ''token_expired''
                  else if td_caps_fail db then deny (cl_client r) tid repo ''internal_error''
                  else (case narrowest (filter (usable (cl_client r) c repo) (td_caps db)) of
                      None \<Rightarrow>
                        if repo \<noteq> [] \<and> \<not> td_scope_fails db \<and> list_ex (\<lambda>g. cp_client g = cl_client r \<and> cp_capability g = c \<and>
                              cp_repo g \<noteq> None \<and> cp_repo g \<noteq> Some repo \<and> \<not> cp_revoked g) (td_caps db)
                        then deny (cl_client r) tid repo ''capability_scope_mismatch''
                        else deny (cl_client r) tid repo ''capability_missing''
                    | Some g \<Rightarrow>
                        if expired now (cp_expires g) then deny (cl_client r) tid repo ''capability_expired''
                        else \<lparr>ac_client = cl_client r, ac_token = tid, ac_repo = repo,
                              ac_session = text_or_empty (cp_session g), ac_capability = c,
                              ac_decision = ''allowed'', ac_reason = []\<rparr>)))))"

text \<open>\<open>IdentifyBoundSession\<close>: who a token belongs to, without authorizing anything.\<close>

definition IdentifyBoundSession ::
  "(string \<Rightarrow> string \<Rightarrow> string) \<Rightarrow> instant \<Rightarrow> token_db \<Rightarrow> string \<Rightarrow> (string \<times> string) option" where
  "IdentifyBoundSession mac now db token =
     (if trim_space token = [] \<or> td_client_fails db then None
      else (case splitToken token of (tid, secret, ok) \<Rightarrow>
        if \<not> ok then None
        else (case client_of db tid of None \<Rightarrow> None
          | Some r \<Rightarrow>
            if mac (cl_salt r) secret \<noteq> cl_hash r \<or> cl_revoked r \<or> expired now (cl_expires r) \<or> td_caps_fail db then None
            else (case sort_key (\<lambda>g. if cp_repo g = None then 1 else 0) (sort_key (\<lambda>g. - cp_granted g)
                (filter (\<lambda>g. cp_client g = cl_client r \<and> cp_session g \<noteq> None \<and> \<not> cp_revoked g) (td_caps db))) of
                [] \<Rightarrow> None
              | g # _ \<Rightarrow>
                  if expired now (cp_expires g) \<or> trim_space (text_or_empty (cp_session g)) = [] then None
                  else Some (text_or_empty (cp_repo g), text_or_empty (cp_session g))))))"

section \<open>The interface of the server\<close>

text \<open>
  What the server relies on: an open route is allowed and acts for no session, an allowed decision
  is for the capability that was asked for, and a decision names the repository it is about.
\<close>

locale authorizer =
  fixes authorize :: "string option \<Rightarrow> string \<Rightarrow> string \<Rightarrow> auth_context"
  assumes open_route: "ac_decision (authorize None repo token) = ''allowed'' \<and> ac_session (authorize None repo token) = []"
    and granted: "ac_decision (authorize (Some c) repo token) = ''allowed'' \<Longrightarrow> ac_capability (authorize (Some c) repo token) = c"
    and about: "ac_repo (authorize required repo token) = repo"
begin

text \<open>A caller that may not act as a session is bound to another one.\<close>

lemma confined:
  "ac_decision (authorize (Some c) repo token) = ''allowed'' \<Longrightarrow> \<not> MayActAsSession (authorize (Some c) repo token) sid \<Longrightarrow>
   ac_session (authorize (Some c) repo token) \<noteq> [] \<and> ac_session (authorize (Some c) repo token) \<noteq> sid"
  by (auto simp: MayActAsSession_def IsSessionBound_def split: if_splits)

lemma open_route_unbound: "MayActAsSession (authorize None repo token) sid"
  using open_route by (simp add: MayActAsSession_def IsSessionBound_def)

end

lemma deny_simps [simp]:
  "ac_decision (deny client tid repo reason) = ''denied''" "ac_repo (deny client tid repo reason) = repo"
  "ac_session (deny client tid repo reason) = []"
  "ac_decision (decided repo d reason) = d" "ac_repo (decided repo d reason) = repo" "ac_session (decided repo d reason) = []"
  by (simp_all add: deny_def decided_def)

lemma AllowAllAuthorize_laws:
  "ac_decision (AllowAllAuthorize required repo token) = ''allowed''" "ac_session (AllowAllAuthorize required repo token) = []"
  "ac_capability (AllowAllAuthorize (Some c) repo token) = c" "ac_repo (AllowAllAuthorize required repo token) = repo"
  by (simp_all add: AllowAllAuthorize_def decided_def split: option.splits)

text \<open>A decision for a capability: denied with the repository named, or allowed for that capability.\<close>

definition proper :: "string \<Rightarrow> string \<Rightarrow> auth_context \<Rightarrow> bool" where
  "proper c repo a \<longleftrightarrow> ac_repo a = repo \<and> (ac_decision a = ''denied'' \<or> ac_capability a = c)"

lemma proper_deny [simp]: "proper c repo (deny client tid repo reason)" "proper c repo (decided repo ''denied'' reason)"
  by (simp_all add: proper_def)

lemma proper_allowed [simp]:
  "proper c repo \<lparr>ac_client = u, ac_token = t, ac_repo = repo, ac_session = s, ac_capability = c, ac_decision = d, ac_reason = e\<rparr>"
  by (simp add: proper_def)

lemma MemoryAuthorize_proper: "proper c repo (MemoryAuthorize hash now tokens (Some c) repo token)"
  unfolding MemoryAuthorize_def by (simp add: split_beta split: option.split)

lemma PostgresAuthorize_proper: "proper c repo (PostgresAuthorize mac now (\<lambda>_ _ _ _. None) db (Some c) repo token)"
  unfolding PostgresAuthorize_def by (simp add: split_beta split: option.split)

lemma authorizer_intro:
  assumes "\<And>repo token. auth None repo token = decided repo ''allowed'' []"
    and "\<And>c repo token. proper c repo (auth (Some c) repo token)"
  shows "authorizer auth"
proof
  fix c repo token
  show "ac_decision (auth None repo token) = ''allowed'' \<and> ac_session (auth None repo token) = []" using assms(1) by simp
  show "ac_capability (auth (Some c) repo token) = c" if "ac_decision (auth (Some c) repo token) = ''allowed''"
    using assms(2)[of c repo token] that by (auto simp: proper_def)
next
  fix required repo token
  show "ac_repo (auth required repo token) = repo"
    using assms(1)[of repo token] assms(2)[of _ repo token] by (cases required) (auto simp: proper_def)
qed

interpretation allow_all: authorizer AllowAllAuthorize
  by unfold_locales (simp_all add: AllowAllAuthorize_laws)

interpretation memory: authorizer "MemoryAuthorize hash now tokens" for hash now tokens
  by (rule authorizer_intro) (simp_all add: MemoryAuthorize_proper, simp add: MemoryAuthorize_def)

interpretation postgres: authorizer "PostgresAuthorize mac now (\<lambda>_ _ _ _. None) db" for mac now db
  by (rule authorizer_intro) (simp_all add: PostgresAuthorize_proper, simp add: PostgresAuthorize_def)

section \<open>Properties\<close>

lemma narrowest_in: "narrowest rs = Some g \<Longrightarrow> g \<in> set rs"
proof -
  assume "narrowest rs = Some g"
  then obtain gs where "sort_key breadth rs = g # gs" by (auto simp: narrowest_def split: list.splits)
  then have "g \<in> set (sort_key breadth rs)" by simp
  then show ?thesis by (simp only: set_sort)
qed

lemma narrowest_least:
  assumes "narrowest rs = Some g" "r \<in> set rs"
  shows "breadth g \<le> breadth r"
proof -
  obtain gs where gs: "sort_key breadth rs = g # gs" using assms(1) by (auto simp: narrowest_def split: list.splits)
  have "sorted (map breadth (sort_key breadth rs))" "r \<in> set (sort_key breadth rs)" using assms(2) by simp_all
  then show ?thesis unfolding gs by auto
qed

lemma narrowest_None: "narrowest rs = None \<longleftrightarrow> rs = []"
proof -
  have "length (sort_key breadth rs) = length rs" by simp
  then show ?thesis by (cases "sort_key breadth rs") (auto simp: narrowest_def)
qed

lemma PostgresAuthorize_allowed:
  assumes "ac_decision (PostgresAuthorize mac now (\<lambda>_ _ _ _. None) db (Some c) repo token) = ''allowed''"
  shows "\<exists>tid secret (r :: client_row) (g :: capability_row). splitToken token = (tid, secret, True) \<and> client_of db tid = Some r \<and>
    mac (cl_salt r) secret = cl_hash r \<and> \<not> cl_revoked r \<and> \<not> expired now (cl_expires r) \<and>
    narrowest (filter (usable (cl_client r) c repo) (td_caps db)) = Some g \<and> \<not> expired now (cp_expires g) \<and> c \<in> set Capabilities \<and>
    PostgresAuthorize mac now (\<lambda>_ _ _ _. None) db (Some c) repo token =
      \<lparr>ac_client = cl_client r, ac_token = tid, ac_repo = repo, ac_session = text_or_empty (cp_session g), ac_capability = c,
       ac_decision = ''allowed'', ac_reason = []\<rparr>"
proof -
  obtain tid secret ok where tok: "splitToken token = (tid, secret, ok)" by (cases "splitToken token")
  have D: "c \<in> set Capabilities" "token \<noteq> []" "ok"
    using assms by (auto simp: PostgresAuthorize_def tok simp del: not_Cons_self split: if_splits)
  then obtain r where r: "client_of db tid = Some r" "\<not> td_client_fails db"
    using assms by (cases "client_of db tid") (simp_all add: PostgresAuthorize_def tok split: if_splits)
  have R: "mac (cl_salt r) secret = cl_hash r" "\<not> cl_revoked r" "\<not> expired now (cl_expires r)" "\<not> td_caps_fail db"
    using assms D r by (auto simp: PostgresAuthorize_def tok split: if_splits)
  obtain g where g: "narrowest (filter (usable (cl_client r) c repo) (td_caps db)) = Some g"
    using assms D r R
    by (cases "narrowest (filter (usable (cl_client r) c repo) (td_caps db))") (auto simp: PostgresAuthorize_def tok split: if_splits)
  have G: "\<not> expired now (cp_expires g)" using assms D r R g by (auto simp: PostgresAuthorize_def tok split: if_splits)
  show ?thesis using D r R g G by (simp add: PostgresAuthorize_def tok)
qed

text \<open>An allowed call is backed by the token store. If the database authorizer, without the projection,
  allows a call that needs a capability, then the bearer splits into the id and the secret of a
  client row that is authentic, not revoked and not expired, and the client has a grant in force for
  this capability and repository; the session the decision is bound to is the one of that grant, and
  no grant in force is narrower.\<close>

theorem authorize_sound:
  assumes "ac_decision (PostgresAuthorize mac now (\<lambda>_ _ _ _. None) db (Some c) repo token) = ''allowed''"
  shows "\<exists>tid secret (r :: client_row) (g :: capability_row). splitToken token = (tid, secret, True) \<and> client_of db tid = Some r \<and> mac (cl_salt r) secret = cl_hash r \<and>
    \<not> cl_revoked r \<and> \<not> expired now (cl_expires r) \<and> g \<in> set (td_caps db) \<and> usable (cl_client r) c repo g \<and>
    \<not> expired now (cp_expires g) \<and> c \<in> set Capabilities \<and>
    PostgresAuthorize mac now (\<lambda>_ _ _ _. None) db (Some c) repo token =
      \<lparr>ac_client = cl_client r, ac_token = tid, ac_repo = repo, ac_session = text_or_empty (cp_session g), ac_capability = c,
       ac_decision = ''allowed'', ac_reason = []\<rparr> \<and>
    list_all (\<lambda>g'. usable (cl_client r) c repo g' \<longrightarrow> breadth g \<le> breadth g') (td_caps db)"
  using PostgresAuthorize_allowed[OF assms] narrowest_least
  by (force simp: list_all_iff dest: narrowest_in)

text \<open>A lane stays a lane. If a client has a grant in force that is bound to a session, for the
  capability and the repository of the call, then whatever the database authorizer allows it under
  this capability is bound to a session: no broader grant of the same client turns the lane into an
  unbound caller.\<close>

theorem bound_grant_wins:
  assumes "ac_decision (PostgresAuthorize mac now (\<lambda>_ _ _ _. None) db (Some c) repo token) = ''allowed''"
    and "g \<in> set (td_caps db)" "cp_session g \<noteq> None"
    and "usable (ac_client (PostgresAuthorize mac now (\<lambda>_ _ _ _. None) db (Some c) repo token)) c repo g"
    and "\<forall>g \<in> set (td_caps db). cp_session g \<noteq> Some []"
  shows "IsSessionBound (PostgresAuthorize mac now (\<lambda>_ _ _ _. None) db (Some c) repo token)"
proof -
  let ?a = "PostgresAuthorize mac now (\<lambda>_ _ _ _. None) db (Some c) repo token"
  obtain r :: client_row and g' :: capability_row
    where h: "narrowest (filter (usable (cl_client r) c repo) (td_caps db)) = Some g'"
      "ac_client ?a = cl_client r" "ac_session ?a = text_or_empty (cp_session g')"
    using PostgresAuthorize_allowed[OF assms(1)] by auto
  have "breadth g' \<le> breadth g" using narrowest_least[OF h(1)] assms(2,4) h(2) by simp
  then have "cp_session g' \<noteq> None" using assms(3) by (auto simp: breadth_def split: if_splits)
  moreover have "cp_session g' \<noteq> Some []" using assms(5) narrowest_in[OF h(1)] by auto
  ultimately show ?thesis using h(3) by (auto simp: IsSessionBound_def text_or_empty_def)
qed


section \<open>The two authorizers agree\<close>

text \<open>The tables a memory of tokens would be stored in: a hash without salt, no text for NULL.\<close>

definition nullable :: "string \<Rightarrow> string option" where
  "nullable s = (if s = [] then None else Some s)"

definition client_row_of :: "string \<times> token_record \<Rightarrow> client_row" where
  "client_row_of e = \<lparr>cl_token = fst e, cl_client = t_client (snd e), cl_hash = t_hash (snd e), cl_salt = [],
     cl_revoked = t_revoked (snd e), cl_expires = t_expires (snd e)\<rparr>"

definition capability_row_of :: "string \<Rightarrow> string \<times> capability_grant \<Rightarrow> capability_row" where
  "capability_row_of client e = \<lparr>cp_client = client, cp_capability = fst e, cp_repo = nullable (g_repo (snd e)),
     cp_session = nullable (g_session (snd e)), cp_expires = g_expires (snd e), cp_revoked = g_revoked (snd e), cp_granted = 0\<rparr>"

definition exported :: "(string \<times> token_record) list \<Rightarrow> token_db" where
  "exported tokens =
     \<lparr>td_clients = map client_row_of tokens,
      td_caps = concat (map (\<lambda>e. map (capability_row_of (t_client (snd e))) (t_caps (snd e))) tokens),
      td_client_fails = False, td_caps_fail = False, td_scope_fails = False\<rparr>"

definition one_client_each :: "(string \<times> token_record) list \<Rightarrow> bool" where
  "one_client_each tokens \<longleftrightarrow> distinct (map fst tokens) \<and> distinct (map (\<lambda>e. t_client (snd e)) tokens) \<and>
     list_all (\<lambda>e. distinct (map fst (t_caps (snd e)))) tokens"

lemma client_of_exported: "client_of (exported tokens) tid = map_option (\<lambda>r. client_row_of (tid, r)) (map_of tokens tid)"
proof (induction tokens)
  case Nil
  then show ?case by (simp add: client_of_def exported_def)
next
  case (Cons e es)
  then show ?case by (cases e) (simp add: client_of_def exported_def client_row_of_def)
qed

text \<open>The rows of one capability of one client are the grant the memory finds.\<close>

definition named :: "string \<Rightarrow> string \<Rightarrow> capability_row \<Rightarrow> bool" where
  "named client c r \<longleftrightarrow> cp_client r = client \<and> cp_capability r = c"

lemma named_own: "distinct (map fst caps) \<Longrightarrow>
  filter (named client c) (map (capability_row_of client) caps) =
    (case map_of caps c of None \<Rightarrow> [] | Some g \<Rightarrow> [capability_row_of client (c, g)])"
proof (induction caps)
  case (Cons e es)
  have "filter (named client c) (map (capability_row_of client) es) = []" if "c \<notin> fst ` set es"
    using that by (auto simp: filter_empty_conv named_def capability_row_of_def)
  moreover have "map_of es c = None" if "c \<notin> fst ` set es" using that by (simp add: map_of_eq_None_iff)
  ultimately show ?case using Cons by (cases e) (auto simp: named_def capability_row_of_def)
qed simp

lemma named_other: "client \<noteq> other \<Longrightarrow> filter (named client c) (map (capability_row_of other) caps) = []"
  by (auto simp: filter_empty_conv named_def capability_row_of_def)

lemma no_rows: "client \<notin> (\<lambda>e. t_client (snd e)) ` set tokens \<Longrightarrow> filter (named client c) (td_caps (exported tokens)) = []"
  by (induction tokens) (simp_all add: exported_def named_other)

lemma named_exported:
  assumes "one_client_each tokens" "map_of tokens tid = Some r"
  shows "filter (named (t_client r) c) (td_caps (exported tokens)) =
    (case map_of (t_caps r) c of None \<Rightarrow> [] | Some g \<Rightarrow> [capability_row_of (t_client r) (c, g)])"
  using assms
proof (induction tokens)
  case (Cons e es)
  have one: "one_client_each es" using Cons.prems by (simp add: one_client_each_def)
  have rest: "filter (named (t_client (snd e)) c) (td_caps (exported es)) = []"
    using Cons.prems(1) by (simp add: one_client_each_def no_rows)
  have step: "td_caps (exported (e # es)) = map (capability_row_of (t_client (snd e))) (t_caps (snd e)) @ td_caps (exported es)"
    by (simp add: exported_def)
  show ?case
  proof (cases "fst e = tid")
    case True
    then have "snd e = r" using Cons.prems(2) by (cases e) simp
    then show ?thesis using Cons.prems(1) rest named_own[of "t_caps r" "t_client r" c] by (simp add: step one_client_each_def)
  next
    case False
    then have r: "map_of es tid = Some r" using Cons.prems(2) by (cases e) simp
    then have "(tid, r) \<in> set es" by (rule map_of_SomeD)
    then have "t_client r \<in> (\<lambda>e. t_client (snd e)) ` set es" by (metis image_eqI snd_conv)
    then have "t_client r \<noteq> t_client (snd e)" using Cons.prems(1) unfolding one_client_each_def by force
    then show ?thesis using Cons.IH[OF one r] by (simp add: step named_other)
  qed
qed simp

lemma usable_named: "filter (usable client c repo) rs =
    filter (\<lambda>r. (cp_repo r = None \<or> cp_repo r = Some repo) \<and> \<not> cp_revoked r) (filter (named client c) rs)"
  by (auto simp: usable_def named_def intro!: filter_cong)

lemma elsewhere_named: "list_ex (\<lambda>g. cp_client g = client \<and> cp_capability g = c \<and> P g) rs \<longleftrightarrow> list_ex P (filter (named client c) rs)"
  by (auto simp: list_ex_iff named_def)

lemma narrowest_simps [simp]: "narrowest [] = None" "narrowest [r] = Some r"
  by (simp_all add: narrowest_def)

text \<open>C32: The test double and the production authorizer take the same decisions. For a memory of
  tokens with one client per token, the database authorizer on the tables that store it returns the
  same resolved decision as the in-memory one, client, session, capability and denial reason
  included, for every bearer, required capability and non-empty repository.\<close>

theorem memory_postgres_agree:
  assumes "one_client_each tokens" and "repo \<noteq> []"
  shows "PostgresAuthorize (\<lambda>_. hash) now (\<lambda>_ _ _ _. None) (exported tokens) required repo token =
    MemoryAuthorize hash now tokens required repo token"
proof (cases required)
  case (Some c)
  obtain tid secret ok where tok: "splitToken token = (tid, secret, ok)" by (cases "splitToken token")
  show ?thesis
  proof (cases "map_of tokens tid")
    case None
    then show ?thesis using Some tok
      by (simp add: PostgresAuthorize_def MemoryAuthorize_def client_of_exported) (simp add: exported_def)
  next
    case (Some r)
    have fails: "\<not> td_client_fails (exported tokens)" "\<not> td_caps_fail (exported tokens)" "\<not> td_scope_fails (exported tokens)"
      by (simp_all add: exported_def)
    have row: "cl_salt (client_row_of (tid, r)) = []" "cl_hash (client_row_of (tid, r)) = t_hash r"
      "cl_client (client_row_of (tid, r)) = t_client r" "cl_revoked (client_row_of (tid, r)) = t_revoked r"
      "cl_expires (client_row_of (tid, r)) = t_expires r"
      by (simp_all add: client_row_of_def)
    show ?thesis
      using \<open>required = Some c\<close> Some assms(2)
      by (cases "map_of (t_caps r) c")
        (auto simp: PostgresAuthorize_def MemoryAuthorize_def tok client_of_exported fails row usable_named elsewhere_named
          named_exported[OF assms(1) Some] capability_row_of_def nullable_def text_or_empty_def)
  qed
qed (simp add: PostgresAuthorize_def MemoryAuthorize_def)

section \<open>Examples\<close>

text \<open>A memory with two clients; the hash is the secret itself.\<close>

definition ex_tokens :: "(string \<times> token_record) list" where
  "ex_tokens =
     [(''t'', \<lparr>t_id = ''t'', t_hash = ''s'', t_client = ''c'', t_caps = [(''claim'', \<lparr>g_repo = ''r'', g_session = ''S'', g_expires = Some 9, g_revoked = False\<rparr>),
         (''read'', \<lparr>g_repo = [], g_session = [], g_expires = None, g_revoked = True\<rparr>)], t_revoked = False, t_expires = None\<rparr>),
      (''u'', \<lparr>t_id = ''u'', t_hash = ''s'', t_client = ''d'', t_caps = [], t_revoked = True, t_expires = None\<rparr>)]"

theorem memory_postgres_agree_witness:
  "PostgresAuthorize (\<lambda>_ s. s) 5 (\<lambda>_ _ _ _. None) (exported ex_tokens) (Some ''claim'') ''r'' ''t.s'' =
     MemoryAuthorize (\<lambda>s. s) 5 ex_tokens (Some ''claim'') ''r'' ''t.s'' \<and>
   ac_session (MemoryAuthorize (\<lambda>s. s) 5 ex_tokens (Some ''claim'') ''r'' ''t.s'') = ''S'' \<and>
   ac_reason (MemoryAuthorize (\<lambda>s. s) 9 ex_tokens (Some ''claim'') ''r'' ''t.s'') = ''capability_expired''"
proof (intro conjI)
  show "PostgresAuthorize (\<lambda>_ s. s) 5 (\<lambda>_ _ _ _. None) (exported ex_tokens) (Some ''claim'') ''r'' ''t.s'' =
     MemoryAuthorize (\<lambda>s. s) 5 ex_tokens (Some ''claim'') ''r'' ''t.s''"
    by (rule memory_postgres_agree) (simp_all add: one_client_each_def ex_tokens_def)
qed code_simp+

theorem authorize_sound_witness:
  "\<exists>tid secret (r :: client_row) (g :: capability_row). splitToken ''t.s'' = (tid, secret, True) \<and>
    client_of (exported ex_tokens) tid = Some r \<and> secret = cl_hash r \<and> g \<in> set (td_caps (exported ex_tokens)) \<and>
    usable (cl_client r) ''claim'' ''r'' g"
proof -
  have "ac_decision (PostgresAuthorize (\<lambda>_ s. s) 5 (\<lambda>_ _ _ _. None) (exported ex_tokens) (Some ''claim'') ''r'' ''t.s'') = ''allowed''"
    by code_simp
  from authorize_sound[OF this] show ?thesis by blast
qed

end
