(* ===== verification/RpcEnvelope.thy ===== *)
theory RpcEnvelope
  imports GoValue RpcCatalog
begin

text \<open>
  The messages of the daemon (\<open>rpc/envelope.go\<close>): errors, the request envelope and its checks, and
  responses. The JSON reader is a parameter; an integer of a decoded object is a \<open>json.Number\<close>.
\<close>

section \<open>Errors\<close>

record rpc_error =
  re_code :: string
  re_message :: string
  re_details :: "gomap option"
  re_suggestion :: string

text \<open>An \<open>error\<close> of Go: one that is an \<open>*rpc.Error\<close>, or another one with its text.\<close>

datatype go_error = RpcError rpc_error | PlainError string

definition NewError :: "string \<Rightarrow> string \<Rightarrow> gomap option \<Rightarrow> go_error" where
  "NewError code message details =
     RpcError \<lparr>re_code = code, re_message = message, re_details = details, re_suggestion = []\<rparr>"

section \<open>Requests\<close>

definition SupportedEnvelopeVersion :: int where
  "SupportedEnvelopeVersion = 1"

definition DefaultFraming :: string where
  "DefaultFraming = ''json''"

record Envelope =
  en_version :: int
  en_request :: string
  en_method :: string
  en_params :: gomap
  en_token :: string
  en_deadline :: int

fun jsonInt :: "goval \<Rightarrow> int option" where
  "jsonInt (VInt i) = Some i"
| "jsonInt (VInt64 i) = Some i"
| "jsonInt (VFloat f) = (if float_eq_int f (float_trunc f) then Some (float_trunc f) else None)"
| "jsonInt (VNumber s) = parse_int64 s"
| "jsonInt _ = None"

definition EnvelopeFromMap :: "gomap \<Rightarrow> go_error + Envelope" where
  "EnvelopeFromMap payload =
     (if jsonInt (mget payload ''schema_version'') \<noteq> Some SupportedEnvelopeVersion
      then Inl (NewError ''version_incompatible'' ''daemon RPC envelope version is not supported''
        (Some [(''supported_envelope'', VList [VInt SupportedEnvelopeVersion]), (''received'', mget payload ''schema_version'')]))
      else (case as_str (mget payload ''request_id'') of None \<Rightarrow>
          Inl (NewError ''schema_invalid'' ''daemon RPC request_id must be a non-empty string'' None)
        | Some rid \<Rightarrow>
      if rid = [] then Inl (NewError ''schema_invalid'' ''daemon RPC request_id must be a non-empty string'' None)
      else (case as_str (mget payload ''method'') of None \<Rightarrow>
          Inl (NewError ''schema_invalid'' ''daemon RPC method must be a non-empty string'' None)
        | Some m \<Rightarrow>
      if m = [] then Inl (NewError ''schema_invalid'' ''daemon RPC method must be a non-empty string'' None)
      else (case as_map (mget payload ''params'') of None \<Rightarrow>
          Inl (NewError ''schema_invalid'' ''daemon RPC params must be a JSON object'' None)
        | Some ps \<Rightarrow>
      (case (if mget payload ''capability_token'' = VNil then Some [] else as_str (mget payload ''capability_token'')) of None \<Rightarrow>
          Inl (NewError ''schema_invalid'' ''daemon RPC capability_token must be a string when present'' None)
        | Some token \<Rightarrow>
      (case (if mhas payload ''deadline_ms'' then jsonInt (mget payload ''deadline_ms'') else Some 0) of None \<Rightarrow>
          Inl (NewError ''schema_invalid'' ''daemon RPC deadline_ms must be a non-negative integer'' None)
        | Some d \<Rightarrow>
      if d < 0 then Inl (NewError ''schema_invalid'' ''daemon RPC deadline_ms must be a non-negative integer'' None)
      else Inr \<lparr>en_version = SupportedEnvelopeVersion, en_request = rid, en_method = m, en_params = ps,
                en_token = token, en_deadline = d\<rparr>))))))"

text \<open>The reader takes the first JSON value of the body; a body that is no object, or an empty one, is refused.\<close>

definition DecodeEnvelope :: "(string \<Rightarrow> gomap option) \<Rightarrow> string \<Rightarrow> go_error + Envelope" where
  "DecodeEnvelope parse body =
     (case parse body of None \<Rightarrow> Inl (NewError ''schema_invalid'' ''daemon RPC body is not valid JSON'' None)
      | Some raw \<Rightarrow>
        if raw = [] then Inl (NewError ''schema_invalid'' ''daemon RPC body must be a JSON object'' None)
        else EnvelopeFromMap raw)"

text \<open>The object \<open>json.Marshal\<close> writes for an envelope, as the reader gives it back: an empty token is left out.\<close>

definition envelope_object :: "Envelope \<Rightarrow> gomap" where
  "envelope_object e =
     [(''schema_version'', VNumber (show_int (en_version e))), (''request_id'', VStr (en_request e)),
      (''method'', VStr (en_method e)), (''params'', VMap (en_params e))] @
     (if en_token e = [] then [] else [(''capability_token'', VStr (en_token e))]) @
     [(''deadline_ms'', VNumber (show_int (en_deadline e)))]"

section \<open>Responses\<close>

record Response =
  rs_version :: int
  rs_request :: string
  rs_ok :: bool
  rs_data :: gomap
  rs_audit :: string

definition OKResponse :: "string \<Rightarrow> gomap \<Rightarrow> string \<Rightarrow> Response" where
  "OKResponse rid data audit =
     \<lparr>rs_version = SupportedEnvelopeVersion, rs_request = rid, rs_ok = True, rs_data = data, rs_audit = audit\<rparr>"

definition as_rpc_error :: "go_error \<Rightarrow> rpc_error" where
  "as_rpc_error err = (case err of RpcError r \<Rightarrow> r
     | PlainError t \<Rightarrow> \<lparr>re_code = ''internal_error'', re_message = t, re_details = None, re_suggestion = []\<rparr>)"

definition ErrorResponse :: "string \<Rightarrow> go_error \<Rightarrow> string \<Rightarrow> Response" where
  "ErrorResponse rid err audit =
     (let r = as_rpc_error err;
          suggestion = (if re_suggestion r = [] then DefaultSuggestion (re_code r) else re_suggestion r)
      in \<lparr>rs_version = SupportedEnvelopeVersion, rs_request = rid, rs_ok = False,
          rs_data = [(''code'', VStr (re_code r)), (''message'', VStr (re_message r)),
              (''details'', (case re_details r of None \<Rightarrow> VNil | Some d \<Rightarrow> VMap d))] @
            (if suggestion \<noteq> [] then [(''suggestion'', VStr suggestion)] else []),
          rs_audit = audit\<rparr>)"

definition response_code :: "Response \<Rightarrow> string" where
  "response_code r = stringValue (mget (rs_data r) ''code'')"

section \<open>Laws\<close>

lemma ErrorResponse_simps [simp]:
  "rs_ok (ErrorResponse rid err audit) = False" "rs_request (ErrorResponse rid err audit) = rid"
  "response_code (ErrorResponse rid err audit) = re_code (as_rpc_error err)" "rs_audit (ErrorResponse rid err audit) = audit"
  by (simp_all add: ErrorResponse_def Let_def response_code_def mget_def)

lemma OKResponse_simps [simp]:
  "rs_ok (OKResponse rid data audit)" "rs_request (OKResponse rid data audit) = rid"
  "rs_data (OKResponse rid data audit) = data" "rs_audit (OKResponse rid data audit) = audit"
  by (simp_all add: OKResponse_def)

lemma NewError_code [simp]: "re_code (as_rpc_error (NewError c m d)) = c"
  by (simp add: NewError_def as_rpc_error_def)

section \<open>Numbers read back\<close>

lemma digits_value_append: "digits_value acc (xs @ [c]) = 10 * digits_value acc xs + (of_char c - 48)"
  by (induction acc xs rule: digits_value.induct) simp_all

lemma digit_char: "d < 10 \<Longrightarrow> is_digit (char_of (48 + d)) \<and> (of_char (char_of (48 + d) :: char) :: nat) = 48 + d"
  by (simp add: is_digit_def)

lemma show_nat_digits: "list_all is_digit (show_nat n) \<and> show_nat n \<noteq> [] \<and> digits_value 0 (show_nat n) = n"
proof (induction n rule: show_nat.induct)
  case (1 n)
  show ?case
  proof (cases "n < 10")
    case True
    then show ?thesis using digit_char[of n] by (subst (1 2 3) show_nat.simps) simp
  next
    case False
    then show ?thesis using 1 digit_char[of "n mod 10"] by (subst (1 2 3) show_nat.simps) (simp add: digits_value_append)
  qed
qed

lemma digit_no_sign: "is_digit c \<Longrightarrow> c \<noteq> CHR ''-'' \<and> c \<noteq> CHR ''+''"
  by (auto simp: is_digit_def)

lemma parse_show_int: "0 \<le> i \<Longrightarrow> i < 2 ^ 63 \<Longrightarrow> parse_int64 (show_int i) = Some i"
proof -
  assume i: "0 \<le> i" "i < 2 ^ 63"
  obtain c cs where s: "show_nat (nat i) = c # cs" using show_nat_digits by (cases "show_nat (nat i)") auto
  have "is_digit c" using show_nat_digits[of "nat i"] by (simp add: s)
  then show ?thesis using show_nat_digits[of "nat i"] i digit_no_sign[of c]
    by (simp add: parse_int64_def show_int_def s parse_digits_def Let_def)
qed

section \<open>Properties\<close>

text \<open>An envelope survives its encoding. Reading the object that an envelope of the supported version
  is written as gives the same envelope back, for every non-empty request id and method, every
  parameters, with or without a token, and every deadline of a signed 64 bit integer that is not
  negative.\<close>

theorem envelope_roundtrip:
  assumes "en_version e = 1" "en_request e \<noteq> []" "en_method e \<noteq> []" "0 \<le> en_deadline e" "en_deadline e < 2 ^ 63"
  shows "EnvelopeFromMap (envelope_object e) = Inr e"
  using assms parse_show_int[of 1] parse_show_int[of "en_deadline e"]
  by (cases e) (simp add: EnvelopeFromMap_def envelope_object_def mget_def mhas_def SupportedEnvelopeVersion_def)

theorem envelope_roundtrip_witness:
  "EnvelopeFromMap (envelope_object \<lparr>en_version = 1, en_request = ''q'', en_method = ''status'', en_params = [(''n'', VNumber ''7'')],
      en_token = ''t.s'', en_deadline = 1500\<rparr>) =
   Inr \<lparr>en_version = 1, en_request = ''q'', en_method = ''status'', en_params = [(''n'', VNumber ''7'')],
      en_token = ''t.s'', en_deadline = 1500\<rparr>"
  by (rule envelope_roundtrip) simp_all

end
