(* ===== verification/RpcServer.thy ===== *)
theory RpcServer
  imports RpcDedupe RpcAuth RpcEnvelope
begin

text \<open>
  The dispatch of the daemon (\<open>rpc/server.go\<close>): a request passes the duplicate check, the handshake,
  the registry and the authorizer before its handler runs, and is answered only with an audit row. A
  request is handled at one instant. What the handlers, the authorizer and the audit recorder work on
  is the type variable of the state, and they are functions of the configuration.
\<close>

section \<open>The server\<close>

text \<open>
  A handler gets the resolved decision, the envelope and, when an audit is configured, the daemon
  version and transport to label an audit row it writes in its own transaction; it gives back that
  row's id with its result.
\<close>

type_synonym 'w handler =
  "auth_context \<Rightarrow> Envelope \<Rightarrow> (string \<times> string) option \<Rightarrow> 'w \<Rightarrow> (go_error + gomap) \<times> string option \<times> 'w"

type_synonym 'w recorder = "Envelope \<Rightarrow> auth_context \<Rightarrow> Response \<Rightarrow> string \<Rightarrow> 'w \<Rightarrow> (string + string) \<times> 'w"

record 'w config =
  cf_version :: string
  cf_schema :: int
  cf_sealed :: gomap
  cf_sealed_now :: "gomap option"
  cf_etag :: string
  cf_authorize :: "'w \<Rightarrow> instant \<Rightarrow> string option \<Rightarrow> string \<Rightarrow> string \<Rightarrow> auth_context"
  cf_recorder :: "'w recorder option"
  cf_handlers :: "(string \<times> 'w handler) list"

record 'w Server =
  sv_requests :: boundedSeen
  sv_handshakes :: boundedSeen
  sv_world :: 'w

definition NewServer :: "'w \<Rightarrow> 'w Server" where
  "NewServer w =
     \<lparr>sv_requests = newBoundedSeen defaultDedupeMaxEntries defaultDedupeTTL,
      sv_handshakes = newBoundedSeen defaultDedupeMaxEntries defaultDedupeTTL, sv_world = w\<rparr>"

text \<open>\<open>Register\<close>: the last handler of a method is the one that runs.\<close>

definition Register :: "string \<Rightarrow> 'w handler \<Rightarrow> 'w config \<Rightarrow> 'w config" where
  "Register m h cf = cf\<lparr>cf_handlers := (m, h) # cf_handlers cf\<rparr>"

section \<open>The steps of a request\<close>

definition repositoryID :: "gomap \<Rightarrow> string" where
  "repositoryID params = (if mget params ''repository_id'' = VNil then [] else go_sprint (mget params ''repository_id''))"

definition deniedAuth :: "auth_context \<Rightarrow> string \<Rightarrow> auth_context" where
  "deniedAuth a reason = a\<lparr>ac_decision := ''denied'', ac_reason := reason\<rparr>"

definition containsInt :: "goval \<Rightarrow> int \<Rightarrow> bool" where
  "containsInt v n = (case v of VList items \<Rightarrow> list_ex (\<lambda>i. jsonInt i = Some n) items | _ \<Rightarrow> False)"

definition containsString :: "goval \<Rightarrow> string \<Rightarrow> bool" where
  "containsString v t = (case v of VList items \<Rightarrow> list_ex (\<lambda>i. as_str i = Some t) items | _ \<Rightarrow> False)"

definition sealedApplyStatus :: "'w config \<Rightarrow> gomap" where
  "sealedApplyStatus cf = (case cf_sealed_now cf of None \<Rightarrow> cf_sealed cf | Some st \<Rightarrow> st)"

definition buildWelcome :: "'w config \<Rightarrow> gomap \<Rightarrow> go_error + gomap" where
  "buildWelcome cf params =
     (case as_map (mget params ''client'') of None \<Rightarrow>
        Inl (NewError ''schema_invalid'' ''daemon.hello requires a client object'' None)
      | Some client \<Rightarrow>
        if \<not> containsInt (mget client ''supported_envelope'') SupportedEnvelopeVersion
        then Inl (NewError ''version_incompatible'' ''client and daemon have no shared envelope version''
          (Some [(''daemon_supported_envelope'', VList [VInt SupportedEnvelopeVersion])]))
        else if \<not> containsString (mget client ''supported_framings'') DefaultFraming
        then Inl (NewError ''version_incompatible'' ''client and daemon have no shared framing''
          (Some [(''daemon_supported_framings'', VStrs [DefaultFraming])]))
        else Inr [(''daemon_version'', VStr (cf_version cf)), (''envelope'', VInt SupportedEnvelopeVersion),
          (''framing'', VStr DefaultFraming), (''substrate'', VStr ''postgres''), (''substrate_schema'', VInt (cf_schema cf)),
          (''methods_etag'', VStr (cf_etag cf)), (''sealed_apply'', VMap (sealedApplyStatus cf))])"

text \<open>\<open>RequireAllowed\<close>.\<close>

definition RequireAllowed :: "auth_context \<Rightarrow> string \<Rightarrow> string option \<Rightarrow> go_error option" where
  "RequireAllowed a m required =
     (if ac_decision a = ''allowed'' then None
      else let reason = (if ac_reason a = [] then ''capability_missing'' else ac_reason a);
               cap = text_or_empty required;
               scoped = (reason = ''capability_missing'' \<or> reason = ''capability_expired'');
               lack = (if reason = ''capability_expired'' then ''whose grant on this token has expired''
                       else ''which this token does not carry'');
               message = (if scoped \<and> m \<noteq> [] \<and> cap \<noteq> [] then
                   ''daemon RPC authorization failed: method '' @ m @ '' requires the '' @ cap @ '' capability, '' @ lack
                 else if scoped \<and> cap \<noteq> [] then
                   ''daemon RPC authorization failed: this method requires the '' @ cap @ '' capability, '' @ lack
                 else ''daemon RPC authorization failed'');
               details = (if m \<noteq> [] then [(''method'', VStr m)] else []) @
                 (if cap \<noteq> [] then [(''required_capability'', VStr cap),
                   (''remediation'', VStr (''mint a token that grants '' @ cap @ '': `striatum daemon token-create --capability '' @
                      cap @ ''` (admin token required); see docs/how-to/how-to-human.md''))] else [])
        in Some (NewError reason message (if scoped then Some details else None)))"

definition methodEntryPublicMap :: "MethodEntry \<Rightarrow> gomap" where
  "methodEntryPublicMap e =
     [(''method'', VStr (me_method e)),
      (''required_capability'', (case me_capability e of None \<Rightarrow> VNil | Some c \<Rightarrow> VStr c)),
      (''repository_scope'', VBool (me_repo_scope e)), (''repository_scope_mode'', VStr (me_mode e)),
      (''params_schema_version'', VInt (me_params_version e)), (''audit_class'', VStr (me_audit_class e)),
      (''min_envelope'', VInt (me_min_envelope e)), (''deprecated'', VBool (me_deprecated e))]"

definition DescribeMethods :: "'w config \<Rightarrow> gomap" where
  "DescribeMethods cf = [(''methods_etag'', VStr (cf_etag cf)), (''methods'', VMaps (map methodEntryPublicMap SortedMethods))]"

definition route :: "'w config \<Rightarrow> (string \<times> string) option \<Rightarrow> auth_context \<Rightarrow> Envelope \<Rightarrow> 'w \<Rightarrow>
    (go_error + gomap) \<times> string option \<times> 'w" where
  "route cf dispatch a env w =
     (if en_method env = ''daemon.describe'' then (Inr (DescribeMethods cf), None, w)
      else (case map_of (cf_handlers cf) (en_method env) of
          None \<Rightarrow> (Inl (NewError ''method_unknown'' (''method has no handler: '' @ en_method env) None), None, w)
        | Some h \<Rightarrow> h a env dispatch w))"

section \<open>The dispatch\<close>

text \<open>
  Up to the answer: the decision that will be audited, the result, the id of a row the handler has
  already written, and the state. The handshake is looked up only where it is required.
\<close>

record 'w outcome =
  oc_auth :: auth_context
  oc_result :: "go_error + gomap"
  oc_row :: "string option"
  oc_server :: "'w Server"

definition refused :: "'w Server \<Rightarrow> auth_context \<Rightarrow> string \<Rightarrow> string \<Rightarrow> 'w outcome" where
  "refused s a code message =
     \<lparr>oc_auth = deniedAuth a code, oc_result = Inl (NewError code message None), oc_row = None, oc_server = s\<rparr>"

definition authorized :: "'w config \<Rightarrow> instant \<Rightarrow> (string \<times> string) option \<Rightarrow> Envelope \<Rightarrow> MethodEntry \<Rightarrow> 'w Server \<Rightarrow> 'w outcome" where
  "authorized cf now dispatch env e s =
     (let repo = repositoryID (en_params env);
          a0 = cf_authorize cf (sv_world s) now (me_capability e) repo (en_token env);
          a = (if ac_repo a0 = [] then a0\<lparr>ac_repo := repo\<rparr> else a0)
      in (case RequireAllowed a (en_method env) (me_capability e) of
          Some err \<Rightarrow> \<lparr>oc_auth = deniedAuth a (re_code (as_rpc_error err)), oc_result = Inl err, oc_row = None, oc_server = s\<rparr>
        | None \<Rightarrow> (case route cf dispatch a env (sv_world s) of (result, row, w) \<Rightarrow>
            \<lparr>oc_auth = (case result of Inl (RpcError r) \<Rightarrow> deniedAuth a (re_code r) | _ \<Rightarrow> a),
             oc_result = result, oc_row = (if dispatch = None then None else row), oc_server = s\<lparr>sv_world := w\<rparr>\<rparr>)))"

definition hasHandshake :: "bool \<Rightarrow> instant \<Rightarrow> string \<Rightarrow> string \<Rightarrow> 'w Server \<Rightarrow> bool \<times> 'w Server" where
  "hasHandshake required now m conn s =
     (if required \<and> m \<noteq> ''daemon.hello''
      then (fst (Contains now conn (sv_handshakes s)), s\<lparr>sv_handshakes := snd (Contains now conn (sv_handshakes s))\<rparr>)
      else (True, s))"

definition serve_method :: "'w config \<Rightarrow> instant \<Rightarrow> (string \<times> string) option \<Rightarrow> Envelope \<Rightarrow> string \<Rightarrow> bool \<Rightarrow> 'w Server \<Rightarrow> 'w outcome" where
  "serve_method cf now dispatch env conn required s0 =
     (let repo = repositoryID (en_params env); a = decided repo ''allowed'' [];
          shaken = fst (hasHandshake required now (en_method env) conn s0);
          s = snd (hasHandshake required now (en_method env) conn s0)
      in if \<not> shaken then refused s a ''version_incompatible'' ''daemon.hello must run before ordinary RPC routes''
         else (case MethodRegistry (en_method env) of
             None \<Rightarrow> refused s a ''method_unknown'' (''unknown daemon RPC method: '' @ en_method env)
           | Some e \<Rightarrow>
             if me_repo_scope e \<and> repo = [] then refused s a ''repo_not_registered'' ''daemon RPC route requires repository_id''
             else if en_method env = ''daemon.hello'' then
               (case buildWelcome cf (en_params env) of
                  Inl err \<Rightarrow> \<lparr>oc_auth = a, oc_result = Inl err, oc_row = None, oc_server = s\<rparr>
                | Inr data \<Rightarrow> \<lparr>oc_auth = a, oc_result = Inr data, oc_row = None,
                    oc_server = s\<lparr>sv_handshakes := snd (Add now conn (sv_handshakes s))\<rparr>\<rparr>)
             else authorized cf now dispatch env e s))"

definition answer :: "'w config \<Rightarrow> string \<Rightarrow> Envelope \<Rightarrow> 'w outcome \<Rightarrow> Response \<times> 'w Server" where
  "answer cf transport env oc =
     (let s = oc_server oc;
          response = (case oc_result oc of Inl err \<Rightarrow> ErrorResponse (en_request env) err []
            | Inr data \<Rightarrow> OKResponse (en_request env) data [])
      in (case oc_row oc of
          Some row \<Rightarrow> (response\<lparr>rs_audit := row\<rparr>, s)
        | None \<Rightarrow> (case cf_recorder cf of
            None \<Rightarrow> (response, s)
          | Some rec \<Rightarrow> (case rec env (oc_auth oc) response transport (sv_world s) of
              (Inl cause, w) \<Rightarrow> (ErrorResponse (en_request env) (NewError ''audit_append_failed''
                  ''daemon could not append the RPC audit row; refusing to answer without provenance''
                  (Some [(''cause'', VStr cause)])) [], s\<lparr>sv_world := w\<rparr>)
            | (Inr row, w) \<Rightarrow> (if row = [] then response else response\<lparr>rs_audit := row\<rparr>, s\<lparr>sv_world := w\<rparr>)))))"

definition transport_of :: "string \<Rightarrow> bool \<Rightarrow> string" where
  "transport_of conn required = (if \<not> required \<and> conn = ''mcp'' then ''mcp'' else ''rpc'')"

definition audit_dispatch :: "'w config \<Rightarrow> string \<Rightarrow> (string \<times> string) option" where
  "audit_dispatch cf transport = (case cf_recorder cf of None \<Rightarrow> None | Some _ \<Rightarrow> Some (cf_version cf, transport))"

definition handle :: "'w config \<Rightarrow> instant \<Rightarrow> Envelope \<Rightarrow> string \<Rightarrow> bool \<Rightarrow> 'w Server \<Rightarrow> Response \<times> 'w Server" where
  "handle cf now env conn required s =
     (let transport = transport_of conn required;
          dispatch = audit_dispatch cf transport;
          (duplicate, requests) = Add now (en_request env) (sv_requests s);
          s1 = s\<lparr>sv_requests := requests\<rparr>
      in if duplicate then
           (ErrorResponse (en_request env) (NewError ''duplicate_request'' ''daemon RPC request_id was already used'' None) [], s1)
         else answer cf transport env (serve_method cf now dispatch env conn required s1))"

definition Handle :: "'w config \<Rightarrow> instant \<Rightarrow> Envelope \<Rightarrow> string \<Rightarrow> 'w Server \<Rightarrow> Response \<times> 'w Server" where
  "Handle cf now env conn s = handle cf now env conn True s"

definition HandleWithoutHandshake :: "'w config \<Rightarrow> instant \<Rightarrow> Envelope \<Rightarrow> string \<Rightarrow> 'w Server \<Rightarrow> Response \<times> 'w Server" where
  "HandleWithoutHandshake cf now env conn s = handle cf now env conn False s"

section \<open>A connection\<close>

definition MaxEnvelopeBytes :: nat where
  "MaxEnvelopeBytes = 8 * 1024 * 1024"

definition blank_byte :: "char \<Rightarrow> bool" where
  "blank_byte c \<longleftrightarrow> c = CHR '' '' \<or> c = CHR 0x09 \<or> c = CHR 0x0D \<or> c = CHR 0x0A"

definition stripSpace :: "string \<Rightarrow> string" where
  "stripSpace s = rev (dropWhile blank_byte (rev (dropWhile blank_byte s)))"

text \<open>
  The lines of a connection with the times they are handled at. A line that does not fit the buffer,
  and a response that cannot be written, end the loop.
\<close>

fun ServeConn :: "'w config \<Rightarrow> (string \<Rightarrow> gomap option) \<Rightarrow> (Response \<Rightarrow> string option) \<Rightarrow> string \<Rightarrow>
    (instant \<times> string) list \<Rightarrow> 'w Server \<Rightarrow> string list \<times> 'w Server" where
  "ServeConn cf parse encode conn [] s = ([], s)"
| "ServeConn cf parse encode conn ((now, line) # lines) s =
     (if MaxEnvelopeBytes \<le> length line then ([], s)
      else if stripSpace line = [] then ServeConn cf parse encode conn lines s
      else
        (let (response, s1) = (case DecodeEnvelope parse line of
               Inl err \<Rightarrow> (ErrorResponse [] err [], s)
             | Inr env \<Rightarrow> Handle cf now env conn s)
         in (case encode response of None \<Rightarrow> ([], s1)
             | Some text \<Rightarrow>
               (let (texts, s2) = ServeConn cf parse encode conn lines s1 in (text # texts, s2)))))"

section \<open>What a request may do\<close>

text \<open>
  A request is admitted when it is no duplicate and its method is registered, in scope, preceded by the
  handshake where that is required, and allowed by the authorizer for a capability of the closed set.
\<close>

definition admitted :: "'w config \<Rightarrow> instant \<Rightarrow> Envelope \<Rightarrow> string \<Rightarrow> bool \<Rightarrow> 'w Server \<Rightarrow> bool" where
  "admitted cf now env conn required s \<longleftrightarrow>
     \<not> fst (Add now (en_request env) (sv_requests s)) \<and>
     (required \<longrightarrow> fst (Contains now conn (sv_handshakes s))) \<and>
     (case MethodRegistry (en_method env) of None \<Rightarrow> False
      | Some e \<Rightarrow> en_method env \<noteq> ''daemon.hello'' \<and> (me_repo_scope e \<longrightarrow> repositoryID (en_params env) \<noteq> []) \<and>
          (case me_capability e of None \<Rightarrow> False | Some c \<Rightarrow> list_ex ((=) c) Capabilities \<and>
            ac_decision (cf_authorize cf (sv_world s) now (Some c) (repositoryID (en_params env)) (en_token env)) = ''allowed''))"

lemma RequireAllowed_None: "RequireAllowed a m c = None \<longleftrightarrow> ac_decision a = ''allowed''"
  by (simp add: RequireAllowed_def Let_def)

lemma handle_new:
  "Add now (en_request env) (sv_requests s) = (False, q) \<Longrightarrow>
   handle cf now env conn required s = answer cf (transport_of conn required) env
     (serve_method cf now (audit_dispatch cf (transport_of conn required)) env conn required (s\<lparr>sv_requests := q\<rparr>))"
  by (simp add: handle_def Let_def)

lemma handle_duplicate:
  "fst (Add now (en_request env) (sv_requests s)) \<Longrightarrow>
   handle cf now env conn required s =
     (ErrorResponse (en_request env) (NewError ''duplicate_request'' ''daemon RPC request_id was already used'' None) [],
      s\<lparr>sv_requests := snd (Add now (en_request env) (sv_requests s))\<rparr>)"
  by (simp add: handle_def Let_def split_beta)

text \<open>Up to the answer, a request that is not admitted leaves the state of the handlers alone.\<close>

lemma serve_method_confined:
  assumes "\<not> admitted cf now env conn required s" "\<not> fst (Add now (en_request env) (sv_requests s))"
  shows "sv_world (oc_server (serve_method cf now dispatch env conn required (s\<lparr>sv_requests := q\<rparr>))) = sv_world s \<and>
    oc_row (serve_method cf now dispatch env conn required (s\<lparr>sv_requests := q\<rparr>)) = None \<and>
    (en_method env = ''daemon.hello'' \<or> isl (oc_result (serve_method cf now dispatch env conn required (s\<lparr>sv_requests := q\<rparr>))))"
proof -
  let ?t = "snd (hasHandshake required now (en_method env) conn (s\<lparr>sv_requests := q\<rparr>))"
  have t: "sv_world ?t = sv_world s" by (simp add: hasHandshake_def)
  show ?thesis
  proof (cases "MethodRegistry (en_method env)")
    case None
    then show ?thesis using t by (simp add: serve_method_def Let_def refused_def)
  next
    case (Some e)
    then obtain c where c: "en_method env = ''daemon.hello'' \<or> me_capability e = Some c \<and> list_ex ((=) c) Capabilities"
      using registered_ok[OF Some] by (auto simp: entry_ok_def split: option.splits)
    let ?repo = "repositoryID (en_params env)"
    let ?a = "cf_authorize cf (sv_world s) now (me_capability e) ?repo (en_token env)"
    show ?thesis
    proof (cases "en_method env = ''daemon.hello''")
      case True
      then show ?thesis using Some t
        by (simp add: serve_method_def Let_def refused_def split: sum.split)
    next
      case False
      then have "fst (hasHandshake required now (en_method env) conn (s\<lparr>sv_requests := q\<rparr>)) \<Longrightarrow>
          me_repo_scope e \<and> ?repo = [] \<or> ac_decision ?a \<noteq> ''allowed''"
        using assms Some c by (auto simp: admitted_def hasHandshake_def)
      moreover have "sv_world (oc_server (authorized cf now dispatch env e ?t)) = sv_world s \<and>
          oc_row (authorized cf now dispatch env e ?t) = None \<and> isl (oc_result (authorized cf now dispatch env e ?t))"
        if "ac_decision ?a \<noteq> ''allowed''"
        using that t RequireAllowed_None[of "if ac_repo ?a = [] then ?a\<lparr>ac_repo := ?repo\<rparr> else ?a" "en_method env" "me_capability e"]
        by (auto simp: authorized_def Let_def split: option.split)
      ultimately show ?thesis using False Some t
        by (auto simp: serve_method_def Let_def refused_def)
    qed
  qed
qed

text \<open>C29: Nothing happens without authority. A request that is a duplicate, comes before the handshake,
  names an unknown method, misses its repository or is not allowed by the authorizer is answered with an
  error unless it is the handshake itself, and the state the handlers work on is as before, or as the audit
  recorder leaves it when it writes the row of the refusal.\<close>

theorem unauthorized_has_no_effect:
  assumes "\<not> admitted cf now env conn required s"
  shows "(en_method env = ''daemon.hello'' \<or> \<not> rs_ok (fst (handle cf now env conn required s))) \<and>
    (sv_world (snd (handle cf now env conn required s)) = sv_world s \<or>
     (\<exists>rec a r t. cf_recorder cf = Some rec \<and> sv_world (snd (handle cf now env conn required s)) = snd (rec env a r t (sv_world s))))"
proof (cases "fst (Add now (en_request env) (sv_requests s))")
  case True
  then show ?thesis by (simp add: handle_def Let_def split_beta)
next
  case False
  obtain q where q: "Add now (en_request env) (sv_requests s) = (False, q)" using False by (cases "Add now (en_request env) (sv_requests s)") auto
  define oc where "oc = serve_method cf now (audit_dispatch cf (transport_of conn required)) env conn required (s\<lparr>sv_requests := q\<rparr>)"
  have h: "handle cf now env conn required s = answer cf (transport_of conn required) env oc"
    using handle_new[OF q] by (simp add: oc_def)
  have oc: "sv_world (oc_server oc) = sv_world s" "oc_row oc = None" "en_method env = ''daemon.hello'' \<or> isl (oc_result oc)"
    using serve_method_confined[OF assms False, of "audit_dispatch cf (transport_of conn required)" q] by (simp_all add: oc_def)
  show ?thesis
  proof (cases "cf_recorder cf")
    case None
    then show ?thesis using oc by (auto simp: h answer_def Let_def isl_def)
  next
    case (Some rec)
    then show ?thesis using oc
      by (auto simp: h answer_def Let_def isl_def split: prod.splits sum.splits) (metis snd_conv)+
  qed
qed

section \<open>Requests in sequence\<close>

fun handle_all :: "'w config \<Rightarrow> (instant \<times> Envelope \<times> string \<times> bool) list \<Rightarrow> 'w Server \<Rightarrow> 'w Server" where
  "handle_all cf [] s = s"
| "handle_all cf ((now, env, conn, required) # qs) s = handle_all cf qs (snd (handle cf now env conn required s))"

lemma serve_method_requests: "sv_requests (oc_server (serve_method cf now dispatch env conn required s)) = sv_requests s"
  by (simp add: serve_method_def Let_def refused_def authorized_def hasHandshake_def split_beta
      split: option.split sum.split)

lemma answer_requests: "sv_requests (snd (answer cf transport env oc)) = sv_requests (oc_server oc)"
  by (simp add: answer_def Let_def split: option.split sum.split prod.split)

lemma handle_requests: "sv_requests (snd (handle cf now env conn required s)) = snd (Add now (en_request env) (sv_requests s))"
proof (cases "fst (Add now (en_request env) (sv_requests s))")
  case True
  then show ?thesis by (simp add: handle_duplicate)
next
  case False
  then obtain q where q: "Add now (en_request env) (sv_requests s) = (False, q)" by (cases "Add now (en_request env) (sv_requests s)") auto
  then show ?thesis by (simp add: handle_new[OF q] answer_requests serve_method_requests)
qed

text \<open>A key that was entered stays through later entries within the expiry and the cap.\<close>

definition remembers :: "string \<Rightarrow> instant \<Rightarrow> nat \<Rightarrow> boundedSeen \<Rightarrow> bool" where
  "remembers key t0 room b \<longleftrightarrow> (key, t0) \<in> set (entries b) \<and> int (length (entries b) + room) \<le> maxEntries b"

lemma remembers_Add:
  assumes "remembers key t0 (Suc room) b" "now \<le> t0 + ttl b"
  shows "remembers key t0 room (snd (Add now k b)) \<and> ttl (snd (Add now k b)) = ttl b"
proof -
  have len: "length (recent (ttl b) now (entries b)) \<le> length (entries b)" by (simp add: recent_def)
  have kept: "(key, t0) \<in> set (recent (ttl b) now (entries b))" using assms by (auto simp: remembers_def recent_def)
  consider "k = []" | "k \<noteq> []" "k \<in> fst ` set (recent (ttl b) now (entries b))" | "k \<noteq> []" "k \<notin> fst ` set (recent (ttl b) now (entries b))"
    by blast
  then show ?thesis
  proof cases
    case 1
    then show ?thesis using assms(1) by (simp add: Add_empty remembers_def)
  next
    case 2
    then show ?thesis using kept len assms(1) by (simp add: Add_dup remembers_def entries_sweep) (simp add: sweepLocked_def)
  next
    case 3
    moreover have "int (length (recent (ttl b) now (entries b))) + 1 \<le> maxEntries b" using len assms(1) by (simp add: remembers_def)
    ultimately show ?thesis using kept len assms(1) by (simp add: Add_new remembers_def)
  qed
qed

lemma handle_all_remembers:
  assumes "remembers key t0 (length qs + n) (sv_requests s)" "list_all (\<lambda>q. fst q \<le> t0 + ttl (sv_requests s)) qs"
  shows "remembers key t0 n (sv_requests (handle_all cf qs s)) \<and> ttl (sv_requests (handle_all cf qs s)) = ttl (sv_requests s)"
  using assms
proof (induction qs arbitrary: s)
  case (Cons q qs)
  obtain now env conn required where q: "q = (now, env, conn, required)" by (cases q)
  then show ?case
    using Cons.IH[of "snd (handle cf now env conn required s)"] Cons.prems
      remembers_Add[of key t0 "length qs + n" "sv_requests s" now "en_request env"]
    by (simp add: handle_requests)
qed simp

text \<open>A request is not replayed. After a request has been accepted, with fewer than the cap of ids
  remembered, and any other requests within the expiry, one that has its id is answered as a duplicate:
  it is refused, and neither the handlers nor the audit recorder change the state for it.\<close>

theorem request_not_replayed:
  assumes "en_request env \<noteq> []" "seen_ok (sv_requests s)" "\<not> fst (Add t0 (en_request env) (sv_requests s))"
    and "int (length (entries (sv_requests s)) + length qs + 1) \<le> maxEntries (sv_requests s)"
    and "list_all (\<lambda>q. fst q \<le> t0 + ttl (sv_requests s)) qs" "t1 \<le> t0 + ttl (sv_requests s)"
    and "en_request env' = en_request env"
  shows "response_code (fst (handle cf t1 env' conn' required' (handle_all cf ((t0, env, conn, required) # qs) s))) = ''duplicate_request'' \<and>
    sv_world (snd (handle cf t1 env' conn' required' (handle_all cf ((t0, env, conn, required) # qs) s))) =
      sv_world (handle_all cf ((t0, env, conn, required) # qs) s)"
proof -
  let ?b = "sv_requests s" and ?s1 = "snd (handle cf t0 env conn required s)"
  let ?s2 = "handle_all cf qs ?s1"
  have fresh: "en_request env \<notin> fst ` set (recent (ttl ?b) t0 (entries ?b))"
  proof
    assume "en_request env \<in> fst ` set (recent (ttl ?b) t0 (entries ?b))"
    then have "Add t0 (en_request env) ?b = (True, sweepLocked t0 ?b)" by (rule Add_dup[OF assms(1)])
    then show False using assms(3) by simp
  qed
  have len: "length (recent (ttl ?b) t0 (entries ?b)) \<le> length (entries ?b)" by (simp add: recent_def)
  have new: "snd (Add t0 (en_request env) ?b) = ?b\<lparr>entries := recent (ttl ?b) t0 (entries ?b) @ [(en_request env, t0)]\<rparr>"
    using Add_new[OF assms(1) fresh] len assms(4) by simp
  have "remembers (en_request env) t0 (length qs + 0) (sv_requests ?s1)"
    using len assms(4) by (simp add: handle_requests new remembers_def)
  moreover have "ttl (sv_requests ?s1) = ttl ?b" by (simp add: handle_requests new)
  ultimately have s2: "remembers (en_request env) t0 0 (sv_requests ?s2)" "ttl (sv_requests ?s2) = ttl ?b"
    using handle_all_remembers[of "en_request env" t0 qs 0 ?s1 cf] assms(5) by simp_all
  then have "(en_request env, t0) \<in> set (recent (ttl (sv_requests ?s2)) t1 (entries (sv_requests ?s2)))"
    using assms(6) by (auto simp: remembers_def recent_def)
  then have "en_request env \<in> fst ` set (recent (ttl (sv_requests ?s2)) t1 (entries (sv_requests ?s2)))" by force
  then have "fst (Add t1 (en_request env') (sv_requests ?s2))" using assms(1,7) by (simp add: Add_dup)
  then show ?thesis by (simp add: handle_duplicate)
qed

section \<open>Provenance\<close>

lemma authorized_allowed:
  "isl (oc_result (authorized cf now dispatch env e s)) \<or> ac_decision (oc_auth (authorized cf now dispatch env e s)) = ''allowed''"
  by (auto simp: authorized_def Let_def RequireAllowed_None split: option.split prod.split sum.split)

lemma serve_method_allowed:
  "isl (oc_result (serve_method cf now dispatch env conn required s)) \<or>
   ac_decision (oc_auth (serve_method cf now dispatch env conn required s)) = ''allowed''"
  using authorized_allowed[of cf now dispatch env _ "snd (hasHandshake required now (en_method env) conn s)"]
  by (simp add: serve_method_def Let_def refused_def split: option.split sum.split)


section \<open>The handshake\<close>

lemma handle_hello:
  assumes "Add now (en_request env) (sv_requests s) = (False, q)" "en_method env = ''daemon.hello''"
    "buildWelcome cf (en_params env) = Inr data" "cf_recorder cf = None"
  shows "handle cf now env conn required s =
    (OKResponse (en_request env) data [], s\<lparr>sv_requests := q, sv_handshakes := snd (Add now conn (sv_handshakes s))\<rparr>)"
  using assms hello_entry
  by (auto simp: handle_new[OF assms(1)] serve_method_def Let_def hasHandshake_def answer_def)

lemma handle_unshaken:
  assumes "Add now (en_request env) (sv_requests s) = (False, q)" "en_method env \<noteq> ''daemon.hello''"
    "\<not> fst (Contains now conn (sv_handshakes s))" "cf_recorder cf = None"
  shows "response_code (fst (handle cf now env conn True s)) = ''version_incompatible''"
  using assms
  by (simp add: handle_new[OF assms(1)] serve_method_def Let_def hasHandshake_def refused_def answer_def)

text \<open>A repeated handshake does not renew the first one. A client that shakes hands, does so again
  within the expiry and is welcomed both times, is refused as if it had never shaken hands once the expiry
  has passed since the first time, however short ago the second one was.\<close>

theorem hello_does_not_refresh:
  assumes "cf_recorder cf = None" "conn \<noteq> []" "en_method h1 = ''daemon.hello''" "en_method h2 = ''daemon.hello''"
    "buildWelcome cf (en_params h1) = Inr d1" "buildWelcome cf (en_params h2) = Inr d2" "en_method env \<noteq> ''daemon.hello''"
    "en_request h1 \<noteq> []" "en_request h2 \<noteq> []" "en_request env \<noteq> []"
    "distinct [en_request h1, en_request h2, en_request env]"
    "t0 \<le> t1" "t1 \<le> t0 + seconds 600" "t0 + seconds 600 < t2" "t1 \<le> t2"
  shows "rs_ok (fst (Handle cf t0 h1 conn (NewServer w))) \<and>
    rs_ok (fst (Handle cf t1 h2 conn (snd (Handle cf t0 h1 conn (NewServer w))))) \<and>
    response_code (fst (Handle cf t2 env conn (snd (Handle cf t1 h2 conn (snd (Handle cf t0 h1 conn (NewServer w))))))) =
      ''version_incompatible''"
proof -
  let ?b = "newBoundedSeen defaultDedupeMaxEntries defaultDedupeTTL"
  have b: "ttl ?b = seconds 600" "maxEntries ?b = 50000" "entries ?b = []" "seconds 600 > 0"
    by (simp_all add: newBoundedSeen_def defaultDedupeTTL_def defaultDedupeMaxEntries_def seconds_def wrap64_def)
  have fresh: "Add now k c = (False, c\<lparr>entries := recent (seconds 600) now (entries c) @ [(k, now)]\<rparr>)"
    if "k \<noteq> []" "k \<notin> fst ` set (entries c)" "ttl c = seconds 600" "maxEntries c = 50000" "length (entries c) \<le> 2" for now k c
  proof -
    have "length (recent (seconds 600) now (entries c)) \<le> length (entries c)" by (simp add: recent_def)
    moreover have "k \<notin> fst ` set (recent (seconds 600) now (entries c))" using that(2) by (auto simp: recent_def)
    ultimately show ?thesis using that Add_new[of k c now] by simp
  qed
  let ?q1 = "?b\<lparr>entries := [(en_request h1, t0)]\<rparr>" and ?k1 = "?b\<lparr>entries := [(conn, t0)]\<rparr>"
  have A: "Add t0 (en_request h1) ?b = (False, ?q1)" "Add t0 conn ?b = (False, ?k1)"
    using assms(2,8) b by (simp_all add: fresh recent_def)
  have H1: "Handle cf t0 h1 conn (NewServer w) =
      (OKResponse (en_request h1) d1 [], \<lparr>sv_requests = ?q1, sv_handshakes = ?k1, sv_world = w\<rparr>)"
    unfolding Handle_def by (subst handle_hello[OF _ assms(3,5,1), of t0 _ ?q1]) (simp_all add: NewServer_def A)
  let ?q2 = "?q1\<lparr>entries := recent (seconds 600) t1 [(en_request h1, t0)] @ [(en_request h2, t1)]\<rparr>"
  have A2: "Add t1 (en_request h2) ?q1 = (False, ?q2)" using assms(9,11) not_sym[of "en_request h1" "en_request h2"] b by (simp add: fresh)
  have K2: "Add t1 conn ?k1 = (True, sweepLocked t1 ?k1)" using assms(2,13) b by (intro Add_dup) (simp_all add: recent_def)
  have S2: "sweepLocked t1 ?k1 = ?k1" using assms(13) b by (simp add: sweepLocked_def)
  have H2: "Handle cf t1 h2 conn \<lparr>sv_requests = ?q1, sv_handshakes = ?k1, sv_world = w\<rparr> =
      (OKResponse (en_request h2) d2 [], \<lparr>sv_requests = ?q2, sv_handshakes = ?k1, sv_world = w\<rparr>)"
    unfolding Handle_def by (subst handle_hello[OF _ assms(4,6,1), of t1 _ ?q2]) (simp_all add: A2 K2 S2)
  obtain q3 where A3: "Add t2 (en_request env) ?q2 = (False, q3)" using assms(10,11) b by (force simp: fresh recent_def)
  have "\<not> fst (Contains t2 conn ?k1)" using assms(14) b by (simp add: Contains_def Let_def sweepLocked_def)
  then have "response_code (fst (Handle cf t2 env conn \<lparr>sv_requests = ?q2, sv_handshakes = ?k1, sv_world = w\<rparr>)) = ''version_incompatible''"
    unfolding Handle_def using A3 by (intro handle_unshaken[OF _ assms(7) _ assms(1), of t2 _ q3]) simp_all
  then show ?thesis by (simp add: H1 H2)
qed

section \<open>Refusals and answers\<close>

text \<open>Every refusal of the authorizer is in the catalog. A call that the database authorizer, without
  the projection, does not allow is refused with an error whose code the catalog explains.\<close>

theorem refusals_are_catalogued:
  assumes "RequireAllowed (PostgresAuthorize mac now (\<lambda>_ _ _ _. None) db required repo token) m required = Some err"
  shows "LookupErrorCode (re_code (as_rpc_error err)) \<noteq> None \<and> \<not> rs_ok (ErrorResponse rid err audit)"
proof -
  let ?a = "PostgresAuthorize mac now (\<lambda>_ _ _ _. None) db required repo token"
  have err: "re_code (as_rpc_error err) = (if ac_reason ?a = [] then ''capability_missing'' else ac_reason ?a)"
      "ac_decision ?a \<noteq> ''allowed''"
    using assms by (auto simp: RequireAllowed_def Let_def split: if_splits)
  have "ac_decision ?a = ''allowed'' \<or> LookupErrorCode (ac_reason ?a) \<noteq> None"
    using catalogued unfolding PostgresAuthorize_def decided_def deny_def
    by (simp add: split_beta del: not_None_eq split: option.split)
  then show ?thesis using err catalogued by auto
qed

text \<open>A connection answers line by line.\<close>

definition answered :: "(instant \<times> string) list \<Rightarrow> nat" where
  "answered lines = length (filter (\<lambda>l. stripSpace (snd l) \<noteq> []) (takeWhile (\<lambda>l. length (snd l) < MaxEnvelopeBytes) lines))"

text \<open>One answer per line. While responses can be written, a connection gets exactly one answer for
  every line that is not blank, up to the first line that exceeds the size limit, malformed lines
  included.\<close>

theorem one_answer_per_line:
  assumes "\<And>r. encode r \<noteq> None"
  shows "length (fst (ServeConn cf parse encode conn lines s)) = answered lines"
proof (induction lines arbitrary: s)
  case (Cons l lines)
  obtain now line where l: "l = (now, line)" by (cases l)
  obtain r s1 where r: "(case DecodeEnvelope parse line of Inl err \<Rightarrow> (ErrorResponse [] err [], s)
      | Inr env \<Rightarrow> Handle cf now env conn s) = (r, s1)" by (meson surj_pair)
  obtain out where "encode r = Some out" using assms[of r] by auto
  then show ?case using Cons.IH[of s] Cons.IH[of s1] r
    by (simp add: l answered_def Let_def split_beta split: sum.splits)
qed (simp add: answered_def)

section \<open>Examples\<close>

text \<open>A daemon whose state counts the calls of its only handler and the rows of its audit.\<close>

definition ex_config :: "(nat \<times> nat) config" where
  "ex_config = \<lparr>cf_version = ''v'', cf_schema = 1, cf_sealed = [], cf_sealed_now = None, cf_etag = ''e'',
     cf_authorize = (\<lambda>w now. AllowAllAuthorize), cf_recorder = None,
     cf_handlers = [(''repo.add'', \<lambda>a env d w. (Inr [], None, (Suc (fst w), snd w)))]\<rparr>"

definition ex_audited :: "(nat \<times> nat) config" where
  "ex_audited = ex_config\<lparr>cf_recorder := Some (\<lambda>env a r t w. (Inr ''row'', (fst w, Suc (snd w))))\<rparr>"

definition ex_envelope :: "string \<Rightarrow> string \<Rightarrow> Envelope" where
  "ex_envelope rid m = \<lparr>en_version = 1, en_request = rid, en_method = m,
     en_params = [(''client'', VMap [(''supported_envelope'', VList [VNumber ''1'']), (''supported_framings'', VList [VStr ''json''])])],
     en_token = [], en_deadline = 0\<rparr>"

lemma ex_new [simp]: "fst (Add t k (sv_requests (NewServer w))) = False"
  by (simp add: NewServer_def newBoundedSeen_def defaultDedupeTTL_def defaultDedupeMaxEntries_def Add_def Let_def
      sweepLocked_def enforceCapLocked_def)

theorem unauthorized_has_no_effect_witness:
  "\<not> rs_ok (fst (handle ex_config 0 (ex_envelope ''q'' ''no.such'') ''c'' True (NewServer (0, 0)))) \<and>
   sv_world (snd (handle ex_config 0 (ex_envelope ''q'' ''no.such'') ''c'' True (NewServer (0, 0)))) = (0, 0)"
proof -
  have "\<not> admitted ex_config 0 (ex_envelope ''q'' ''no.such'') ''c'' True (NewServer (0, 0))"
    by (simp add: admitted_def Contains_def Let_def NewServer_def newBoundedSeen_def sweepLocked_def)
  from unauthorized_has_no_effect[OF this] show ?thesis by (simp add: ex_envelope_def NewServer_def) (simp add: ex_config_def)
qed

theorem request_not_replayed_witness:
  "response_code (fst (handle ex_config (seconds 600) (ex_envelope ''q'' ''repo.add'') ''c'' False
     (handle_all ex_config [(0, ex_envelope ''q'' ''repo.add'', ''c'', False), (5, ex_envelope ''r'' ''repo.add'', ''c'', False)] (NewServer (0, 0)))))
     = ''duplicate_request''"
  using request_not_replayed[of "ex_envelope ''q'' ''repo.add''" "NewServer (0, 0)" 0
      "[(5, ex_envelope ''r'' ''repo.add'', ''c'', False)]" "seconds 600" "ex_envelope ''q'' ''repo.add''" ex_config "''c''" False "''c''" False]
    newBoundedSeen_ok[of defaultDedupeMaxEntries defaultDedupeTTL]
  by (simp add: ex_envelope_def NewServer_def newBoundedSeen_def defaultDedupeTTL_def defaultDedupeMaxEntries_def
      seconds_def wrap64_def Add_def Let_def sweepLocked_def enforceCapLocked_def)

theorem hello_does_not_refresh_witness:
  "response_code (fst (Handle ex_config (seconds 601) (ex_envelope ''z'' ''status'') ''c''
     (snd (Handle ex_config (seconds 599) (ex_envelope ''y'' ''daemon.hello'') ''c''
       (snd (Handle ex_config 0 (ex_envelope ''x'' ''daemon.hello'') ''c'' (NewServer (0, 0)))))))) = ''version_incompatible''"
proof -
  have w: "\<exists>d. buildWelcome ex_config (en_params (ex_envelope rid m)) = Inr d" for rid m
    by (simp add: ex_envelope_def buildWelcome_def mget_def containsInt_def containsString_def SupportedEnvelopeVersion_def
        DefaultFraming_def parse_int64_def parse_digits_def is_digit_def)
  obtain d1 d2 where d: "buildWelcome ex_config (en_params (ex_envelope ''x'' ''daemon.hello'')) = Inr d1"
      "buildWelcome ex_config (en_params (ex_envelope ''y'' ''daemon.hello'')) = Inr d2" using w by meson
  show ?thesis
    using hello_does_not_refresh[of ex_config "''c''" "ex_envelope ''x'' ''daemon.hello''" "ex_envelope ''y'' ''daemon.hello''"
        d1 d2 "ex_envelope ''z'' ''status''" 0 "seconds 599" "seconds 601" "(0, 0)"] d
    by (simp add: ex_config_def ex_envelope_def seconds_def wrap64_def)
qed

lemma ex_welcome: "\<exists>d. buildWelcome ex_audited (en_params (ex_envelope rid m)) = Inr d"
  by (simp add: ex_envelope_def buildWelcome_def mget_def containsInt_def containsString_def SupportedEnvelopeVersion_def
      DefaultFraming_def parse_int64_def parse_digits_def is_digit_def)


theorem refusals_are_catalogued_witness:
  "LookupErrorCode ''token_missing'' \<noteq> None"
proof -
  let ?db = "exported ex_tokens"
  have a: "PostgresAuthorize (\<lambda>_ s. s) 5 (\<lambda>_ _ _ _. None) ?db (Some ''claim'') ''r'' [] = decided ''r'' ''denied'' ''token_missing''"
    by code_simp
  obtain err where err: "RequireAllowed (PostgresAuthorize (\<lambda>_ s. s) 5 (\<lambda>_ _ _ _. None) ?db (Some ''claim'') ''r'' []) ''status'' (Some ''claim'') = Some err"
    unfolding a using RequireAllowed_None[of "decided ''r'' ''denied'' ''token_missing''"] by auto
  moreover have "re_code (as_rpc_error err) = ''token_missing''"
    using err unfolding a by (auto simp: RequireAllowed_def Let_def decided_def)
  ultimately show ?thesis using refusals_are_catalogued[OF err] by simp
qed

theorem one_answer_per_line_witness:
  "length (fst (ServeConn ex_config (\<lambda>_. None) (\<lambda>r. Some (rs_request r)) ''c'' [(0, ''x''), (1, '' ''), (2, ''y'')] (NewServer (0, 0)))) = 2"
  using one_answer_per_line[of "\<lambda>r. Some (rs_request r)" ex_config "\<lambda>_. None" "''c''" "[(0, ''x''), (1, '' ''), (2, ''y'')]" "NewServer (0, 0)"]
  by (simp add: answered_def stripSpace_def blank_byte_def MaxEnvelopeBytes_def)

end
