(* ===== verification/LivenessRows.thy ===== *)
theory LivenessRows
  imports Liveness "HOL-Library.AList"
begin

text \<open>
  The rows behind the classifier (\<open>go/pkg/sessionliveness/liveness.go\<close>): \<open>Record\<close> stamps the
  activity columns of a session row, \<open>ActivityFromRow\<close> reads a row into an activity,
  \<open>ProjectionFromRow\<close> renders the verdict and \<open>RemoveProjectionSourceFields\<close> strips the
  source columns. A row is a map from column names to values. \<open>time.Parse(time.RFC3339Nano, _)\<close>,
  \<open>json.Unmarshal\<close> and \<open>Format(time.RFC3339)\<close> are the parameters \<open>parse\<close>, \<open>unmarshal\<close> and
  \<open>format\<close>.
\<close>

section \<open>Texts of the closed vocabularies\<close>

fun stall_text :: "stall_class \<Rightarrow> string" where
  "stall_text NoStall = []"
| "stall_text StallDiscovery = ''agent_mcp_discovery_stall''"
| "stall_text StallAwaitPacket = ''agent_await_packet_stall''"
| "stall_text StallAck = ''agent_ack_stall''"
| "stall_text StallLeaseHeartbeat = ''agent_lease_heartbeat_stall''"
| "stall_text StallQuestionPending = ''agent_question_pending''"
| "stall_text StallEscalationPending = ''agent_escalation_pending''"
| "stall_text StallProtocolIdle = ''agent_protocol_idle_stall''"
| "stall_text StallToolProgress = ''wedged_no_tool_progress''"
| "stall_text (StallText s) = s"

definition known_stalls :: "stall_class list" where
  "known_stalls =
     [NoStall, StallDiscovery, StallAwaitPacket, StallAck, StallLeaseHeartbeat, StallQuestionPending,
      StallEscalationPending, StallProtocolIdle, StallToolProgress]"

definition stall_of_text :: "string \<Rightarrow> stall_class" where
  "stall_of_text s =
     (case find (\<lambda>c. stall_text c = s) known_stalls of Some c \<Rightarrow> c | None \<Rightarrow> StallText s)"

fun protocol_text :: "protocol \<Rightarrow> string" where
  "protocol_text ProtocolInactive = ''inactive''"
| "protocol_text ProtocolLive = ''live''"
| "protocol_text ProtocolStalled = ''stalled''"
| "protocol_text ProtocolAttention = ''attention''"
| "protocol_text ProtocolWorkingProtocol = ''working_protocol''"
| "protocol_text ProtocolWorkingLocal = ''working_local''"
| "protocol_text ProtocolWorkingTool = ''working_tool''"
| "protocol_text ProtocolQuiet = ''quiet''"
| "protocol_text ProtocolDead = ''dead''"

fun lease_text :: "lease_state \<Rightarrow> string" where
  "lease_text NoLease = ''no_lease''"
| "lease_text LeaseStalled = ''stalled''"
| "lease_text LeaseLive = ''live''"

fun deadline_text :: "deadline_name \<Rightarrow> string" where
  "deadline_text NoDeadline = []"
| "deadline_text DeadlineDiscovery = ''mcp_discovery''"
| "deadline_text DeadlineAwaitPacket = ''await_packet''"
| "deadline_text DeadlineAck = ''packet_ack''"
| "deadline_text DeadlineLeaseHeartbeat = ''lease_heartbeat''"
| "deadline_text DeadlineQuestionPending = ''question_pending''"
| "deadline_text DeadlineEscalation = ''escalation_pending''"
| "deadline_text DeadlineProtocolIdle = ''protocol_idle''"
| "deadline_text DeadlineToolCall = ''tool_call''"
| "deadline_text DeadlineToolProgress = ''tool_progress''"

fun basis_text :: "probe_basis \<Rightarrow> string" where
  "basis_text BasisNone = []"
| "basis_text BasisDeadlineElapsedOnly = ''deadline_elapsed_only''"
| "basis_text BasisPTYConfirmedDead = ''pty_confirmed_dead''"

section \<open>Recording activity\<close>

definition allowedColumns :: "string list" where
  "allowedColumns =
     [''last_mcp_request_at'', ''last_tools_list_at'', ''last_await_packet_at'',
      ''last_packet_delivered_at'', ''last_ack_at'', ''last_work_block_at'', ''last_work_release_at'',
      ''last_work_complete_at'', ''last_work_heartbeat_at'', ''last_session_ready_at'',
      ''last_session_heartbeat_at'', ''last_session_question_at'', ''last_session_escalate_at'',
      ''last_pty_activity_at'', ''last_pipe_read_at'', ''last_tool_call_started_at'',
      ''last_tool_call_finished_at'']"

text \<open>The columns one call of \<open>Record\<close> assigns, in the order of the statement, or the column it refuses.\<close>

definition record_columns :: "string list \<Rightarrow> string + string list" where
  "record_columns columns =
     (case find (\<lambda>c. c \<notin> set allowedColumns) columns of
        Some c \<Rightarrow> Inl c
      | None \<Rightarrow> Inr (sort (remdups (''last_mcp_request_at'' # columns))))"

text \<open>The \<open>UPDATE\<close>: every assigned column of the addressed row becomes the current second.\<close>

definition truncate_second :: "instant \<Rightarrow> instant" where
  "truncate_second t = t - t mod 1000000000"

definition update_row :: "string list \<Rightarrow> goval \<Rightarrow> gomap \<Rightarrow> gomap" where
  "update_row cols v row = fold (\<lambda>c r. AList.update c v r) cols row"

text \<open>
  \<open>Record\<close> on the session table: rows by repository and session id. Without ids it does
  nothing, an unknown column is an error, an update of an absent row changes nothing.
\<close>

definition Record ::
  "instant \<Rightarrow> (instant \<Rightarrow> string) \<Rightarrow> string \<Rightarrow> string \<Rightarrow> string list \<Rightarrow>
   (string \<times> string \<Rightarrow> gomap option) \<Rightarrow> string + (string \<times> string \<Rightarrow> gomap option)" where
  "Record now print repositoryID sessionID columns table =
     (if repositoryID = [] \<or> sessionID = [] then Inr table
      else (case record_columns columns of
          Inl c \<Rightarrow> Inl c
        | Inr cols \<Rightarrow>
            (let t = truncate_second now in
             Inr (table((repositoryID, sessionID) :=
               map_option (update_row cols (VTime t (print t))) (table (repositoryID, sessionID)))))))"

section \<open>Reading a row\<close>

definition rowText :: "goval \<Rightarrow> string" where
  "rowText v = (case v of VNil \<Rightarrow> [] | VStr s \<Rightarrow> s | _ \<Rightarrow> go_sprint v)"

fun rowTime :: "(string \<Rightarrow> instant option) \<Rightarrow> goval \<Rightarrow> instant option" where
  "rowTime parse (VTime t s) = Some t"
| "rowTime parse (VStr s) = (if trim_space s = [] then None else parse s)"
| "rowTime parse _ = None"

fun metadataMap :: "(string \<Rightarrow> gomap option) \<Rightarrow> goval \<Rightarrow> gomap" where
  "metadataMap unmarshal (VMap m) = m"
| "metadataMap unmarshal (VStr s) =
     (if trim_space s = [] then [] else (case unmarshal s of Some m \<Rightarrow> m | None \<Rightarrow> []))"
| "metadataMap unmarshal _ = []"

definition TransportFromRow :: "(string \<Rightarrow> gomap option) \<Rightarrow> gomap \<Rightarrow> transport" where
  "TransportFromRow unmarshal row =
     transportFromMetadata (metadataMap unmarshal (mget row ''supervisor_pointer_metadata_json''))"

definition ActivityFromRow ::
  "(string \<Rightarrow> instant option) \<Rightarrow> (string \<Rightarrow> gomap option) \<Rightarrow> gomap \<Rightarrow> activity" where
  "ActivityFromRow parse unmarshal row =
     (let time = (\<lambda>c. rowTime parse (mget row c)) in
      \<lparr>SessionState = rowText (mget row ''state''),
       RegisteredAt = time ''registered_at'',
       LastMCPRequestAt = time ''last_mcp_request_at'',
       LastToolsListAt = time ''last_tools_list_at'',
       LastAwaitPacketAt = time ''last_await_packet_at'',
       LastPacketDeliveredAt = time ''last_packet_delivered_at'',
       LastAckAt = time ''last_ack_at'',
       LastWorkBlockAt = time ''last_work_block_at'',
       LastWorkReleaseAt = time ''last_work_release_at'',
       LastWorkCompleteAt = time ''last_work_complete_at'',
       LastWorkHeartbeatAt = time ''last_work_heartbeat_at'',
       LastSessionReadyAt = time ''last_session_ready_at'',
       LastSessionHeartbeatAt = time ''last_session_heartbeat_at'',
       LastSessionQuestionAt = time ''last_session_question_at'',
       LastSessionEscalateAt = time ''last_session_escalate_at'',
       LastPTYActivityAt = time ''last_pty_activity_at'',
       LastPipeReadAt = time ''last_pipe_read_at'',
       LastToolCallStartedAt = time ''last_tool_call_started_at'',
       LastToolCallFinishedAt = time ''last_tool_call_finished_at'',
       PersistedStallClass = stall_of_text (rowText (mget row ''liveness_stall_class'')),
       PersistedStallSince = time ''liveness_stall_since'',
       ActiveLeaseID = rowText (mget row ''active_lease_id''),
       ActiveLeaseAcquiredAt = time ''active_lease_acquired_at'',
       ActiveLeaseExpiresAt = time ''active_lease_expires_at'',
       ActiveLeaseHeartbeatAt = time ''active_lease_last_heartbeat_at'',
       Transport = TransportFromRow unmarshal row\<rparr>)"

section \<open>Rendering the verdict\<close>

definition nullableText :: "string \<Rightarrow> goval" where
  "nullableText s = (if s = [] then VNil else VStr s)"

definition nullableInt :: "int \<Rightarrow> goval" where
  "nullableInt i = (if i \<le> 0 then VNil else VInt i)"

definition timeValue :: "(instant \<Rightarrow> string) \<Rightarrow> instant option \<Rightarrow> goval" where
  "timeValue format t = (case t of None \<Rightarrow> VNil | Some i \<Rightarrow> VStr (format i))"

definition ProjectionFromRow ::
  "(string \<Rightarrow> instant option) \<Rightarrow> (string \<Rightarrow> gomap option) \<Rightarrow> (instant \<Rightarrow> string) \<Rightarrow>
   gomap \<Rightarrow> instant \<Rightarrow> gomap" where
  "ProjectionFromRow parse unmarshal format row now =
     (let a = ActivityFromRow parse unmarshal row;
          r = Classify a DefaultPolicy now;
          time = timeValue format in
      [(''protocol'', VStr (protocol_text (Protocol r))),
       (''lease'', VStr (lease_text (Lease r))),
       (''stall_class'', nullableText (stall_text (StallClass r))),
       (''stall_since'', time (StallSince r)),
       (''deadline_name'', nullableText (deadline_text (DeadlineName r))),
       (''deadline_seconds'', nullableInt (DeadlineSeconds r)),
       (''last_mcp_request_at'', time (LastMCPRequestAt a)),
       (''last_tools_list_at'', time (LastToolsListAt a)),
       (''last_await_packet_at'', time (LastAwaitPacketAt a)),
       (''last_packet_delivered_at'', time (LastPacketDeliveredAt a)),
       (''last_ack_at'', time (LastAckAt a)),
       (''last_work_block_at'', time (LastWorkBlockAt a)),
       (''last_work_release_at'', time (LastWorkReleaseAt a)),
       (''last_work_complete_at'', time (LastWorkCompleteAt a)),
       (''last_work_heartbeat_at'', time (LastWorkHeartbeatAt a)),
       (''last_session_ready_at'', time (LastSessionReadyAt a)),
       (''last_session_heartbeat_at'', time (LastSessionHeartbeatAt a)),
       (''last_session_question_at'', time (LastSessionQuestionAt a)),
       (''last_session_escalate_at'', time (LastSessionEscalateAt a)),
       (''last_session_report_kind'', nullableText (lastSessionReportKind a)),
       (''last_pty_activity_at'', time (LastPTYActivityAt a)),
       (''last_pipe_read_at'', time (LastPipeReadAt a)),
       (''last_tool_call_started_at'', time (LastToolCallStartedAt a)),
       (''last_tool_call_finished_at'', time (LastToolCallFinishedAt a)),
       (''tool_call_since'', time (ToolCallSince r)),
       (''tool_call_deadline'', time (ToolCallDeadline r)),
       (''active_lease_id'', nullableText (ActiveLeaseID a)),
       (''active_lease_expires_at'', time (ActiveLeaseExpiresAt a)),
       (''active_lease_last_heartbeat_at'', time (ActiveLeaseHeartbeatAt a))])"

definition projection_sources :: "string list" where
  "projection_sources =
     ''registered_at'' # allowedColumns @
     [''liveness_stall_class'', ''liveness_stall_since'', ''active_lease_id'', ''active_lease_acquired_at'',
      ''active_lease_expires_at'', ''active_lease_last_heartbeat_at'']"

definition RemoveProjectionSourceFields :: "gomap \<Rightarrow> gomap" where
  "RemoveProjectionSourceFields row = fold AList.delete projection_sources row"

section \<open>Laws\<close>

lemma stall_text_inj: "c \<in> set known_stalls \<Longrightarrow> d \<in> set known_stalls \<Longrightarrow> stall_text c = stall_text d \<Longrightarrow> c = d"
  by (auto simp: known_stalls_def)

lemma stall_of_text_known:
  assumes "c \<in> set known_stalls"
  shows "stall_of_text (stall_text c) = c"
proof (cases "find (\<lambda>d. stall_text d = stall_text c) known_stalls")
  case None
  with assms show ?thesis by (auto simp: find_None_iff)
next
  case (Some d)
  then have "d \<in> set known_stalls" "stall_text d = stall_text c" by (auto simp: find_Some_iff)
  with assms Some show ?thesis by (simp add: stall_of_text_def stall_text_inj)
qed

lemma stall_text_of: "stall_text (stall_of_text s) = s"
  unfolding stall_of_text_def by (auto simp: find_Some_iff split: option.split)

lemma mget_update: "mget (AList.update k v m) c = (if c = k then v else mget m c)"
  by (simp add: mget_def update_conv')

lemma mget_update_row: "mget (update_row cols v row) c = (if c \<in> set cols then v else mget row c)"
  unfolding update_row_def by (induction cols arbitrary: row) (auto simp: mget_update)

lemma record_columns_Inr:
  "record_columns columns = Inr cols \<Longrightarrow>
     set cols = insert ''last_mcp_request_at'' (set columns) \<and> set columns \<subseteq> set allowedColumns"
  by (force simp: record_columns_def find_None_iff set_insort_key simp del: remdups.simps split: option.splits)

lemma Record_row:
  assumes "Record now print rid sid columns table = Inr table'" and "rid \<noteq> []" and "sid \<noteq> []"
    and "table (rid, sid) = Some row"
  shows "\<exists>row'. table' = table((rid, sid) \<mapsto> row') \<and>
    (\<forall>c. mget row' c = (if c \<in> insert ''last_mcp_request_at'' (set columns)
       then VTime (truncate_second now) (print (truncate_second now)) else mget row c))"
  using assms record_columns_Inr [of columns]
  by (auto simp: Record_def Let_def mget_update_row split: sum.splits)

lemma mget_delete: "mget (AList.delete k m) c = (if c = k then VNil else mget m c)"
  by (simp add: mget_def delete_conv')

lemma mget_RemoveProjectionSourceFields:
  "mget (RemoveProjectionSourceFields row) c = (if c \<in> set projection_sources then VNil else mget row c)"
proof -
  have "mget (fold AList.delete ks row) c = (if c \<in> set ks then VNil else mget row c)" for ks
    by (induction ks arbitrary: row) (auto simp: mget_delete)
  then show ?thesis by (simp add: RemoveProjectionSourceFields_def)
qed

lemma lease_stall_cause:
  assumes "StallClass (Classify a p now) = StallLeaseHeartbeat"
  shows "missed (latestTime [LastWorkHeartbeatAt a, ActiveLeaseHeartbeatAt a, ActiveLeaseAcquiredAt a])
    (wrap64 (LeaseHeartbeatSeconds p + LeaseHeartbeatSlack p)) now"
proof (cases rule: Classify_cases [of a p now])
  case lease
  with assms show ?thesis
    by (auto simp: classify_lease_def wedgeResult_def Let_def split: if_splits)
next
  case (attention c d at)
  with attention_class [OF attention(1)] assms show ?thesis by auto
next
  case (tool r)
  with staleToolCall_Some [OF tool(1)] assms show ?thesis by simp
qed (use assms in \<open>auto simp: classify_undiscovered_def classify_idle_def Let_def split: if_splits\<close>)

section \<open>Properties\<close>

text \<open>Stall classes survive the trip through the constrained column. Every text reads as
  exactly one class that prints as that text, and every class of the classifier prints as a text that
  reads as itself.\<close>

theorem stall_class_roundtrip:
  "stall_text (stall_of_text s) = s \<and> list_all (\<lambda>c. stall_of_text (stall_text c) = c) known_stalls"
  by (simp add: stall_text_of list_all_iff stall_of_text_known)

text \<open>A work heartbeat keeps the lease alive. After \<open>Record\<close> has stamped the work heartbeat of
  a session, its row is not classified as a lease-heartbeat stall for the 330 seconds of the
  default policy, no matter what the other columns hold.\<close>

theorem Record_heartbeat_revives:
  assumes "Record now print rid sid columns table = Inr table'" and "rid \<noteq> []" and "sid \<noteq> []"
    and "table (rid, sid) = Some row" and "''last_work_heartbeat_at'' \<in> set columns"
    and "table' (rid, sid) = Some row'" and "t < truncate_second now + 330 * 1000000000"
  shows "StallClass (Classify (ActivityFromRow parse unmarshal row') DefaultPolicy t) \<noteq> StallLeaseHeartbeat"
proof
  let ?a = "ActivityFromRow parse unmarshal row'"
  from Record_row [OF assms(1-4)] assms(5,6)
  have "LastWorkHeartbeatAt ?a = Some (truncate_second now)"
    by (auto simp: ActivityFromRow_def Let_def)
  then obtain b where b: "truncate_second now \<le> b"
    "latestTime [LastWorkHeartbeatAt ?a, ActiveLeaseHeartbeatAt ?a, ActiveLeaseAcquiredAt ?a] = Some b"
    using fold_later_ge [of "truncate_second now"
        "[LastWorkHeartbeatAt ?a, ActiveLeaseHeartbeatAt ?a, ActiveLeaseAcquiredAt ?a]" None]
    by (auto simp: latestTime_later simp del: fold_simps)
  assume "StallClass (Classify ?a DefaultPolicy t) = StallLeaseHeartbeat"
  from lease_stall_cause [OF this] have "b + seconds 330 \<le> t"
    unfolding b(2) by (simp add: missed_def DefaultPolicy_def wrap64_def)
  moreover have "seconds 330 = 330 * 1000000000" by (simp add: seconds_def wrap64_def)
  ultimately show False using b(1) assms(7) by simp
qed

text \<open>Recording is confined. \<open>Record\<close> refuses a column outside the allow-list, and otherwise
  stamps the request column and the named columns of the one addressed row with the current
  second and changes nothing else.\<close>

theorem Record_confined:
  "case Record now print rid sid columns table of
     Inl c \<Rightarrow> c \<in> set columns \<and> c \<notin> set allowedColumns
   | Inr table' \<Rightarrow>
       (rid = [] \<or> sid = [] \<or> set columns \<subseteq> set allowedColumns) \<and>
       dom table' = dom table \<and>
       (\<forall>k row. table k = Some row \<longrightarrow> (\<exists>row'. table' k = Some row' \<and>
          (\<forall>c. mget row' c =
             (if k = (rid, sid) \<and> rid \<noteq> [] \<and> sid \<noteq> [] \<and> c \<in> insert ''last_mcp_request_at'' (set columns)
              then VTime (truncate_second now) (print (truncate_second now)) else mget row c))))"
proof (cases "rid = [] \<or> sid = []")
  case True
  then show ?thesis by (auto simp: Record_def)
next
  case False
  show ?thesis
  proof (cases "record_columns columns")
    case (Inl c)
    with False show ?thesis
      by (auto simp: Record_def record_columns_def find_Some_iff in_set_conv_nth split: option.splits)
  next
    case (Inr cols)
    with False record_columns_Inr [OF Inr] show ?thesis
      by (auto simp: Record_def Let_def mget_update_row)
  qed
qed

section \<open>A concrete table\<close>

definition ex_session_row :: gomap where
  "ex_session_row = [(''state'', VStr ''active''), (''active_lease_id'', VStr ''l1'')]"

definition ex_table :: "string \<times> string \<Rightarrow> gomap option" where
  "ex_table = [(''r'', ''s'') \<mapsto> ex_session_row, (''r'', ''other'') \<mapsto> ex_session_row]"

lemma ex_Record:
  "Record 5000000000 (\<lambda>t. ''t'') ''r'' ''s'' [''last_work_heartbeat_at''] ex_table =
     Inr (ex_table((''r'', ''s'') \<mapsto>
       update_row [''last_mcp_request_at'', ''last_work_heartbeat_at''] (VTime 5000000000 ''t'') ex_session_row))"
proof -
  have "record_columns [''last_work_heartbeat_at''] = Inr [''last_mcp_request_at'', ''last_work_heartbeat_at'']"
    by code_simp
  then show ?thesis by (simp add: Record_def ex_table_def truncate_second_def)
qed

theorem Record_heartbeat_revives_witness:
  "StallClass (Classify (ActivityFromRow (\<lambda>s. None) (\<lambda>s. None)
      (update_row [''last_mcp_request_at'', ''last_work_heartbeat_at''] (VTime 5000000000 ''t'') ex_session_row))
     DefaultPolicy 300000000000) \<noteq> StallLeaseHeartbeat"
  by (rule Record_heartbeat_revives [OF ex_Record]) (simp_all add: ex_table_def truncate_second_def)

theorem Record_confined_witness:
  "dom (ex_table((''r'', ''s'') \<mapsto> update_row [''last_mcp_request_at'', ''last_work_heartbeat_at'']
     (VTime 5000000000 ''t'') ex_session_row)) = dom ex_table"
  using Record_confined [where now = 5000000000 and print = "\<lambda>t. ''t''" and rid = "''r''" and sid = "''s''"
      and columns = "[''last_work_heartbeat_at'']" and table = ex_table]
  unfolding ex_Record by simp

end
