(* ===== verification/RecoveryGate.thy ===== *)
theory RecoveryGate
  imports LivenessRows
begin

text \<open>
  The recovery budgets and the confidence gate of
  \<open>go/pkg/mutations/recovery_decision_tree.go\<close>: the policy read from the workflow with its
  clamps, the row of the table \<open>job_recovery_state\<close> with the statements that read and upsert
  it, and \<open>applyConfidenceGate\<close>, which decides in each sweep whether a lane without a death
  oracle may be escalated. A Go \<open>int\<close> is an \<^typ>\<open>int\<close> with \<^const>\<open>wrap64\<close> where it is
  computed; the count columns of the table are 32 bit and far below their bound.
\<close>

section \<open>The policy\<close>

record recovery_policy =
  maxRequeues :: int
  maxUnsealedRequeues :: int
  maxReviewerUnsealedRequeues :: int
  maxTransfers :: int
  maxQuarantinableJobs :: int
  maxSilentSweeps :: int

definition defaultRecoveryPolicy :: recovery_policy where
  "defaultRecoveryPolicy =
     \<lparr>maxRequeues = 2, maxUnsealedRequeues = 1, maxReviewerUnsealedRequeues = 2, maxTransfers = 3,
      maxQuarantinableJobs = 1, maxSilentSweeps = 0\<rparr>"

definition silentSweepCap :: "recovery_policy \<Rightarrow> int" where
  "silentSweepCap p =
     (if maxSilentSweeps p > 0 then maxSilentSweeps p
      else (let silentCap = wrap64 (wrap64 (maxRequeues p * 2) + 3)
            in if silentCap < 3 then 3 else silentCap))"

definition topologyAdaptiveSilentSweepCap :: "recovery_policy \<Rightarrow> bool \<Rightarrow> int" where
  "topologyAdaptiveSilentSweepCap p downstreamBlocked =
     (if downstreamBlocked then silentSweepCap p else wrap64 (silentSweepCap p * 2))"

definition topologyAdaptiveEscalationThreshold :: "recovery_policy \<Rightarrow> bool \<Rightarrow> int" where
  "topologyAdaptiveEscalationThreshold p downstreamBlocked =
     (if downstreamBlocked then 2
      else (let threshold = silentSweepCap p in if threshold < 2 then 2 else threshold))"

text \<open>\<open>asMap\<close>: a map, or a text that decodes to one.\<close>

fun asMap :: "(string \<Rightarrow> gomap option) \<Rightarrow> goval \<Rightarrow> gomap" where
  "asMap unmarshal (VMap m) = m"
| "asMap unmarshal (VStr s) = (case unmarshal s of Some m \<Rightarrow> m | None \<Rightarrow> [])"
| "asMap unmarshal _ = []"

text \<open>One budget key of the block, and the clamp of a negative budget.\<close>

definition budget_key :: "gomap \<Rightarrow> string \<Rightarrow> int \<Rightarrow> int" where
  "budget_key block k d = (case map_of block k of Some v \<Rightarrow> intFromAny v d | None \<Rightarrow> d)"

definition not_negative :: "int \<Rightarrow> int" where
  "not_negative i = (if i < 0 then 0 else i)"

definition read_policy :: "gomap \<Rightarrow> recovery_policy" where
  "read_policy block =
     (let d = defaultRecoveryPolicy in
      \<lparr>maxRequeues =
         (if mhas block ''max_requeues'' then budget_key block ''max_requeues'' (maxRequeues d)
          else budget_key block ''max_total_requeues_per_job'' (maxRequeues d)),
       maxUnsealedRequeues = budget_key block ''max_unsealed_requeues'' (maxUnsealedRequeues d),
       maxReviewerUnsealedRequeues =
         budget_key block ''max_reviewer_unsealed_requeues'' (maxReviewerUnsealedRequeues d),
       maxTransfers = budget_key block ''max_transfers'' (maxTransfers d),
       maxQuarantinableJobs = budget_key block ''max_quarantinable_jobs'' (maxQuarantinableJobs d),
       maxSilentSweeps = budget_key block ''max_silent_sweeps'' (maxSilentSweeps d)\<rparr>)"

text \<open>The clamps, in the order of the code.\<close>

definition clamp_policy :: "recovery_policy \<Rightarrow> recovery_policy" where
  "clamp_policy p =
     (let silent = not_negative (maxSilentSweeps p);
          requeues = not_negative (maxRequeues p);
          unsealed = not_negative (maxUnsealedRequeues p);
          unsealed = (if unsealed > requeues then requeues else unsealed);
          reviewer = not_negative (maxReviewerUnsealedRequeues p);
          reviewer = (if reviewer < unsealed then unsealed else reviewer);
          reviewer = (if reviewer > requeues then requeues else reviewer) in
      \<lparr>maxRequeues = requeues, maxUnsealedRequeues = unsealed, maxReviewerUnsealedRequeues = reviewer,
       maxTransfers = not_negative (maxTransfers p),
       maxQuarantinableJobs = not_negative (maxQuarantinableJobs p), maxSilentSweeps = silent\<rparr>)"

definition recoveryPolicyFromWorkflow :: "(string \<Rightarrow> gomap option) \<Rightarrow> gomap \<Rightarrow> recovery_policy" where
  "recoveryPolicyFromWorkflow unmarshal workflow =
     (let block = asMap unmarshal (mget workflow ''recovery_policy'')
      in if block = [] then defaultRecoveryPolicy else clamp_policy (read_policy block))"

definition unsealedRequeueBudget :: "recovery_policy \<Rightarrow> bool \<Rightarrow> int" where
  "unsealedRequeueBudget p repoWrite =
     (if repoWrite then maxUnsealedRequeues p else maxReviewerUnsealedRequeues p)"

section \<open>The budget row\<close>

text \<open>A row of \<open>job_recovery_state\<close>; \<open>None\<close> is SQL's NULL.\<close>

record recovery_row =
  requeue_count :: int
  transfer_count :: int
  respawn_count :: int
  escalation_pending :: bool
  escalated_at :: "instant option"
  last_recovery_action :: "string option"
  last_recovery_at :: "instant option"
  last_stall_class :: "string option"
  misfire_evidence_score :: int
  consecutive_silent_sweeps :: int
  last_probe_basis :: "string option"

definition new_row :: recovery_row where
  "new_row =
     \<lparr>requeue_count = 0, transfer_count = 0, respawn_count = 0, escalation_pending = False,
      escalated_at = None, last_recovery_action = None, last_recovery_at = None, last_stall_class = None,
      misfire_evidence_score = 0, consecutive_silent_sweeps = 0, last_probe_basis = None\<rparr>"

record job_budget =
  requeueCount :: int
  transferCount :: int
  respawnCount :: int
  escalationPending :: bool
  lastRecoveryAction :: string
  misfireEvidenceScore :: int
  consecutiveSilentSweeps :: int
  lastProbeBasis :: string
  confidenceColumns :: bool
  lastRecoveryAt :: "instant option" \<comment> \<open>\<open>None\<close> is the zero time\<close>

definition zero_budget :: job_budget where
  "zero_budget =
     \<lparr>requeueCount = 0, transferCount = 0, respawnCount = 0, escalationPending = False, lastRecoveryAction = [],
      misfireEvidenceScore = 0, consecutiveSilentSweeps = 0, lastProbeBasis = [], confidenceColumns = False,
      lastRecoveryAt = None\<rparr>"

text \<open>\<open>fmt.Sprint(nullable(v))\<close> of a text column.\<close>

definition sprint_nullable :: "string option \<Rightarrow> string" where
  "sprint_nullable t = (case t of None \<Rightarrow> ''<nil>'' | Some s \<Rightarrow> if s = [] then ''<nil>'' else s)"

definition readJobRecoveryBudgetLegacy :: "recovery_row option \<Rightarrow> job_budget" where
  "readJobRecoveryBudgetLegacy row =
     (case row of None \<Rightarrow> zero_budget
      | Some r \<Rightarrow> zero_budget\<lparr>requeueCount := requeue_count r, transferCount := transfer_count r,
          respawnCount := respawn_count r, escalationPending := escalation_pending r,
          lastRecoveryAction := sprint_nullable (last_recovery_action r)\<rparr>)"

text \<open>\<open>migrated\<close>: whether the columns of migration 0035 exist.\<close>

definition readJobRecoveryBudget :: "bool \<Rightarrow> recovery_row option \<Rightarrow> job_budget" where
  "readJobRecoveryBudget migrated row =
     (if \<not> migrated then readJobRecoveryBudgetLegacy row
      else (case row of None \<Rightarrow> zero_budget\<lparr>confidenceColumns := True\<rparr>
        | Some r \<Rightarrow>
            \<lparr>requeueCount = requeue_count r, transferCount = transfer_count r, respawnCount = respawn_count r,
             escalationPending = escalation_pending r,
             lastRecoveryAction = sprint_nullable (last_recovery_action r),
             misfireEvidenceScore = misfire_evidence_score r,
             consecutiveSilentSweeps = consecutive_silent_sweeps r,
             lastProbeBasis = sprint_nullable (last_probe_basis r),
             confidenceColumns = True, lastRecoveryAt = last_recovery_at r\<rparr>))"

text \<open>
  The three upserts: the values of a row that does not exist yet, and the assignments of the
  conflict clause on one that does. \<open>now\<close> is \<open>nowString()\<close>.
\<close>

datatype counter = RequeueCount | TransferCount

fun bump :: "counter \<Rightarrow> recovery_row \<Rightarrow> recovery_row" where
  "bump RequeueCount r = r\<lparr>requeue_count := requeue_count r + 1\<rparr>"
| "bump TransferCount r = r\<lparr>transfer_count := transfer_count r + 1\<rparr>"

definition nullable_text :: "string \<Rightarrow> string option" where
  "nullable_text s = (if s = [] then None else Some s)"

definition recordRecoveryAction ::
  "instant \<Rightarrow> counter \<Rightarrow> string \<Rightarrow> string \<Rightarrow> recovery_row option \<Rightarrow> recovery_row option" where
  "recordRecoveryAction now c action stallClass row =
     Some ((bump c (case row of None \<Rightarrow> new_row | Some r \<Rightarrow> r))
       \<lparr>last_recovery_action := Some action, last_recovery_at := Some now,
        last_stall_class := nullable_text stallClass\<rparr>)"

definition markRecoveryEscalation ::
  "instant \<Rightarrow> string \<Rightarrow> string \<Rightarrow> recovery_row option \<Rightarrow> recovery_row option" where
  "markRecoveryEscalation now action stallClass row =
     (let r = (case row of None \<Rightarrow> new_row | Some r \<Rightarrow> r)
      in Some (r\<lparr>escalation_pending := True,
           escalated_at := (case escalated_at r of Some t \<Rightarrow> Some t | None \<Rightarrow> Some now),
           last_recovery_action := Some action, last_recovery_at := Some now,
           last_stall_class := nullable_text stallClass\<rparr>))"

definition writeConfidenceGateState ::
  "instant \<Rightarrow> int \<Rightarrow> int \<Rightarrow> probe_basis \<Rightarrow> recovery_row option \<Rightarrow> recovery_row option" where
  "writeConfidenceGateState now misfireScore silentSweeps basis row =
     (let r = (case row of None \<Rightarrow> new_row\<lparr>last_recovery_at := Some now\<rparr> | Some r \<Rightarrow> r)
      in Some (r\<lparr>misfire_evidence_score := misfireScore, consecutive_silent_sweeps := silentSweeps,
           last_probe_basis := Some (basis_text basis)\<rparr>))"

section \<open>The gate\<close>

definition latestSiblingActivity :: "activity \<Rightarrow> instant option" where
  "latestSiblingActivity a =
     latestTime
       [LastMCPRequestAt a, LastToolsListAt a, LastAwaitPacketAt a, LastPacketDeliveredAt a, LastAckAt a,
        LastWorkBlockAt a, LastWorkReleaseAt a, LastWorkCompleteAt a, LastWorkHeartbeatAt a,
        LastSessionReadyAt a, LastSessionHeartbeatAt a, LastPTYActivityAt a, LastPipeReadAt a,
        LastToolCallStartedAt a, LastToolCallFinishedAt a, ActiveLeaseHeartbeatAt a]"

text \<open>The cohort: the job ids of the scanned rows with their activities.\<close>

definition cohortHasFresherLiveness :: "(string \<times> activity) list \<Rightarrow> string \<Rightarrow> instant \<Rightarrow> bool" where
  "cohortHasFresherLiveness rows selfJobID windowStart =
     list_ex (\<lambda>(jobID, sibling). jobID \<noteq> selfJobID \<and>
       (case latestSiblingActivity sibling of None \<Rightarrow> False | Some t \<Rightarrow> t > windowStart)) rows"

definition windowStartForGate :: "job_budget \<Rightarrow> instant \<Rightarrow> instant" where
  "windowStartForGate budget now =
     (case lastRecoveryAt budget of Some t \<Rightarrow> t
      | None \<Rightarrow> now - seconds (ProtocolIdleSeconds DefaultPolicy))"

record gate_decision =
  escalate :: bool
  capFired :: bool
  gate_reset :: bool
  silentSweeps :: int
  misfireScore :: int
  silentCap :: int

definition applyConfidenceGate ::
  "instant \<Rightarrow> job_budget \<Rightarrow> recovery_policy \<Rightarrow> bool \<Rightarrow> int \<Rightarrow> int \<Rightarrow> recovery_row option \<Rightarrow>
   gate_decision \<times> recovery_row option" where
  "applyConfidenceGate now budget policy progressAdvanced escalateThreshold cap row =
     (let cap = (if cap \<le> 0 then silentSweepCap policy else cap);
          threshold = (if escalateThreshold < 2 then 2 else escalateThreshold);
          threshold = (if threshold > cap then cap else threshold);
          d = \<lparr>escalate = False, capFired = False, gate_reset = False, silentSweeps = 0, misfireScore = 0,
               silentCap = cap\<rparr>;
          silent = wrap64 (consecutiveSilentSweeps budget + 1);
          misfire = wrap64 (misfireEvidenceScore budget + 1);
          counted = d\<lparr>silentSweeps := silent, misfireScore := misfire\<rparr>;
          row' = writeConfidenceGateState now misfire silent BasisDeadlineElapsedOnly row in
      if \<not> confidenceColumns budget then (d\<lparr>escalate := True\<rparr>, row)
      else if progressAdvanced
      then (d\<lparr>gate_reset := True\<rparr>, writeConfidenceGateState now 0 0 BasisDeadlineElapsedOnly row)
      else if silent \<ge> cap then (counted\<lparr>escalate := True, capFired := True\<rparr>, row')
      else if lastProbeBasis budget = basis_text BasisDeadlineElapsedOnly \<and> silent \<ge> threshold
      then (counted\<lparr>escalate := True\<rparr>, row')
      else (counted, row'))"

text \<open>
  The gate of one sweep over one job, as the sweep calls it: the budget is read from the row, the
  window decides whether sealed work (\<open>sealedAt\<close>: the latest artifact or verdict of the job) or
  a sibling advanced, and the topology sets cap and threshold.
\<close>

record gate_input =
  gi_sealedAt :: "instant option"
  gi_cohort :: "(string \<times> activity) list"
  gi_self :: string
  gi_downstreamBlocked :: bool
  gi_now :: instant
  gi_stamp :: instant \<comment> \<open>\<open>nowString()\<close> when the row is written\<close>

definition progressAdvanced :: "job_budget \<Rightarrow> gate_input \<Rightarrow> bool" where
  "progressAdvanced budget i =
     (let windowStart = windowStartForGate budget (gi_now i) in
      (case gi_sealedAt i of None \<Rightarrow> False | Some s \<Rightarrow> s > windowStart) \<or>
      cohortHasFresherLiveness (gi_cohort i) (gi_self i) windowStart)"

definition gate_step ::
  "bool \<Rightarrow> recovery_policy \<Rightarrow> gate_input \<Rightarrow> recovery_row option \<Rightarrow> gate_decision \<times> recovery_row option" where
  "gate_step migrated policy i row =
     (let budget = readJobRecoveryBudget migrated row in
      applyConfidenceGate (gi_stamp i) budget policy (progressAdvanced budget i)
        (topologyAdaptiveEscalationThreshold policy (gi_downstreamBlocked i))
        (topologyAdaptiveSilentSweepCap policy (gi_downstreamBlocked i)) row)"

text \<open>The decisions of a series of sweeps over one stalled job until one escalates.\<close>

fun gate_run ::
  "bool \<Rightarrow> recovery_policy \<Rightarrow> gate_input list \<Rightarrow> recovery_row option \<Rightarrow> gate_decision list" where
  "gate_run migrated policy [] row = []"
| "gate_run migrated policy (i # is) row =
     (let (d, row') = gate_step migrated policy i row
      in if escalate d then [d] else d # gate_run migrated policy is row')"

section \<open>Laws of the policy\<close>

definition policy_ok :: "recovery_policy \<Rightarrow> bool" where
  "policy_ok p \<longleftrightarrow>
     0 \<le> maxUnsealedRequeues p \<and> maxUnsealedRequeues p \<le> maxReviewerUnsealedRequeues p \<and>
     maxReviewerUnsealedRequeues p \<le> maxRequeues p \<and> 0 \<le> maxTransfers p \<and>
     0 \<le> maxQuarantinableJobs p \<and> 0 \<le> maxSilentSweeps p"

lemma clamp_policy_ok: "policy_ok (clamp_policy p)"
  by (simp add: policy_ok_def clamp_policy_def not_negative_def Let_def)

lemma policy_from_workflow_ok: "policy_ok (recoveryPolicyFromWorkflow unmarshal workflow)"
  by (simp add: recoveryPolicyFromWorkflow_def Let_def clamp_policy_ok)
     (simp add: policy_ok_def defaultRecoveryPolicy_def)

lemma silentSweepCap_pos: "1 \<le> silentSweepCap p"
  by (simp add: silentSweepCap_def Let_def)

text \<open>The cap and the threshold that are in force, when doubling the cap does not overflow.\<close>

definition cap_fits :: "recovery_policy \<Rightarrow> bool" where
  "cap_fits p \<longleftrightarrow> silentSweepCap p < 2 ^ 62"

lemma adaptive_cap:
  "cap_fits p \<Longrightarrow> topologyAdaptiveSilentSweepCap p blocked = (if blocked then silentSweepCap p else 2 * silentSweepCap p)"
  using silentSweepCap_pos [of p]
  by (simp add: topologyAdaptiveSilentSweepCap_def cap_fits_def wrap64_id)

lemma adaptive_threshold:
  "topologyAdaptiveEscalationThreshold p blocked = (if blocked then 2 else max 2 (silentSweepCap p))"
  by (simp add: topologyAdaptiveEscalationThreshold_def Let_def max_def)

section \<open>Laws of the gate\<close>

definition prior_silent :: "recovery_row \<Rightarrow> bool" where
  "prior_silent r \<longleftrightarrow> last_probe_basis r = Some (basis_text BasisDeadlineElapsedOnly)"

lemma sprint_prior: "sprint_nullable t = ''deadline_elapsed_only'' \<longleftrightarrow> t = Some ''deadline_elapsed_only''"
  by (auto simp: sprint_nullable_def split: option.splits)

text \<open>One step from an existing row, when the doubled cap and the counter do not overflow.\<close>

lemma gate_step_Some:
  assumes "cap_fits p" and "0 \<le> consecutive_silent_sweeps r" and "consecutive_silent_sweeps r < 2 ^ 62"
  defines "cap blocked \<equiv> (if blocked then silentSweepCap p else 2 * silentSweepCap p)"
    and "thr blocked \<equiv> (if blocked then 2 else max 2 (silentSweepCap p))"
  shows "escalate (fst (gate_step True p i (Some r))) \<longleftrightarrow>
      \<not> progressAdvanced (readJobRecoveryBudget True (Some r)) i \<and>
      (cap (gi_downstreamBlocked i) \<le> consecutive_silent_sweeps r + 1 \<or>
       prior_silent r \<and> thr (gi_downstreamBlocked i) \<le> consecutive_silent_sweeps r + 1)"
    and "\<exists>r'. snd (gate_step True p i (Some r)) = Some r' \<and> last_recovery_at r' = last_recovery_at r \<and>
      prior_silent r' \<and>
      consecutive_silent_sweeps r' =
        (if progressAdvanced (readJobRecoveryBudget True (Some r)) i then 0 else consecutive_silent_sweeps r + 1)"
proof -
  have w: "wrap64 (consecutive_silent_sweeps r + 1) = consecutive_silent_sweeps r + 1"
    using assms(2,3) by (intro wrap64_id) auto
  note defs = gate_step_def applyConfidenceGate_def readJobRecoveryBudget_def Let_def w sprint_prior
    adaptive_cap [OF assms(1)] adaptive_threshold writeConfidenceGateState_def
  show "escalate (fst (gate_step True p i (Some r))) \<longleftrightarrow>
      \<not> progressAdvanced (readJobRecoveryBudget True (Some r)) i \<and>
      (cap (gi_downstreamBlocked i) \<le> consecutive_silent_sweeps r + 1 \<or>
       prior_silent r \<and> thr (gi_downstreamBlocked i) \<le> consecutive_silent_sweeps r + 1)"
    using silentSweepCap_pos [of p] by (auto simp: defs prior_silent_def cap_def thr_def)
  show "\<exists>r'. snd (gate_step True p i (Some r)) = Some r' \<and> last_recovery_at r' = last_recovery_at r \<and>
      prior_silent r' \<and>
      consecutive_silent_sweeps r' =
        (if progressAdvanced (readJobRecoveryBudget True (Some r)) i then 0 else consecutive_silent_sweeps r + 1)"
    by (auto simp: defs prior_silent_def)
qed

text \<open>What the window makes of an input: the row fixes the window as long as no action is recorded.\<close>

definition signs_after :: "instant \<Rightarrow> gate_input \<Rightarrow> bool" where
  "signs_after w i \<longleftrightarrow>
     (case gi_sealedAt i of None \<Rightarrow> False | Some s \<Rightarrow> s > w) \<or>
     cohortHasFresherLiveness (gi_cohort i) (gi_self i) w"

lemma progressAdvanced_window:
  "last_recovery_at r = Some w \<Longrightarrow>
     progressAdvanced (readJobRecoveryBudget True (Some r)) i \<longleftrightarrow> signs_after w i"
  by (simp add: progressAdvanced_def readJobRecoveryBudget_def windowStartForGate_def signs_after_def Let_def)

lemma gate_run_bounded:
  assumes "cap_fits p" and "0 \<le> consecutive_silent_sweeps r" and "last_recovery_at r = Some w"
    and "consecutive_silent_sweeps r + int (length is) < 2 ^ 62"
    and "\<forall>i \<in> set is. \<not> signs_after w i"
    and "is \<noteq> []" and "2 * silentSweepCap p \<le> consecutive_silent_sweeps r + int (length is)"
  shows "\<exists>d \<in> set (gate_run True p is (Some r)). escalate d"
  using assms(2-7)
proof (induction "is" arbitrary: r)
  case Nil
  then show ?case by simp
next
  case (Cons i "is")
  from Cons.prems have bound: "consecutive_silent_sweeps r < 2 ^ 62" by simp
  note step = gate_step_Some [OF assms(1) Cons.prems(1) bound, of i]
  have no: "\<not> progressAdvanced (readJobRecoveryBudget True (Some r)) i"
    using Cons.prems(2,4) by (simp add: progressAdvanced_window)
  from step(2) no obtain r' where r': "snd (gate_step True p i (Some r)) = Some r'"
    "last_recovery_at r' = Some w" "consecutive_silent_sweeps r' = consecutive_silent_sweeps r + 1"
    using Cons.prems(2) by auto
  show ?case
  proof (cases "escalate (fst (gate_step True p i (Some r)))")
    case True
    then show ?thesis by (simp add: split_beta)
  next
    case False
    then have "consecutive_silent_sweeps r + 1 < 2 * silentSweepCap p"
      using step(1) no silentSweepCap_pos [of p] by (auto split: if_splits)
    then have "is \<noteq> []" using Cons.prems(6) by auto
    with Cons.IH [of r'] Cons.prems r' have "\<exists>d \<in> set (gate_run True p is (Some r')). escalate d" by simp
    with False r'(1) show ?thesis by (simp add: split_beta)
  qed
qed

lemma gate_run_blinded:
  assumes "cap_fits p" and "last_recovery_at r = Some w" and "0 \<le> consecutive_silent_sweeps r"
    and "consecutive_silent_sweeps r < 2 ^ 62" and "\<forall>i \<in> set is. signs_after w i"
  shows "length (gate_run True p is (Some r)) = length is \<and> (\<forall>d \<in> set (gate_run True p is (Some r)). \<not> escalate d)"
  using assms(2-5)
proof (induction "is" arbitrary: r)
  case Nil
  then show ?case by simp
next
  case (Cons i "is")
  note step = gate_step_Some [OF assms(1) Cons.prems(2,3), of i]
  have yes: "progressAdvanced (readJobRecoveryBudget True (Some r)) i"
    using Cons.prems(1,4) by (simp add: progressAdvanced_window)
  from step(2) yes obtain r' where "snd (gate_step True p i (Some r)) = Some r'"
    "last_recovery_at r' = Some w" "consecutive_silent_sweeps r' = 0"
    using Cons.prems(1) by auto
  with Cons.IH [of r'] Cons.prems(4) step(1) yes show ?case by (simp add: split_beta)
qed

section \<open>Properties\<close>

text \<open>The budgets of every workflow are ordered. Whatever the \<open>recovery_policy\<close> block says, no
  budget is negative and a lane that exited unsealed gets at most the requeues of a crashed one,
  a read-only reviewer lane at least as many as a writing lane.\<close>

theorem recovery_policy_clamped:
  "0 \<le> maxUnsealedRequeues (recoveryPolicyFromWorkflow unmarshal workflow) \<and>
   maxUnsealedRequeues (recoveryPolicyFromWorkflow unmarshal workflow)
     \<le> maxReviewerUnsealedRequeues (recoveryPolicyFromWorkflow unmarshal workflow) \<and>
   maxReviewerUnsealedRequeues (recoveryPolicyFromWorkflow unmarshal workflow)
     \<le> maxRequeues (recoveryPolicyFromWorkflow unmarshal workflow) \<and>
   0 \<le> maxTransfers (recoveryPolicyFromWorkflow unmarshal workflow) \<and>
   1 \<le> silentSweepCap (recoveryPolicyFromWorkflow unmarshal workflow)"
  using policy_from_workflow_ok [of unmarshal workflow] silentSweepCap_pos by (simp add: policy_ok_def)


text \<open>The window of the gate does not move. As long as the gate only defers, the time of the
  last recovery action, against which it measures progress, keeps its value; so a lane that sealed
  one piece of work after that action, and then fell silent for good, is deferred in every sweep
  and never escalated.\<close>

theorem gate_never_escalates_after_progress:
  assumes "silentSweepCap p < 2 ^ 60" and "last_recovery_at r = Some w"
    and "0 \<le> consecutive_silent_sweeps r" and "consecutive_silent_sweeps r < 2 ^ 31"
    and "\<forall>i \<in> set is. gi_sealedAt i = Some s" and "w < s"
  shows "length (gate_run True p is (Some r)) = length is \<and>
    (\<forall>d \<in> set (gate_run True p is (Some r)). \<not> escalate d)"
  using assms by (intro gate_run_blinded) (auto simp: cap_fits_def signs_after_def)

text \<open>Topology only buys time. Where a leaf job is escalated, the same job with a blocked
  dependent would have been escalated too.\<close>

theorem gate_leaf_not_sooner:
  assumes "silentSweepCap p < 2 ^ 60" and "0 \<le> consecutive_silent_sweeps r"
    and "consecutive_silent_sweeps r < 2 ^ 31"
    and "escalate (fst (gate_step True p (i\<lparr>gi_downstreamBlocked := False\<rparr>) (Some r)))"
  shows "escalate (fst (gate_step True p (i\<lparr>gi_downstreamBlocked := True\<rparr>) (Some r)))"
proof -
  have "progressAdvanced b (i\<lparr>gi_downstreamBlocked := x\<rparr>) = progressAdvanced b i" for b x
    by (simp add: progressAdvanced_def)
  moreover have "cap_fits p" "consecutive_silent_sweeps r < 2 ^ 62" using assms(1,3) by (simp_all add: cap_fits_def)
  ultimately show ?thesis
    using assms(2,4) silentSweepCap_pos [of p] by (auto simp: gate_step_Some)
qed

text \<open>One silent sweep escalates when the operator sets the cap to one: the lower bound of two
  sweeps is itself clamped to the cap.\<close>

theorem gate_single_sweep:
  assumes "maxSilentSweeps p = 1" and "\<not> signs_after w i" and "gi_downstreamBlocked i"
  shows "escalate (fst (gate_step True p i (Some (new_row\<lparr>last_recovery_at := Some w\<rparr>))))"
  using assms progressAdvanced_window [of "new_row\<lparr>last_recovery_at := Some w\<rparr>" w i]
  by (subst gate_step_Some) (simp_all add: cap_fits_def silentSweepCap_def new_row_def)

section \<open>Concrete sweeps\<close>

definition ex_gate_input :: "instant option \<Rightarrow> bool \<Rightarrow> gate_input" where
  "ex_gate_input sealed blocked =
     \<lparr>gi_sealedAt = sealed, gi_cohort = [], gi_self = ''j'', gi_downstreamBlocked = blocked, gi_now = 1000,
      gi_stamp = 1000\<rparr>"

definition ex_gate_row :: recovery_row where
  "ex_gate_row = new_row\<lparr>requeue_count := 2, last_recovery_at := Some 10\<rparr>"

lemma ex_cap: "silentSweepCap defaultRecoveryPolicy = 7"
  by code_simp


theorem gate_never_escalates_after_progress_witness:
  "length (gate_run True defaultRecoveryPolicy (replicate 100 (ex_gate_input (Some 11) True)) (Some ex_gate_row)) = 100"
  using gate_never_escalates_after_progress [of defaultRecoveryPolicy ex_gate_row 10
      "replicate 100 (ex_gate_input (Some 11) True)" 11]
  by (simp add: ex_cap ex_gate_row_def new_row_def ex_gate_input_def)

theorem gate_leaf_not_sooner_witness:
  "escalate (fst (gate_step True defaultRecoveryPolicy (ex_gate_input None True)
     (Some (ex_gate_row\<lparr>consecutive_silent_sweeps := 20\<rparr>))))"
  using gate_leaf_not_sooner [of defaultRecoveryPolicy "ex_gate_row\<lparr>consecutive_silent_sweeps := 20\<rparr>"
      "ex_gate_input None True"]
  by (simp add: ex_cap ex_gate_row_def new_row_def ex_gate_input_def) code_simp

theorem gate_single_sweep_witness:
  "escalate (fst (gate_step True (defaultRecoveryPolicy\<lparr>maxSilentSweeps := 1\<rparr>) (ex_gate_input None True)
     (Some (new_row\<lparr>last_recovery_at := Some 10\<rparr>))))"
  by (rule gate_single_sweep)
     (simp_all add: signs_after_def ex_gate_input_def cohortHasFresherLiveness_def)

end
