(* ===== verification/RecoverySweep.thy ===== *)
theory RecoverySweep
  imports RecoveryGate
begin

text \<open>
  The autonomous recovery sweep over one job (\<open>recoverStuckJobs\<close> of
  \<open>go/pkg/mutations/recovery_decision_tree.go\<close>): from the scanned row (columns to values), the
  answers of the queries and probes the sweep makes for it, and the job's budget row, it decides
  whether the job is left alone, finalized, reopened, requeued, transferred, debounced or
  escalated, and what becomes of the budget row. The queries and the liveness probe are
  inputs; the requeue, lease and session statements behind a decision are reported as the outcome.
\<close>

section \<open>What the sweep reads\<close>

definition row_text :: "gomap \<Rightarrow> string \<Rightarrow> string" where
  "row_text row c =
     (case mget row c of VNil \<Rightarrow> ''<nil>'' | VStr s \<Rightarrow> (if s = [] then ''<nil>'' else s) | v \<Rightarrow> go_sprint v)"

definition absent_text :: "string \<Rightarrow> bool" where
  "absent_text s \<longleftrightarrow> s = [] \<or> s = ''<nil>''"

text \<open>\<open>isRepoWrite\<close>, on the decoded write scope.\<close>

definition isRepoWrite :: "(string \<Rightarrow> gomap option) \<Rightarrow> gomap \<Rightarrow> bool" where
  "isRepoWrite unmarshal row =
     (let scope = asMap unmarshal (mget row ''write_scope_json'')
      in mget scope ''repo_write'' = VBool True \<or> mget scope ''mode'' = VStr ''repo_write'')"

definition leaseStaleActive :: "gomap \<Rightarrow> bool" where
  "leaseStaleActive row \<longleftrightarrow> row_text row ''lease_state'' = ''active''"

definition deadAgentExitedUnsealed :: "activity \<Rightarrow> bool" where
  "deadAgentExitedUnsealed a =
     (if LastWorkCompleteAt a \<noteq> None then False
      else (LastToolCallStartedAt a \<noteq> None \<or> LastToolCallFinishedAt a \<noteq> None) \<and> LastPTYActivityAt a \<noteq> None)"

text \<open>
  The process oracle: a pointer that is lost or stopped is conclusive, otherwise the recorded
  process is probed, and a probe that cannot tell counts as alive. The probe answers its class
  and whether the process is alive.
\<close>

definition supervisedAgentConfirmedDead ::
  "(string \<Rightarrow> gomap option) \<Rightarrow> (gomap \<Rightarrow> int \<Rightarrow> string \<Rightarrow> string \<times> bool) \<Rightarrow> gomap \<Rightarrow> bool" where
  "supervisedAgentConfirmedDead unmarshal probe row =
     (let state = row_text row ''supervisor_pointer_state'';
          pid = intFromAny (mget row ''supervisor_pointer_pid'') 0;
          start = row_text row ''supervisor_pointer_pid_start_time'';
          start = (if start = ''<nil>'' then [] else start);
          (cls, alive) = probe (asMap unmarshal (mget row ''supervisor_pointer_metadata_json'')) pid start in
      if state = ''lost'' \<or> state = ''stopped'' then True
      else if pid \<le> 0 then False
      else if cls = ''tmux_unavailable'' \<or> cls = ''pid_identity_unavailable'' then False
      else \<not> alive)"

text \<open>
  The rotation lockout, from the daemon's own observation of a stale epoch, the recorded exit
  code of the agent and the status of a dead pane.
\<close>

definition deadAgentUnrecoverableAcrossRotation :: "gomap \<Rightarrow> bool \<Rightarrow> int \<Rightarrow> int option \<Rightarrow> bool" where
  "deadAgentUnrecoverableAcrossRotation row liveT1 exitCode paneStatus =
     (if absent_text (row_text row ''session_id'') then False
      else if liveT1 then True
      else if exitCode = 97 then True
      else paneStatus = Some 97 \<and> liveT1)"

text \<open>The blockers that need a human.\<close>

definition escalation_kinds :: "string list" where
  "escalation_kinds =
     [''ambiguous_goal'', ''missing_authority'', ''contradicting_decisions'', ''no_available_reviewer_lane'',
      ''committee_stalemate'', ''override_required'', ''ai_self_declared'', ''recovery_exhausted'',
      ''provenance_gate_failed'']"

definition isEscalationClassBlocker :: "gomap \<Rightarrow> bool" where
  "isEscalationClassBlocker b \<longleftrightarrow>
     go_sprint (mget b ''severity'') = ''human_checkpoint'' \<or> go_sprint (mget b ''blocker_kind'') \<in> set escalation_kinds"

definition jobHasOpenHumanAttentionBlocker :: "gomap list \<Rightarrow> bool" where
  "jobHasOpenHumanAttentionBlocker openBlockers = list_ex isEscalationClassBlocker openBlockers"

text \<open>A dependent whose state is not terminal waits for the job.\<close>

definition jobHasBlockedDownstream :: "string list \<Rightarrow> bool" where
  "jobHasBlockedDownstream dependentStates =
     list_ex (\<lambda>s. s \<notin> {''completed'', ''failed'', ''canceled'', ''quarantined'', ''compromised''}) dependentStates"

section \<open>The decision\<close>

definition isNecrosisStallClass :: "string \<Rightarrow> bool" where
  "isNecrosisStallClass c \<longleftrightarrow>
     c = ''agent_pid_dead'' \<or> c = ''agent_exited_unsealed'' \<or> c = ''session_unrecoverable_across_rotation''"

record recovery_choice =
  rc_action :: string
  rc_counter :: counter
  rc_forceExpire :: bool
  rc_closeOwner :: bool
  rc_stallClass :: string

definition requeue_choice :: "bool \<Rightarrow> string \<Rightarrow> recovery_choice" where
  "requeue_choice live c =
     \<lparr>rc_action = ''requeue_same_attempt'', rc_counter = RequeueCount, rc_forceExpire = live,
      rc_closeOwner = live, rc_stallClass = c\<rparr>"

definition transfer_choice :: "string \<Rightarrow> recovery_choice" where
  "transfer_choice c =
     \<lparr>rc_action = ''transfer_requeue'', rc_counter = TransferCount, rc_forceExpire = True,
      rc_closeOwner = True, rc_stallClass = c\<rparr>"

definition choose_recovery ::
  "bool \<Rightarrow> bool \<Rightarrow> protocol \<Rightarrow> string \<Rightarrow> bool \<Rightarrow> bool \<Rightarrow> bool \<Rightarrow> bool \<Rightarrow> recovery_choice option" where
  "choose_recovery sessionDead leaseActive prot stallClass human dead rotation unsealed =
     (if sessionDead \<and> \<not> leaseActive then Some (requeue_choice False stallClass)
      else if \<not> sessionDead \<and> prot = ProtocolStalled \<and> \<not> human \<and> \<not> dead then Some (transfer_choice stallClass)
      else if \<not> sessionDead \<and> prot = ProtocolAttention \<and> \<not> leaseActive \<and> \<not> human \<and> \<not> dead
      then Some (transfer_choice stallClass)
      else if \<not> dead then None
      else Some (requeue_choice True
        (if rotation then ''session_unrecoverable_across_rotation''
         else if unsealed then ''agent_exited_unsealed'' else ''agent_pid_dead'')))"

text \<open>The counter the choice draws on and its limit.\<close>

definition budget_count :: "job_budget \<Rightarrow> recovery_choice \<Rightarrow> int" where
  "budget_count budget c = (case rc_counter c of TransferCount \<Rightarrow> transferCount budget | RequeueCount \<Rightarrow> requeueCount budget)"

definition budget_limit :: "recovery_policy \<Rightarrow> bool \<Rightarrow> recovery_choice \<Rightarrow> int" where
  "budget_limit policy repoWrite c =
     (case rc_counter c of TransferCount \<Rightarrow> maxTransfers policy
      | RequeueCount \<Rightarrow>
          if rc_stallClass c = ''agent_exited_unsealed'' \<or> rc_stallClass c = ''session_unrecoverable_across_rotation''
          then unsealedRequeueBudget policy repoWrite
          else maxRequeues policy)"

section \<open>The sweep over one job\<close>

record sweep_facts =
  sf_blockers :: "gomap list"          \<comment> \<open>open blockers of the job\<close>
  sf_dependents :: "string list"       \<comment> \<open>states of the jobs that depend on it\<close>
  sf_liveT1 :: bool
  sf_exitCode :: int
  sf_paneStatus :: "int option"
  sf_finalizable :: bool               \<comment> \<open>\<open>tryFinalizeUnsealedFromDurableArtifact\<close>\<close>
  sf_reopenable :: bool                \<comment> \<open>\<open>tryReopenFreshAttemptForStaleArtifact\<close>\<close>
  sf_sealedAt :: "instant option"
  sf_cohort :: "(string \<times> activity) list"
  sf_ownerStillActive :: bool
  sf_alreadyReclaimable :: bool
  sf_blockersResolved :: int
  sf_now :: instant
  sf_stamp :: instant

datatype sweep_outcome =
    Skipped
  | LeftAlone
  | FinalizedUnsealed string
  | ReopenedFreshAttempt string
  | Debounced gate_decision
  | EscalationMarked "gate_decision option"
  | AlreadyReclaimable
  | Recovered recovery_choice

text \<open>A queued job is looked at only when a bound session is still active.\<close>

definition sweep_skips :: "gomap \<Rightarrow> bool" where
  "sweep_skips row \<longleftrightarrow>
     row_text row ''job_state'' = ''queued'' \<and>
     (absent_text (row_text row ''session_id'') \<or> row_text row ''session_state'' \<noteq> ''active'')"

definition session_dead :: "gomap \<Rightarrow> protocol \<Rightarrow> bool" where
  "session_dead row prot \<longleftrightarrow>
     absent_text (row_text row ''session_id'') \<or> prot = ProtocolDead \<or>
     (row_text row ''session_state'' \<noteq> [] \<and> row_text row ''session_state'' \<noteq> ''active'' \<and>
      row_text row ''session_state'' \<noteq> ''<nil>'')"

definition sweep_basis :: "transport \<Rightarrow> probe_basis \<Rightarrow> bool \<Rightarrow> probe_basis" where
  "sweep_basis t basis dead =
     (let basis = (if basis = BasisNone then BasisDeadlineElapsedOnly else basis)
      in if dead then UpgradeProbeBasisConfirmedDead t basis else basis)"

text \<open>Once the choice is made: the budget, the gate, the action.\<close>

definition act_on_choice ::
  "bool \<Rightarrow> recovery_policy \<Rightarrow> bool \<Rightarrow> bool \<Rightarrow> bool \<Rightarrow> sweep_facts \<Rightarrow> string \<Rightarrow> recovery_choice \<Rightarrow>
   recovery_row option \<Rightarrow> sweep_outcome \<times> recovery_row option" where
  "act_on_choice migrated policy repoWrite sessionAbsent gateApplies f jobID c brow =
     (let budget = readJobRecoveryBudget migrated brow;
          current = budget_count budget c;
          limit = budget_limit policy repoWrite c in
      if current \<ge> limit then
        (let mark = markRecoveryEscalation (sf_stamp f) (rc_action c @ ''_budget_exhausted'') (rc_stallClass c) in
         if gateApplies then
           (let (d, brow') = gate_step migrated policy
                \<lparr>gi_sealedAt = sf_sealedAt f, gi_cohort = sf_cohort f, gi_self = jobID,
                 gi_downstreamBlocked = jobHasBlockedDownstream (sf_dependents f),
                 gi_now = sf_now f, gi_stamp = sf_stamp f\<rparr> brow
            in if escalate d then (EscalationMarked (Some d), mark brow') else (Debounced d, brow'))
         else (EscalationMarked None, mark brow))
      else (let ownerClosed = rc_closeOwner c \<and> \<not> sessionAbsent \<and> sf_ownerStillActive f in
        if sf_alreadyReclaimable f \<and> \<not> ownerClosed \<and> sf_blockersResolved f = 0 then (AlreadyReclaimable, brow)
        else (Recovered c, recordRecoveryAction (sf_stamp f) (rc_counter c) (rc_action c) (rc_stallClass c) brow)))"

definition recover_job ::
  "bool \<Rightarrow> recovery_policy \<Rightarrow> (string \<Rightarrow> instant option) \<Rightarrow> (string \<Rightarrow> gomap option) \<Rightarrow>
   (gomap \<Rightarrow> int \<Rightarrow> string \<Rightarrow> string \<times> bool) \<Rightarrow> sweep_facts \<Rightarrow> gomap \<Rightarrow> recovery_row option \<Rightarrow>
   sweep_outcome \<times> recovery_row option" where
  "recover_job migrated policy parse unmarshal probe f row brow =
     (if sweep_skips row then (Skipped, brow)
      else (let
          a = ActivityFromRow parse unmarshal row;
          r = Classify a DefaultPolicy (sf_now f);
          stallClass = (if StallClass r = NoStall then protocol_text (Protocol r) else stall_text (StallClass r));
          sessionAbsent = absent_text (row_text row ''session_id'');
          dead = supervisedAgentConfirmedDead unmarshal probe row;
          isDead = session_dead row (Protocol r);
          leaseActive = leaseStaleActive row;
          unsealed = deadAgentExitedUnsealed a;
          rotation = deadAgentUnrecoverableAcrossRotation row (sf_liveT1 f) (sf_exitCode f) (sf_paneStatus f);
          unsealedClass = (if rotation then ''session_unrecoverable_across_rotation'' else ''agent_exited_unsealed'')
        in
          if (isDead \<and> \<not> leaseActive \<or> dead \<and> unsealed) \<and> unsealed \<and> sf_finalizable f
          then (FinalizedUnsealed unsealedClass, brow)
          else if (isDead \<and> \<not> leaseActive \<or> dead \<and> unsealed) \<and> unsealed \<and> sf_reopenable f
          then (ReopenedFreshAttempt unsealedClass, brow)
          else (case choose_recovery isDead leaseActive (Protocol r) stallClass
                  (jobHasOpenHumanAttentionBlocker (sf_blockers f)) dead rotation unsealed of
              None \<Rightarrow> (LeftAlone, brow)
            | Some c \<Rightarrow>
                act_on_choice migrated policy (isRepoWrite unmarshal row) sessionAbsent
                  (\<not> isDead \<and> \<not> dead \<and>
                   sweep_basis (Transport a) (ProbeBasis r) dead = BasisDeadlineElapsedOnly)
                  f (go_sprint (mget row ''job_id'')) c brow)))"

text \<open>The orphan reaper: an active session without lease or job that is protocol-idle is closed.\<close>

definition reap_orphan ::
  "(string \<Rightarrow> instant option) \<Rightarrow> (string \<Rightarrow> gomap option) \<Rightarrow> instant \<Rightarrow> bool \<Rightarrow> gomap \<Rightarrow> bool" where
  "reap_orphan parse unmarshal now stillActive row \<longleftrightarrow>
     \<not> absent_text (row_text row ''session_id'') \<and>
     StallClass (Classify (ActivityFromRow parse unmarshal row) DefaultPolicy now) = StallProtocolIdle \<and>
     stillActive"

text \<open>
  The reset of the budget when an operator resolves an escalation and the job is dispatched again
  (\<open>recovery_escalation.go\<close>).
\<close>

definition redispatch_budget :: "instant \<Rightarrow> recovery_row option \<Rightarrow> recovery_row option" where
  "redispatch_budget now row =
     map_option (\<lambda>r. r\<lparr>escalation_pending := False, escalated_at := None, requeue_count := 0,
       transfer_count := 0, respawn_count := 0,
       last_recovery_action := Some ''escalation_resolved_redispatch'', last_recovery_at := Some now\<rparr>) row"

section \<open>Series of sweeps\<close>

record sweep_input =
  si_migrated :: bool
  si_facts :: sweep_facts
  si_row :: gomap

fun sweep_run ::
  "recovery_policy \<Rightarrow> (string \<Rightarrow> instant option) \<Rightarrow> (string \<Rightarrow> gomap option) \<Rightarrow>
   (gomap \<Rightarrow> int \<Rightarrow> string \<Rightarrow> string \<times> bool) \<Rightarrow> sweep_input list \<Rightarrow> recovery_row option \<Rightarrow> sweep_outcome list" where
  "sweep_run policy parse unmarshal probe [] brow = []"
| "sweep_run policy parse unmarshal probe (i # is) brow =
     (let (outcome, brow') = recover_job (si_migrated i) policy parse unmarshal probe (si_facts i) (si_row i) brow
      in outcome # sweep_run policy parse unmarshal probe is brow')"

text \<open>The budget rows a job can reach by sweeps and by redispatches after an escalation.\<close>

inductive recovery_reach ::
  "recovery_policy \<Rightarrow> (string \<Rightarrow> instant option) \<Rightarrow> (string \<Rightarrow> gomap option) \<Rightarrow>
   (gomap \<Rightarrow> int \<Rightarrow> string \<Rightarrow> string \<times> bool) \<Rightarrow> recovery_row option \<Rightarrow> bool"
  for policy parse unmarshal probe where
  reach_start: "recovery_reach policy parse unmarshal probe None"
| reach_sweep: "recovery_reach policy parse unmarshal probe brow \<Longrightarrow>
    recovery_reach policy parse unmarshal probe
      (snd (recover_job migrated policy parse unmarshal probe f row brow))"
| reach_redispatch: "recovery_reach policy parse unmarshal probe brow \<Longrightarrow>
    recovery_reach policy parse unmarshal probe (redispatch_budget now brow)"

section \<open>Laws\<close>

definition counts :: "recovery_row option \<Rightarrow> int \<times> int" where
  "counts brow = (case brow of None \<Rightarrow> (0, 0) | Some r \<Rightarrow> (requeue_count r, transfer_count r))"

lemma counts_write: "counts (writeConfidenceGateState t m n b brow) = counts brow"
  by (simp add: counts_def writeConfidenceGateState_def new_row_def Let_def split: option.splits)

lemma counts_mark: "counts (markRecoveryEscalation t a c brow) = counts brow"
  by (simp add: counts_def markRecoveryEscalation_def new_row_def Let_def split: option.splits)

lemma counts_gate: "counts (snd (gate_step m p i brow)) = counts brow"
  by (simp add: gate_step_def applyConfidenceGate_def Let_def counts_write)

lemma counts_record:
  "counts (recordRecoveryAction t RequeueCount a c brow) = (fst (counts brow) + 1, snd (counts brow))"
  "counts (recordRecoveryAction t TransferCount a c brow) = (fst (counts brow), snd (counts brow) + 1)"
  by (simp_all add: counts_def recordRecoveryAction_def new_row_def split: option.splits)

lemma counts_read:
  "requeueCount (readJobRecoveryBudget m brow) = fst (counts brow)"
  "transferCount (readJobRecoveryBudget m brow) = snd (counts brow)"
  by (simp_all add: readJobRecoveryBudget_def readJobRecoveryBudgetLegacy_def counts_def zero_budget_def
      split: option.splits)

lemma budget_limit_le: "policy_ok p \<Longrightarrow> budget_limit p rw c \<le>
    (case rc_counter c of TransferCount \<Rightarrow> maxTransfers p | RequeueCount \<Rightarrow> maxRequeues p)"
  by (auto simp: budget_limit_def policy_ok_def unsealedRequeueBudget_def split: counter.splits)

text \<open>One step of the budget: only an action counts, by one, and only below its limit.\<close>

lemma act_on_choice_counts:
  assumes "policy_ok p"
  shows "case act_on_choice m p rw absent g f j c brow of (outcome, brow') \<Rightarrow>
    (if outcome = Recovered c
     then (if rc_counter c = TransferCount
           then counts brow' = (fst (counts brow), snd (counts brow) + 1) \<and> snd (counts brow) < maxTransfers p
           else counts brow' = (fst (counts brow) + 1, snd (counts brow)) \<and> fst (counts brow) < maxRequeues p)
     else counts brow' = counts brow \<and> (\<forall>c'. outcome \<noteq> Recovered c'))"
  using budget_limit_le [OF assms, of rw c]
  by (cases "rc_counter c")
     (auto simp: act_on_choice_def Let_def counts_mark counts_record budget_count_def counts_read counts_gate split_beta)

lemma recover_job_cases:
  obtains (still) outcome where "recover_job m p parse unmarshal probe f row brow = (outcome, brow)"
      "\<And>c. outcome \<noteq> Recovered c"
  | (act) rw absent g j c where
      "recover_job m p parse unmarshal probe f row brow = act_on_choice m p rw absent g f j c brow"
proof -
  have "(\<exists>outcome. recover_job m p parse unmarshal probe f row brow = (outcome, brow) \<and> (\<forall>c. outcome \<noteq> Recovered c)) \<or>
    (\<exists>rw absent g j c. recover_job m p parse unmarshal probe f row brow = act_on_choice m p rw absent g f j c brow)"
    unfolding recover_job_def Let_def by (simp split: option.split) blast
  with still act show thesis by blast
qed

lemma recover_job_counts:
  assumes "policy_ok p"
  shows "case recover_job m p parse unmarshal probe f row brow of (outcome, brow') \<Rightarrow>
    (case outcome of
       Recovered c \<Rightarrow>
         fst (counts brow') + snd (counts brow') = fst (counts brow) + snd (counts brow) + 1 \<and>
         (fst (counts brow) \<le> maxRequeues p \<longrightarrow> fst (counts brow') \<le> maxRequeues p) \<and>
         (snd (counts brow) \<le> maxTransfers p \<longrightarrow> snd (counts brow') \<le> maxTransfers p) \<and>
         fst (counts brow) \<le> fst (counts brow') \<and> snd (counts brow) \<le> snd (counts brow')
     | _ \<Rightarrow> counts brow' = counts brow)"
proof (cases rule: recover_job_cases [of m p parse unmarshal probe f row brow])
  case (still outcome)
  then show ?thesis by (cases outcome) auto
next
  case (act rw absent g j c)
  show ?thesis
    using act_on_choice_counts [OF assms, where m = m and rw = rw and absent = absent and g = g and f = f
      and j = j and c = c and brow = brow] unfolding act
    by (cases "fst (act_on_choice m p rw absent g f j c brow)") (auto simp: split_beta split: if_splits)
qed

lemma reach_counts:
  assumes "policy_ok policy" and "recovery_reach policy parse unmarshal probe brow"
  shows "0 \<le> fst (counts brow) \<and> fst (counts brow) \<le> maxRequeues policy \<and>
    0 \<le> snd (counts brow) \<and> snd (counts brow) \<le> maxTransfers policy"
  using assms(2)
proof induction
  case reach_start
  with assms(1) show ?case by (simp add: counts_def policy_ok_def)
next
  case (reach_sweep brow migrated f row)
  then show ?case
    using recover_job_counts [OF assms(1), where m = migrated and parse = parse and unmarshal = unmarshal
        and probe = probe and f = f and row = row and brow = brow]
    by (auto simp: split_beta split: sweep_outcome.splits)
next
  case (reach_redispatch brow now)
  with assms(1) show ?case by (simp add: counts_def redispatch_budget_def policy_ok_def split: option.splits)
qed

definition is_recovered :: "sweep_outcome \<Rightarrow> bool" where
  "is_recovered outcome = (case outcome of Recovered c \<Rightarrow> True | _ \<Rightarrow> False)"

lemma sweep_run_bound:
  assumes "policy_ok p" and "fst (counts brow) \<le> maxRequeues p" and "snd (counts brow) \<le> maxTransfers p"
  shows "int (length (filter is_recovered (sweep_run p parse unmarshal probe is brow)))
    \<le> maxRequeues p + maxTransfers p - fst (counts brow) - snd (counts brow)"
  using assms(2,3)
proof (induction "is" arbitrary: brow)
  case Nil
  then show ?case by simp
next
  case (Cons i "is")
  obtain outcome brow' where step:
    "recover_job (si_migrated i) p parse unmarshal probe (si_facts i) (si_row i) brow = (outcome, brow')" by force
  have next_ok: "fst (counts brow') \<le> maxRequeues p" "snd (counts brow') \<le> maxTransfers p"
    "fst (counts brow') + snd (counts brow') =
       fst (counts brow) + snd (counts brow) + (if is_recovered outcome then 1 else 0)"
    using recover_job_counts [OF assms(1), where m = "si_migrated i" and parse = parse and unmarshal = unmarshal
        and probe = probe and f = "si_facts i" and row = "si_row i" and brow = brow]
      step Cons.prems
    by (cases outcome; simp add: is_recovered_def)+
  have "int (length (filter is_recovered (sweep_run p parse unmarshal probe (i # is) brow))) =
      int (length (filter is_recovered (sweep_run p parse unmarshal probe is brow'))) +
      (if is_recovered outcome then 1 else 0)"
    by (simp add: step)
  with Cons.IH [OF next_ok(1,2)] next_ok(3) show ?case by linarith
qed

text \<open>A present session that is not stalled, or that waits for a human, gives no choice.\<close>

lemma choose_none:
  assumes "\<not> sessionDead" and "\<not> dead" and "prot \<notin> {ProtocolStalled, ProtocolAttention} \<or> human"
  shows "choose_recovery sessionDead leaseActive prot c human dead rotation unsealed = None"
  using assms by (auto simp: choose_recovery_def)

lemma session_present:
  assumes "\<not> absent_text (row_text row ''session_id'')" and "row_text row ''session_state'' = ''active''"
  shows "\<not> sweep_skips row" and "session_dead row prot \<longleftrightarrow> prot = ProtocolDead"
  using assms by (auto simp: sweep_skips_def session_dead_def)

lemma recover_job_alone:
  assumes "\<not> absent_text (row_text row ''session_id'')" and "row_text row ''session_state'' = ''active''"
    and "\<not> supervisedAgentConfirmedDead unmarshal probe row"
    and "Protocol (Classify (ActivityFromRow parse unmarshal row) DefaultPolicy (sf_now f)) \<noteq> ProtocolDead"
    and "Protocol (Classify (ActivityFromRow parse unmarshal row) DefaultPolicy (sf_now f))
        \<notin> {ProtocolStalled, ProtocolAttention} \<or> jobHasOpenHumanAttentionBlocker (sf_blockers f)"
  shows "recover_job migrated p parse unmarshal probe f row brow = (LeftAlone, brow)"
  unfolding recover_job_def Let_def using assms(3-5)
  by (simp add: session_present [OF assms(1,2)] choose_none)

section \<open>Properties\<close>

text \<open>The sweep spares a working lane. A job whose session is active, whose process is not
  confirmed dead and which the liveness classifier does not report as stalled is left alone, and its
  budget row stays as it is.\<close>

theorem recover_job_spares_working:
  assumes "\<not> absent_text (row_text row ''session_id'')" and "row_text row ''session_state'' = ''active''"
    and "\<not> supervisedAgentConfirmedDead unmarshal probe row"
    and "StallClass (Classify (ActivityFromRow parse unmarshal row) DefaultPolicy (sf_now f)) = NoStall"
  shows "recover_job migrated p parse unmarshal probe f row brow = (LeftAlone, brow)"
  using assms stall_basis [of "ActivityFromRow parse unmarshal row" DefaultPolicy "sf_now f"]
  by (intro recover_job_alone) auto

text \<open>The sweep leaves a human gate to the operator. While a blocker that needs a human is open,
  a job whose session is active and not dead is left alone, stalled or not.\<close>

theorem recover_job_respects_human:
  assumes "\<not> absent_text (row_text row ''session_id'')" and "row_text row ''session_state'' = ''active''"
    and "\<not> supervisedAgentConfirmedDead unmarshal probe row"
    and "Protocol (Classify (ActivityFromRow parse unmarshal row) DefaultPolicy (sf_now f)) \<noteq> ProtocolDead"
    and "b \<in> set (sf_blockers f)" and "isEscalationClassBlocker b"
  shows "recover_job migrated p parse unmarshal probe f row brow = (LeftAlone, brow)"
  using assms by (intro recover_job_alone) (auto simp: jobHasOpenHumanAttentionBlocker_def list_ex_iff)

text \<open>C9: recovery is bounded. Over any series of sweeps of a job, in whatever state each finds it,
  the requeues and transfers together number at most the two budgets of its workflow.\<close>

theorem sweep_actions_bounded:
  "int (length (filter is_recovered
      (sweep_run (recoveryPolicyFromWorkflow unmarshal workflow) parse unmarshal probe is None)))
    \<le> maxRequeues (recoveryPolicyFromWorkflow unmarshal workflow) +
       maxTransfers (recoveryPolicyFromWorkflow unmarshal workflow)"
  using sweep_run_bound [OF policy_from_workflow_ok [of unmarshal workflow], of None parse unmarshal probe "is"]
    policy_from_workflow_ok [of unmarshal workflow]
  by (simp add: counts_def policy_ok_def)

text \<open>The counters stay within the budgets in every state a budget row can reach by sweeps and
  operator redispatches.\<close>

theorem recovery_budget_invariant:
  assumes "recovery_reach (recoveryPolicyFromWorkflow unmarshal workflow) parse unmarshal probe (Some r)"
  shows "0 \<le> requeue_count r \<and> requeue_count r \<le> maxRequeues (recoveryPolicyFromWorkflow unmarshal workflow) \<and>
    0 \<le> transfer_count r \<and> transfer_count r \<le> maxTransfers (recoveryPolicyFromWorkflow unmarshal workflow)"
  using reach_counts [OF policy_from_workflow_ok assms] by (simp add: counts_def)

text \<open>Only the ambiguous lane is debounced. A sweep defers an escalation only for a job whose
  session is present and active, whose process is not confirmed dead and whose budget is spent; every
  other job with a spent budget is marked for escalation at once.\<close>

theorem recover_job_debounce_only_ambiguous:
  assumes "fst (recover_job migrated p parse unmarshal probe f row brow) = Debounced d"
  shows "\<not> absent_text (row_text row ''session_id'') \<and>
    \<not> supervisedAgentConfirmedDead unmarshal probe row \<and>
    StallClass (Classify (ActivityFromRow parse unmarshal row) DefaultPolicy (sf_now f)) \<noteq> NoStall \<and>
    \<not> escalate d"
proof -
  let ?r = "Classify (ActivityFromRow parse unmarshal row) DefaultPolicy (sf_now f)"
  have ns: "StallClass ?r = NoStall \<Longrightarrow> Protocol ?r \<notin> {ProtocolStalled, ProtocolAttention, ProtocolDead}"
    using stall_basis [of "ActivityFromRow parse unmarshal row" DefaultPolicy "sf_now f"] by auto
  have act: "fst (act_on_choice migrated p rw absent g f j c brow) = Debounced d \<Longrightarrow> g \<and> \<not> escalate d" for rw absent g j c
    by (auto simp: act_on_choice_def Let_def split_beta split: if_splits)
  show ?thesis
    using assms ns
    by (auto simp: recover_job_def Let_def choose_recovery_def session_dead_def split: if_splits dest!: act)
qed

section \<open>A concrete job\<close>

definition ex_job_row :: "string \<Rightarrow> gomap" where
  "ex_job_row state =
     [(''job_id'', VStr ''j''), (''job_state'', VStr ''running''), (''session_id'', VStr ''s''),
      (''session_state'', VStr state), (''lease_state'', VStr ''active''),
      (''registered_at'', VTime 0 ''t''), (''last_mcp_request_at'', VTime 10 ''t''),
      (''last_await_packet_at'', VTime 10 ''t'')]"

definition ex_facts :: "gomap list \<Rightarrow> instant \<Rightarrow> sweep_facts" where
  "ex_facts blockers now =
     \<lparr>sf_blockers = blockers, sf_dependents = [''queued''], sf_liveT1 = False, sf_exitCode = 0,
      sf_paneStatus = None, sf_finalizable = False, sf_reopenable = False, sf_sealedAt = None, sf_cohort = [],
      sf_ownerStillActive = True, sf_alreadyReclaimable = False, sf_blockersResolved = 0, sf_now = now,
      sf_stamp = now\<rparr>"

abbreviation ex_recover :: "sweep_facts \<Rightarrow> recovery_row option \<Rightarrow> sweep_outcome \<times> recovery_row option" where
  "ex_recover f brow \<equiv>
     recover_job True defaultRecoveryPolicy (\<lambda>s. None) (\<lambda>s. None) (\<lambda>m pid start. (''ok'', True)) f
       (ex_job_row ''active'') brow"

theorem recover_job_spares_working_witness:
  "ex_recover (ex_facts [] 20) None = (LeftAlone, None)"
  by (rule recover_job_spares_working; code_simp)

theorem recover_job_respects_human_witness:
  "ex_recover (ex_facts [[(''severity'', VStr ''human_checkpoint'')]] 1000000000000) None = (LeftAlone, None)"
  by (rule recover_job_respects_human [of _ _ _ _ _ "[(''severity'', VStr ''human_checkpoint'')]"];
      (simp add: ex_facts_def; fail)?; code_simp)

lemma ex_transfer:
  "fst (ex_recover (ex_facts [] 1000000000000) None) = Recovered (transfer_choice ''agent_protocol_idle_stall'')"
  by code_simp

theorem recovery_budget_invariant_witness:
  "transfer_count (the (snd (ex_recover (ex_facts [] 1000000000000) None))) \<le> 3"
proof -
  have d: "recoveryPolicyFromWorkflow (\<lambda>s. None) [] = defaultRecoveryPolicy" by code_simp
  have "snd (ex_recover (ex_facts [] 1000000000000) None) \<noteq> None" by code_simp
  then obtain r where r: "snd (ex_recover (ex_facts [] 1000000000000) None) = Some r" by blast
  have "recovery_reach defaultRecoveryPolicy (\<lambda>s. None) (\<lambda>s. None) (\<lambda>m pid start. (''ok'', True)) (Some r)"
    unfolding r [symmetric] by (intro recovery_reach.intros)
  from recovery_budget_invariant [of "\<lambda>s. None" "[]", unfolded d, OF this] r show ?thesis
    by (simp add: defaultRecoveryPolicy_def)
qed

definition ex_spent :: recovery_row where
  "ex_spent = new_row\<lparr>transfer_count := 3, last_recovery_at := Some 5\<rparr>"

theorem recover_job_debounce_only_ambiguous_witness:
  "\<exists>d. fst (ex_recover (ex_facts [] 1000000000000) (Some ex_spent)) = Debounced d \<and> \<not> escalate d"
proof -
  have "(case fst (ex_recover (ex_facts [] 1000000000000) (Some ex_spent)) of Debounced d \<Rightarrow> True | _ \<Rightarrow> False)"
    by code_simp
  then obtain d where d: "fst (ex_recover (ex_facts [] 1000000000000) (Some ex_spent)) = Debounced d"
    by (auto split: sweep_outcome.splits)
  with recover_job_debounce_only_ambiguous [OF d] show ?thesis by blast
qed

end
