(* ===== verification/Quorum.thy ===== *)
theory Quorum
  imports GoValue "HOL-Library.Product_Lexorder"
begin

text \<open>
  The panel quorum of a gate job (\<open>go/pkg/mutations/barrier_quorum.go\<close>) and its composition
  with the edge-by-edge gate (\<open>dependenciesSatisfied\<close> of \<open>mutations.go\<close>). The tables of one run
  are the fields of a record; a query that finds no row where the code needs one is the error
  \<open>None\<close>. The process oracle, the open advisory guard, the state of the fan-in assembly and the
  switch of the environment are fields too.
\<close>

section \<open>Tables\<close>

record qjob =
  q_job_id :: string
  q_workflow_job_id :: string
  q_attempt :: int
  q_job_type :: string
  q_state :: string
  q_definition :: gomap \<comment> \<open>its entry in the workflow snapshot\<close>

text \<open>
  A verdict row; the rows of a table are in the order (creation time, id). The generation of the
  reviewed build is absent where the schema has no such column; the attestation of the lane and the
  override of the provenance policy are those at the time of recording.
\<close>

record qverdict =
  v_id :: string
  v_created :: int
  v_job_id :: string
  v_session :: string
  v_verdict :: string
  v_superseded :: bool
  v_generation :: "int option"
  v_attested :: bool
  v_override :: bool

record qdb =
  db_jobs :: "qjob list"
  db_verdicts :: "qverdict list"
  db_dissents :: "(string \<times> int) list option" \<comment> \<open>seat and attempt; \<open>None\<close>: the table is absent\<close>
  db_dead :: "string \<Rightarrow> int \<Rightarrow> bool"          \<comment> \<open>\<open>seatStructurallyUnrecoverable\<close>\<close>
  db_dependencies :: "(string \<times> string \<times> gomap) list" \<comment> \<open>job, upstream job, gate\<close>
  db_held :: "string \<Rightarrow> bool"                 \<comment> \<open>\<open>gateHeldByOpenAdvisoryGuard\<close>\<close>
  db_assembled :: "string \<Rightarrow> bool"            \<comment> \<open>\<open>ensureFaninBarrierCommittedForGate\<close>\<close>

definition job_by_id :: "qdb \<Rightarrow> string \<Rightarrow> qjob option" where
  "job_by_id db j = find (\<lambda>r. q_job_id r = j) (db_jobs db)"

definition dependencies_of :: "qdb \<Rightarrow> string \<Rightarrow> (string \<times> gomap) list" where
  "dependencies_of db j = map snd (filter (\<lambda>d. fst d = j) (db_dependencies db))"

text \<open>\<open>SELECT MAX(_)\<close>: NULL over no rows.\<close>

definition sql_max :: "int list \<Rightarrow> int option" where
  "sql_max xs = (case xs of [] \<Rightarrow> None | y # ys \<Rightarrow> Some (fold max ys y))"

section \<open>The declaration\<close>

definition panelRoleOf :: "gomap \<Rightarrow> string" where
  "panelRoleOf def =
     (case mget def ''panel_role'' of
        VStr role \<Rightarrow> (if role = ''advisory'' then ''advisory'' else ''gating'')
      | _ \<Rightarrow> ''gating'')"

text \<open>\<open>intValue\<close> of \<open>claim.go\<close>.\<close>

fun intValue :: "goval \<Rightarrow> int" where
  "intValue (VInt i) = i"
| "intValue (VInt32 i) = i"
| "intValue (VInt64 i) = i"
| "intValue (VFloat f) = float_trunc f"
| "intValue (VNumber s) = atoi_value s"
| "intValue _ = 0"

definition maxGatingAbstentions :: "gomap \<Rightarrow> int" where
  "maxGatingAbstentions def =
     (case map_of def ''max_gating_abstentions'' of None \<Rightarrow> 0
      | Some v \<Rightarrow> (let n = intValue v in if n < 0 then 0 else n))"

fun gating_seats :: "qdb \<Rightarrow> (string \<times> gomap) list \<Rightarrow> string list \<Rightarrow> string list option" where
  "gating_seats db [] seen = Some []"
| "gating_seats db (d # ds) seen =
     (case job_by_id db (fst d) of
        None \<Rightarrow> None
      | Some u \<Rightarrow>
          if q_job_type u \<noteq> ''review'' then gating_seats db ds seen
          else if q_workflow_job_id u \<in> set seen then gating_seats db ds seen
          else if panelRoleOf (q_definition u) \<noteq> ''gating'' then gating_seats db ds seen
          else map_option (Cons (q_workflow_job_id u)) (gating_seats db ds (q_workflow_job_id u # seen)))"

text \<open>The frozen seats, sorted, and the abstention budget.\<close>

definition resolveQuorumDeclaration :: "qdb \<Rightarrow> string \<Rightarrow> (string list \<times> int) option" where
  "resolveQuorumDeclaration db gate =
     (case job_by_id db gate of None \<Rightarrow> None
      | Some g \<Rightarrow> map_option (\<lambda>seats. (sort seats, maxGatingAbstentions (q_definition g)))
          (gating_seats db (dependencies_of db gate) []))"

section \<open>Seats\<close>

record panelSeat =
  WorkflowJobID :: string
  LiveAttempt :: int
  AcceptingAttempt :: int
  DissentAtLiveSeal :: bool
  StructurallyUnrecoverable :: bool

definition terminalGap :: "panelSeat \<Rightarrow> bool" where
  "terminalGap s = StructurallyUnrecoverable s"

definition satisfied :: "panelSeat \<Rightarrow> bool" where
  "satisfied s =
     (if DissentAtLiveSeal s then False
      else if LiveAttempt s \<le> 0 then False
      else AcceptingAttempt s = LiveAttempt s)"

definition staleSealTrap :: "panelSeat \<Rightarrow> bool" where
  "staleSealTrap s =
     (if DissentAtLiveSeal s then False
      else if LiveAttempt s \<le> 0 \<or> AcceptingAttempt s \<le> 0 then False
      else AcceptingAttempt s \<noteq> LiveAttempt s)"

text \<open>The attempts of the seat's jobs, and of those of them that carry an accepting verdict.\<close>

definition seat_attempts :: "qdb \<Rightarrow> string \<Rightarrow> int list" where
  "seat_attempts db seat = map q_attempt (filter (\<lambda>j. q_workflow_job_id j = seat) (db_jobs db))"

definition accepting_attempts :: "qdb \<Rightarrow> string \<Rightarrow> int list" where
  "accepting_attempts db seat =
     concat (map (\<lambda>v. map q_attempt
         (filter (\<lambda>j. q_job_id j = v_job_id v \<and> q_workflow_job_id j = seat) (db_jobs db)))
       (filter (\<lambda>v. v_verdict v = ''accept'' \<or> v_verdict v = ''accept_with_findings'') (db_verdicts db)))"

definition seatHasLiveDissent :: "qdb \<Rightarrow> string \<Rightarrow> int \<Rightarrow> bool" where
  "seatHasLiveDissent db seat attempt =
     (case db_dissents db of None \<Rightarrow> False | Some ds \<Rightarrow> (seat, attempt) \<in> set ds)"

definition resolvePanelSeat :: "qdb \<Rightarrow> string \<Rightarrow> panelSeat" where
  "resolvePanelSeat db seat =
     (let live = (case sql_max (seat_attempts db seat) of None \<Rightarrow> 0 | Some a \<Rightarrow> a)
      in \<lparr>WorkflowJobID = seat, LiveAttempt = live,
          AcceptingAttempt = (case sql_max (accepting_attempts db seat) of None \<Rightarrow> -1 | Some a \<Rightarrow> a),
          DissentAtLiveSeal = (live > 0 \<and> seatHasLiveDissent db seat live),
          StructurallyUnrecoverable = (live > 0 \<and> db_dead db seat live)\<rparr>)"

text \<open>The loop that spends the abstention budget.\<close>

fun apply_budget :: "int \<Rightarrow> int \<Rightarrow> panelSeat list \<Rightarrow> panelSeat list" where
  "apply_budget budget admitted [] = []"
| "apply_budget budget admitted (s # ss) =
     (if satisfied s then s\<lparr>StructurallyUnrecoverable := False\<rparr> # apply_budget budget admitted ss
      else if DissentAtLiveSeal s then s\<lparr>StructurallyUnrecoverable := False\<rparr> # apply_budget budget admitted ss
      else if \<not> StructurallyUnrecoverable s then s # apply_budget budget admitted ss
      else if admitted < budget then s # apply_budget budget (admitted + 1) ss
      else s\<lparr>StructurallyUnrecoverable := False\<rparr> # apply_budget budget admitted ss)"

definition resolvePanelSeats :: "qdb \<Rightarrow> string list \<times> int \<Rightarrow> panelSeat list" where
  "resolvePanelSeats db decl =
     apply_budget (snd decl) 0 (sort_key WorkflowJobID (map (resolvePanelSeat db) (fst decl)))"

definition resolveGovernedSeats :: "qdb \<Rightarrow> string \<Rightarrow> (string \<times> panelSeat) list option" where
  "resolveGovernedSeats db gate =
     (case resolveQuorumDeclaration db gate of None \<Rightarrow> None
      | Some decl \<Rightarrow> (if fst decl = [] then Some []
          else Some (map (\<lambda>s. (WorkflowJobID s, s)) (resolvePanelSeats db decl))))"

section \<open>The predicate and the gate\<close>

text \<open>
  The rows the readiness query is built from, and its value: the conjunction over the edges of
  \<open>is_terminal_gap OR staged = live\<close>.
\<close>

definition satisfyingSeal :: "panelSeat \<Rightarrow> int" where
  "satisfyingSeal s = (if satisfied s then LiveAttempt s else -1)"

definition barrier_ready :: "panelSeat list \<Rightarrow> bool" where
  "barrier_ready seats = list_all (\<lambda>s. terminalGap s \<or> satisfyingSeal s = LiveAttempt s) seats"

definition panelQuorumSatisfied :: "qdb \<Rightarrow> string \<Rightarrow> bool option" where
  "panelQuorumSatisfied db gate =
     (case resolveQuorumDeclaration db gate of None \<Rightarrow> None
      | Some decl \<Rightarrow> (if fst decl = [] then Some True else Some (barrier_ready (resolvePanelSeats db decl))))"

fun requiredVerdicts :: "goval \<Rightarrow> string list" where
  "requiredVerdicts (VList vs) = remdups (map go_sprint vs)"
| "requiredVerdicts (VStrs ss) = remdups ss"
| "requiredVerdicts _ = []"

definition isStandardAcceptingGate :: "string list \<Rightarrow> bool" where
  "isStandardAcceptingGate required \<longleftrightarrow>
     length required = 2 \<and> ''accept'' \<in> set required \<and> ''accept_with_findings'' \<in> set required"

definition latestVerdict :: "qdb \<Rightarrow> string \<Rightarrow> string" where
  "latestVerdict db j =
     (case rev (filter (\<lambda>v. v_job_id v = j \<and> \<not> v_superseded v) (db_verdicts db)) of
        [] \<Rightarrow> [] | v # vs \<Rightarrow> v_verdict v)"

text \<open>One dependency, \<open>Some True\<close> where the loop continues, and the loop.\<close>

definition edge_step :: "qdb \<Rightarrow> (string \<times> panelSeat) list \<Rightarrow> string \<times> gomap \<Rightarrow> bool option" where
  "edge_step db governed d =
     (case job_by_id db (fst d) of
        None \<Rightarrow> None
      | Some u \<Rightarrow>
          if q_state u \<noteq> ''completed'' then Some False
          else (let required = requiredVerdicts (mget (snd d) ''requires_verdict'');
                    seat = map_of governed (q_workflow_job_id u);
                    barrierGoverns = (seat \<noteq> None \<and> isStandardAcceptingGate required) in
            if required = [] then Some True
            else if barrierGoverns \<and> terminalGap (the seat) then Some True
            else if latestVerdict db (q_job_id u) \<notin> set required then Some False
            else if barrierGoverns \<and> staleSealTrap (the seat) then Some False
            else Some True))"

fun edges_ok :: "qdb \<Rightarrow> (string \<times> panelSeat) list \<Rightarrow> (string \<times> gomap) list \<Rightarrow> bool option" where
  "edges_ok db governed [] = Some True"
| "edges_ok db governed (d # ds) =
     (case edge_step db governed d of Some True \<Rightarrow> edges_ok db governed ds | r \<Rightarrow> r)"

definition dependenciesSatisfied :: "bool \<Rightarrow> qdb \<Rightarrow> string \<Rightarrow> bool option" where
  "dependenciesSatisfied enabled db gate =
     (if db_held db gate then Some False
      else (case (if enabled then resolveGovernedSeats db gate else Some []) of
          None \<Rightarrow> None
        | Some governed \<Rightarrow>
            (case edges_ok db governed (dependencies_of db gate) of
               Some True \<Rightarrow>
                 (if length (dependencies_of db gate) > 1 \<and> \<not> db_assembled db gate then Some False else Some True)
             | r \<Rightarrow> r)))"

section \<open>Laws\<close>

lemma satisfied_alive: "satisfied s \<Longrightarrow> \<not> DissentAtLiveSeal s \<and> LiveAttempt s > 0"
  by (simp add: satisfied_def split: if_splits)

lemma satisfied_upd [simp]: "satisfied (s\<lparr>StructurallyUnrecoverable := b\<rparr>) = satisfied s"
  by (simp add: satisfied_def)

lemma staleSealTrap_upd [simp]: "staleSealTrap (s\<lparr>StructurallyUnrecoverable := b\<rparr>) = staleSealTrap s"
  by (simp add: staleSealTrap_def)

lemma satisfyingSeal_live: "0 \<le> LiveAttempt s \<Longrightarrow> satisfyingSeal s = LiveAttempt s \<longleftrightarrow> satisfied s"
  by (auto simp: satisfyingSeal_def)

text \<open>What the budget loop makes of one seat.\<close>

lemma apply_budget_seat:
  "s' \<in> set (apply_budget b n ss) \<Longrightarrow>
     \<exists>s \<in> set ss. \<exists>g. s' = s\<lparr>StructurallyUnrecoverable := g\<rparr> \<and>
       (g \<longrightarrow> StructurallyUnrecoverable s \<and> \<not> satisfied s \<and> \<not> DissentAtLiveSeal s)"
proof (induction b n ss rule: apply_budget.induct)
  case (2 b n s ss)
  consider (head) "s' = s\<lparr>StructurallyUnrecoverable := False\<rparr>"
    | (kept) "s' = s" "\<not> satisfied s" "\<not> DissentAtLiveSeal s"
    | (tail) m where "s' \<in> set (apply_budget b m ss)" "m = n \<or> m = n + 1"
      "\<exists>t \<in> set ss. \<exists>g. s' = t\<lparr>StructurallyUnrecoverable := g\<rparr> \<and>
         (g \<longrightarrow> StructurallyUnrecoverable t \<and> \<not> satisfied t \<and> \<not> DissentAtLiveSeal t)"
    using 2 by (auto split: if_splits)
  then show ?case
  proof cases
    case kept
    then have "s' = s\<lparr>StructurallyUnrecoverable := StructurallyUnrecoverable s\<rparr>" by simp
    with kept show ?thesis by (metis list.set_intros(1))
  qed (auto intro: bexI [of _ s])
qed simp

lemma apply_budget_gaps:
  "n \<le> b \<Longrightarrow> int (length (filter terminalGap (apply_budget b n ss))) \<le> b - n"
  by (induction b n ss rule: apply_budget.induct) (auto simp: terminalGap_def)

lemma apply_budget_zero_gap: "s \<in> set (apply_budget 0 0 ss) \<Longrightarrow> \<not> terminalGap s"
  using apply_budget_gaps [of 0 0 ss] by (auto simp: filter_empty_conv)

lemma apply_budget_length [simp]: "length (apply_budget b n ss) = length ss"
  by (induction b n ss rule: apply_budget.induct) auto

lemma maxGatingAbstentions_nonneg: "0 \<le> maxGatingAbstentions def"
  by (simp add: maxGatingAbstentions_def Let_def split: option.splits)

lemma declaration_budget:
  "resolveQuorumDeclaration db gate = Some decl \<Longrightarrow> 0 \<le> snd decl"
  by (auto simp: resolveQuorumDeclaration_def maxGatingAbstentions_nonneg split: option.splits)

lemma resolved_seat:
  assumes "s' \<in> set (resolvePanelSeats db decl)"
  shows "\<exists>seat \<in> set (fst decl). \<exists>g.
    s' = (resolvePanelSeat db seat)\<lparr>StructurallyUnrecoverable := g\<rparr> \<and>
    (g \<longrightarrow> db_dead db seat (LiveAttempt s') \<and> \<not> satisfied s' \<and> \<not> DissentAtLiveSeal s')"
  using apply_budget_seat [OF assms [unfolded resolvePanelSeats_def]]
  by (auto simp: resolvePanelSeat_def Let_def)

lemma resolved_budget_zero:
  "snd decl = 0 \<Longrightarrow> s \<in> set (resolvePanelSeats db decl) \<Longrightarrow> \<not> terminalGap s"
  unfolding resolvePanelSeats_def using apply_budget_zero_gap by simp

text \<open>With one job row per seat the accepting attempt is the live one or absent.\<close>

lemma one_row_attempts:
  assumes "distinct (map q_workflow_job_id (db_jobs db))" and "j \<in> set (db_jobs db)"
  shows "filter (\<lambda>r. q_workflow_job_id r = q_workflow_job_id j) (db_jobs db) = [j]"
proof -
  from assms(2) obtain us vs where js: "db_jobs db = us @ j # vs" by (meson split_list)
  with assms(1) have "filter (\<lambda>r. q_workflow_job_id r = q_workflow_job_id j) us = []"
    "filter (\<lambda>r. q_workflow_job_id r = q_workflow_job_id j) vs = []"
    by (auto simp: filter_empty_conv image_iff)
  with js show ?thesis by simp
qed

lemma sql_max_same: "xs \<noteq> [] \<Longrightarrow> \<forall>x \<in> set xs. x = a \<Longrightarrow> sql_max xs = Some a"
proof -
  have "fold max ys y = a" if "y = a" "\<forall>x \<in> set ys. x = a" for y ys
    using that by (induction ys arbitrary: y) auto
  then show "xs \<noteq> [] \<Longrightarrow> \<forall>x \<in> set xs. x = a \<Longrightarrow> sql_max xs = Some a"
    by (cases xs) (auto simp: sql_max_def)
qed

lemma one_row_no_trap:
  assumes "distinct (map q_workflow_job_id (db_jobs db))"
  shows "\<not> staleSealTrap (resolvePanelSeat db seat)"
proof (cases "\<exists>j \<in> set (db_jobs db). q_workflow_job_id j = seat")
  case True
  then obtain j where j: "j \<in> set (db_jobs db)" "q_workflow_job_id j = seat" by blast
  note rows = one_row_attempts [OF assms j(1), unfolded j(2)]
  have "r = j" if "r \<in> set (db_jobs db)" "q_workflow_job_id r = seat" for r
  proof -
    from that have "r \<in> set (filter (\<lambda>r. q_workflow_job_id r = seat) (db_jobs db))" by simp
    then show ?thesis unfolding rows by simp
  qed
  then have same: "\<forall>a \<in> set (accepting_attempts db seat). a = q_attempt j"
    by (auto simp: accepting_attempts_def)
  have "sql_max (accepting_attempts db seat) \<in> {None, Some (q_attempt j)}"
  proof (cases "accepting_attempts db seat = []")
    case True
    then show ?thesis by (simp add: sql_max_def)
  next
    case False
    from sql_max_same [OF this same] show ?thesis by simp
  qed
  moreover have "sql_max (seat_attempts db seat) = Some (q_attempt j)"
    by (simp add: seat_attempts_def rows sql_max_def)
  ultimately show ?thesis by (auto simp: staleSealTrap_def resolvePanelSeat_def Let_def)
next
  case False
  then have "seat_attempts db seat = []" by (auto simp: seat_attempts_def filter_empty_conv)
  then show ?thesis by (simp add: staleSealTrap_def resolvePanelSeat_def sql_max_def)
qed

text \<open>The loop as a conjunction over the edges, once every lookup succeeds.\<close>

definition edge_ok :: "qdb \<Rightarrow> (string \<times> panelSeat) list \<Rightarrow> string \<times> gomap \<Rightarrow> bool" where
  "edge_ok db governed d \<longleftrightarrow> edge_step db governed d = Some True"

lemma edges_ok_True: "edges_ok db governed ds = Some True \<longleftrightarrow> list_all (edge_ok db governed) ds"
  by (induction ds) (auto simp: edge_ok_def split: option.splits bool.splits)

lemma edge_ok_completed:
  "edge_ok db governed d \<Longrightarrow> \<exists>u. job_by_id db (fst d) = Some u \<and> q_state u = ''completed''"
  by (auto simp: edge_ok_def edge_step_def split: option.splits if_splits)

text \<open>Where the barrier has no gap to offer, it can only refuse what the floor admits.\<close>

definition trapped :: "qdb \<Rightarrow> (string \<times> panelSeat) list \<Rightarrow> string \<times> gomap \<Rightarrow> bool" where
  "trapped db governed d \<longleftrightarrow>
     (case job_by_id db (fst d) of None \<Rightarrow> False
      | Some u \<Rightarrow> isStandardAcceptingGate (requiredVerdicts (mget (snd d) ''requires_verdict'')) \<and>
          (case map_of governed (q_workflow_job_id u) of None \<Rightarrow> False | Some s \<Rightarrow> staleSealTrap s))"

lemma edge_ok_floor:
  assumes "\<And>seat s. map_of governed seat = Some s \<Longrightarrow> \<not> terminalGap s"
  shows "edge_ok db governed d \<longleftrightarrow> edge_ok db [] d \<and> \<not> trapped db governed d"
proof (cases "job_by_id db (fst d)")
  case None
  then show ?thesis by (simp add: edge_ok_def edge_step_def)
next
  case (Some u)
  show ?thesis
  proof (cases "map_of governed (q_workflow_job_id u)")
    case None
    then show ?thesis by (simp add: edge_ok_def edge_step_def trapped_def Some)
  next
    case (Some s)
    with assms have "\<not> terminalGap s" by blast
    moreover have "isStandardAcceptingGate r \<Longrightarrow> r \<noteq> []" for r by (auto simp: isStandardAcceptingGate_def)
    ultimately show ?thesis
      by (auto simp: edge_ok_def edge_step_def trapped_def Let_def Some \<open>job_by_id db (fst d) = Some u\<close>)
  qed
qed

lemma sql_max_in: "sql_max xs = Some m \<Longrightarrow> m \<in> set xs"
proof -
  have "fold max ys y \<in> insert y (set ys)" for y and ys :: "int list"
  proof (induction ys arbitrary: y)
    case (Cons z ys)
    from Cons [of "max z y"] show ?case by (auto simp: max_def split: if_splits)
  qed simp
  then show "sql_max xs = Some m \<Longrightarrow> m \<in> set xs" by (cases xs) (auto simp: sql_max_def)
qed

lemma live_attempt_nonneg:
  assumes "\<forall>j \<in> set (db_jobs db). 0 < q_attempt j"
  shows "0 \<le> LiveAttempt (resolvePanelSeat db seat)"
proof (cases "sql_max (seat_attempts db seat)")
  case (Some a)
  with assms sql_max_in [OF Some] have "0 < a" by (auto simp: seat_attempts_def)
  with Some show ?thesis by (simp add: resolvePanelSeat_def Let_def)
qed (simp add: resolvePanelSeat_def)

lemma dependenciesSatisfied_True:
  "dependenciesSatisfied enabled db gate = Some True \<longleftrightarrow>
     \<not> db_held db gate \<and>
     (\<exists>governed. (if enabled then resolveGovernedSeats db gate else Some []) = Some governed \<and>
        list_all (edge_ok db governed) (dependencies_of db gate)) \<and>
     (length (dependencies_of db gate) > 1 \<longrightarrow> db_assembled db gate)"
  by (auto simp: dependenciesSatisfied_def edges_ok_True [symmetric] split: option.splits bool.splits)

lemma governed_seat:
  assumes "resolveGovernedSeats db gate = Some governed" and "map_of governed seat = Some s"
  obtains decl where "resolveQuorumDeclaration db gate = Some decl" "s \<in> set (resolvePanelSeats db decl)"
  using assms by (auto simp: resolveGovernedSeats_def split: option.splits if_splits dest!: map_of_SomeD)

lemma declaration_of_gate:
  "resolveQuorumDeclaration db gate = Some decl \<Longrightarrow>
     \<exists>g. job_by_id db gate = Some g \<and> snd decl = maxGatingAbstentions (q_definition g)"
  by (auto simp: resolveQuorumDeclaration_def split: option.splits)

lemma governed_no_gap:
  assumes "resolveGovernedSeats db gate = Some governed" and "map_of governed seat = Some s"
    and "job_by_id db gate = Some g" and "maxGatingAbstentions (q_definition g) = 0"
  shows "\<not> terminalGap s"
proof -
  from governed_seat [OF assms(1,2)] obtain decl where
    decl: "resolveQuorumDeclaration db gate = Some decl" "s \<in> set (resolvePanelSeats db decl)" .
  from declaration_of_gate [OF decl(1)] assms(3,4) have "snd decl = 0" by simp
  from resolved_budget_zero [OF this decl(2)] show ?thesis .
qed

section \<open>Properties\<close>

text \<open>C11: the quorum never counts more absences than declared. When the panel quorum of a gate is
  satisfied, no seat carries a live dissent, at most \<open>max_gating_abstentions\<close> seats lack an
  accepting verdict at their live attempt, and each of these is confirmed dead.\<close>

theorem panelQuorum_sound:
  assumes "panelQuorumSatisfied db gate = Some True" and "resolveQuorumDeclaration db gate = Some decl"
    and "\<forall>j \<in> set (db_jobs db). 0 < q_attempt j"
  shows "int (length (filter (\<lambda>s. \<not> satisfied s) (resolvePanelSeats db decl))) \<le> snd decl \<and>
    (\<forall>s \<in> set (resolvePanelSeats db decl). \<not> DissentAtLiveSeal s \<and>
       (\<not> satisfied s \<longrightarrow> db_dead db (WorkflowJobID s) (LiveAttempt s)))"
proof (cases "fst decl = []")
  case True
  with declaration_budget [OF assms(2)] show ?thesis by (simp add: resolvePanelSeats_def)
next
  case False
  let ?seats = "resolvePanelSeats db decl"
  have live: "0 \<le> LiveAttempt s" if "s \<in> set ?seats" for s
    using resolved_seat [OF that] live_attempt_nonneg [OF assms(3)] by auto
  from assms(1,2) False have "barrier_ready ?seats" by (simp add: panelQuorumSatisfied_def)
  with live have gap: "\<And>s. s \<in> set ?seats \<Longrightarrow> \<not> satisfied s \<Longrightarrow> terminalGap s"
    by (auto simp: barrier_ready_def list_all_iff satisfyingSeal_live)
  then have "filter (\<lambda>s. \<not> satisfied s) ?seats = filter (\<lambda>s. \<not> satisfied s) (filter terminalGap ?seats)"
    by (auto simp: filter_filter intro!: filter_cong)
  then have "length (filter (\<lambda>s. \<not> satisfied s) ?seats) \<le> length (filter terminalGap ?seats)"
    by (metis length_filter_le)
  moreover have "int (length (filter terminalGap ?seats)) \<le> snd decl"
    using apply_budget_gaps [of 0 "snd decl"] declaration_budget [OF assms(2)] by (simp add: resolvePanelSeats_def)
  moreover have "\<not> DissentAtLiveSeal s \<and> (\<not> satisfied s \<longrightarrow> db_dead db (WorkflowJobID s) (LiveAttempt s))"
    if s: "s \<in> set ?seats" for s
  proof (cases "satisfied s")
    case True
    with satisfied_alive show ?thesis by blast
  next
    case False
    from resolved_seat [OF s] obtain seat g where
      sg: "s = (resolvePanelSeat db seat)\<lparr>StructurallyUnrecoverable := g\<rparr>"
        "g \<longrightarrow> db_dead db seat (LiveAttempt s) \<and> \<not> satisfied s \<and> \<not> DissentAtLiveSeal s" by blast
    from sg(1) have "terminalGap s = g" "WorkflowJobID s = seat"
      by (simp_all add: terminalGap_def resolvePanelSeat_def Let_def)
    with gap [OF s False] sg(2) show ?thesis by simp
  qed
  ultimately show ?thesis by fastforce
qed

text \<open>C12: the barrier composes with the edge-by-edge gate. For a gate without an abstention budget
  whose panel resolves, the gate with the barrier opens exactly when the gate without it opens and no
  dependency is a stale-seal trap.\<close>

theorem barrier_refines_edge_gate:
  assumes "resolveGovernedSeats db gate = Some governed" and "job_by_id db gate = Some g"
    and "maxGatingAbstentions (q_definition g) = 0"
  shows "dependenciesSatisfied True db gate = Some True \<longleftrightarrow>
    dependenciesSatisfied False db gate = Some True \<and>
    list_all (\<lambda>d. \<not> trapped db governed d) (dependencies_of db gate)"
proof -
  have "edge_ok db governed d \<longleftrightarrow> edge_ok db [] d \<and> \<not> trapped db governed d" for d
    using governed_no_gap [OF assms(1) _ assms(2,3)] by (rule edge_ok_floor)
  then show ?thesis unfolding dependenciesSatisfied_True using assms(1) by (auto simp: list_all_iff)
qed

text \<open>An abstention budget cannot open a gate over an unfinished seat. A gate opens only when
  every upstream job is completed, the seats the budget would excuse included.\<close>

theorem gate_needs_completed_upstreams:
  assumes "dependenciesSatisfied enabled db gate = Some True" and "(upstream, gatejson) \<in> set (dependencies_of db gate)"
  shows "\<exists>u. job_by_id db upstream = Some u \<and> q_state u = ''completed''"
  using assms edge_ok_completed unfolding dependenciesSatisfied_True list_all_iff by fastforce

text \<open>With one job row per workflow job, which is what \<open>run.prepare\<close> inserts and no handler
  adds to, the barrier has no effect on a gate without an abstention budget: the attempt of a verdict is
  read from the job's current row, so no accepting verdict is ever stale.\<close>

theorem barrier_without_effect:
  assumes "distinct (map q_workflow_job_id (db_jobs db))"
    and "resolveGovernedSeats db gate = Some governed" and "job_by_id db gate = Some g"
    and "maxGatingAbstentions (q_definition g) = 0"
  shows "dependenciesSatisfied True db gate = Some True \<longleftrightarrow> dependenciesSatisfied False db gate = Some True"
proof -
  have "\<not> trapped db governed d" for d
  proof
    assume "trapped db governed d"
    then obtain seat s where s: "map_of governed seat = Some s" "staleSealTrap s"
      by (auto simp: trapped_def split: option.splits)
    from governed_seat [OF assms(2) s(1)] obtain decl where "s \<in> set (resolvePanelSeats db decl)" .
    from resolved_seat [OF this] one_row_no_trap [OF assms(1)] s(2) show False by auto
  qed
  moreover have "edge_ok db governed d \<longleftrightarrow> edge_ok db [] d \<and> \<not> trapped db governed d" for d
    using governed_no_gap [OF assms(2) _ assms(3,4)] by (rule edge_ok_floor)
  ultimately show ?thesis unfolding dependenciesSatisfied_True using assms(2) by (auto simp: list_all_iff)
qed

section \<open>A concrete panel\<close>

definition ex_seat_job :: "string \<Rightarrow> string \<Rightarrow> string \<Rightarrow> qjob" where
  "ex_seat_job i state ty =
     \<lparr>q_job_id = i, q_workflow_job_id = i, q_attempt = 1, q_job_type = ty, q_state = state, q_definition = []\<rparr>"

definition ex_verdict :: "string \<Rightarrow> string \<Rightarrow> qverdict" where
  "ex_verdict i v =
     \<lparr>v_id = i, v_created = 0, v_job_id = i, v_session = i, v_verdict = v, v_superseded = False, v_generation = Some 1, v_attested = True,
      v_override = False\<rparr>"

definition ex_panel :: "string \<Rightarrow> int \<Rightarrow> qdb" where
  "ex_panel state budget =
     \<lparr>db_jobs = [ex_seat_job ''r1'' ''completed'' ''review'', ex_seat_job ''r2'' state ''review'',
        (ex_seat_job ''gate'' ''blocked'' ''build'')
          \<lparr>q_definition := [(''max_gating_abstentions'', VInt budget)]\<rparr>],
      db_verdicts = [ex_verdict ''r1'' ''accept''] @
        (if state = ''completed''
         then [ex_verdict ''r2'' ''accept_with_findings''] else []),
      db_dissents = None, db_dead = (\<lambda>seat a. seat = ''r2''),
      db_dependencies = map (\<lambda>r. (''gate'', r,
        [(''requires_verdict'', VStrs [''accept'', ''accept_with_findings''])])) [''r1'', ''r2''],
      db_held = (\<lambda>g. False), db_assembled = (\<lambda>g. True)\<rparr>"

definition ex_governed :: "(string \<times> panelSeat) list" where
  "ex_governed = the (resolveGovernedSeats (ex_panel ''completed'' 0) ''gate'')"

lemma ex_panel_facts:
  "panelQuorumSatisfied (ex_panel ''running'' 1) ''gate'' = Some True"
  "resolveQuorumDeclaration (ex_panel ''running'' 1) ''gate'' = Some ([''r1'', ''r2''], 1)"
  "dependenciesSatisfied True (ex_panel ''running'' 1) ''gate'' = Some False"
  "dependenciesSatisfied True (ex_panel ''completed'' 0) ''gate'' = Some True"
  "resolveGovernedSeats (ex_panel ''completed'' 0) ''gate'' = Some ex_governed"
  by code_simp+

lemma ex_panel_gate:
  "job_by_id (ex_panel st b) ''gate'' = Some ((ex_seat_job ''gate'' ''blocked'' ''build'')
     \<lparr>q_definition := [(''max_gating_abstentions'', VInt b)]\<rparr>)"
  by (simp add: job_by_id_def ex_panel_def ex_seat_job_def)

lemma ex_no_budget: "maxGatingAbstentions [(''max_gating_abstentions'', VInt 0)] = 0"
  by code_simp

theorem panelQuorum_sound_witness:
  "length (filter (\<lambda>s. \<not> satisfied s) (resolvePanelSeats (ex_panel ''running'' 1) ([''r1'', ''r2''], 1))) \<le> 1"
proof -
  have "\<forall>j \<in> set (db_jobs (ex_panel ''running'' 1)). 0 < q_attempt j"
    by (simp add: ex_panel_def ex_seat_job_def)
  from panelQuorum_sound [OF ex_panel_facts(1,2) this] show ?thesis by simp
qed

theorem barrier_refines_edge_gate_witness:
  "dependenciesSatisfied False (ex_panel ''completed'' 0) ''gate'' = Some True"
  using barrier_refines_edge_gate [OF ex_panel_facts(5) ex_panel_gate] ex_panel_facts(4) ex_no_budget by simp

theorem gate_needs_completed_upstreams_witness:
  "\<exists>u. job_by_id (ex_panel ''completed'' 0) ''r2'' = Some u \<and> q_state u = ''completed''"
  by (rule gate_needs_completed_upstreams [OF ex_panel_facts(4)])
     (simp add: dependencies_of_def ex_panel_def)

theorem barrier_without_effect_witness:
  "dependenciesSatisfied False (ex_panel ''completed'' 0) ''gate'' = Some True"
proof -
  have "distinct (map q_workflow_job_id (db_jobs (ex_panel ''completed'' 0)))" by code_simp
  from barrier_without_effect [OF this ex_panel_facts(5) ex_panel_gate] ex_panel_facts(4) ex_no_budget
  show ?thesis by simp
qed

text \<open>The panel of one dead seat and a budget of one satisfies the quorum, and its gate stays shut.\<close>

lemma budget_does_not_open_gate:
  "panelQuorumSatisfied (ex_panel ''running'' 1) ''gate'' = Some True \<and>
   dependenciesSatisfied True (ex_panel ''running'' 1) ''gate'' = Some False"
  by (simp add: ex_panel_facts)

end
