(* ===== verification/Advisory.thy ===== *)
theory Advisory
  imports Quorum
begin

text \<open>
  The advisory seats of a panel (\<open>go/pkg/mutations/barrier_advisory.go\<close>): the tally of their verdicts
  and of the silent gating seats of a gate, and the three guards that hold the gate. As in \<open>Quorum\<close>,
  the tables are those of one run, and a query without the row it needs is the error \<open>None\<close>.
\<close>

section \<open>The tally\<close>

definition advisoryGuardKinds :: "string list" where
  "advisoryGuardKinds =
     [''advisory_corroborated_abstention'', ''unanimous_advisory_reject'', ''advisory_only_panel_ungrounded'']"

record advisorySeatVerdict =
  as_WorkflowJobID :: string
  as_Verdict :: string
  as_Submitted :: bool

record advisoryTally =
  GatingSeatCount :: int
  HasGatingAbstention :: bool
  AdvisorySeats :: "advisorySeatVerdict list"

definition submittedAdvisory :: "advisoryTally \<Rightarrow> advisorySeatVerdict list" where
  "submittedAdvisory t = sort_key as_WorkflowJobID (filter as_Submitted (AdvisorySeats t))"

definition hasAdvisoryDissent :: "advisoryTally \<Rightarrow> bool" where
  "hasAdvisoryDissent t \<longleftrightarrow>
     list_ex (\<lambda>s. as_Verdict s = ''needs_revision'' \<or> as_Verdict s = ''reject'') (submittedAdvisory t)"

definition unanimousAdvisoryReject :: "advisoryTally \<Rightarrow> bool" where
  "unanimousAdvisoryReject t \<longleftrightarrow>
     submittedAdvisory t \<noteq> [] \<and> list_all (\<lambda>s. as_Verdict s = ''reject'') (submittedAdvisory t)"

text \<open>The guard that fires, in the order of precedence, or the empty string.\<close>

definition evaluateAdvisoryGuards :: "advisoryTally \<Rightarrow> string" where
  "evaluateAdvisoryGuards t =
     (if GatingSeatCount t = 0 \<and> submittedAdvisory t \<noteq> [] then ''advisory_only_panel_ungrounded''
      else if unanimousAdvisoryReject t then ''unanimous_advisory_reject''
      else if HasGatingAbstention t \<and> hasAdvisoryDissent t then ''advisory_corroborated_abstention''
      else [])"

section \<open>Reading the panel\<close>

fun advisory_seats :: "qdb \<Rightarrow> (string \<times> gomap) list \<Rightarrow> string list \<Rightarrow> string list option" where
  "advisory_seats db [] seen = Some []"
| "advisory_seats db (d # ds) seen =
     (case job_by_id db (fst d) of
        None \<Rightarrow> None
      | Some u \<Rightarrow>
          if q_job_type u \<noteq> ''review'' then advisory_seats db ds seen
          else if q_workflow_job_id u \<in> set seen then advisory_seats db ds seen
          else if panelRoleOf (q_definition u) \<noteq> ''advisory'' then advisory_seats db ds seen
          else map_option (Cons (q_workflow_job_id u)) (advisory_seats db ds (q_workflow_job_id u # seen)))"

definition advisoryDeclaredSeats :: "qdb \<Rightarrow> string \<Rightarrow> string list option" where
  "advisoryDeclaredSeats db gate = map_option sort (advisory_seats db (dependencies_of db gate) [])"

text \<open>The newest verdict of the jobs of the seat that are at its live attempt.\<close>

definition seatCurrentSealVerdict :: "qdb \<Rightarrow> string \<Rightarrow> string \<times> bool" where
  "seatCurrentSealVerdict db seat =
     (let live = (case sql_max (seat_attempts db seat) of None \<Rightarrow> 0 | Some a \<Rightarrow> a) in
      if live \<le> 0 then ([], False)
      else (case rev (filter (\<lambda>v. \<not> v_superseded v \<and>
                list_ex (\<lambda>j. q_job_id j = v_job_id v \<and> q_workflow_job_id j = seat \<and> q_attempt j = live) (db_jobs db))
              (db_verdicts db)) of
          [] \<Rightarrow> ([], False)
        | v # _ \<Rightarrow> (v_verdict v, True)))"

definition seat_verdict :: "qdb \<Rightarrow> string \<Rightarrow> advisorySeatVerdict" where
  "seat_verdict db seat =
     \<lparr>as_WorkflowJobID = seat, as_Verdict = fst (seatCurrentSealVerdict db seat),
      as_Submitted = snd (seatCurrentSealVerdict db seat)\<rparr>"

definition silent_seat :: "panelSeat \<Rightarrow> bool" where
  "silent_seat s \<longleftrightarrow> \<not> satisfied s \<and> \<not> DissentAtLiveSeal s"

definition resolveAdvisoryTally :: "qdb \<Rightarrow> string \<Rightarrow> advisoryTally option" where
  "resolveAdvisoryTally db gate =
     (case resolveQuorumDeclaration db gate of None \<Rightarrow> None
      | Some decl \<Rightarrow> map_option (\<lambda>seats.
          \<lparr>GatingSeatCount = int (length (fst decl)),
           HasGatingAbstention = (fst decl \<noteq> [] \<and> list_ex silent_seat (resolvePanelSeats db decl)),
           AdvisorySeats = sort_key as_WorkflowJobID (map (seat_verdict db) seats)\<rparr>) (advisoryDeclaredSeats db gate))"

section \<open>Laws\<close>

lemma guard_kind: "evaluateAdvisoryGuards t \<noteq> [] \<Longrightarrow> evaluateAdvisoryGuards t \<in> set advisoryGuardKinds"
  by (simp add: evaluateAdvisoryGuards_def advisoryGuardKinds_def split: if_splits)

lemma set_submittedAdvisory [simp]: "set (submittedAdvisory t) = {s \<in> set (AdvisorySeats t). as_Submitted s}"
  by (auto simp: submittedAdvisory_def)

lemma submittedAdvisory_empty: "submittedAdvisory t = [] \<longleftrightarrow> (\<forall>s \<in> set (AdvisorySeats t). \<not> as_Submitted s)"
  by (metis (mono_tags, lifting) empty_iff empty_set mem_Collect_eq set_empty set_submittedAdvisory subsetI subset_empty)

text \<open>A seat with a verdict has a job row that carries it.\<close>

lemma submitted_has_verdict:
  assumes "seatCurrentSealVerdict db seat = (w, True)"
  shows "\<exists>v \<in> set (db_verdicts db). v_verdict v = w \<and> \<not> v_superseded v \<and>
    (\<exists>j \<in> set (db_jobs db). q_job_id j = v_job_id v \<and> q_workflow_job_id j = seat)"
proof -
  let ?live = "case sql_max (seat_attempts db seat) of None \<Rightarrow> 0 | Some a \<Rightarrow> a"
  let ?p = "\<lambda>v. \<not> v_superseded v \<and>
    list_ex (\<lambda>j. q_job_id j = v_job_id v \<and> q_workflow_job_id j = seat \<and> q_attempt j = ?live) (db_jobs db)"
  obtain v vs where v: "rev (filter ?p (db_verdicts db)) = v # vs" "v_verdict v = w"
    using assms by (auto simp: seatCurrentSealVerdict_def Let_def split: if_splits list.splits)
  then have "v \<in> set (rev (filter ?p (db_verdicts db)))" by simp
  then show ?thesis using v(2) by (auto simp: list_ex_iff)
qed

end
