(* ===== verification/WorkQueue.thy ===== *)
theory WorkQueue
  imports RecoverySweep Advisory
begin

text \<open>
  The work queue of a repository: the tables of jobs, work messages, leases, packets, sessions,
  runs, blockers, dependencies, verdicts and dissents, and the operations every handler of the queue is made of: the lease check,
  the expiry of leases, enqueueing, requeueing on the same attempt and the reset for a new
  attempt (\<open>mutations.go\<close>, \<open>recovery_lease_expiry.go\<close>, \<open>recovery_stale_requeue.go\<close>,
  \<open>revision_routing.go\<close>). An operation that fails leaves no trace, since every handler runs in
  one transaction. The unique indexes of the schema are checks of the stores. Of the recorded events
  the state has the routings of revision cycles, which the code counts; worktrees are not part of it.
\<close>

section \<open>Tables\<close>

datatype job_state =
    JBlocked | JQueued | JClaimed | JRunning | JStaleLease | JWaitingHuman
  | JCompleted | JFailed | JCanceled | JSkipped | JQuarantined | JCompromised

datatype msg_state = MPending | MClaimed | MAcked | MBlocked | MCompleted | MReleased | MExpired | MCanceled | MDead

datatype held_state = LActive | LReleased | LExpired

datatype run_state =
    RNeedsBranch | RReady | RRunning | RNeedsOperator | RCompleted | RFailed | RCanceled | RCompromised

fun job_state_text :: "job_state \<Rightarrow> string" where
  "job_state_text JBlocked = ''blocked''"
| "job_state_text JQueued = ''queued''"
| "job_state_text JClaimed = ''claimed''"
| "job_state_text JRunning = ''running''"
| "job_state_text JStaleLease = ''stale_lease''"
| "job_state_text JWaitingHuman = ''waiting_human''"
| "job_state_text JCompleted = ''completed''"
| "job_state_text JFailed = ''failed''"
| "job_state_text JCanceled = ''canceled''"
| "job_state_text JSkipped = ''skipped''"
| "job_state_text JQuarantined = ''quarantined''"
| "job_state_text JCompromised = ''compromised''"

record wjob =
  j_id :: string
  j_run :: string
  j_workflow_job :: string
  j_type :: string
  j_role :: string
  j_selector :: gomap
  j_scope :: gomap
  j_definition :: gomap
  j_fresh :: bool
  j_attempt :: int
  j_generation :: int \<comment> \<open>\<open>review_generation\<close>\<close>
  j_max :: int
  j_created :: instant
  j_state :: job_state
  j_message :: "string option"
  j_lease :: "string option"

record wmsg =
  m_id :: string
  m_run :: string
  m_job :: string
  m_state :: msg_state
  m_priority :: int
  m_role :: string
  m_lane :: "string option"
  m_claims :: int
  m_max :: int
  m_created :: instant
  m_lease :: "string option"

record wlease =
  l_id :: string
  l_run :: string
  l_job :: string
  l_owner :: string
  l_state :: held_state
  l_acquired :: instant
  l_expires :: instant
  l_heartbeat :: instant
  l_reason :: string

record wsession =
  s_id :: string
  s_run :: string
  s_role :: string
  s_lane :: string
  s_ordinal :: int
  s_state :: string
  s_activity :: gomap

record wpacket =
  p_id :: string
  p_run :: string
  p_job :: string
  p_message :: string
  p_lease :: string
  p_session :: string

record wrun =
  r_id :: string
  r_state :: run_state
  r_paused :: bool

record wblocker =
  b_id :: string
  b_run :: string
  b_job :: "string option"
  b_session :: "string option"
  b_severity :: string
  b_kind :: string
  b_open :: bool

text \<open>A \<open>revision.cycle_routed\<close> event, with the fields of its payload that are read or numbered.\<close>

record wrouted =
  rt_run :: string
  rt_from :: string
  rt_to :: string
  rt_iteration :: int
  rt_in_flight :: int

text \<open>
  The dependencies are triples of a job, the job it depends on and the gate; the dissents (the table
  may be absent) triples of a run, a seat and an attempt. \<open>w_workflows\<close> has the workflow snapshot of
  each run. The probe of the process of a seat and the state of a fan-in assembly are inputs.
\<close>

record wq =
  w_jobs :: "wjob list"
  w_msgs :: "wmsg list"
  w_leases :: "wlease list"
  w_packets :: "wpacket list"
  w_sessions :: "wsession list"
  w_runs :: "wrun list"
  w_blockers :: "wblocker list"
  w_dependencies :: "(string \<times> string \<times> gomap) list"
  w_verdicts :: "qverdict list"
  w_dissents :: "(string \<times> string \<times> int) list option"
  w_workflows :: "(string \<times> gomap) list"
  w_routed :: "wrouted list"
  w_dead :: "string \<Rightarrow> string \<Rightarrow> int \<Rightarrow> bool"
  w_assembled :: "string \<Rightarrow> bool"

datatype wq_error = NoRows | Rpc string string | UniqueViolation string | CheckViolation string
  | ForeignKeyViolation string

text \<open>
  What a call brings with it: the clock, the rendering of times, \<open>newID\<close> (asked by prefix and
  the number of rows already there), the session its token is bound to, whether the quorum
  barrier is on, whether the schema has the columns of review generations, and the checks of code
  that is not modelled here: the backend of the session, the process lineage of a fresh reviewer, the
  completion checks of a job, that its required artifacts are there, can be restored and can be read, the agreement
  of a verdict with the collaboration ledger and of a finding with the job, the publication of a
  finding, the durability of what a job published, the attestation of a lane, the decisions of the
  operator (on the provenance of a review, for a whole run, on a session and a job, and the outcome of
  one), and whether a claim was made under an override.
\<close>

record wenv =
  e_now :: instant
  e_print :: "instant \<Rightarrow> string"
  e_newID :: "string \<Rightarrow> nat \<Rightarrow> string"
  e_bound :: "string option"
  e_barrier :: bool
  e_generations :: bool
  e_backend :: "string \<Rightarrow> bool"
  e_lineage :: "string \<Rightarrow> wjob \<Rightarrow> bool"
  e_completable :: "wjob \<Rightarrow> bool"
  e_artifacts :: "wjob \<Rightarrow> bool"
  e_restorable :: "wjob \<Rightarrow> bool"
  e_inspectable :: "wjob \<Rightarrow> bool"
  e_ledger :: "wjob \<Rightarrow> string \<Rightarrow> bool"
  e_findings :: "wjob \<Rightarrow> bool"
  e_publish :: "wjob \<Rightarrow> string \<Rightarrow> bool"
  e_durable :: "wjob \<Rightarrow> bool"
  e_attested :: "string \<Rightarrow> bool"
  e_decision :: "string \<Rightarrow> string \<Rightarrow> bool" \<comment> \<open>\<open>verifyReviewProvenanceDecision\<close>: run, decision\<close>
  e_escape :: "string \<Rightarrow> bool" \<comment> \<open>\<open>runLevelReviewProvenanceEscapeDecision\<close> found one for the run\<close>
  e_override :: "string \<Rightarrow> string \<Rightarrow> string \<Rightarrow> bool" \<comment> \<open>\<open>requireClaimOverrideDecision\<close>: session, job, decision\<close>
  e_outcome :: "string \<Rightarrow> string \<Rightarrow> string option" \<comment> \<open>of a decision for a run\<close>
  e_overridden :: "string \<Rightarrow> string \<Rightarrow> bool" \<comment> \<open>\<open>work.claim_overridden\<close>: job, session\<close>

section \<open>Rows\<close>

definition upd :: "('a \<Rightarrow> bool) \<Rightarrow> ('a \<Rightarrow> 'a) \<Rightarrow> 'a list \<Rightarrow> 'a list" where
  "upd p f = map (\<lambda>r. if p r then f r else r)"

definition job_of :: "wq \<Rightarrow> string \<Rightarrow> wjob option" where
  "job_of s k = find (\<lambda>j. j_id j = k) (w_jobs s)"

definition msg_of :: "wq \<Rightarrow> string \<Rightarrow> wmsg option" where
  "msg_of s k = find (\<lambda>m. m_id m = k) (w_msgs s)"

definition lease_of :: "wq \<Rightarrow> string \<Rightarrow> wlease option" where
  "lease_of s k = find (\<lambda>l. l_id l = k) (w_leases s)"

definition session_of :: "wq \<Rightarrow> string \<Rightarrow> wsession option" where
  "session_of s k = find (\<lambda>x. s_id x = k) (w_sessions s)"

definition run_of :: "wq \<Rightarrow> string \<Rightarrow> wrun option" where
  "run_of s k = find (\<lambda>r. r_id r = k) (w_runs s)"

text \<open>\<open>rowByID\<close>: the row, or \<open>pgx.ErrNoRows\<close>.\<close>

definition fetch :: "'a option \<Rightarrow> wq_error + 'a" where
  "fetch r = (case r of None \<Rightarrow> Inl NoRows | Some v \<Rightarrow> Inr v)"

definition set_job :: "string \<Rightarrow> (wjob \<Rightarrow> wjob) \<Rightarrow> wq \<Rightarrow> wq" where
  "set_job k f s = s\<lparr>w_jobs := upd (\<lambda>j. j_id j = k) f (w_jobs s)\<rparr>"

definition set_run :: "string \<Rightarrow> (wrun \<Rightarrow> wrun) \<Rightarrow> wq \<Rightarrow> wq" where
  "set_run k f s = s\<lparr>w_runs := upd (\<lambda>r. r_id r = k) f (w_runs s)\<rparr>"

definition set_leases :: "(wlease \<Rightarrow> bool) \<Rightarrow> (wlease \<Rightarrow> wlease) \<Rightarrow> wq \<Rightarrow> wq" where
  "set_leases p f s = s\<lparr>w_leases := upd p f (w_leases s)\<rparr>"

text \<open>
  The stores that the indexes guard: \<open>uq_active_work_message_per_job\<close> allows one pending, claimed
  or acked message of a job, \<open>uq_active_resource_lease\<close> one active lease.
\<close>

definition live_state :: "msg_state \<Rightarrow> bool" where
  "live_state st \<longleftrightarrow> st = MPending \<or> st = MClaimed \<or> st = MAcked"

definition store_msgs :: "wmsg list \<Rightarrow> wq \<Rightarrow> wq_error + wq" where
  "store_msgs ms s =
     (if \<not> distinct (map m_id ms) then Inl (UniqueViolation ''queue_messages_pkey'')
      else if \<not> distinct (map m_job (filter (\<lambda>m. live_state (m_state m)) ms))
      then Inl (UniqueViolation ''uq_active_work_message_per_job'')
      else Inr (s\<lparr>w_msgs := ms\<rparr>))"

definition store_leases :: "wlease list \<Rightarrow> wq \<Rightarrow> wq_error + wq" where
  "store_leases ls s =
     (if \<not> distinct (map l_id ls) then Inl (UniqueViolation ''leases_pkey'')
      else if \<not> distinct (map l_job (filter (\<lambda>l. l_state l = LActive) ls))
      then Inl (UniqueViolation ''uq_active_resource_lease'')
      else Inr (s\<lparr>w_leases := ls\<rparr>))"

definition set_msgs :: "(wmsg \<Rightarrow> bool) \<Rightarrow> (wmsg \<Rightarrow> wmsg) \<Rightarrow> wq \<Rightarrow> wq_error + wq" where
  "set_msgs p f s = store_msgs (upd p f (w_msgs s)) s"

text \<open>\<open>sessionliveness.Record\<close> on the session row, with the columns of \<open>record_columns\<close>.\<close>

definition record_activity :: "wenv \<Rightarrow> string \<Rightarrow> string list \<Rightarrow> wq \<Rightarrow> wq_error + wq" where
  "record_activity e sid cols s =
     (if sid = [] then Inr s
      else (case record_columns cols of
          Inl c \<Rightarrow> Inl (Rpc ''unknown_column'' c)
        | Inr cs \<Rightarrow> (let t = truncate_second (e_now e) in
            Inr (s\<lparr>w_sessions := upd (\<lambda>x. s_id x = sid)
              (\<lambda>x. x\<lparr>s_activity := update_row cs (VTime t (e_print e t)) (s_activity x)\<rparr>) (w_sessions s)\<rparr>))))"

definition now_string :: "wenv \<Rightarrow> instant" where
  "now_string e = truncate_second (e_now e)"

definition expires_after :: "wenv \<Rightarrow> int \<Rightarrow> instant" where
  "expires_after e secs = truncate_second (e_now e + seconds secs)"

definition job_repo_write :: "wjob \<Rightarrow> bool" where
  "job_repo_write j = isRepoWrite (\<lambda>_. None) [(''write_scope_json'', VMap (j_scope j))]"

section \<open>Guards\<close>

text \<open>\<open>enforceSessionBinding\<close>: a session-bound token acts only as its own session.\<close>

definition session_binding :: "wenv \<Rightarrow> string \<Rightarrow> wq_error option" where
  "session_binding e sid =
     (case e_bound e of None \<Rightarrow> None
      | Some b \<Rightarrow> if b \<noteq> sid then Some (Rpc ''capability_denied'' sid) else None)"

text \<open>
  The variant of the completion path: the token of a closed predecessor in the slot of the active
  session is reported as stale.
\<close>

definition stale_successor :: "wq \<Rightarrow> string \<Rightarrow> string \<Rightarrow> bool" where
  "stale_successor s b sid =
     (case (session_of s b, session_of s sid) of
        (Some x, Some y) \<Rightarrow>
          s_run x = s_run y \<and> s_role x = s_role y \<and> s_lane x = s_lane y \<and>
          s_state x \<noteq> ''active'' \<and> s_state y = ''active'' \<and> s_ordinal x < s_ordinal y
      | _ \<Rightarrow> False)"

definition session_binding_for :: "wenv \<Rightarrow> wq \<Rightarrow> string \<Rightarrow> wq_error option" where
  "session_binding_for e s sid =
     (case e_bound e of None \<Rightarrow> None
      | Some b \<Rightarrow> if b = sid then None
          else if stale_successor s b sid then Some (Rpc ''session_token_stale'' sid)
          else session_binding e sid)"

definition active_acting_session :: "wq \<Rightarrow> string \<Rightarrow> wq_error option" where
  "active_acting_session s sid =
     (case session_of s sid of None \<Rightarrow> Some NoRows
      | Some x \<Rightarrow> if s_state x = ''active'' then None else Some (Rpc ''session_inactive'' sid))"

text \<open>\<open>activeLeaseFor\<close>; an empty job id leaves the resource unchecked.\<close>

definition active_lease_for :: "wenv \<Rightarrow> wq \<Rightarrow> string \<Rightarrow> string \<Rightarrow> string \<Rightarrow> wq_error + wlease" where
  "active_lease_for e s lid sid jid =
     bind_ok (fetch (lease_of s lid)) (\<lambda>l.
       if l_state l \<noteq> LActive then Inl (Rpc ''lease_error'' ''lease is not active'')
       else if l_owner l \<noteq> sid then Inl (Rpc ''lease_error'' ''lease is owned by another session'')
       else if jid \<noteq> [] \<and> l_job l \<noteq> jid then Inl (Rpc ''lease_error'' ''lease does not belong to the job'')
       else if l_expires l < e_now e then Inl (Rpc ''lease_error'' ''lease is expired'')
       else Inr l)"

section \<open>Enqueueing\<close>

definition target_lane :: "wjob \<Rightarrow> string option" where
  "target_lane j = (case mget (j_selector j) ''lane_id'' of VStr l \<Rightarrow> (if l = [] then None else Some l) | _ \<Rightarrow> None)"

definition new_message :: "wenv \<Rightarrow> string \<Rightarrow> wjob \<Rightarrow> wmsg" where
  "new_message e mid j =
     \<lparr>m_id = mid, m_run = j_run j, m_job = j_id j, m_state = MPending, m_priority = 0, m_role = j_role j,
      m_lane = target_lane j, m_claims = 0, m_max = j_max j, m_created = now_string e, m_lease = None\<rparr>"

definition message_id :: "wenv \<Rightarrow> wq \<Rightarrow> string" where
  "message_id e s = e_newID e ''msg'' (length (w_msgs s))"

definition enqueueJob :: "wenv \<Rightarrow> string \<Rightarrow> wq \<Rightarrow> wq_error + wq" where
  "enqueueJob e jid s =
     bind_ok (fetch (job_of s jid)) (\<lambda>j.
       if j_state j \<noteq> JBlocked \<and> j_state j \<noteq> JQueued
       then Inl (Rpc ''invalid_transition'' ''job is not enqueueable'')
       else bind_ok (store_msgs (w_msgs s @ [new_message e (message_id e s) j]) s) (\<lambda>s'.
         Inr (set_job jid (\<lambda>j. j\<lparr>j_state := JQueued, j_message := Some (message_id e s)\<rparr>) s')))"

definition insertPendingMessageForJob :: "wenv \<Rightarrow> wjob \<Rightarrow> wq \<Rightarrow> wq_error + wq" where
  "insertPendingMessageForJob e j s =
     bind_ok (store_msgs (w_msgs s @ [new_message e (message_id e s) j]) s) (\<lambda>s'.
       Inr (set_job (j_id j)
         (\<lambda>j. j\<lparr>j_state := JQueued, j_lease := None, j_message := Some (message_id e s)\<rparr>) s'))"

text \<open>
  \<open>enqueueReadyBlockedJobs\<close>: every job of the run that is blocked and whose dependencies are
  satisfied, in the order of creation, and \<open>maybeEnqueueDownstream\<close>: first the dependents.
\<close>

definition qjob_of :: "wjob \<Rightarrow> qjob" where
  "qjob_of j = \<lparr>q_job_id = j_id j, q_workflow_job_id = j_workflow_job j, q_attempt = j_attempt j,
     q_job_type = j_type j, q_state = job_state_text (j_state j), q_definition = j_definition j\<rparr>"

text \<open>\<open>gateHeldByOpenAdvisoryGuard\<close>, and the tables of one run as \<open>Quorum\<close> reads them.\<close>

definition gateHeld :: "wq \<Rightarrow> string \<Rightarrow> bool" where
  "gateHeld s gate \<longleftrightarrow>
     list_ex (\<lambda>b. b_job b = Some gate \<and> b_open b \<and> b_kind b \<in> set advisoryGuardKinds) (w_blockers s)"

definition gate_view :: "wq \<Rightarrow> string \<Rightarrow> qdb" where
  "gate_view s run =
     \<lparr>db_jobs = map qjob_of (filter (\<lambda>j. j_run j = run) (w_jobs s)), db_verdicts = w_verdicts s,
      db_dissents = map_option (\<lambda>ds. map snd (filter (\<lambda>d. fst d = run) ds)) (w_dissents s),
      db_dead = w_dead s run, db_dependencies = w_dependencies s, db_held = gateHeld s, db_assembled = w_assembled s\<rparr>"

definition enqueue_if_ready :: "wenv \<Rightarrow> string \<Rightarrow> wq \<Rightarrow> wq_error + wq" where
  "enqueue_if_ready e jid s =
     bind_ok (fetch (job_of s jid)) (\<lambda>j.
       if j_state j \<noteq> JBlocked then Inr s
       else (case dependenciesSatisfied (e_barrier e) (gate_view s (j_run j)) jid of
           None \<Rightarrow> Inl NoRows
         | Some False \<Rightarrow> Inr s
         | Some True \<Rightarrow> enqueueJob e jid s))"

fun enqueue_each :: "wenv \<Rightarrow> string list \<Rightarrow> wq \<Rightarrow> wq_error + wq" where
  "enqueue_each e [] s = Inr s"
| "enqueue_each e (k # ks) s = bind_ok (enqueue_if_ready e k s) (enqueue_each e ks)"

definition enqueueReadyBlockedJobs :: "wenv \<Rightarrow> string \<Rightarrow> wq \<Rightarrow> wq_error + wq" where
  "enqueueReadyBlockedJobs e run s =
     enqueue_each e (map j_id (sort_key j_created (sort_key j_id
       (filter (\<lambda>j. j_run j = run \<and> j_state j = JBlocked) (w_jobs s))))) s"

definition maybeEnqueueDownstream :: "wenv \<Rightarrow> string \<Rightarrow> wq \<Rightarrow> wq_error + wq" where
  "maybeEnqueueDownstream e jid s =
     bind_ok (fetch (job_of s jid)) (\<lambda>j.
       bind_ok (enqueue_each e (map fst (filter (\<lambda>d. fst (snd d) = jid) (w_dependencies s))) s)
         (enqueueReadyBlockedJobs e (j_run j)))"

section \<open>Leases that run out\<close>

definition expire_lease :: "wenv \<Rightarrow> wlease \<Rightarrow> wq \<Rightarrow> wq_error + wq" where
  "expire_lease e l s =
     (case job_of s (l_job l) of None \<Rightarrow> Inr s
      | Some j \<Rightarrow>
         (let s1 = set_leases (\<lambda>r. l_id r = l_id l) (\<lambda>r. r\<lparr>l_state := LExpired, l_reason := ''expired''\<rparr>) s;
              s2 = set_job (j_id j) (\<lambda>r. r\<lparr>j_state := (if job_repo_write j then JStaleLease else JQueued), j_lease := None\<rparr>) s1
          in (case j_message j of None \<Rightarrow> Inr s2
              | Some mid \<Rightarrow> set_msgs (\<lambda>m. m_id m = mid)
                  (\<lambda>m. m\<lparr>m_state := (if job_repo_write j then MBlocked else MPending), m_lease := None\<rparr>) s2)))"

fun expire_each :: "wenv \<Rightarrow> wlease list \<Rightarrow> wq \<Rightarrow> wq_error + wq" where
  "expire_each e [] s = Inr s"
| "expire_each e (l # ls) s = bind_ok (expire_lease e l s) (expire_each e ls)"

definition expireLeases :: "wenv \<Rightarrow> string \<Rightarrow> wq \<Rightarrow> wq_error + wq" where
  "expireLeases e run s =
     expire_each e (filter (\<lambda>l. l_run l = run \<and> l_state l = LActive \<and> l_expires l < now_string e) (w_leases s)) s"

section \<open>Requeueing\<close>

definition terminal_message :: "msg_state \<Rightarrow> bool" where
  "terminal_message st \<longleftrightarrow> st \<in> {MCompleted, MCanceled, MExpired, MDead}"

text \<open>The message a requeue works on: the current one of the job, else its latest live work message.\<close>

definition requeue_message :: "wq \<Rightarrow> wjob \<Rightarrow> wmsg option" where
  "requeue_message s j =
     (case (case j_message j of None \<Rightarrow> None | Some mid \<Rightarrow> msg_of s mid) of
        Some m \<Rightarrow> Some m
      | None \<Rightarrow>
          (case rev (sort_key m_created (sort_key m_id
             (filter (\<lambda>m. m_job m = j_id j \<and> live_state (m_state m)) (w_msgs s)))) of
             [] \<Rightarrow> None | m # _ \<Rightarrow> Some m))"

text \<open>\<open>requeueJobSameAttempt\<close>, on the row of the job as the caller read it.\<close>

definition requeueJobSameAttempt :: "wenv \<Rightarrow> wjob \<Rightarrow> wq \<Rightarrow> wq_error + bool \<times> wq" where
  "requeueJobSameAttempt e j s =
     (let s1 = set_leases (\<lambda>l. l_job l = j_id j \<and> l_state l = LActive)
                 (\<lambda>l. l\<lparr>l_state := LExpired, l_reason := ''recovery_requeue''\<rparr>) s in
      case requeue_message s1 j of
        Some m \<Rightarrow>
          if terminal_message (m_state m)
          then bind_ok (insertPendingMessageForJob e j s1) (\<lambda>s2. Inr (False, s2))
          else if j_state j = JQueued \<and> m_state m = MPending then Inr (True, s1)
          else bind_ok (set_msgs (\<lambda>r. m_id r = m_id m) (\<lambda>r. r\<lparr>m_state := MPending, m_lease := None\<rparr>)
                 (set_job (j_id j) (\<lambda>r. r\<lparr>j_state := JQueued, j_lease := None\<rparr>) s1)) (\<lambda>s2. Inr (False, s2))
      | None \<Rightarrow> bind_ok (insertPendingMessageForJob e j s1) (\<lambda>s2. Inr (False, s2)))"

section \<open>Reset for a new attempt\<close>

definition resetJobToBlocked :: "string \<Rightarrow> string \<Rightarrow> wq \<Rightarrow> wq_error + wq" where
  "resetJobToBlocked reason jid s =
     (let s1 = set_leases (\<lambda>l. l_job l = jid \<and> l_state l = LActive)
                 (\<lambda>l. l\<lparr>l_state := LReleased, l_reason := (if reason = [] then ''revision_cycle'' else reason)\<rparr>) s in
      bind_ok (set_msgs (\<lambda>m. m_job m = jid \<and> (live_state (m_state m) \<or> m_state m = MBlocked))
                 (\<lambda>m. m\<lparr>m_state := MCanceled, m_lease := None\<rparr>) s1) (\<lambda>s2.
        Inr (set_job jid (\<lambda>j. j\<lparr>j_state := JBlocked, j_lease := None, j_message := None, j_attempt := j_attempt j + 1\<rparr>)
          (s2\<lparr>w_blockers := upd (\<lambda>b. b_job b = Some jid \<and> b_open b) (\<lambda>b. b\<lparr>b_open := False\<rparr>) (w_blockers s2)\<rparr>))))"

end
