(* ===== verification/Digraph.thy ===== *)
theory Digraph
  imports Prelude
begin

text \<open>
  The graph searches of \<open>go/pkg/workflowauthoring/workflow.go\<close>: \<open>hasPath\<close> (a stack of
  nodes to visit and a set of expanded ones) and \<open>traverse\<close> (a stack and a set of discovered
  nodes), with their termination and their meaning as reachability.
\<close>

section \<open>The code\<close>

type_synonym edge = "string \<times> string"

text \<open>The adjacency map the code builds by appending targets in edge order.\<close>

definition succs :: "edge list \<Rightarrow> string \<Rightarrow> string list" where
  "succs es n = map snd (filter (\<lambda>e. fst e = n) es)"

lemma succs_Nil: "current \<notin> fst ` set es \<Longrightarrow> succs es current = []"
  by (auto simp: succs_def filter_empty_conv image_iff)

lemma succs_sub: "set (succs es n) \<subseteq> snd ` set es"
  by (auto simp: succs_def)

text \<open>The stack's top is the head of the list: edges are pushed in order, so the last is on top.\<close>

function hasPath_loop :: "edge list \<Rightarrow> string \<Rightarrow> string list \<Rightarrow> string list \<Rightarrow> bool" where
  "hasPath_loop es target [] seen = False"
| "hasPath_loop es target (current # stack) seen =
     (if current = target then True
      else if current \<in> set seen then hasPath_loop es target stack seen
      else hasPath_loop es target (rev (succs es current) @ stack) (current # seen))"
  by pat_completeness auto

termination
proof (relation "measures [\<lambda>(es, target, stack, seen). card (fst ` set es - set seen),
                           \<lambda>(es, target, stack, seen). length stack]", goal_cases)
  case (3 es target current stack seen)
  show ?case
  proof (cases "current \<in> fst ` set es")
    case True
    with 3 have "card (fst ` set es - set (current # seen)) < card (fst ` set es - set seen)"
      by (intro psubset_card_mono) auto
    then show ?thesis by simp
  next
    case False
    then have "fst ` set es - set (current # seen) = fst ` set es - set seen" by auto
    with False show ?thesis by (simp add: succs_Nil)
  qed
qed auto

definition hasPath :: "edge list \<Rightarrow> string \<Rightarrow> string \<Rightarrow> bool" where
  "hasPath es source target = hasPath_loop es target [source] []"

text \<open>One node of the inner loop of \<open>traverse\<close>: mark and push what is new.\<close>

fun visit :: "string \<Rightarrow> string list \<times> string list \<Rightarrow> string list \<times> string list" where
  "visit nxt (seen, stack) = (if nxt \<in> set seen then (seen, stack) else (nxt # seen, nxt # stack))"

lemma fold_visit_seen: "set (fst (fold visit ns (seen, stack))) = set seen \<union> set ns"
  by (induction ns arbitrary: seen stack) auto

lemma fold_visit_stack:
  "set (snd (fold visit ns (seen, stack))) = set stack \<union> (set ns - set seen)"
  by (induction ns arbitrary: seen stack) auto

lemma fold_visit_none: "set ns \<subseteq> set seen \<Longrightarrow> fold visit ns (seen, stack) = (seen, stack)"
  by (induction ns) auto

function traverse_loop :: "edge list \<Rightarrow> string list \<Rightarrow> string list \<Rightarrow> string list" where
  "traverse_loop es [] seen = seen"
| "traverse_loop es (current # stack) seen =
     traverse_loop es (snd (fold visit (succs es current) (seen, stack)))
       (fst (fold visit (succs es current) (seen, stack)))"
  by pat_completeness auto

termination
proof (relation "measures [\<lambda>(es, stack, seen). card (snd ` set es - set seen),
                           \<lambda>(es, stack, seen). length stack]", goal_cases)
  case (2 es current stack seen)
  let ?r = "fold visit (succs es current) (seen, stack)"
  show ?case
  proof (cases "set (succs es current) \<subseteq> set seen")
    case True
    then show ?thesis by (simp add: fold_visit_none)
  next
    case False
    then obtain n where n: "n \<in> set (succs es current)" "n \<notin> set seen" by auto
    have "card (snd ` set es - set (fst ?r)) < card (snd ` set es - set seen)"
      using n succs_sub [of es current] by (intro psubset_card_mono) (auto simp: fold_visit_seen)
    then show ?thesis by simp
  qed
qed auto

definition traverse :: "edge list \<Rightarrow> string \<Rightarrow> string list" where
  "traverse es start = traverse_loop es [start] []"

text \<open>
  \<open>reachableJobs\<close> on the pairs it reads from the workflow: what lies downstream and upstream.
\<close>

definition reachable_pairs :: "edge list \<Rightarrow> string \<Rightarrow> string list" where
  "reachable_pairs es start = traverse es start @ traverse (map prod.swap es) start"

section \<open>Meaning\<close>

lemma set_succs: "v \<in> set (succs es u) \<longleftrightarrow> (u, v) \<in> set es"
  by (force simp: succs_def)

lemma reach_via_succs:
  "u \<noteq> t \<Longrightarrow> (u, t) \<in> (set es)\<^sup>* \<longleftrightarrow> (\<exists>s \<in> set (succs es u). (s, t) \<in> (set es)\<^sup>*)"
  unfolding set_succs Bex_def by (meson converse_rtranclE converse_rtrancl_into_rtrancl)

lemma escape_seen:
  assumes closed: "\<And>u v. u \<in> S \<Longrightarrow> (u, v) \<in> R \<Longrightarrow> v \<in> S \<union> T"
    and "(u, t) \<in> R\<^sup>*" and "u \<in> S" and "t \<notin> S"
  shows "\<exists>s \<in> T - S. (s, t) \<in> R\<^sup>*"
  using assms(2,3)
proof (induction rule: converse_rtrancl_induct)
  case base
  with \<open>t \<notin> S\<close> show ?case by simp
next
  case (step u v)
  then show ?case using closed [of u v] by (cases "v \<in> S") auto
qed

lemma hasPath_loop_iff:
  assumes "target \<notin> set seen"
    and "\<And>u v. u \<in> set seen \<Longrightarrow> (u, v) \<in> set es \<Longrightarrow> v \<in> set seen \<union> set stack"
  shows "hasPath_loop es target stack seen \<longleftrightarrow> (\<exists>s \<in> set stack. (s, target) \<in> (set es)\<^sup>*)"
  using assms
proof (induction es target stack seen rule: hasPath_loop.induct)
  case (1 es target seen)
  then show ?case by simp
next
  case (2 es target current stack seen)
  consider (found) "current = target" | (again) "current \<noteq> target" "current \<in> set seen"
    | (new) "current \<noteq> target" "current \<notin> set seen" by blast
  then show ?case
  proof cases
    case found
    then show ?thesis by auto
  next
    case again
    have "hasPath_loop es target stack seen \<longleftrightarrow> (\<exists>s \<in> set stack. (s, target) \<in> (set es)\<^sup>*)"
      by (rule "2.IH"(1)) (use again "2.prems" in auto)
    moreover have "(\<exists>s \<in> set stack. (s, target) \<in> (set es)\<^sup>*)"
      if "(current, target) \<in> (set es)\<^sup>*"
      using escape_seen [of "set seen" "set es" "set (current # stack)" current target]
        "2.prems" again that by auto
    ultimately show ?thesis using again by auto
  next
    case new
    let ?stack = "rev (succs es current) @ stack"
    have "hasPath_loop es target ?stack (current # seen) \<longleftrightarrow>
        (\<exists>s \<in> set ?stack. (s, target) \<in> (set es)\<^sup>*)"
      by (rule "2.IH"(2)) (use new "2.prems" in \<open>auto simp: set_succs\<close>)
    moreover have "(\<exists>s \<in> set ?stack. (s, target) \<in> (set es)\<^sup>*) \<longleftrightarrow>
        (\<exists>s \<in> set (current # stack). (s, target) \<in> (set es)\<^sup>*)"
      using reach_via_succs [OF new(1), of es] by auto
    ultimately show ?thesis using new by simp
  qed
qed

lemma hasPath_iff: "hasPath es source target \<longleftrightarrow> (source, target) \<in> (set es)\<^sup>*"
  unfolding hasPath_def by (subst hasPath_loop_iff) auto

lemma traverse_loop_set:
  assumes "\<And>u v. u \<in> set seen - set stack \<Longrightarrow> (u, v) \<in> set es \<Longrightarrow> v \<in> set seen"
  shows "set (traverse_loop es stack seen) = set seen \<union> {v. \<exists>s \<in> set stack. (s, v) \<in> (set es)\<^sup>+}"
  using assms
proof (induction es stack seen rule: traverse_loop.induct)
  case (1 es seen)
  then show ?case by simp
next
  case (2 es current stack seen)
  let ?r = "fold visit (succs es current) (seen, stack)"
  let ?R = "set es"
  have seen': "set (fst ?r) = set seen \<union> set (succs es current)"
    and stack': "set (snd ?r) = set stack \<union> (set (succs es current) - set seen)"
    by (simp_all add: fold_visit_seen fold_visit_stack)
  have IH: "set (traverse_loop es (snd ?r) (fst ?r)) =
      set (fst ?r) \<union> {v. \<exists>s \<in> set (snd ?r). (s, v) \<in> ?R\<^sup>+}"
  proof (rule "2.IH")
    fix u v
    assume "u \<in> set (fst ?r) - set (snd ?r)" and uv: "(u, v) \<in> ?R"
    then have u: "u \<in> set seen" "u \<notin> set stack" by (auto simp: seen' stack')
    show "v \<in> set (fst ?r)"
    proof (cases "u = current")
      case True
      with uv show ?thesis by (simp add: seen' set_succs)
    next
      case False
      with u have "u \<in> set seen - set (current # stack)" by simp
      from "2.prems" [OF this uv] show ?thesis by (simp add: seen')
    qed
  qed
  have closed: "z \<in> set seen \<union> set (succs es current) \<or> (\<exists>s \<in> set (snd ?r). (s, z) \<in> ?R\<^sup>+)"
    if y: "y \<in> set seen \<union> {current} \<union> set (succs es current)" and yz: "(y, z) \<in> ?R" for y z
  proof (cases "y \<in> set (snd ?r)")
    case True
    with yz show ?thesis by blast
  next
    case False
    show ?thesis
    proof (cases "y = current")
      case True
      with yz show ?thesis by (simp add: set_succs)
    next
      case neq: False
      with y False have "y \<in> set seen - set (current # stack)" by (auto simp: stack')
      from "2.prems" [OF this yz] show ?thesis by blast
    qed
  qed
  have escape: "v \<in> set seen \<union> set (succs es current) \<or> (\<exists>s \<in> set (snd ?r). (s, v) \<in> ?R\<^sup>+)"
    if "(current, v) \<in> ?R\<^sup>+" for v
    using that
  proof (induction rule: trancl_induct)
    case (base y)
    then show ?case by (simp add: set_succs)
  next
    case (step y z)
    from step.IH show ?case
    proof
      assume "y \<in> set seen \<union> set (succs es current)"
      with step.hyps(2) show ?thesis by (intro closed [of y]) auto
    next
      assume "\<exists>s \<in> set (snd ?r). (s, y) \<in> ?R\<^sup>+"
      with step.hyps(2) show ?thesis by (meson trancl_into_trancl)
    qed
  qed
  show ?case
    unfolding traverse_loop.simps IH seen'
  proof (intro set_eqI iffI)
    fix v
    assume "v \<in> set seen \<union> set (succs es current) \<union> {v. \<exists>s\<in>set (snd ?r). (s, v) \<in> ?R\<^sup>+}"
    then consider "v \<in> set seen" | "v \<in> set (succs es current)"
      | s where "s \<in> set (snd ?r)" "(s, v) \<in> ?R\<^sup>+" by blast
    then show "v \<in> set seen \<union> {v. \<exists>s\<in>set (current # stack). (s, v) \<in> ?R\<^sup>+}"
    proof cases
      case 3
      then show ?thesis
        by (cases "s \<in> set stack") (auto simp: stack' set_succs intro: trancl_into_trancl2)
    qed (auto simp: set_succs)
  next
    fix v
    assume "v \<in> set seen \<union> {v. \<exists>s\<in>set (current # stack). (s, v) \<in> ?R\<^sup>+}"
    then consider "v \<in> set seen" | "(current, v) \<in> ?R\<^sup>+" | s where "s \<in> set stack" "(s, v) \<in> ?R\<^sup>+"
      by auto
    then show "v \<in> set seen \<union> set (succs es current) \<union> {v. \<exists>s\<in>set (snd ?r). (s, v) \<in> ?R\<^sup>+}"
    proof cases
      case 2
      from escape [OF this] show ?thesis by blast
    next
      case 3
      then have "s \<in> set (snd ?r)" by (simp add: stack')
      with 3(2) show ?thesis by blast
    qed simp
  qed
qed

lemma traverse_iff: "v \<in> set (traverse es start) \<longleftrightarrow> (start, v) \<in> (set es)\<^sup>+"
  unfolding traverse_def by (subst traverse_loop_set) auto

lemma reachable_pairs_iff:
  "v \<in> set (reachable_pairs es start) \<longleftrightarrow> (start, v) \<in> (set es)\<^sup>+ \<or> (v, start) \<in> (set es)\<^sup>+"
proof -
  have "set (map prod.swap es) = (set es)\<inverse>" by force
  then show ?thesis by (auto simp: reachable_pairs_def traverse_iff trancl_converse)
qed

section \<open>The interface other components use\<close>

text \<open>What a client of a path test relies on.\<close>

locale reach_test =
  fixes reach :: "edge list \<Rightarrow> string \<Rightarrow> string \<Rightarrow> bool"
  assumes reach_iff: "reach es s t \<longleftrightarrow> (s, t) \<in> (set es)\<^sup>*"
begin

lemma reach_refl: "reach es s s"
  by (simp add: reach_iff)

lemma reach_trans: "reach es a b \<Longrightarrow> reach es b c \<Longrightarrow> reach es a c"
  by (auto simp: reach_iff)

lemma reach_edge_order: "set es = set fs \<Longrightarrow> reach es s t = reach fs s t"
  by (simp add: reach_iff)

text \<open>A back edge from \<open>s\<close> to \<open>t\<close> whose target reaches its source closes a loop at \<open>t\<close>.\<close>

lemma feedback_loop: "reach es t s \<Longrightarrow> (t, t) \<in> (set ((s, t) # es))\<^sup>+"
proof -
  assume "reach es t s"
  then have "(t, s) \<in> (set ((s, t) # es))\<^sup>*"
    unfolding reach_iff by (rule rtrancl_mono [THEN subsetD, rotated]) auto
  then show ?thesis by (rule rtrancl_into_trancl1) simp
qed

end

interpretation path_test: reach_test hasPath
  by unfold_locales (rule hasPath_iff)

section \<open>Properties\<close>

text \<open>The depth-first search \<open>hasPath\<close> terminates on every graph, cyclic ones included,
  and answers exactly whether the target can be reached from the source along the edges
  (a node reaches itself).\<close>

theorem hasPath_correct:
  "hasPath es source target \<longleftrightarrow> (source, target) \<in> (set es)\<^sup>*"
  by (rule path_test.reach_iff)

text \<open>\<open>reachableJobs\<close> (two runs of \<open>traverse\<close>, along the edges and against them) computes
  exactly the jobs that lie strictly downstream or strictly upstream of the start; the start
  itself is included only when it lies on a cycle.\<close>

theorem reachable_pairs_correct:
  "set (reachable_pairs es start) =
     {v. (start, v) \<in> (set es)\<^sup>+} \<union> {v. (v, start) \<in> (set es)\<^sup>+}"
  by (auto simp: reachable_pairs_iff)

end
