(* ===== verification/WorkHandlers.thy ===== *)
theory WorkHandlers
  imports WorkQueue Digraph
begin

text \<open>
  The handlers of the work queue: claim, ack, heartbeat, release, block and complete a job
  (\<open>claim.go\<close>, \<open>lifecycle.go\<close>), close a session, cancel a run, retry a job (\<open>run.go\<close>), requeue a
  stale one (\<open>recovery_stale_requeue.go\<close>), and the completion of a run (\<open>mutations.go\<close>). A handler
  answers an error, and then the transaction is rolled back, or the new state.
\<close>

definition invalid :: "string \<Rightarrow> wq_error" where
  "invalid m = Rpc ''invalid_transition'' m"

definition schema_invalid :: "string \<Rightarrow> wq_error" where
  "schema_invalid m = Rpc ''schema_invalid'' m"

text \<open>The first checks of a handler: required parameters and the binding of the token.\<close>

definition admit :: "wq_error option \<Rightarrow> wq_error + 'a \<Rightarrow> wq_error + 'a" where
  "admit c r = (case c of Some err \<Rightarrow> Inl err | None \<Rightarrow> r)"

section \<open>Claims\<close>

text \<open>\<open>HandleClaimNext\<close> selects a pending message for the role and lane of the session.\<close>

definition fresh_for :: "wq \<Rightarrow> string \<Rightarrow> wmsg \<Rightarrow> bool" where
  "fresh_for s sid m \<longleftrightarrow>
     \<not> list_ex (\<lambda>p. p_run p = m_run m \<and> p_session p = sid \<and> p_job p \<noteq> m_job m) (w_packets s)"

definition claimable :: "wq \<Rightarrow> wsession \<Rightarrow> wmsg \<Rightarrow> bool" where
  "claimable s x m \<longleftrightarrow>
     m_state m = MPending \<and> m_role m = s_role x \<and> (m_lane m = None \<or> m_lane m = Some (s_lane x)) \<and>
     m_run m = s_run x \<and>
     (case job_of s (m_job m) of None \<Rightarrow> False | Some j \<Rightarrow> \<not> j_fresh j \<or> fresh_for s (s_id x) m)"

definition claim_candidates :: "wq \<Rightarrow> wsession \<Rightarrow> wmsg list" where
  "claim_candidates s x =
     sort_key (\<lambda>m. - m_priority m) (sort_key m_created (filter (claimable s x) (w_msgs s)))"

definition store_packet :: "wpacket \<Rightarrow> wq \<Rightarrow> wq_error + wq" where
  "store_packet p s =
     (if p_id p \<in> set (map p_id (w_packets s)) then Inl (UniqueViolation ''work_packets_pkey'')
      else if (p_message p, p_lease p) \<in> set (map (\<lambda>q. (p_message q, p_lease q)) (w_packets s))
      then Inl (UniqueViolation ''work_packets_message_id_lease_id'')
      else Inr (s\<lparr>w_packets := w_packets s @ [p]\<rparr>))"

definition claimChosenJob ::
  "wenv \<Rightarrow> wsession \<Rightarrow> wjob \<Rightarrow> wmsg \<Rightarrow> int \<Rightarrow> wq \<Rightarrow> wq_error + string option \<times> wq" where
  "claimChosenJob e x j m secs s =
     (let lid = e_newID e ''lease'' (length (w_leases s));
          pid = e_newID e ''wp'' (length (w_packets s)) in
      bind_ok (store_leases (w_leases s @
          [\<lparr>l_id = lid, l_run = s_run x, l_job = j_id j, l_owner = s_id x, l_state = LActive,
            l_acquired = now_string e, l_expires = expires_after e secs, l_heartbeat = now_string e,
            l_reason = []\<rparr>]) s) (\<lambda>s1.
      bind_ok (set_msgs (\<lambda>r. m_id r = m_id m)
          (\<lambda>r. r\<lparr>m_state := MClaimed, m_lease := Some lid, m_claims := m_claims r + 1\<rparr>) s1) (\<lambda>s2.
      bind_ok (store_packet \<lparr>p_id = pid, p_run = s_run x, p_job = j_id j, p_message = m_id m,
            p_lease = lid, p_session = s_id x\<rparr>
          (set_job (j_id j) (\<lambda>r. r\<lparr>j_state := JClaimed, j_lease := Some lid\<rparr>) s2)) (\<lambda>s3.
      bind_ok (record_activity e (s_id x) [''last_packet_delivered_at''] s3) (\<lambda>s4.
        Inr (Some pid, s4))))))"

text \<open>The answer is the packet, or none where there is no work; the expiry of leases is kept either way.\<close>

definition HandleClaimNext :: "wenv \<Rightarrow> string \<Rightarrow> int \<Rightarrow> wq \<Rightarrow> wq_error + string option \<times> wq" where
  "HandleClaimNext e sid secs s0 =
     guard_ok (sid \<noteq> []) (schema_invalid ''session_id'')
     (admit (session_binding e sid)
     (bind_ok (fetch (session_of s0 sid)) (\<lambda>x.
      guard_ok (s_state x = ''active'') (invalid ''session'')
      (bind_ok (fetch (run_of s0 (s_run x))) (\<lambda>r.
       bind_ok (expireLeases e (s_run x) s0) (\<lambda>s.
        if r_state r = RNeedsBranch \<or> r_state r = RReady then Inl (Rpc ''branch_confirmation_required'' (r_id r))
        else if r_state r \<noteq> RRunning \<or> r_paused r then Inr (None, s)
        else guard_ok (e_backend e sid) (invalid ''backend'')
          (case claim_candidates s x of
             [] \<Rightarrow> Inr (None, s)
           | m # _ \<Rightarrow> bind_ok (fetch (job_of s (m_job m))) (\<lambda>j.
               if \<not> e_lineage e sid j then Inr (None, s)
               else claimChosenJob e x j m (if secs \<le> 0 then 3600 else secs) s))))))))"

section \<open>Working on a claim\<close>

definition HandleAckWork :: "wenv \<Rightarrow> string \<Rightarrow> string \<Rightarrow> string \<Rightarrow> wq \<Rightarrow> wq_error + wq" where
  "HandleAckWork e sid mid lid s =
     guard_ok (sid \<noteq> [] \<and> mid \<noteq> [] \<and> lid \<noteq> []) (schema_invalid ''work.ack'')
     (admit (session_binding e sid)
     (bind_ok (fetch (msg_of s mid)) (\<lambda>m.
      bind_ok (fetch (job_of s (m_job m))) (\<lambda>j.
      bind_ok (active_lease_for e s lid sid (j_id j)) (\<lambda>_.
       if m_state m = MAcked then Inr s
       else guard_ok (m_state m = MClaimed \<and> j_state j = JClaimed) (invalid ''work must be claimed before ack'')
        (bind_ok (set_msgs (\<lambda>r. m_id r = mid) (\<lambda>r. r\<lparr>m_state := MAcked\<rparr>) s) (\<lambda>s1.
          record_activity e sid [''last_ack_at''] (set_job (j_id j) (\<lambda>r. r\<lparr>j_state := JRunning\<rparr>) s1))))))))"

definition HandleHeartbeat :: "wenv \<Rightarrow> string \<Rightarrow> string \<Rightarrow> int \<Rightarrow> bool \<Rightarrow> wq \<Rightarrow> wq_error + wq" where
  "HandleHeartbeat e sid lid secs localWork s =
     guard_ok (sid \<noteq> [] \<and> lid \<noteq> []) (schema_invalid ''work.heartbeat'')
     (admit (session_binding e sid)
     (bind_ok (active_lease_for e s lid sid []) (\<lambda>_.
       record_activity e sid (''last_work_heartbeat_at'' # (if localWork then [''last_tool_call_finished_at''] else []))
        (set_leases (\<lambda>l. l_id l = lid)
          (\<lambda>l. l\<lparr>l_heartbeat := now_string e, l_expires := expires_after e secs\<rparr>) s))))"

text \<open>
  \<open>HandleReleaseWork\<close>: without a message id the message of the lease is meant. A requeue or a
  transfer gives the job back to the queue, a plain release blocks it.
\<close>

definition release_message :: "wq \<Rightarrow> string \<Rightarrow> string \<Rightarrow> wmsg option" where
  "release_message s mid lid = (if mid \<noteq> [] then msg_of s mid else find (\<lambda>m. m_lease m = Some lid) (w_msgs s))"

definition HandleReleaseWork ::
  "wenv \<Rightarrow> string \<Rightarrow> string \<Rightarrow> string \<Rightarrow> string \<Rightarrow> bool \<Rightarrow> bool \<Rightarrow> wq \<Rightarrow> wq_error + wq" where
  "HandleReleaseWork e sid mid lid reason requeue transfer s =
     guard_ok (sid \<noteq> [] \<and> lid \<noteq> []) (schema_invalid ''work.release'')
     (admit (session_binding e sid)
     (bind_ok (fetch (release_message s mid lid)) (\<lambda>m.
      bind_ok (fetch (job_of s (m_job m))) (\<lambda>j.
      bind_ok (active_lease_for e s lid sid (j_id j)) (\<lambda>_.
       guard_ok (\<not> (requeue \<and> job_repo_write j \<and> \<not> transfer)) (invalid ''release --requeue'')
        (let back = requeue \<and> \<not> job_repo_write j \<or> transfer in
         bind_ok (set_msgs (\<lambda>r. m_id r = m_id m)
             (\<lambda>r. r\<lparr>m_state := (if back then MPending else MBlocked), m_lease := None\<rparr>)
           (set_job (j_id j) (\<lambda>r. r\<lparr>j_state := (if back then JQueued else JBlocked), j_lease := None\<rparr>)
             (set_leases (\<lambda>l. l_id l = lid)
               (\<lambda>l. l\<lparr>l_state := LReleased, l_reason := (if reason = [] then ''released'' else reason)\<rparr>) s)))
          (record_activity e sid [''last_work_release_at''])))))))"

text \<open>\<open>normalizeBlockWork\<close> and the kinds of blockers.\<close>

definition valid_blocker_kind :: "string \<Rightarrow> bool" where
  "valid_blocker_kind k \<longleftrightarrow>
     k \<noteq> [] \<and> length k \<le> 64 \<and>
     list_all (\<lambda>c. CHR ''a'' \<le> c \<and> c \<le> CHR ''z'' \<or> CHR ''0'' \<le> c \<and> c \<le> CHR ''9'' \<or>
       c \<in> {CHR ''.'', CHR ''_'', CHR ''-''}) k"

record block_request =
  br_session :: string
  br_job :: string
  br_lease :: string
  br_kind :: string
  br_severity :: string
  br_description :: string

definition normalizeBlockWork :: "block_request \<Rightarrow> wq_error + block_request" where
  "normalizeBlockWork q =
     (let q = \<lparr>br_session = trim_space (br_session q), br_job = trim_space (br_job q),
               br_lease = trim_space (br_lease q), br_kind = trim_space (br_kind q),
               br_severity = trim_space (br_severity q), br_description = trim_space (br_description q)\<rparr> in
      if list_ex (\<lambda>v. v = []) [br_session q, br_job q, br_lease q, br_kind q, br_severity q, br_description q]
      then Inl (schema_invalid ''work.block field'')
      else if br_severity q \<noteq> ''blocked'' \<and> br_severity q \<noteq> ''human_checkpoint''
      then Inl (schema_invalid ''work.block severity'')
      else if \<not> valid_blocker_kind (br_kind q) then Inl (schema_invalid ''work.block kind'')
      else if length (br_description q) > 8000 then Inl (schema_invalid ''work.block description'')
      else Inr q)"

definition HandleBlockWork :: "wenv \<Rightarrow> block_request \<Rightarrow> wq \<Rightarrow> wq_error + wq" where
  "HandleBlockWork e q0 s =
     bind_ok (normalizeBlockWork q0) (\<lambda>q.
     admit (session_binding e (br_session q))
     (bind_ok (fetch (job_of s (br_job q))) (\<lambda>j.
      bind_ok (active_lease_for e s (br_lease q) (br_session q) (br_job q)) (\<lambda>_.
       let human = (br_severity q = ''human_checkpoint'');
           s1 = s\<lparr>w_blockers := w_blockers s @ [\<lparr>b_id = e_newID e ''blk'' (length (w_blockers s)),
                  b_run = j_run j, b_job = Some (br_job q), b_session = Some (br_session q), b_severity = br_severity q,
                  b_kind = br_kind q, b_open = True\<rparr>]\<rparr>;
           s2 = set_job (br_job q) (\<lambda>r. r\<lparr>j_state := (if human then JWaitingHuman else JBlocked), j_lease := None\<rparr>) s1;
           s3 = set_leases (\<lambda>l. l_id l = br_lease q) (\<lambda>l. l\<lparr>l_state := LReleased, l_reason := ''blocked''\<rparr>) s2 in
       bind_ok (case j_message j of None \<Rightarrow> Inr s3
           | Some mid \<Rightarrow> set_msgs (\<lambda>m. m_id m = mid) (\<lambda>m. m\<lparr>m_state := MBlocked, m_lease := None\<rparr>) s3)
         (record_activity e (br_session q) [''last_work_block_at''])))))"

section \<open>The end of a run\<close>

definition close_remaining_sessions :: "string \<Rightarrow> wq \<Rightarrow> wq" where
  "close_remaining_sessions run s =
     s\<lparr>w_sessions := upd
       (\<lambda>x. s_run x = run \<and> s_state x = ''active'' \<and>
         \<not> list_ex (\<lambda>l. l_owner l = s_id x \<and> l_state l = LActive) (w_leases s))
       (\<lambda>x. x\<lparr>s_state := ''closed''\<rparr>) (w_sessions s)\<rparr>"

definition run_jobs :: "wq \<Rightarrow> string \<Rightarrow> wjob list" where
  "run_jobs s run = filter (\<lambda>j. j_run j = run) (w_jobs s)"

definition set_aside :: "job_state \<Rightarrow> bool" where
  "set_aside st \<longleftrightarrow> st \<in> {JCompleted, JSkipped, JCanceled, JQuarantined}"

text \<open>\<open>escalateProvenanceGateFailure\<close>: one open blocker of the run, and the run waits for its operator.\<close>

definition escalate_provenance :: "wenv \<Rightarrow> string \<Rightarrow> wq \<Rightarrow> wq" where
  "escalate_provenance e run s =
     (let s1 = (if list_ex (\<lambda>b. b_run b = run \<and> b_kind b = ''provenance_gate_failed'' \<and> b_open b) (w_blockers s) then s
          else s\<lparr>w_blockers := w_blockers s @ [\<lparr>b_id = e_newID e ''blk'' (length (w_blockers s)), b_run = run,
                 b_job = None, b_session = None, b_severity = ''blocked'', b_kind = ''provenance_gate_failed'', b_open = True\<rparr>]\<rparr>)
      in set_run run (\<lambda>r. r\<lparr>r_state := (if r_state r = RRunning then RNeedsOperator else r_state r)\<rparr>) s1)"

text \<open>
  \<open>verifyRunCompletionProvenance\<close>: the completed reviews of a run that fail its completion. The latest
  verdict of a review that needs an independent reviewer must be attested or overridden, if it
  accepts.
\<close>

definition isAcceptingVerdict :: "string \<Rightarrow> bool" where
  "isAcceptingVerdict v \<longleftrightarrow> v = ''accept'' \<or> v = ''accept_with_findings''"

definition verdict_capable :: "wjob \<Rightarrow> bool" where
  "verdict_capable j \<longleftrightarrow> j_type j = ''review'' \<or> j_type j = ''phase_synthesis''"

definition requiresAttestedLane :: "wjob \<Rightarrow> bool" where
  "requiresAttestedLane j \<longleftrightarrow> mget (j_definition j) ''require_attested_lane'' = VBool True"

definition reviewRequiresIndependentProvenance :: "wjob \<Rightarrow> bool" where
  "reviewRequiresIndependentProvenance j \<longleftrightarrow>
     j_type j = ''review'' \<and>
     (let t = go_sprint (mget (j_definition j) ''type'') in t = [] \<or> t = ''review'') \<and>
     (j_fresh j \<or> mget (j_definition j) ''fresh_session_required'' = VBool True \<or>
      mget (j_definition j) ''reviewer_context_policy'' = VStr ''fresh'')"

definition latest_verdict :: "wq \<Rightarrow> string \<Rightarrow> qverdict option" where
  "latest_verdict s jid =
     (case rev (filter (\<lambda>v. v_job_id v = jid \<and> \<not> v_superseded v) (w_verdicts s)) of [] \<Rightarrow> None | v # _ \<Rightarrow> Some v)"

definition gate_fails :: "wenv \<Rightarrow> wq \<Rightarrow> wjob \<Rightarrow> bool" where
  "gate_fails e s j \<longleftrightarrow>
     (let required = requiresAttestedLane j \<or> reviewRequiresIndependentProvenance j in
      if required \<and> \<not> (e_artifacts e j \<and> e_restorable e j) then True
      else (case latest_verdict s (j_id j) of
          None \<Rightarrow> required
        | Some v \<Rightarrow> isAcceptingVerdict (v_verdict v) \<and> \<not> v_override v \<and> \<not> v_attested v \<and> required \<and>
            \<not> e_escape e (j_run j)))"

definition verifyRunCompletionProvenance :: "wenv \<Rightarrow> string \<Rightarrow> wq \<Rightarrow> wjob list" where
  "verifyRunCompletionProvenance e run s =
     filter (gate_fails e s) (filter (\<lambda>j. j_state j = JCompleted \<and> verdict_capable j) (run_jobs s run))"

definition maybeCompleteRun :: "wenv \<Rightarrow> string \<Rightarrow> wq \<Rightarrow> wq_error + wq" where
  "maybeCompleteRun e run s =
     bind_ok (fetch (run_of s run)) (\<lambda>r.
       let states = map j_state (run_jobs s run) in
       if JFailed \<in> set states \<and> r_state r = RRunning
       then Inr (close_remaining_sessions run (set_run run (\<lambda>r. r\<lparr>r_state := RFailed\<rparr>) s))
       else if list_ex (\<lambda>st. \<not> set_aside st) states \<or> r_state r \<noteq> RRunning then Inr s
       else if JCompleted \<in> set states then
         (if verifyRunCompletionProvenance e run s \<noteq> [] then Inr (escalate_provenance e run s)
          else Inr (close_remaining_sessions run (set_run run (\<lambda>r. r\<lparr>r_state := RCompleted\<rparr>) s)))
       else Inr (close_remaining_sessions run (set_run run (\<lambda>r. r\<lparr>r_state := RCanceled\<rparr>) s)))"

section \<open>Completion\<close>

text \<open>
  The blockers of a job that a completion or a requeue resolves: none that needs a human, but on
  completion also those of an exhausted recovery.
\<close>

definition escalation_class :: "wblocker \<Rightarrow> bool" where
  "escalation_class b \<longleftrightarrow>
     isEscalationClassBlocker [(''severity'', VStr (b_severity b)), (''blocker_kind'', VStr (b_kind b))]"

definition autonomous :: "bool \<Rightarrow> string \<Rightarrow> wblocker \<Rightarrow> bool" where
  "autonomous exhaustedMoot jid b \<longleftrightarrow>
     b_job b = Some jid \<and> b_open b \<and>
     (\<not> escalation_class b \<or> exhaustedMoot \<and> b_kind b = ''recovery_exhausted'')"

definition resolve_blockers :: "bool \<Rightarrow> string \<Rightarrow> wq \<Rightarrow> wq" where
  "resolve_blockers exhaustedMoot jid s =
     s\<lparr>w_blockers := upd (autonomous exhaustedMoot jid) (\<lambda>b. b\<lparr>b_open := False\<rparr>) (w_blockers s)\<rparr>"

definition resolveAutonomousBlockersOnCompletion :: "string \<Rightarrow> string \<Rightarrow> wq \<Rightarrow> wq_error + wq" where
  "resolveAutonomousBlockersOnCompletion run jid s =
     (let s1 = resolve_blockers True jid s in
      if \<not> list_ex (\<lambda>b. autonomous True jid b \<and> escalation_class b) (w_blockers s) then Inr s1
      else if list_ex (\<lambda>b. b_run b = run \<and> b_open b \<and> escalation_class b) (w_blockers s1) then Inr s1
      else bind_ok (fetch (run_of s1 run)) (\<lambda>r.
        Inr (if r_state r = RNeedsOperator then set_run run (\<lambda>r. r\<lparr>r_state := RRunning\<rparr>) s1 else s1)))"

text \<open>The rows that end the work on a job under a lease: the job, its message and the lease.\<close>

definition settle_rows :: "job_state \<Rightarrow> msg_state \<Rightarrow> string \<Rightarrow> wjob \<Rightarrow> string \<Rightarrow> wq \<Rightarrow> wq_error + wq" where
  "settle_rows jst mst why j lid s =
     (let s1 = set_job (j_id j) (\<lambda>r. r\<lparr>j_state := jst, j_lease := None\<rparr>) s in
      bind_ok (case j_message j of None \<Rightarrow> Inr s1
          | Some mid \<Rightarrow> set_msgs (\<lambda>m. m_id m = mid) (\<lambda>m. m\<lparr>m_state := mst, m_lease := None\<rparr>) s1) (\<lambda>s2.
        Inr (set_leases (\<lambda>l. l_id l = lid) (\<lambda>l. l\<lparr>l_state := LReleased, l_reason := why\<rparr>) s2)))"

definition complete_rows :: "wenv \<Rightarrow> string \<Rightarrow> wjob \<Rightarrow> string \<Rightarrow> wq \<Rightarrow> wq_error + wq" where
  "complete_rows e sid j lid s =
     bind_ok (settle_rows JCompleted MCompleted ''completed'' j lid s)
       (record_activity e sid [''last_work_complete_at''])"

definition HandleCompleteWork :: "wenv \<Rightarrow> string \<Rightarrow> string \<Rightarrow> string \<Rightarrow> wq \<Rightarrow> wq_error + wq" where
  "HandleCompleteWork e sid jid lid s =
     guard_ok (sid \<noteq> [] \<and> jid \<noteq> [] \<and> lid \<noteq> []) (schema_invalid ''work.complete'')
     (admit (session_binding_for e s sid)
     (let byVerdict = (case job_of s jid of None \<Rightarrow> False | Some j \<Rightarrow> verdict_capable j \<and> j_state j = JCompleted) in
      admit (if byVerdict then None else active_acting_session s sid)
     (bind_ok (fetch (job_of s jid)) (\<lambda>j.
       if verdict_capable j \<and> j_state j = JCompleted then Inr s
       else bind_ok (active_lease_for e s lid sid jid) (\<lambda>_.
         guard_ok (e_backend e sid) (invalid ''backend'')
         (guard_ok (\<not> verdict_capable j) (invalid ''must use submit-review'')
         (guard_ok (j_state j = JRunning) (invalid ''job must be running before completion'')
         (guard_ok (e_completable e j) (invalid ''completion checks'')
          (bind_ok (complete_rows e sid j lid s) (\<lambda>s1.
           bind_ok (resolveAutonomousBlockersOnCompletion (j_run j) jid s1) (\<lambda>s2.
           bind_ok (maybeEnqueueDownstream e jid s2) (maybeCompleteRun e (j_run j)))))))))))))"

section \<open>Sessions, runs and recovery\<close>

text \<open>
  \<open>HandleCloseSession\<close>: refused while the session holds a lease. With \<open>requeue_job\<close> the job of its
  latest lease that is still in flight goes back to the queue.
\<close>

definition inflight_job :: "wq \<Rightarrow> string \<Rightarrow> wjob option" where
  "inflight_job s sid =
     (case rev (sort_key l_acquired (filter (\<lambda>l. l_owner l = sid \<and>
         (case job_of s (l_job l) of None \<Rightarrow> False | Some j \<Rightarrow> j_state j \<in> {JClaimed, JRunning, JStaleLease})) (w_leases s))) of
        [] \<Rightarrow> None | l # _ \<Rightarrow> job_of s (l_job l))"

definition HandleCloseSession :: "wenv \<Rightarrow> string \<Rightarrow> string \<Rightarrow> bool \<Rightarrow> wq \<Rightarrow> wq_error + wq" where
  "HandleCloseSession e sid reason requeue s =
     guard_ok (sid \<noteq> []) (schema_invalid ''session.close'')
     (guard_ok (trim_space reason \<noteq> []) (invalid ''session close reason must not be empty'')
     (bind_ok (fetch (session_of s sid)) (\<lambda>x.
       if s_state x \<in> {''closed'', ''expired'', ''stopped'', ''lost''} then Inr s
       else if list_ex (\<lambda>l. l_owner l = sid \<and> l_state l = LActive) (w_leases s) then Inl (Rpc ''lease_error'' sid)
       else (let s1 = s\<lparr>w_sessions := upd (\<lambda>y. s_id y = sid) (\<lambda>y. y\<lparr>s_state := ''closed''\<rparr>) (w_sessions s)\<rparr> in
         if \<not> requeue then Inr s1
         else (case inflight_job s1 sid of None \<Rightarrow> Inr s1
             | Some j \<Rightarrow> bind_ok (requeueJobSameAttempt e j s1) (\<lambda>r. Inr (snd r)))))))"

definition terminal_run :: "run_state \<Rightarrow> bool" where
  "terminal_run st \<longleftrightarrow> st \<in> {RCompleted, RFailed, RCanceled, RCompromised}"

definition release_run_leases :: "string \<Rightarrow> wq \<Rightarrow> wq" where
  "release_run_leases run = set_leases (\<lambda>l. l_run l = run \<and> l_state l = LActive)
     (\<lambda>l. l\<lparr>l_state := LReleased, l_reason := ''run_canceled''\<rparr>)"

definition cancelRunInTx :: "string \<Rightarrow> wq \<Rightarrow> wq_error + wq" where
  "cancelRunInTx run s =
     bind_ok (fetch (run_of s run)) (\<lambda>r.
       if r_state r = RCanceled then Inr (close_remaining_sessions run (release_run_leases run s))
       else if terminal_run (r_state r) then Inl (invalid ''run is in a terminal state'')
       else Inr (close_remaining_sessions run (set_run run (\<lambda>r. r\<lparr>r_state := RCanceled\<rparr>) (release_run_leases run
         (s\<lparr>w_jobs := upd (\<lambda>j. j_run j = run \<and>
              j_state j \<in> {JBlocked, JQueued, JClaimed, JRunning, JStaleLease, JWaitingHuman})
            (\<lambda>j. j\<lparr>j_state := JCanceled\<rparr>) (w_jobs s)\<rparr>)))))"

text \<open>\<open>resetDownstreamForRevision\<close>: the finished jobs downstream, in the order of creation.\<close>

definition downstream_jobs :: "wq \<Rightarrow> string \<Rightarrow> string list" where
  "downstream_jobs s jid =
     (let down = traverse (map (\<lambda>d. (fst (snd d), fst d)) (w_dependencies s)) jid in
      map j_id (sort_key j_created (sort_key j_id (filter (\<lambda>j. j_id j \<in> set down \<and>
        j_state j \<in> {JCompleted, JFailed, JCanceled, JSkipped, JWaitingHuman}) (w_jobs s)))))"

fun reset_each :: "string list \<Rightarrow> wq \<Rightarrow> wq_error + wq" where
  "reset_each [] s = Inr s"
| "reset_each (k # ks) s = bind_ok (resetJobToBlocked ''revision_cycle'' k s) (reset_each ks)"

definition bumpReviewGeneration :: "wenv \<Rightarrow> string \<Rightarrow> wq \<Rightarrow> wq" where
  "bumpReviewGeneration e jid s =
     (if e_generations e then set_job jid (\<lambda>j. j\<lparr>j_generation := j_generation j + 1\<rparr>) s else s)"

definition reopenJobForAttempt :: "wenv \<Rightarrow> string \<Rightarrow> string \<Rightarrow> wq \<Rightarrow> wq_error + wq" where
  "reopenJobForAttempt e jid reason s =
     bind_ok (reset_each (downstream_jobs s jid) s) (\<lambda>s1.
     bind_ok (resetJobToBlocked (if reason = [] then ''reopened'' else reason) jid s1) (\<lambda>s2.
       enqueueJob e jid (bumpReviewGeneration e jid s2)))"

text \<open>\<open>workflowCyclesForJob\<close> and \<open>isDeclaredCycleTarget\<close> read the cycles of the workflow of the run.\<close>

fun asList :: "goval \<Rightarrow> goval list" where
  "asList (VList vs) = vs"
| "asList (VMaps ms) = map VMap ms"
| "asList _ = []"

definition workflow_cycles :: "wq \<Rightarrow> string \<Rightarrow> wq_error + gomap list" where
  "workflow_cycles s run =
     bind_ok (fetch (run_of s run)) (\<lambda>_.
     bind_ok (fetch (map_of (w_workflows s) run)) (\<lambda>w. Inr (map map_or_empty (asList (mget w ''cycles'')))))"

definition isDeclaredCycleTarget :: "wq \<Rightarrow> wjob \<Rightarrow> wq_error + bool" where
  "isDeclaredCycleTarget s j =
     bind_ok (workflow_cycles s (j_run j)) (\<lambda>defs. Inr (list_ex (\<lambda>d.
       go_sprint (mget d ''to'') = j_workflow_job j \<and>
       (mget d ''on_verdict'' = VNil \<or> go_sprint (mget d ''on_verdict'') \<in> {[], ''needs_revision''})) defs))"

definition HandleRunRetryJob :: "wenv \<Rightarrow> string \<Rightarrow> string \<Rightarrow> bool \<Rightarrow> wq \<Rightarrow> wq_error + wq" where
  "HandleRunRetryJob e run jid allowExceed s =
     guard_ok (run \<noteq> [] \<and> jid \<noteq> []) (schema_invalid ''run.retry_job'')
     (bind_ok (fetch (run_of s run)) (\<lambda>r.
      guard_ok (r_state r \<noteq> RCompleted \<and> r_state r \<noteq> RCompromised) (invalid ''retry would revive a finished run'')
      (bind_ok (fetch (job_of s jid)) (\<lambda>j.
       guard_ok (j_run j = run) (invalid ''job does not belong to the requested run'')
       (let plain = (j_state j \<in> {JFailed, JCanceled, JBlocked}) in
        bind_ok (if \<not> plain \<and> j_state j = JCompleted then isDeclaredCycleTarget s j else Inr False) (\<lambda>target.
        guard_ok (plain \<or> target) (invalid ''job state is not retriable'')
        (guard_ok (target \<or> \<not> (j_max j > 0 \<and> j_attempt j \<ge> j_max j) \<or> allowExceed) (invalid ''attempt budget'')
         (bind_ok (reopenJobForAttempt e jid ''retry_job'' s) (\<lambda>s1.
           Inr (if r_state r = RFailed \<or> r_state r = RCanceled
                then set_run run (\<lambda>r. r\<lparr>r_state := RRunning\<rparr>) s1 else s1))))))))))"

text \<open>
  \<open>HandleRecoveryRequeueStale\<close>: an operator, or a job that is not writing the repository, gets
  back what an expired or a dead lease left behind.
\<close>

definition stale_row :: "wq \<Rightarrow> string \<Rightarrow> string \<Rightarrow> wq_error + wjob" where
  "stale_row s run jid =
     (let own = find (\<lambda>j. j_id j = jid \<and> j_run j = run) (w_jobs s);
          waits = (\<lambda>j. j_state j \<in> {JQueued, JBlocked, JStaleLease} \<and>
             list_ex (\<lambda>l. l_job l = jid \<and> l_state l = LExpired) (w_leases s));
          limbo = (\<lambda>j. j_state j \<in> {JClaimed, JRunning, JStaleLease, JQueued}) in
      if own \<noteq> None \<and> waits (the own) then Inr (the own)
      else if list_ex (\<lambda>l. l_job l = jid \<and> l_state l = LActive) (w_leases s)
      then Inl (invalid ''job is held by a live claimant'')
      else if own \<noteq> None \<and> limbo (the own) then Inr (the own)
      else Inl (invalid ''job has no stale expired lease to requeue''))"

definition operator_transfer :: "string \<Rightarrow> wq \<Rightarrow> wq" where
  "operator_transfer jid s =
     set_job jid (\<lambda>j. if j_state j \<in> {JClaimed, JRunning} then j\<lparr>j_state := JStaleLease\<rparr> else j)
       (set_leases (\<lambda>l. l_job l = jid \<and> l_state l = LActive)
         (\<lambda>l. l\<lparr>l_state := LExpired, l_reason := ''operator_transfer''\<rparr>) s)"

definition HandleRecoveryRequeueStale ::
  "wenv \<Rightarrow> string \<Rightarrow> string \<Rightarrow> bool \<Rightarrow> string \<Rightarrow> wq \<Rightarrow> wq_error + wq" where
  "HandleRecoveryRequeueStale e run jid force justification s0 =
     guard_ok (run \<noteq> [] \<and> jid \<noteq> []) (schema_invalid ''recovery.requeue_stale'')
     (guard_ok (\<not> (force \<and> trim_space justification = [])) (invalid ''--force requeue requires --justification'')
     (bind_ok (fetch (run_of s0 run)) (\<lambda>_.
      bind_ok (expireLeases e run s0) (\<lambda>s1.
       let s = (if force then operator_transfer jid s1 else s1) in
       bind_ok (stale_row s run jid) (\<lambda>j.
        guard_ok (\<not> (job_repo_write j \<and> \<not> force)) (invalid ''manual inspection'')
        (bind_ok (requeueJobSameAttempt e j s) (\<lambda>r. Inr (snd r))))))))"

end
