(* ===== verification/WorkInvariants.thy ===== *)
theory WorkInvariants
  imports WorkHandlers
begin

text \<open>
  The invariant of the queue, job by job: what the tables hold about one job (its row, its active
  leases, its live messages) is its slice, an operation changes the slice of the jobs it names,
  and a slice stays well-formed.
\<close>

named_theorems slice_simps "how the tables of a slice follow an update"

section \<open>Slices\<close>

definition active_of :: "wq \<Rightarrow> string \<Rightarrow> wlease list" where
  "active_of s k = filter (\<lambda>l. l_state l = LActive \<and> l_job l = k) (w_leases s)"

definition live_of :: "wq \<Rightarrow> string \<Rightarrow> wmsg list" where
  "live_of s k = filter (\<lambda>m. live_state (m_state m) \<and> m_job m = k) (w_msgs s)"

text \<open>
  At most one active lease and one live message. The live message is the current one of the job,
  and pending only while the job is queued (or was canceled while queued). A lease is active only
  while the job is claimed or running under it, with its message claimed or acked. A queued job
  has its message pending.
\<close>

definition message_ok :: "wjob \<Rightarrow> wmsg \<Rightarrow> bool" where
  "message_ok j m \<longleftrightarrow>
     j_message j = Some (m_id m) \<and> m_run m = j_run j \<and>
     (m_state m = MPending \<longrightarrow> j_state j = JQueued \<or> j_state j = JCanceled)"

definition lease_ok :: "wjob \<Rightarrow> wmsg list \<Rightarrow> wlease \<Rightarrow> bool" where
  "lease_ok j ms l \<longleftrightarrow>
     l_run l = j_run j \<and> j_lease j = Some (l_id l) \<and> (j_state j = JClaimed \<or> j_state j = JRunning) \<and>
     list_ex (\<lambda>m. m_state m = MClaimed \<or> m_state m = MAcked) ms"

fun slice_ok :: "wjob option \<Rightarrow> wlease list \<Rightarrow> wmsg list \<Rightarrow> bool" where
  "slice_ok None as ms \<longleftrightarrow> as = [] \<and> ms = []"
| "slice_ok (Some j) as ms \<longleftrightarrow>
     length as \<le> 1 \<and> length ms \<le> 1 \<and> list_all (message_ok j) ms \<and> list_all (lease_ok j ms) as \<and>
     (j_state j = JQueued \<longrightarrow> list_ex (\<lambda>m. m_state m = MPending) ms)"

definition msg_keys :: "wq \<Rightarrow> (string \<times> string \<times> string) set" where
  "msg_keys s = (\<lambda>m. (m_id m, m_job m, m_run m)) ` set (w_msgs s)"

definition current_ok :: "(string \<times> string \<times> string) set \<Rightarrow> wjob \<Rightarrow> bool" where
  "current_ok K j \<longleftrightarrow> (case j_message j of None \<Rightarrow> True | Some mid \<Rightarrow> (mid, j_id j, j_run j) \<in> K)"

definition keys_ok :: "wq \<Rightarrow> bool" where
  "keys_ok s \<longleftrightarrow>
     [] \<notin> j_id ` set (w_jobs s) \<and> distinct (map j_id (w_jobs s)) \<and> distinct (map m_id (w_msgs s)) \<and> distinct (map l_id (w_leases s)) \<and>
     list_all (current_ok (msg_keys s)) (w_jobs s)"

definition wq_ok :: "wq \<Rightarrow> bool" where
  "wq_ok s \<longleftrightarrow> keys_ok s \<and> (\<forall>k. slice_ok (job_of s k) (active_of s k) (live_of s k))"

section \<open>Reading rows\<close>

lemma find_key:
  "distinct (map key xs) \<Longrightarrow> x \<in> set xs \<Longrightarrow> find (\<lambda>y. key y = key x) xs = Some x"
  by (induction xs) auto

lemma find_SomeD: "find P xs = Some x \<Longrightarrow> x \<in> set xs \<and> P x"
  by (auto simp: find_Some_iff)

lemma job_ofD: "job_of s k = Some j \<Longrightarrow> j \<in> set (w_jobs s) \<and> j_id j = k"
  unfolding job_of_def by (drule find_SomeD) simp

lemma msg_ofD: "msg_of s k = Some m \<Longrightarrow> m \<in> set (w_msgs s) \<and> m_id m = k"
  unfolding msg_of_def by (drule find_SomeD) simp

lemma lease_ofD: "lease_of s k = Some l \<Longrightarrow> l \<in> set (w_leases s) \<and> l_id l = k"
  unfolding lease_of_def by (drule find_SomeD) simp

lemma fetch_Inr [check_simps]: "fetch r = Inr v \<longleftrightarrow> r = Some v"
  by (cases r) (auto simp: fetch_def)

lemma admit_Inr [check_simps]: "admit c r = Inr v \<longleftrightarrow> c = None \<and> r = Inr v"
  by (cases c) (auto simp: admit_def)

lemma active_lease_forD:
  "active_lease_for e s lid sid jid = Inr l \<Longrightarrow>
   l \<in> set (w_leases s) \<and> l_id l = lid \<and> l_state l = LActive \<and> l_owner l = sid \<and>
   (jid \<noteq> [] \<longrightarrow> l_job l = jid) \<and> e_now e \<le> l_expires l"
  by (auto simp: active_lease_for_def check_simps dest!: lease_ofD)

section \<open>Updates\<close>

lemma map_upd [simp]: "(\<And>x. p x \<Longrightarrow> g (f x) = g x) \<Longrightarrow> map g (upd p f xs) = map g xs"
  by (simp add: upd_def)

lemma set_upd: "set (upd p f xs) = (\<lambda>x. if p x then f x else x) ` set xs"
  by (simp add: upd_def)

lemma find_upd:
  "(\<And>x. p x \<Longrightarrow> key (f x) = key x) \<Longrightarrow>
   find (\<lambda>x. key x = k) (upd p f xs) = map_option (\<lambda>x. if p x then f x else x) (find (\<lambda>x. key x = k) xs)"
  by (induction xs) (auto simp: upd_def)

lemma filter_upd_drop:
  "(\<And>x. p x \<Longrightarrow> \<not> q (f x)) \<Longrightarrow> filter q (upd p f xs) = filter (\<lambda>x. \<not> p x \<and> q x) xs"
  by (induction xs) (auto simp: upd_def)

lemma filter_upd_keep:
  "(\<And>x. p x \<Longrightarrow> q (f x) \<longleftrightarrow> q x) \<Longrightarrow> filter q (upd p f xs) = upd p f (filter q xs)"
  by (induction xs) (auto simp: upd_def)

lemma filter_upd_other:
  "(\<And>x. x \<in> set xs \<Longrightarrow> p x \<Longrightarrow> \<not> q x \<and> \<not> q (f x)) \<Longrightarrow> filter q (upd p f xs) = filter q xs"
  by (induction xs) (auto simp: upd_def)

lemma job_of_set_job [slice_simps]:
  "(\<And>j. j_id (f j) = j_id j) \<Longrightarrow>
   job_of (set_job k f s) k' = (if k' = k then map_option f (job_of s k) else job_of s k')"
  unfolding job_of_def set_job_def
  by (cases "find (\<lambda>j. j_id j = k') (w_jobs s)"; cases "k' = k") (auto simp: find_upd dest: find_SomeD)

lemma tables_set_job [slice_simps]:
  "active_of (set_job k f s) = active_of s" "live_of (set_job k f s) = live_of s"
  "w_msgs (set_job k f s) = w_msgs s" "w_leases (set_job k f s) = w_leases s"
  "msg_of (set_job k f s) = msg_of s"
  "w_dependencies (set_job k f s) = w_dependencies s" "w_verdicts (set_job k f s) = w_verdicts s" "w_dissents (set_job k f s) = w_dissents s"
  "w_workflows (set_job k f s) = w_workflows s" "w_routed (set_job k f s) = w_routed s" "w_dead (set_job k f s) = w_dead s"
  "w_assembled (set_job k f s) = w_assembled s"
  "w_packets (set_job k f s) = w_packets s" "w_sessions (set_job k f s) = w_sessions s"
  "w_runs (set_job k f s) = w_runs s" "w_blockers (set_job k f s) = w_blockers s"
  by (auto simp: set_job_def active_of_def live_of_def msg_of_def fun_eq_iff)

lemma tables_set_leases [slice_simps]:
  "job_of (set_leases p f s) = job_of s" "live_of (set_leases p f s) = live_of s"
  "w_msgs (set_leases p f s) = w_msgs s" "w_jobs (set_leases p f s) = w_jobs s"
  "msg_of (set_leases p f s) = msg_of s"
  "w_dependencies (set_leases p f s) = w_dependencies s" "w_verdicts (set_leases p f s) = w_verdicts s" "w_dissents (set_leases p f s) = w_dissents s"
  "w_workflows (set_leases p f s) = w_workflows s" "w_routed (set_leases p f s) = w_routed s" "w_dead (set_leases p f s) = w_dead s"
  "w_assembled (set_leases p f s) = w_assembled s"
  "w_packets (set_leases p f s) = w_packets s" "w_sessions (set_leases p f s) = w_sessions s"
  "w_runs (set_leases p f s) = w_runs s" "w_blockers (set_leases p f s) = w_blockers s"
  by (auto simp: set_leases_def job_of_def live_of_def msg_of_def fun_eq_iff)

lemma active_of_drop_id [slice_simps]:
  "(\<And>l. l_state (f l) \<noteq> LActive) \<Longrightarrow>
   active_of (set_leases (\<lambda>l. l_id l = lid) f s) k = filter (\<lambda>l. l_id l \<noteq> lid) (active_of s k)"
  by (auto simp: active_of_def set_leases_def filter_upd_drop intro: filter_cong)

lemma active_of_drop_job [slice_simps]:
  "(\<And>l. l_state (f l) \<noteq> LActive) \<Longrightarrow>
   active_of (set_leases (\<lambda>l. l_job l = jid \<and> l_state l = LActive) f s) k = (if k = jid then [] else active_of s k)"
  by (auto simp: active_of_def set_leases_def filter_upd_drop intro: filter_cong)

lemma store_msgsD:
  "store_msgs ms s = Inr s' \<Longrightarrow>
   s' = s\<lparr>w_msgs := ms\<rparr> \<and> distinct (map m_id ms) \<and> distinct (map m_job (filter (\<lambda>m. live_state (m_state m)) ms))"
  by (auto simp: store_msgs_def split: if_splits)

lemma store_leasesD:
  "store_leases ls s = Inr s' \<Longrightarrow>
   s' = s\<lparr>w_leases := ls\<rparr> \<and> distinct (map l_id ls) \<and> distinct (map l_job (filter (\<lambda>l. l_state l = LActive) ls))"
  by (auto simp: store_leases_def split: if_splits)

lemma tables_store_msgs [slice_simps]:
  "job_of (s\<lparr>w_msgs := ms\<rparr>) = job_of s" "active_of (s\<lparr>w_msgs := ms\<rparr>) = active_of s"
  by (auto simp: job_of_def active_of_def fun_eq_iff)

text \<open>The single live message of a job.\<close>

lemma single_slot:
  "distinct (map key (filter q xs)) \<Longrightarrow> x \<in> set xs \<Longrightarrow> q x \<Longrightarrow>
   filter (\<lambda>y. q y \<and> key y = key x) xs = [x]"
proof (induction xs)
  case (Cons y ys)
  show ?case
  proof (cases "q y \<and> key y = key x")
    case True
    then have fresh: "\<forall>z \<in> set ys. q z \<longrightarrow> key z \<noteq> key x" using Cons.prems(1) by (auto simp: image_iff)
    then have "y = x" using Cons.prems(2,3) by auto
    moreover have "filter (\<lambda>y. q y \<and> key y = key x) ys = []"
      using fresh by (auto simp: filter_empty_conv)
    ultimately show ?thesis using True by simp
  next
    case False
    then have "x \<in> set ys" using Cons.prems(2,3) by auto
    then show ?thesis using False Cons by (auto split: if_splits)
  qed
qed simp

lemma single_live:
  "distinct (map m_job (filter (\<lambda>m. live_state (m_state m)) ms)) \<Longrightarrow> m \<in> set ms \<Longrightarrow> live_state (m_state m) \<Longrightarrow>
   live_of (s\<lparr>w_msgs := ms\<rparr>) (m_job m) = [m]"
  using single_slot[of m_job "\<lambda>m. live_state (m_state m)" ms m] by (simp add: live_of_def)

lemma single_active:
  "distinct (map l_job (filter (\<lambda>l. l_state l = LActive) ls)) \<Longrightarrow> l \<in> set ls \<Longrightarrow> l_state l = LActive \<Longrightarrow>
   active_of (s\<lparr>w_leases := ls\<rparr>) (l_job l) = [l]"
  using single_slot[of l_job "\<lambda>l. l_state l = LActive" ls l] by (simp add: active_of_def)

text \<open>An update of one message: it leaves the live ones, or becomes the live one of its job.\<close>

lemma set_msgs_drop:
  assumes "set_msgs (\<lambda>m. m_id m = mid) f s = Inr s'" "\<And>m. \<not> live_state (m_state (f m))"
  shows "live_of s' k = filter (\<lambda>m. m_id m \<noteq> mid) (live_of s k)"
  using assms unfolding set_msgs_def
  by (auto simp: live_of_def filter_upd_drop dest!: store_msgsD intro: filter_cong)

lemma set_msgs_live:
  assumes "set_msgs (\<lambda>m. m_id m = mid) f s = Inr s'" "m \<in> set (w_msgs s)" "m_id m = mid"
    "distinct (map m_id (w_msgs s))" "m_job (f m) = m_job m" "live_state (m_state (f m))"
  shows "live_of s' k = (if k = m_job m then [f m] else live_of s k)"
proof -
  let ?ms = "upd (\<lambda>m. m_id m = mid) f (w_msgs s)"
  have st: "s' = s\<lparr>w_msgs := ?ms\<rparr>" "distinct (map m_job (filter (\<lambda>m. live_state (m_state m)) ?ms))"
    using assms(1) unfolding set_msgs_def by (blast dest: store_msgsD)+
  have "f m \<in> set ?ms" using assms(2,3) by (force simp: set_upd)
  from single_live[OF st(2) this assms(6)] have "live_of s' (m_job m) = [f m]" using st(1) assms(5) by simp
  moreover have "live_of s' k = live_of s k" if "k \<noteq> m_job m"
  proof -
    have "x = m" if "x \<in> set (w_msgs s)" "m_id x = mid" for x
      using that assms(2-4) by (metis distinct_map inj_onD)
    then show ?thesis using that assms(5) unfolding st(1) live_of_def
      by (auto intro!: filter_upd_other)
  qed
  ultimately show ?thesis by auto
qed

section \<open>Keys\<close>

lemma current_ok_mono: "K \<subseteq> K' \<Longrightarrow> current_ok K j \<Longrightarrow> current_ok K' j"
  by (auto simp: current_ok_def split: option.splits)

lemma current_ok_same:
  "j_message j' = j_message j \<Longrightarrow> j_id j' = j_id j \<Longrightarrow> j_run j' = j_run j \<Longrightarrow> current_ok K j' = current_ok K j"
  by (auto simp: current_ok_def split: option.splits)

lemma current_ok_state [simp]: "current_ok K (j\<lparr>j_state := st\<rparr>) = current_ok K j"
  by (rule current_ok_same) simp_all

lemma msg_keys_upd:
  "(\<And>m. m_id (f m) = m_id m \<and> m_job (f m) = m_job m \<and> m_run (f m) = m_run m) \<Longrightarrow>
   msg_keys (s\<lparr>w_msgs := upd p f ms\<rparr>) = msg_keys (s\<lparr>w_msgs := ms\<rparr>)"
  by (simp add: msg_keys_def flip: set_map)

lemma keys_set_job:
  assumes "keys_ok s" "\<And>j. j_id (f j) = j_id j \<and> j_run (f j) = j_run j"
    "\<And>j. job_of s k = Some j \<Longrightarrow> j_message (f j) = j_message j \<or> current_ok (msg_keys s) (f j)"
  shows "keys_ok (set_job k f s)"
proof -
  have d: "distinct (map j_id (w_jobs s))" using assms(1) by (simp add: keys_ok_def)
  have "current_ok (msg_keys s) (f j)" if "j \<in> set (w_jobs s)" "j_id j = k" for j
    using that find_key[OF d that(1)] assms current_ok_same[of "f j" j]
    by (auto simp: keys_ok_def job_of_def list_all_iff)
  moreover have "j_id ` set (upd (\<lambda>j. j_id j = k) f (w_jobs s)) = j_id ` set (w_jobs s)"
    using assms(2) by (simp flip: set_map)
  ultimately show ?thesis using assms(1,2)
    by (auto simp: keys_ok_def set_job_def msg_keys_def list_all_iff set_upd simp del: set_map)
qed

lemma keys_set_leases:
  "keys_ok s \<Longrightarrow> (\<And>l. l_id (f l) = l_id l) \<Longrightarrow> keys_ok (set_leases p f s)"
  by (simp add: keys_ok_def set_leases_def msg_keys_def)

lemma keys_set_msgs:
  assumes "keys_ok s" "set_msgs p f s = Inr s'"
    "\<And>m. m_id (f m) = m_id m \<and> m_job (f m) = m_job m \<and> m_run (f m) = m_run m"
  shows "keys_ok s'" "msg_keys s' = msg_keys s"
proof -
  have st: "s' = s\<lparr>w_msgs := upd p f (w_msgs s)\<rparr>" "distinct (map m_id (upd p f (w_msgs s)))"
    using assms(2) unfolding set_msgs_def by (blast dest: store_msgsD)+
  show k: "msg_keys s' = msg_keys s" unfolding st(1) using msg_keys_upd[OF assms(3)] by simp
  show "keys_ok s'" using assms(1) st k by (simp add: keys_ok_def msg_keys_def)
qed

lemma set_msgs_tables [slice_simps]:
  assumes "set_msgs p f s = Inr s'"
  shows "job_of s' = job_of s" "active_of s' = active_of s" "w_jobs s' = w_jobs s" "w_leases s' = w_leases s"
    "w_packets s' = w_packets s" "w_sessions s' = w_sessions s" "w_runs s' = w_runs s"
    "w_blockers s' = w_blockers s"
    "w_dependencies s' = w_dependencies s" "w_verdicts s' = w_verdicts s" "w_dissents s' = w_dissents s"
    "w_workflows s' = w_workflows s" "w_routed s' = w_routed s" "w_dead s' = w_dead s"
    "w_assembled s' = w_assembled s"
  using store_msgsD[OF assms[unfolded set_msgs_def]] by (auto simp: slice_simps)

lemma current_message:
  assumes "keys_ok s" "job_of s k = Some j" "j_message j = Some mid" "m \<in> set (w_msgs s)" "m_id m = mid"
  shows "m_job m = k \<and> m_run m = j_run j"
proof -
  have "current_ok (msg_keys s) j" using assms(1) job_ofD[OF assms(2)] by (auto simp: keys_ok_def list_all_iff)
  then obtain m' where m': "m' \<in> set (w_msgs s)" "m_id m' = mid" "m_job m' = j_id j" "m_run m' = j_run j"
    using assms(3) by (auto simp: current_ok_def msg_keys_def)
  then have "m' = m" using assms(1,4,5) by (metis keys_ok_def distinct_map inj_onD)
  then show ?thesis using m' job_ofD[OF assms(2)] by simp
qed

text \<open>An operation on one job: the slices of the others stay, its own has to be looked at.\<close>

lemma wq_okI:
  assumes "wq_ok s" "keys_ok s'" "slice_ok (job_of s' k) (active_of s' k) (live_of s' k)"
    "\<And>i. i \<noteq> k \<Longrightarrow> job_of s' i = job_of s i \<and> active_of s' i = active_of s i \<and> live_of s' i = live_of s i"
  shows "wq_ok s'"
  using assms unfolding wq_ok_def by metis

lemma wq_ok_slice: "wq_ok s \<Longrightarrow> slice_ok (job_of s k) (active_of s k) (live_of s k)"
  by (simp add: wq_ok_def)

lemma wq_ok_keys: "wq_ok s \<Longrightarrow> keys_ok s"
  by (simp add: wq_ok_def)

text \<open>What an active lease says about its job.\<close>

lemma held:
  assumes "wq_ok s" "l \<in> set (w_leases s)" "l_state l = LActive"
  obtains j m where "job_of s (l_job l) = Some j" "active_of s (l_job l) = [l]" "live_of s (l_job l) = [m]"
    "j_id j = l_job l" "j_run j = l_run l" "j_lease j = Some (l_id l)" "j_state j = JClaimed \<or> j_state j = JRunning"
    "m_state m = MClaimed \<or> m_state m = MAcked" "j_message j = Some (m_id m)"
proof -
  have l: "l \<in> set (active_of s (l_job l))" using assms by (simp add: active_of_def)
  have sl: "slice_ok (job_of s (l_job l)) (active_of s (l_job l)) (live_of s (l_job l))"
    using assms(1) by (rule wq_ok_slice)
  then obtain j where j: "job_of s (l_job l) = Some j" using l by (cases "job_of s (l_job l)") auto
  then have as: "active_of s (l_job l) = [l]" using sl l by (auto simp: le_Suc_eq length_Suc_conv)
  from sl j as obtain m where "live_of s (l_job l) = [m]" "m_state m = MClaimed \<or> m_state m = MAcked"
    by (cases "live_of s (l_job l)") (auto simp: lease_ok_def)
  then show ?thesis using that j as sl job_ofD[OF j] by (auto simp: lease_ok_def message_ok_def)
qed

end
