(* ===== verification/WorkReview.thy ===== *)
theory WorkReview
  imports WorkHandlers
begin

text \<open>
  Verdicts (\<open>review.go\<close>) and what follows from them: the completion of a review, the bounded
  revision cycles of a workflow with their debounce (\<open>revision_routing.go\<close>), the guards of the
  advisory seats (\<open>barrier_advisory.go\<close>), and the checkpoint for a human. The artifact a review
  publishes, the posture of a verdict, the interrogation windows and the escalation inbox are not
  part of the state.
\<close>

section \<open>Verdicts\<close>

text \<open>
  \<open>strings.ToLower\<close>, as far as it can turn a string into an ASCII word without the letter k: the
  other letters that have a lower case stay outside ASCII.
\<close>

fun go_lower :: "string \<Rightarrow> string" where
  "go_lower (c # d # cs) =
     (if c = CHR 0xC4 \<and> d = CHR 0xB0 then CHR ''i'' # go_lower cs
      else (if CHR ''A'' \<le> c \<and> c \<le> CHR ''Z'' then char_of (of_char c + 32 :: nat) else c) # go_lower (d # cs))"
| "go_lower [c] = [if CHR ''A'' \<le> c \<and> c \<le> CHR ''Z'' then char_of (of_char c + 32 :: nat) else c]"
| "go_lower [] = []"

definition normalizeVerdict :: "string \<Rightarrow> string" where
  "normalizeVerdict verdict =
     (let w = go_lower (trim_space verdict) in
      if w \<in> {''accept'', ''approve'', ''approved'', ''accepted''} then ''accept''
      else if w \<in> {''accept_with_findings'', ''accepted_with_findings'', ''accept_with_follow_up'',
         ''accepted_with_follow_up'', ''accept_with_followup'', ''accepted_with_followup''} then ''accept_with_findings''
      else if w \<in> {''needs_revision'', ''needs_revisions'', ''request_changes'', ''changes_requested'',
         ''request_change'', ''needs_changes'', ''revise''} then ''needs_revision''
      else if w \<in> {''reject'', ''rejected''} then ''reject''
      else verdict)"

text \<open>
  The table of verdicts, in the order of creation and id, with its check, its key (a session gives
  one verdict on a job) and the reference to the session.
\<close>

definition verdict_values :: "string list" where
  "verdict_values = [''accept'', ''accept_with_findings'', ''needs_revision'', ''reject'']"

definition store_verdict :: "qverdict \<Rightarrow> wq \<Rightarrow> wq_error + wq" where
  "store_verdict v s =
     (if v_verdict v \<notin> set verdict_values then Inl (CheckViolation ''verdicts_verdict_check'')
      else if v_id v \<in> set (map v_id (w_verdicts s)) then Inl (UniqueViolation ''verdicts_pkey'')
      else if list_ex (\<lambda>w. v_job_id w = v_job_id v \<and> v_session w = v_session v) (w_verdicts s)
      then Inl (UniqueViolation ''verdicts_repository_id_job_id_session_id_key'')
      else if session_of s (v_session v) = None then Inl (ForeignKeyViolation ''verdicts_session_id_fkey'')
      else Inr (s\<lparr>w_verdicts := insort_key (\<lambda>w. (v_created w, v_id w)) v (w_verdicts s)\<rparr>))"

definition recordDissent :: "wjob \<Rightarrow> string \<Rightarrow> wq \<Rightarrow> wq" where
  "recordDissent j verdict s =
     (if verdict \<noteq> ''needs_revision'' \<and> verdict \<noteq> ''reject'' then s
      else s\<lparr>w_dissents := map_option (\<lambda>ds. ds @ [(j_run j, j_workflow_job j, j_attempt j)]) (w_dissents s)\<rparr>)"

section \<open>Advisory guards\<close>

definition openAdvisoryGuardBlocker :: "wenv \<Rightarrow> string \<Rightarrow> string \<Rightarrow> string \<Rightarrow> wq \<Rightarrow> wq" where
  "openAdvisoryGuardBlocker e run gate kind s =
     (if list_ex (\<lambda>b. b_job b = Some gate \<and> b_kind b = kind \<and> b_open b) (w_blockers s) then s
      else s\<lparr>w_blockers := w_blockers s @ [\<lparr>b_id = e_newID e ''blk'' (length (w_blockers s)), b_run = run,
         b_job = Some gate, b_session = None, b_severity = ''blocked'', b_kind = kind, b_open = True\<rparr>]\<rparr>)"

fun guard_gates :: "wenv \<Rightarrow> string \<Rightarrow> string list \<Rightarrow> wq \<Rightarrow> wq_error + wq" where
  "guard_gates e run [] s = Inr s"
| "guard_gates e run (g # gs) s =
     bind_ok (fetch (job_of s g)) (\<lambda>gate.
     bind_ok (fetch (resolveAdvisoryTally (gate_view s (j_run gate)) g)) (\<lambda>tally.
       let kind = evaluateAdvisoryGuards tally in
       guard_gates e run gs (if kind = [] then s else openAdvisoryGuardBlocker e run g kind s)))"

definition gates_of :: "wq \<Rightarrow> string \<Rightarrow> string list" where
  "gates_of s jid =
     remdups (map fst (filter (\<lambda>d. fst (snd d) = jid \<and> job_of s (fst d) \<noteq> None) (w_dependencies s)))"

definition applyAdvisoryGuards :: "wenv \<Rightarrow> string \<Rightarrow> wq \<Rightarrow> wq_error + wq" where
  "applyAdvisoryGuards e jid s =
     bind_ok (fetch (job_of s jid)) (\<lambda>j. guard_gates e (j_run j) (gates_of s jid) s)"

section \<open>Revision cycles\<close>

record revisionCycle =
  rc_from :: string
  rc_to :: string
  rc_onVerdict :: string
  rc_maxIterations :: int
  rc_debounceCohort :: string

fun debounceCohortValue :: "goval \<Rightarrow> string" where
  "debounceCohortValue VNil = []"
| "debounceCohortValue (VStr s) =
     (if s = [] \<or> s = ''all'' then s
      else (let n = intValue (VStr s) in if 1 \<le> n then show_int n else []))"
| "debounceCohortValue v = (let n = intValue v in if 1 \<le> n then show_int n else [])"

definition cycles_from :: "string \<Rightarrow> gomap list \<Rightarrow> revisionCycle list" where
  "cycles_from fromID defs =
     map (\<lambda>d. \<lparr>rc_from = fromID, rc_to = go_sprint (mget d ''to''), rc_onVerdict = go_sprint (mget d ''on_verdict''),
          rc_maxIterations = intValue (mget d ''max_iterations''),
          rc_debounceCohort = debounceCohortValue (mget d ''debounce_cohort'')\<rparr>)
       (filter (\<lambda>d. go_sprint (mget d ''from'') = fromID) defs)"

definition workflowCyclesForJob :: "wq \<Rightarrow> wjob \<Rightarrow> wq_error + revisionCycle list" where
  "workflowCyclesForJob s j =
     bind_ok (workflow_cycles s (j_run j)) (\<lambda>defs. Inr (cycles_from (j_workflow_job j) defs))"

definition matchRevisionCycle :: "revisionCycle list \<Rightarrow> string \<Rightarrow> revisionCycle option" where
  "matchRevisionCycle cycles verdict =
     find (\<lambda>c. (if rc_onVerdict c = [] then ''needs_revision'' else rc_onVerdict c) = verdict) cycles"

definition routings :: "wq \<Rightarrow> string \<Rightarrow> string \<Rightarrow> string \<Rightarrow> wrouted list" where
  "routings s run from to = filter (\<lambda>r. rt_run r = run \<and> rt_from r = from \<and> rt_to r = to) (w_routed s)"

definition countRevisionRoutings :: "wq \<Rightarrow> string \<Rightarrow> revisionCycle \<Rightarrow> int" where
  "countRevisionRoutings s run c = int (length (routings s run (rc_from c) (rc_to c)))"

definition latestJobForWorkflowID :: "wq \<Rightarrow> string \<Rightarrow> string \<Rightarrow> wjob option" where
  "latestJobForWorkflowID s run seat =
     (case sort_key (\<lambda>j. - j_attempt j) (sort_key (\<lambda>j. - j_created j)
         (filter (\<lambda>j. j_run j = run \<and> j_workflow_job j = seat) (w_jobs s))) of
        [] \<Rightarrow> None | j # _ \<Rightarrow> Some j)"

definition isTerminalJobState :: "job_state \<Rightarrow> bool" where
  "isTerminalJobState st \<longleftrightarrow> st \<in> {JCompleted, JFailed, JCanceled, JSkipped, JWaitingHuman, JBlocked}"

definition downstreamJobs :: "wq \<Rightarrow> string \<Rightarrow> string list" where
  "downstreamJobs s jid =
     map j_id (sort_key j_created (sort_key j_id (concat (map
       (\<lambda>d. filter (\<lambda>j. j_id j = fst d) (w_jobs s)) (filter (\<lambda>d. fst (snd d) = jid) (w_dependencies s))))))"

text \<open>The gating seats of the gates a review feeds, without its own seat.\<close>

definition sibling_seats :: "wq \<Rightarrow> wjob \<Rightarrow> string list option" where
  "sibling_seats s j =
     map_option (\<lambda>ss. remdups (filter (\<lambda>x. x \<noteq> j_workflow_job j) (concat ss)))
       (those (map (\<lambda>g. map_option fst (resolveQuorumDeclaration (gate_view s (j_run j)) g)) (downstreamJobs s (j_id j))))"

definition seat_in_state :: "(job_state \<Rightarrow> bool) \<Rightarrow> wq \<Rightarrow> string \<Rightarrow> string \<Rightarrow> bool" where
  "seat_in_state p s run seat \<longleftrightarrow>
     (case latestJobForWorkflowID s run seat of None \<Rightarrow> False | Some t \<Rightarrow> p (j_state t))"

definition inFlightSiblingGatingSeats :: "wq \<Rightarrow> wjob \<Rightarrow> int option" where
  "inFlightSiblingGatingSeats s j =
     map_option (\<lambda>seats. int (length (filter (seat_in_state (\<lambda>st. \<not> isTerminalJobState st) s (j_run j)) seats)))
       (sibling_seats s j)"

definition gatingCohortDebounceSatisfied :: "wq \<Rightarrow> wjob \<Rightarrow> string \<Rightarrow> bool option" where
  "gatingCohortDebounceSatisfied s j cohort =
     (if cohort = [] then Some True
      else map_option (\<lambda>seats.
        let cohortSize = 1 + int (length seats);
            reported = 1 + int (length (filter (seat_in_state isTerminalJobState s (j_run j)) seats));
            n = intValue (VStr cohort);
            required = (if cohort = ''all'' then cohortSize
              else min (if 1 \<le> n then n else cohortSize) cohortSize)
        in required \<le> reported) (sibling_seats s j))"

definition reviewedBuildGeneration :: "wq \<Rightarrow> wjob \<Rightarrow> wq_error + int" where
  "reviewedBuildGeneration s j =
     bind_ok (workflowCyclesForJob s j) (\<lambda>cycles. Inr
       (case matchRevisionCycle cycles ''needs_revision'' of None \<Rightarrow> 1
        | Some c \<Rightarrow> (case latestJobForWorkflowID s (j_run j) (rc_to c) of None \<Rightarrow> 1
            | Some t \<Rightarrow> if j_generation t < 1 then 1 else j_generation t)))"

definition reviewFeedsAbsorbingAdjudicator :: "wq \<Rightarrow> string \<Rightarrow> string \<Rightarrow> bool" where
  "reviewFeedsAbsorbingAdjudicator s jid verdict \<longleftrightarrow>
     (let ds = filter (\<lambda>d. fst (snd d) = jid) (w_dependencies s) in
      ds \<noteq> [] \<and> list_all (\<lambda>d. let required = requiredVerdicts (mget (snd (snd d)) ''requires_verdict'')
        in required = [] \<or> verdict \<in> set required) ds)"

section \<open>The end of a review\<close>

definition completeReviewJob :: "wenv \<Rightarrow> wjob \<Rightarrow> string \<Rightarrow> wq \<Rightarrow> wq_error + wq" where
  "completeReviewJob e j lid s =
     guard_ok (e_durable e j) (invalid ''published artifacts'') (settle_rows JCompleted MCompleted ''verdict'' j lid s)"

definition failReviewJob :: "wjob \<Rightarrow> string \<Rightarrow> wq \<Rightarrow> wq_error + wq" where
  "failReviewJob j lid s = settle_rows JFailed MCompleted ''reject'' j lid s"

definition openHumanCheckpoint :: "wenv \<Rightarrow> string \<Rightarrow> wjob \<Rightarrow> string \<Rightarrow> wq \<Rightarrow> wq_error + wq" where
  "openHumanCheckpoint e sid j lid s =
     settle_rows JWaitingHuman MBlocked ''needs_revision'' j lid
       (s\<lparr>w_blockers := w_blockers s @ [\<lparr>b_id = e_newID e ''blk'' (length (w_blockers s)), b_run = j_run j,
          b_job = Some (j_id j), b_session = Some sid, b_severity = ''human_checkpoint'', b_kind = ''revision_routing'',
          b_open = True\<rparr>]\<rparr>)"

text \<open>\<open>routeRevisionCycle\<close>; \<open>None\<close> where the budget is used up or the target is missing.\<close>

definition routeRevisionCycle :: "wenv \<Rightarrow> wjob \<Rightarrow> string \<Rightarrow> revisionCycle \<Rightarrow> wq \<Rightarrow> wq_error + wq option" where
  "routeRevisionCycle e j lid c s =
     (let prior = countRevisionRoutings s (j_run j) c in
      if rc_maxIterations c > 0 \<and> prior \<ge> rc_maxIterations c then Inr None
      else (case latestJobForWorkflowID s (j_run j) (rc_to c) of
          None \<Rightarrow> Inr None
        | Some target \<Rightarrow>
            bind_ok (completeReviewJob e j lid s) (\<lambda>s1.
            bind_ok (fetch (inFlightSiblingGatingSeats s1 j)) (\<lambda>n.
             let s2 = s1\<lparr>w_routed := w_routed s1 @ [\<lparr>rt_run = j_run j, rt_from = rc_from c, rt_to = rc_to c,
                   rt_iteration = prior + 1, rt_in_flight = n\<rparr>]\<rparr> in
             bind_ok (if \<not> isTerminalJobState (j_state target) then Inr s2
                else reopenJobForAttempt e (j_id target) ''revision_cycle'' s2) (\<lambda>s3.
             bind_ok (maybeCompleteRun e (j_run j) s3) (\<lambda>s4. Inr (Some s4)))))))"

section \<open>Recording a verdict\<close>

datatype verdict_status = VCompleted | VRouted | VDebounced | VAbsorbed | VWaitingHuman | VFailed

definition then_status :: "verdict_status \<Rightarrow> wq_error + wq \<Rightarrow> wq_error + verdict_status \<times> wq" where
  "then_status st r = bind_ok r (\<lambda>s. Inr (st, s))"

definition enqueue_and_finish :: "wenv \<Rightarrow> wjob \<Rightarrow> wq \<Rightarrow> wq_error + wq" where
  "enqueue_and_finish e j s = bind_ok (maybeEnqueueDownstream e (j_id j) s) (maybeCompleteRun e (j_run j))"

text \<open>The three branches of \<open>applyVerdict\<close>.\<close>

definition apply_accept :: "wenv \<Rightarrow> wjob \<Rightarrow> string \<Rightarrow> wq \<Rightarrow> wq_error + verdict_status \<times> wq" where
  "apply_accept e j lid s = then_status VCompleted (bind_ok (completeReviewJob e j lid s) (enqueue_and_finish e j))"

definition apply_needs_revision ::
  "wenv \<Rightarrow> string \<Rightarrow> wjob \<Rightarrow> string \<Rightarrow> wq \<Rightarrow> wq_error + verdict_status \<times> wq" where
  "apply_needs_revision e sid j lid s =
     bind_ok (workflowCyclesForJob s j) (\<lambda>cycles.
       case matchRevisionCycle cycles ''needs_revision'' of
         Some c \<Rightarrow>
           bind_ok (fetch (gatingCohortDebounceSatisfied s j (rc_debounceCohort c))) (\<lambda>ready.
            if \<not> ready
            then then_status VDebounced (bind_ok (completeReviewJob e j lid s) (maybeCompleteRun e (j_run j)))
            else bind_ok (routeRevisionCycle e j lid c s) (\<lambda>r. case r of
                Some s' \<Rightarrow> Inr (VRouted, s')
              | None \<Rightarrow> then_status VWaitingHuman (openHumanCheckpoint e sid j lid s)))
       | None \<Rightarrow>
           if reviewFeedsAbsorbingAdjudicator s (j_id j) ''needs_revision''
           then then_status VAbsorbed (bind_ok (completeReviewJob e j lid s) (enqueue_and_finish e j))
           else then_status VWaitingHuman (openHumanCheckpoint e sid j lid s))"

definition apply_reject :: "wenv \<Rightarrow> wjob \<Rightarrow> string \<Rightarrow> wq \<Rightarrow> wq_error + verdict_status \<times> wq" where
  "apply_reject e j lid s =
     bind_ok (workflowCyclesForJob s j) (\<lambda>cycles.
       guard_ok (matchRevisionCycle cycles ''needs_revision'' = None) (invalid ''reject is terminal'')
        (then_status VFailed (bind_ok (failReviewJob j lid s) (maybeCompleteRun e (j_run j)))))"

definition new_verdict :: "wenv \<Rightarrow> string \<Rightarrow> wjob \<Rightarrow> string \<Rightarrow> int option \<Rightarrow> bool \<Rightarrow> wq \<Rightarrow> qverdict" where
  "new_verdict e sid j verdict gen override s =
     \<lparr>v_id = e_newID e ''verdict'' (length (w_verdicts s)), v_created = now_string e, v_job_id = j_id j, v_session = sid,
      v_verdict = verdict, v_superseded = False, v_generation = gen, v_attested = e_attested e sid, v_override = override\<rparr>"

definition applyVerdict ::
  "wenv \<Rightarrow> string \<Rightarrow> string \<Rightarrow> string \<Rightarrow> bool \<Rightarrow> wjob \<Rightarrow> wq \<Rightarrow> wq_error + verdict_status \<times> wq" where
  "applyVerdict e sid lid verdict override j s =
     bind_ok (if e_generations e then bind_ok (reviewedBuildGeneration s j) (\<lambda>g. Inr (Some g)) else Inr None) (\<lambda>gen.
     bind_ok (store_verdict (new_verdict e sid j verdict gen override s) s) (\<lambda>s1.
     bind_ok (applyAdvisoryGuards e (j_id j) (recordDissent j verdict s1)) (\<lambda>s2.
       if isAcceptingVerdict verdict then apply_accept e j lid s2
       else if verdict = ''needs_revision'' then apply_needs_revision e sid j lid s2
       else if verdict = ''reject'' then apply_reject e j lid s2
       else Inl (invalid ''unknown verdict''))))"

text \<open>\<open>enforceReviewProvenancePolicy\<close>: whether the verdict rests on a decision of the operator.\<close>

definition enforceReviewProvenancePolicy :: "wenv \<Rightarrow> wjob \<Rightarrow> string \<Rightarrow> string \<Rightarrow> string \<Rightarrow> wq_error + bool" where
  "enforceReviewProvenancePolicy e j sid verdict decision =
     (if e_attested e sid then Inr False
      else if \<not> (requiresAttestedLane j \<or> isAcceptingVerdict verdict \<and> reviewRequiresIndependentProvenance j) then Inr False
      else if trim_space decision = [] then
        Inl (if requiresAttestedLane j then invalid ''attached lane supervisor'' else Rpc ''review_provenance_override_required'' (j_id j))
      else guard_ok (e_decision e (j_run j) decision) (invalid ''review provenance decision'') (Inr True))"

definition recordVerdict ::
  "wenv \<Rightarrow> bool \<Rightarrow> string \<Rightarrow> string \<Rightarrow> string \<Rightarrow> string \<Rightarrow> string \<Rightarrow> wq \<Rightarrow> wq_error + verdict_status \<times> wq" where
  "recordVerdict e needsBackend sid jid lid verdict decision s =
     bind_ok (fetch (job_of s jid)) (\<lambda>j.
     guard_ok (verdict_capable j) (invalid ''verdict is valid only for verdict-capable jobs'')
     (bind_ok (active_lease_for e s lid sid jid) (\<lambda>_.
      guard_ok (j_state j = JRunning) (invalid ''job must be running before verdict'')
      (bind_ok (enforceReviewProvenancePolicy e j sid verdict decision) (\<lambda>override.
       guard_ok (\<not> (needsBackend \<and> \<not> override \<and> \<not> e_backend e sid)) (invalid ''backend'')
       (guard_ok (e_artifacts e j) (invalid ''required artifacts'')
       (guard_ok (e_ledger e j verdict) (invalid ''collaboration ledger'')
       (guard_ok (e_findings e j) (invalid ''findings artifact'')
        (applyVerdict e sid lid verdict (override \<or> e_overridden e jid sid) j s)))))))))"

definition HandleRecordVerdict ::
  "wenv \<Rightarrow> string \<Rightarrow> string \<Rightarrow> string \<Rightarrow> string \<Rightarrow> string \<Rightarrow> wq \<Rightarrow> wq_error + verdict_status \<times> wq" where
  "HandleRecordVerdict e sid jid lid verdict decision s =
     (let verdict = normalizeVerdict verdict in
      guard_ok (sid \<noteq> [] \<and> jid \<noteq> [] \<and> lid \<noteq> [] \<and> verdict \<noteq> []) (schema_invalid ''review.verdict'')
      (admit (session_binding_for e s sid) (recordVerdict e True sid jid lid verdict decision s)))"

text \<open>\<open>HandleSubmitReview\<close>: the checks, the acknowledgement of a claimed job, the publication and the verdict.\<close>

definition ackInline :: "wenv \<Rightarrow> string \<Rightarrow> string \<Rightarrow> string \<Rightarrow> wq \<Rightarrow> wq_error + wq" where
  "ackInline e sid mid lid s =
     bind_ok (fetch (msg_of s mid)) (\<lambda>m.
     bind_ok (fetch (job_of s (m_job m))) (\<lambda>j.
     bind_ok (active_lease_for e s lid sid (j_id j)) (\<lambda>_.
      if m_state m = MAcked then Inr s
      else guard_ok (m_state m = MClaimed \<and> j_state j = JClaimed) (invalid ''work must be claimed before ack'')
       (bind_ok (set_msgs (\<lambda>r. m_id r = mid) (\<lambda>r. r\<lparr>m_state := MAcked\<rparr>) s) (\<lambda>s1.
         Inr (set_job (j_id j) (\<lambda>r. r\<lparr>j_state := JRunning\<rparr>) s1))))))"

definition prevalidateSubmitReview :: "wenv \<Rightarrow> wq \<Rightarrow> wjob \<Rightarrow> string \<Rightarrow> string \<Rightarrow> string \<Rightarrow> string \<Rightarrow> wq_error + bool" where
  "prevalidateSubmitReview e s j sid lid verdict decision =
     guard_ok (verdict_capable j) (invalid ''submit-review is valid only for verdict-capable jobs'')
     (guard_ok (j_state j = JClaimed \<or> j_state j = JRunning) (invalid ''job must be claimed or running'')
     (guard_ok (\<not> (j_state j = JClaimed \<and> j_message j = None)) (invalid ''missing its current message'')
     (bind_ok (active_lease_for e s lid sid (j_id j)) (\<lambda>_.
      bind_ok (enforceReviewProvenancePolicy e j sid verdict decision) (\<lambda>override.
       guard_ok (override \<or> e_backend e sid) (invalid ''backend'') (Inr override))))))"

definition HandleSubmitReview ::
  "wenv \<Rightarrow> string \<Rightarrow> string \<Rightarrow> string \<Rightarrow> string \<Rightarrow> string \<Rightarrow> string \<Rightarrow> wq \<Rightarrow> wq_error + verdict_status \<times> wq" where
  "HandleSubmitReview e sid jid lid path verdict decision s =
     (let verdict = normalizeVerdict verdict in
      guard_ok (sid \<noteq> [] \<and> jid \<noteq> [] \<and> lid \<noteq> [] \<and> path \<noteq> [] \<and> verdict \<noteq> []) (schema_invalid ''review.submit'')
      (admit (session_binding_for e s sid)
      (bind_ok (fetch (job_of s jid)) (\<lambda>j.
       bind_ok (prevalidateSubmitReview e s j sid lid verdict decision) (\<lambda>_.
       bind_ok (case j_message j of Some mid \<Rightarrow> if j_state j = JClaimed then ackInline e sid mid lid s else Inr s
           | None \<Rightarrow> Inr s) (\<lambda>s1.
        guard_ok (e_publish e j path) (Rpc ''artifact_error'' path)
         (recordVerdict e False sid jid lid verdict decision s1)))))))"

end
