(* ===== verification/WorkOverride.thy ===== *)
theory WorkOverride
  imports WorkReview
begin

text \<open>
  What the operator does about verdicts: \<open>HandleOverrideVerdict\<close> (\<open>review.go\<close>), \<open>HandleCheckpointResolve\<close>
  (\<open>operator.go\<close>) and \<open>HandleRecoveryInvalidateJob\<close> (\<open>recovery_invalidate_job.go\<close>).
\<close>

section \<open>Overriding a verdict\<close>

definition has_own_verdict :: "wq \<Rightarrow> string \<Rightarrow> string \<Rightarrow> bool" where
  "has_own_verdict s jid sid \<longleftrightarrow> list_ex (\<lambda>v. v_job_id v = jid \<and> v_session v = sid) (w_verdicts s)"

text \<open>\<open>resolveOverrideSession\<close>: a session that has not voted yet, made for the operator if need be.\<close>

definition next_ordinal :: "wq \<Rightarrow> wsession \<Rightarrow> int" where
  "next_ordinal s x =
     fold (\<lambda>y n. if s_ordinal y \<ge> n then s_ordinal y + 1 else n)
       (filter (\<lambda>y. s_run y = s_run x \<and> s_role y = ''reviewer'' \<and> s_lane y = s_lane x) (w_sessions s)) 1"

definition resolveOverrideSession :: "wenv \<Rightarrow> wq \<Rightarrow> string \<Rightarrow> string \<Rightarrow> string \<times> wq" where
  "resolveOverrideSession e s requested jid =
     (if \<not> has_own_verdict s jid requested then (requested, s)
      else (case session_of s requested of
          None \<Rightarrow> (requested, s)
        | Some x \<Rightarrow> (let sid = e_newID e ''sess'' (length (w_sessions s)) in
            (sid, s\<lparr>w_sessions := w_sessions s @ [\<lparr>s_id = sid, s_run = s_run x, s_role = ''reviewer'', s_lane = s_lane x,
               s_ordinal = next_ordinal s x, s_state = ''active'', s_activity = []\<rparr>]\<rparr>))))"

text \<open>A job that waits for a human ends: the job row, its message and its lease column.\<close>

definition end_waiting :: "(wjob \<Rightarrow> wjob) \<Rightarrow> msg_state \<Rightarrow> wjob \<Rightarrow> wq \<Rightarrow> wq_error + wq" where
  "end_waiting f mst j s =
     (let s1 = set_job (j_id j) f s in
      case j_message j of None \<Rightarrow> Inr s1
      | Some mid \<Rightarrow> set_msgs (\<lambda>m. m_id m = mid) (\<lambda>m. m\<lparr>m_state := mst, m_lease := None\<rparr>) s1)"

definition close_blockers :: "(wblocker \<Rightarrow> bool) \<Rightarrow> wq \<Rightarrow> wq" where
  "close_blockers p s = s\<lparr>w_blockers := upd p (\<lambda>b. b\<lparr>b_open := False\<rparr>) (w_blockers s)\<rparr>"

definition override_verdict :: "wenv \<Rightarrow> string \<Rightarrow> wjob \<Rightarrow> string \<Rightarrow> instant \<Rightarrow> wq \<Rightarrow> qverdict" where
  "override_verdict e sid j verdict created s =
     (new_verdict e sid j verdict (if e_generations e then Some 1 else None) True s)\<lparr>v_created := created\<rparr>"

definition latest_any_verdict :: "wq \<Rightarrow> string \<Rightarrow> qverdict option" where
  "latest_any_verdict s jid =
     (case rev (filter (\<lambda>v. v_job_id v = jid) (w_verdicts s)) of [] \<Rightarrow> None | v # _ \<Rightarrow> Some v)"

definition apply_override :: "wenv \<Rightarrow> string \<Rightarrow> wjob \<Rightarrow> string \<Rightarrow> wq \<Rightarrow> wq_error + wq" where
  "apply_override e sid j verdict s =
     bind_ok (store_verdict (override_verdict e sid j verdict (now_string e) s) s) (\<lambda>s1.
     bind_ok (if j_state j = JWaitingHuman
         then bind_ok (end_waiting (\<lambda>r. r\<lparr>j_state := JCompleted, j_lease := None\<rparr>) MCompleted j s1) (\<lambda>s2.
           Inr (close_blockers (\<lambda>b. b_job b = Some (j_id j) \<and> b_open b \<and> b_severity b = ''human_checkpoint'' \<and>
             b_kind b = ''revision_routing'') s2))
         else Inr s1) (enqueue_and_finish e j))"

definition HandleOverrideVerdict ::
  "wenv \<Rightarrow> string \<Rightarrow> string \<Rightarrow> string \<Rightarrow> string \<Rightarrow> bool \<Rightarrow> wq \<Rightarrow> wq_error + wq" where
  "HandleOverrideVerdict e sid0 jid verdict rationale autoFresh s0 =
     guard_ok (sid0 \<noteq> [] \<and> jid \<noteq> [] \<and> verdict \<noteq> [] \<and> trim_space rationale \<noteq> []) (schema_invalid ''review.override'')
     (guard_ok (isAcceptingVerdict verdict) (invalid ''override verdict'')
     (bind_ok (fetch (job_of s0 jid)) (\<lambda>j.
      guard_ok (j_type j = ''review'') (invalid ''verdict override is valid only for review jobs'')
      (guard_ok (j_state j = JCompleted \<or> j_state j = JWaitingHuman) (invalid ''completed or waiting_human review job'')
       (let r = (if autoFresh then resolveOverrideSession e s0 sid0 jid else (sid0, s0)); sid = fst r; s = snd r in
        bind_ok (fetch (session_of s sid)) (\<lambda>x.
        guard_ok (s_run x = j_run j) (invalid ''override session does not belong to the job run'')
        (guard_ok (s_state x = ''active'') (invalid ''override session must be active'')
        (guard_ok (\<not> has_own_verdict s jid sid) (invalid ''override session already has a verdict for this job'')
        (if (case latest_any_verdict s jid of None \<Rightarrow> False | Some v \<Rightarrow> isAcceptingVerdict (v_verdict v)) then Inr s
         else guard_ok (e_findings e j) (invalid ''findings artifact'') (apply_override e sid j verdict s))))))))))"

section \<open>Resolving a checkpoint\<close>

definition blocker_of :: "wq \<Rightarrow> string \<Rightarrow> wblocker option" where
  "blocker_of s bid = find (\<lambda>b. b_id b = bid) (w_blockers s)"

definition supersede :: "(qverdict \<Rightarrow> bool) \<Rightarrow> wq \<Rightarrow> wq" where
  "supersede p s = s\<lparr>w_verdicts := upd p (\<lambda>v. v\<lparr>v_superseded := True\<rparr>) (w_verdicts s)\<rparr>"

text \<open>The job of a checkpoint has to wait for a human, with artifacts that can be read.\<close>

definition waiting_job :: "wq \<Rightarrow> string \<Rightarrow> wq_error + wjob" where
  "waiting_job s jid =
     bind_ok (fetch (job_of s jid)) (\<lambda>j.
       guard_ok (j_state j = JWaitingHuman) (invalid ''checkpoint job is not in waiting_human'') (Inr j))"

definition checkpoint_continue :: "wenv \<Rightarrow> wblocker \<Rightarrow> wq \<Rightarrow> wq_error + wq" where
  "checkpoint_continue e b s =
     (let closed = close_blockers (\<lambda>r. b_id r = b_id b) s in
      case b_job b of None \<Rightarrow> Inr closed
      | Some jid \<Rightarrow> bind_ok (waiting_job s jid) (\<lambda>j.
          guard_ok (e_inspectable e j) (invalid ''artifact body is not inspectable'')
           (reopenJobForAttempt e jid ''checkpoint_continue'' closed)))"

definition clearing_time :: "wenv \<Rightarrow> wq \<Rightarrow> string \<Rightarrow> instant" where
  "clearing_time e s jid =
     (case sql_max (map v_created (filter (\<lambda>v. v_job_id v = jid) (w_verdicts s))) of
        None \<Rightarrow> now_string e | Some t \<Rightarrow> t + seconds 1)"

definition checkpoint_override :: "wenv \<Rightarrow> wblocker \<Rightarrow> string \<Rightarrow> wq \<Rightarrow> wq_error + wq" where
  "checkpoint_override e b outcome s =
     guard_ok (b_kind b = ''revision_routing'') (invalid ''checkpoint override only applies to revision_routing checkpoints'')
     (guard_ok (outcome = ''accepted'' \<or> outcome = ''accepted_with_follow_up'') (invalid ''accepting decision outcome'')
     (case b_job b of None \<Rightarrow> Inl (invalid ''no review job to clear'')
      | Some jid \<Rightarrow> bind_ok (waiting_job s jid) (\<lambda>j.
          guard_ok (e_inspectable e j) (invalid ''artifact body is not inspectable'')
          (bind_ok (end_waiting (\<lambda>r. r\<lparr>j_state := JCompleted, j_lease := None, j_message := None\<rparr>) MCompleted j
              (close_blockers (\<lambda>r. b_id r = b_id b) s)) (\<lambda>s1.
           let r = resolveOverrideSession e s1 (case b_session b of None \<Rightarrow> ''<nil>'' | Some x \<Rightarrow> x) jid;
               s2 = supersede (\<lambda>v. v_job_id v = jid \<and> v_verdict v = ''needs_revision'' \<and> \<not> v_superseded v) (snd r) in
           bind_ok (store_verdict (override_verdict e (fst r) j ''accept_with_findings'' (clearing_time e s2 jid) s2) s2)
             (\<lambda>s3. bind_ok (maybeEnqueueDownstream e jid s3) (maybeCompleteRun e (b_run b))))))))"

definition checkpoint_cancel :: "wenv \<Rightarrow> wblocker \<Rightarrow> wq \<Rightarrow> wq_error + wq" where
  "checkpoint_cancel e b s =
     (let closed = close_blockers (\<lambda>r. b_id r = b_id b) s in
      bind_ok (case b_job b of None \<Rightarrow> Inr closed
        | Some jid \<Rightarrow> bind_ok (waiting_job s jid) (\<lambda>j.
            end_waiting (\<lambda>r. r\<lparr>j_state := JCanceled, j_lease := None, j_message := None\<rparr>) MCanceled j closed))
       (maybeCompleteRun e (b_run b)))"

definition HandleCheckpointResolve :: "wenv \<Rightarrow> string \<Rightarrow> string \<Rightarrow> string \<Rightarrow> wq \<Rightarrow> wq_error + wq" where
  "HandleCheckpointResolve e bid action decision s =
     guard_ok (bid \<noteq> [] \<and> action \<noteq> []) (schema_invalid ''checkpoint.resolve'')
     (guard_ok (action \<in> {''continue'', ''cancel'', ''override''}) (invalid ''unknown checkpoint resolve action'')
     (guard_ok (\<not> (action = ''override'' \<and> decision = [])) (schema_invalid ''override requires decision_id'')
     (bind_ok (fetch (blocker_of s bid)) (\<lambda>b.
      guard_ok (b_open b) (invalid ''blocker is not open'')
      (guard_ok (b_severity b = ''human_checkpoint'') (invalid ''only applies to human_checkpoint blockers'')
       (bind_ok (if decision = [] then Inr [] else fetch (e_outcome e (b_run b) decision)) (\<lambda>outcome.
         if action = ''continue'' then checkpoint_continue e b s
         else if action = ''override'' then checkpoint_override e b outcome s
         else checkpoint_cancel e b s)))))))"

section \<open>Invalidating a review\<close>

definition HandleRecoveryInvalidateJob :: "wenv \<Rightarrow> string \<Rightarrow> string \<Rightarrow> wq \<Rightarrow> wq_error + wq" where
  "HandleRecoveryInvalidateJob e jid decision s =
     guard_ok (jid \<noteq> [] \<and> decision \<noteq> []) (schema_invalid ''recovery.invalidate_job'')
     (bind_ok (fetch (job_of s jid)) (\<lambda>j.
      guard_ok (verdict_capable j) (invalid ''valid only for verdict-capable jobs'')
      (guard_ok (j_state j = JCompleted) (invalid ''requires a completed job'')
      (bind_ok (fetch (run_of s (j_run j))) (\<lambda>r.
       guard_ok (r_state r = RRunning) (invalid ''requires a running run'')
       (bind_ok (case latest_verdict s jid of None \<Rightarrow> Inl (invalid ''no active verdict to invalidate'') | Some v \<Rightarrow> Inr v) (\<lambda>v.
        guard_ok (e_override e (v_session v) jid decision) (invalid ''decision'')
        (let s1 = supersede (\<lambda>v. v_job_id v = jid \<and> \<not> v_superseded v) s in
         bind_ok (reset_each (downstream_jobs s1 jid) s1) (\<lambda>s2.
         bind_ok (resetJobToBlocked ''job_invalidated'' jid s2) (enqueueJob e jid))))))))))"

end
