(* ===== verification/WorkSafety.thy ===== *)
theory WorkSafety
  imports WorkInvariants WorkOverride
begin

text \<open>
  Every operation of the queue keeps the invariant. The row updates of the handlers fall into a few
  groups: a lease is given up, a message is offered, a claim is made, a job is reset.
\<close>

section \<open>Groups of row updates\<close>

lemma wq_ok_cong:
  "w_jobs s' = w_jobs s \<Longrightarrow> w_msgs s' = w_msgs s \<Longrightarrow> w_leases s' = w_leases s \<Longrightarrow> wq_ok s' = wq_ok s"
  by (simp add: wq_ok_def keys_ok_def msg_keys_def job_of_def active_of_def live_of_def)

lemma record_activityD:
  "record_activity e sid cols s = Inr s' \<Longrightarrow> \<exists>x. s' = s\<lparr>w_sessions := x\<rparr>"
  by (auto simp: record_activity_def Let_def split: if_splits sum.splits intro: exI[of _ "w_sessions s"])

lemma record_activity_ok: "record_activity e sid cols s = Inr s' \<Longrightarrow> wq_ok s' = wq_ok s"
  by (drule record_activityD, elim exE, hypsubst, rule wq_ok_cong) simp_all

lemma active_of_give_up:
  assumes "wq_ok s" "l \<in> set (w_leases s)" "l_state l = LActive" "\<And>l. l_state (g l) \<noteq> LActive"
  shows "active_of (set_leases (\<lambda>r. l_id r = l_id l) g s) k = (if k = l_job l then [] else active_of s k)"
proof -
  have uniq: "r = l" if "r \<in> set (w_leases s)" "l_id r = l_id l" for r
    using that assms(1,2) by (metis wq_ok_keys keys_ok_def distinct_map inj_onD)
  have "l_id r \<noteq> l_id l" if "r \<in> set (active_of s k)" "k \<noteq> l_job l" for r
    using that uniq[of r] by (auto simp: active_of_def)
  then have "filter (\<lambda>r. l_id r \<noteq> l_id l) (active_of s k) = active_of s k" if "k \<noteq> l_job l"
    using that by simp
  moreover have "filter (\<lambda>r. l_id r \<noteq> l_id l) (active_of s (l_job l)) = []"
    by (rule held[OF assms(1-3)]) simp
  ultimately show ?thesis using assms(4) by (simp add: slice_simps)
qed

text \<open>
  A lease is given up: the job leaves it, and its message is either offered again, with the job
  queued, or put aside.
\<close>

lemma give_up:
  assumes ok: "wq_ok s" and l: "l \<in> set (w_leases s)" "l_state l = LActive"
    and st: "set_msgs (\<lambda>r. m_id r = mid) (\<lambda>r. r\<lparr>m_state := st, m_lease := None\<rparr>)
      (set_job (l_job l) (\<lambda>r. r\<lparr>j_state := jst, j_lease := None\<rparr>) (set_leases (\<lambda>r. l_id r = l_id l) g s)) = Inr s'"
    and g: "\<And>l. l_state (g l) \<noteq> LActive" "\<And>l. l_id (g l) = l_id l"
    and m: "m \<in> set (w_msgs s)" "m_id m = mid" "m_job m = l_job l"
    and how: "st = MPending \<and> jst = JQueued \<or> \<not> live_state st \<and> jst \<noteq> JQueued"
  shows "wq_ok s'"
proof (rule wq_okI[OF ok, where k = "l_job l"])
  let ?s1 = "set_job (l_job l) (\<lambda>r. r\<lparr>j_state := jst, j_lease := None\<rparr>) (set_leases (\<lambda>r. l_id r = l_id l) g s)"
  obtain j m0 where h: "job_of s (l_job l) = Some j" "live_of s (l_job l) = [m0]" "j_message j = Some (m_id m0)"
      "m_state m0 = MClaimed \<or> m_state m0 = MAcked" "j_run j = l_run l"
    using held[OF ok l] by metis
  have keys: "keys_ok ?s1" using wq_ok_keys[OF ok] g by (intro keys_set_job keys_set_leases) auto
  show "keys_ok s'" by (rule keys_set_msgs(1)[OF keys st]) simp
  have act: "active_of s' k = (if k = l_job l then [] else active_of s k)" for k
    using set_msgs_tables(2)[OF st] active_of_give_up[OF ok l g(1)] by (simp add: slice_simps)
  have job: "job_of s' k = (if k = l_job l then Some (j\<lparr>j_state := jst, j_lease := None\<rparr>) else job_of s k)" for k
    using set_msgs_tables(1)[OF st] h(1) by (simp add: slice_simps)
  have m0: "m0 \<in> set (w_msgs s)" "m_job m0 = l_job l" "live_state (m_state m0)"
    using h(2) by (auto simp: live_of_def filter_eq_Cons_iff)
  have ok0: "message_ok j m0" using wq_ok_slice[OF ok, of "l_job l"] h(1,2) by simp
  show "slice_ok (job_of s' (l_job l)) (active_of s' (l_job l)) (live_of s' (l_job l))"
  proof (cases "st = MPending")
    case True
    then have q: "jst = JQueued" using how by (auto simp: live_state_def)
    have lv: "live_of s' (l_job l) = [m\<lparr>m_state := st, m_lease := None\<rparr>]"
      using set_msgs_live[OF st _ m(2), of "l_job l"] m True keys by (simp add: slice_simps keys_ok_def live_state_def)
    have "m_id m0 = mid"
    proof (rule ccontr)
      assume "m_id m0 \<noteq> mid"
      then have "m0 \<in> set (live_of s' (l_job l))"
        using store_msgsD[OF st[unfolded set_msgs_def]] m0 by (force simp: live_of_def set_upd slice_simps)
      with lv m(2) \<open>m_id m0 \<noteq> mid\<close> show False by simp
    qed
    moreover from this have "m0 = m" using m(1,2) m0(1) wq_ok_keys[OF ok]
      by (metis keys_ok_def distinct_map inj_onD)
    ultimately show ?thesis using job act lv ok0 q True by (simp add: message_ok_def)
  next
    case False
    then have nl: "\<not> live_state st" "jst \<noteq> JQueued" using how by auto
    have "live_of s' (l_job l) = filter (\<lambda>m. m_id m \<noteq> mid) [m0]"
      using set_msgs_drop[OF st] nl(1) h(2) by (simp add: slice_simps)
    then show ?thesis using job act ok0 nl(2) h(4) by (auto simp: message_ok_def)
  qed
  fix i assume i: "i \<noteq> l_job l"
  have "live_of s' i = live_of s i"
  proof (cases "st = MPending")
    case True
    then show ?thesis
      using set_msgs_live[OF st _ m(2), of i] m True keys i by (simp add: slice_simps keys_ok_def live_state_def)
  next
    case False
    have "x = m" if "x \<in> set (w_msgs s)" "m_id x = mid" for x
      using that m(1,2) wq_ok_keys[OF ok] by (metis keys_ok_def distinct_map inj_onD)
    moreover have "live_of s' i = filter (\<lambda>m. m_id m \<noteq> mid) (live_of s i)"
      using set_msgs_drop[OF st] False how by (simp add: slice_simps)
    ultimately show ?thesis using m(3) i by (auto simp: live_of_def intro!: filter_cong)
  qed
  then show "job_of s' i = job_of s i \<and> active_of s' i = active_of s i \<and> live_of s' i = live_of s i"
    using job act i by simp
qed

text \<open>A job without lease gets a new message.\<close>

lemma offer_new:
  assumes ok: "wq_ok s" and j: "job_of s k = Some j" "j_run j' = j_run j" "j_id j' = k" and free: "active_of s k = []"
    and st: "store_msgs (w_msgs s @ [new_message e mid j']) s = Inr s1"
    and f: "\<And>j. j_id (f j) = j_id j \<and> j_run (f j) = j_run j" "\<And>j. j_state (f j) = JQueued"
      "\<And>j. j_message (f j) = Some mid"
  shows "wq_ok (set_job k f s1)"
proof (rule wq_okI[OF ok, where k = k])
  let ?ms = "w_msgs s @ [new_message e mid j']"
  have s1: "s1 = s\<lparr>w_msgs := ?ms\<rparr>" "distinct (map m_id ?ms)"
      "distinct (map m_job (filter (\<lambda>m. live_state (m_state m)) ?ms))"
    using store_msgsD[OF st] by auto
  have new: "m_job (new_message e mid j') = k" "m_state (new_message e mid j') = MPending"
      "m_id (new_message e mid j') = mid" "m_run (new_message e mid j') = j_run j"
    using j by (simp_all add: new_message_def)
  have lv: "live_of s1 k = [new_message e mid j']"
    using single_live[OF s1(3), of "new_message e mid j'"] new s1(1) by (simp add: live_state_def)
  have keys1: "keys_ok s1"
  proof -
    have "msg_keys s \<subseteq> msg_keys s1" by (auto simp: msg_keys_def s1(1))
    then show ?thesis using wq_ok_keys[OF ok] s1(1,2) current_ok_mono
      unfolding keys_ok_def list_all_iff by (metis (no_types, lifting) wq.select_convs(1-3) wq.surjective wq.update_convs(2))
  qed
  moreover have "current_ok (msg_keys s1) (f j)" using f new j job_ofD[OF j(1)]
    by (simp add: current_ok_def s1(1) msg_keys_def)
  ultimately show "keys_ok (set_job k f s1)"
    by (intro keys_set_job) (use f j s1 in \<open>auto simp: slice_simps\<close>)
  show "slice_ok (job_of (set_job k f s1) k) (active_of (set_job k f s1) k) (live_of (set_job k f s1) k)"
    using f j free lv new s1(1) by (simp add: slice_simps message_ok_def)
  fix i assume "i \<noteq> k"
  then show "job_of (set_job k f s1) i = job_of s i \<and> active_of (set_job k f s1) i = active_of s i \<and>
      live_of (set_job k f s1) i = live_of s i"
    using f new s1(1) by (simp add: slice_simps) (simp add: live_of_def)
qed

lemma no_lease_unless_working:
  "wq_ok s \<Longrightarrow> job_of s k = Some j \<Longrightarrow> j_state j \<noteq> JClaimed \<Longrightarrow> j_state j \<noteq> JRunning \<Longrightarrow> active_of s k = []"
  using wq_ok_slice[of s k] by (cases "active_of s k") (auto simp: lease_ok_def)

lemma enqueueJob_ok: "wq_ok s \<Longrightarrow> enqueueJob e k s = Inr s' \<Longrightarrow> wq_ok s'"
  by (auto simp: enqueueJob_def check_simps intro!: offer_new[where e = e] dest: job_ofD
      intro: no_lease_unless_working)

text \<open>The leases of a job are dropped.\<close>

lemma drop_leases:
  assumes ok: "wq_ok s" and g: "\<And>l. l_state (g l) \<noteq> LActive" "\<And>l. l_id (g l) = l_id l"
  shows "wq_ok (set_leases (\<lambda>l. l_job l = k \<and> l_state l = LActive) g s)" (is "wq_ok ?s")
proof (rule wq_okI[OF ok, where k = k])
  show "keys_ok ?s" using wq_ok_keys[OF ok] g(2) by (rule keys_set_leases)
  show "slice_ok (job_of ?s k) (active_of ?s k) (live_of ?s k)"
    using wq_ok_slice[OF ok, of k] g(1) by (cases "job_of s k") (auto simp: slice_simps)
qed (use g(1) in \<open>simp add: slice_simps\<close>)

text \<open>The current message of a job without lease is offered again.\<close>

lemma offer_again:
  assumes ok: "wq_ok s" and j: "job_of s k = Some j" "j_message j = Some (m_id m)" and m: "m \<in> set (w_msgs s)"
    and free: "active_of s k = []"
    and st: "set_msgs (\<lambda>r. m_id r = m_id m) (\<lambda>r. r\<lparr>m_state := MPending, m_lease := None\<rparr>)
      (set_job k (\<lambda>r. r\<lparr>j_state := JQueued, j_lease := None\<rparr>) s) = Inr s'"
  shows "wq_ok s'"
proof (rule wq_okI[OF ok, where k = k])
  let ?s1 = "set_job k (\<lambda>r. r\<lparr>j_state := JQueued, j_lease := None\<rparr>) s"
  have cur: "m_job m = k" "m_run m = j_run j" using current_message[OF wq_ok_keys[OF ok] j m] by auto
  have keys: "keys_ok ?s1" using wq_ok_keys[OF ok] by (intro keys_set_job) auto
  show "keys_ok s'" by (rule keys_set_msgs(1)[OF keys st]) simp
  have lv: "live_of s' i = (if i = k then [m\<lparr>m_state := MPending, m_lease := None\<rparr>] else live_of s i)" for i
    using set_msgs_live[OF st _ refl, of i] m cur(1) keys by (simp add: slice_simps keys_ok_def live_state_def)
  show "slice_ok (job_of s' k) (active_of s' k) (live_of s' k)"
    using set_msgs_tables(1,2)[OF st] lv j cur free by (simp add: slice_simps message_ok_def)
  fix i assume "i \<noteq> k"
  then show "job_of s' i = job_of s i \<and> active_of s' i = active_of s i \<and> live_of s' i = live_of s i"
    using set_msgs_tables(1,2)[OF st] lv by (simp add: slice_simps)
qed

lemma requeue_messageD:
  assumes "wq_ok s" "job_of s (j_id j) = Some j" "requeue_message s j = Some m"
  shows "m \<in> set (w_msgs s) \<and> j_message j = Some (m_id m)"
proof (cases "case j_message j of None \<Rightarrow> None | Some mid \<Rightarrow> msg_of s mid")
  case None
  let ?ms = "sort_key m_created (sort_key m_id (filter (\<lambda>m. m_job m = j_id j \<and> live_state (m_state m)) (w_msgs s)))"
  obtain ms where "rev ?ms = m # ms"
    using assms(3) None by (cases "rev ?ms") (simp_all add: requeue_message_def)
  then have "m \<in> set (rev ?ms)" by (metis list.set_intros(1))
  then have m: "m \<in> set (w_msgs s)" "m \<in> set (live_of s (j_id j))" by (auto simp: live_of_def)
  then show ?thesis using wq_ok_slice[OF assms(1), of "j_id j"] assms(2) by (auto simp: list_all_iff message_ok_def)
next
  case (Some x)
  then show ?thesis using assms(3) by (auto simp: requeue_message_def split: option.splits dest: msg_ofD)
qed

lemma requeue_ok:
  assumes ok: "wq_ok s" and j: "job_of s (j_id j) = Some j" and st: "requeueJobSameAttempt e j s = Inr (b, s')"
  shows "wq_ok s'"
proof -
  let ?s1 = "set_leases (\<lambda>l. l_job l = j_id j \<and> l_state l = LActive)
    (\<lambda>l. l\<lparr>l_state := LExpired, l_reason := ''recovery_requeue''\<rparr>) s"
  have ok1: "wq_ok ?s1" by (rule drop_leases[OF ok]) simp_all
  have j1: "job_of ?s1 (j_id j) = Some j" and free: "active_of ?s1 (j_id j) = []"
    using j by (simp_all add: slice_simps)
  have insert: "wq_ok s2" if "insertPendingMessageForJob e j ?s1 = Inr s2" for s2
    using that by (auto simp: insertPendingMessageForJob_def check_simps j1 intro!: offer_new[OF ok1 j1 _ _ free])
  show ?thesis
  proof (cases "requeue_message ?s1 j")
    case None
    then show ?thesis using st insert by (auto simp: requeueJobSameAttempt_def check_simps)
  next
    case (Some m)
    from requeue_messageD[OF ok1 j1 this] have "m \<in> set (w_msgs ?s1)" "j_message j = Some (m_id m)" by auto
    then show ?thesis using st Some insert offer_again[OF ok1 j1 _ _ free, of m] ok1
      by (auto simp: requeueJobSameAttempt_def Let_def check_simps split: if_splits)
  qed
qed

text \<open>A job is reset: no lease, no live message.\<close>

lemma reset_ok:
  assumes ok: "wq_ok s" and st: "resetJobToBlocked r k s = Inr s'"
  shows "wq_ok s'"
proof -
  let ?g = "\<lambda>l. l\<lparr>l_state := LReleased, l_reason := (if r = [] then ''revision_cycle'' else r)\<rparr>"
  let ?s1 = "set_leases (\<lambda>l. l_job l = k \<and> l_state l = LActive) ?g s"
  let ?f = "\<lambda>j. j\<lparr>j_state := JBlocked, j_lease := None, j_message := None, j_attempt := j_attempt j + 1\<rparr>"
  have ok1: "wq_ok ?s1" by (rule drop_leases[OF ok]) simp_all
  obtain s2 where m: "set_msgs (\<lambda>m. m_job m = k \<and> (live_state (m_state m) \<or> m_state m = MBlocked))
        (\<lambda>m. m\<lparr>m_state := MCanceled, m_lease := None\<rparr>) ?s1 = Inr s2"
      and s': "w_jobs s' = w_jobs (set_job k ?f s2)" "w_msgs s' = w_msgs (set_job k ?f s2)"
        "w_leases s' = w_leases (set_job k ?f s2)"
    using st by (auto simp: resetJobToBlocked_def Let_def check_simps set_job_def)
  have lv: "live_of s2 i = (if i = k then [] else live_of s i)" for i
    using store_msgsD[OF m[unfolded set_msgs_def]]
    by (auto simp: live_of_def filter_upd_drop live_state_def slice_simps filter_empty_conv intro!: filter_cong)
  have "wq_ok (set_job k ?f s2)"
  proof (rule wq_okI[OF ok1, where k = k])
    show "keys_ok (set_job k ?f s2)"
      using keys_set_msgs[OF wq_ok_keys[OF ok1] m] by (intro keys_set_job) (auto simp: current_ok_def)
    show "slice_ok (job_of (set_job k ?f s2) k) (active_of (set_job k ?f s2) k) (live_of (set_job k ?f s2) k)"
      using set_msgs_tables(1,2)[OF m] lv by (cases "job_of s k") (simp_all add: slice_simps)
    fix i assume "i \<noteq> k"
    then show "job_of (set_job k ?f s2) i = job_of ?s1 i \<and> active_of (set_job k ?f s2) i = active_of ?s1 i \<and>
        live_of (set_job k ?f s2) i = live_of ?s1 i"
      using set_msgs_tables(1,2)[OF m] lv by (simp add: slice_simps)
  qed
  then show ?thesis using wq_ok_cong[OF s'] by simp
qed

section \<open>Compound operations\<close>

lemma fold_ok_enqueue: "wq_ok s \<Longrightarrow> enqueue_each e ks s = Inr s' \<Longrightarrow> wq_ok s'"
  by (induction e ks s rule: enqueue_each.induct)
    (auto simp: check_simps enqueue_if_ready_def split: if_splits option.splits bool.splits intro: enqueueJob_ok)

lemma maybeEnqueueDownstream_ok: "wq_ok s \<Longrightarrow> maybeEnqueueDownstream e k s = Inr s' \<Longrightarrow> wq_ok s'"
  by (auto simp: maybeEnqueueDownstream_def enqueueReadyBlockedJobs_def check_simps dest: fold_ok_enqueue)

lemma reset_each_ok: "wq_ok s \<Longrightarrow> reset_each ks s = Inr s' \<Longrightarrow> wq_ok s'"
  by (induction ks s rule: reset_each.induct) (auto simp: check_simps dest: reset_ok)

text \<open>An update of columns that the invariant does not read.\<close>

lemma same_row_ok:
  assumes ok: "wq_ok s" and f: "\<And>j. j_id (f j) = j_id j \<and> j_run (f j) = j_run j \<and> j_state (f j) = j_state j \<and>
    j_message (f j) = j_message j \<and> j_lease (f j) = j_lease j"
  shows "wq_ok (set_job k f s)"
proof (rule wq_okI[OF ok, where k = k])
  show "keys_ok (set_job k f s)" using wq_ok_keys[OF ok] f by (intro keys_set_job) auto
  show "slice_ok (job_of (set_job k f s) k) (active_of (set_job k f s) k) (live_of (set_job k f s) k)"
    using wq_ok_slice[OF ok, of k] f
    by (cases "job_of s k") (auto simp: slice_simps message_ok_def lease_ok_def list_all_iff)
qed (use f in \<open>simp add: slice_simps\<close>)

lemma bump_ok: "wq_ok s \<Longrightarrow> wq_ok (bumpReviewGeneration e k s)"
  by (simp add: bumpReviewGeneration_def same_row_ok)

lemma reopen_ok: "wq_ok s \<Longrightarrow> reopenJobForAttempt e k r s = Inr s' \<Longrightarrow> wq_ok s'"
  unfolding reopenJobForAttempt_def bind_ok_Inr by (metis reset_each_ok reset_ok bump_ok enqueueJob_ok)

text \<open>The expiry of a lease: the message of the job is its claimed or acked one.\<close>

lemma current_of_lease:
  assumes "wq_ok s" "l \<in> set (w_leases s)" "l_state l = LActive" "job_of s (l_job l) = Some j"
  obtains m where "m \<in> set (w_msgs s)" "j_message j = Some (m_id m)" "m_job m = l_job l"
    "m_state m = MClaimed \<or> m_state m = MAcked"
proof (rule held[OF assms(1-3)])
  fix j' m assume a: "job_of s (l_job l) = Some j'" "live_of s (l_job l) = [m]" "j_message j' = Some (m_id m)"
    "m_state m = MClaimed \<or> m_state m = MAcked"
  then have "m \<in> set (live_of s (l_job l))" by simp
  then have "m \<in> set (w_msgs s)" "m_job m = l_job l" by (auto simp: live_of_def)
  then show ?thesis using that a assms(4) by auto
qed

lemma expire_lease_ok:
  assumes ok: "wq_ok s" and l: "l \<in> set (w_leases s)" "l_state l = LActive" and st: "expire_lease e l s = Inr s'"
  shows "wq_ok s' \<and> w_leases s' = upd (\<lambda>r. l_id r = l_id l) (\<lambda>r. r\<lparr>l_state := LExpired, l_reason := ''expired''\<rparr>) (w_leases s)"
proof (rule held[OF ok l])
  fix j assume j: "job_of s (l_job l) = Some j" "j_id j = l_job l"
  obtain m where m: "m \<in> set (w_msgs s)" "j_message j = Some (m_id m)" "m_job m = l_job l"
    using current_of_lease[OF ok l j(1)] by metis
  let ?jst = "if job_repo_write j then JStaleLease else JQueued"
  let ?st = "if job_repo_write j then MBlocked else MPending"
  have st': "set_msgs (\<lambda>r. m_id r = m_id m) (\<lambda>r. r\<lparr>m_state := ?st, m_lease := None\<rparr>)
      (set_job (l_job l) (\<lambda>r. r\<lparr>j_state := ?jst, j_lease := None\<rparr>)
        (set_leases (\<lambda>r. l_id r = l_id l) (\<lambda>r. r\<lparr>l_state := LExpired, l_reason := ''expired''\<rparr>) s)) = Inr s'"
    using st j m(2) by (simp add: expire_lease_def Let_def)
  have "wq_ok s'" by (rule give_up[OF ok l st' _ _ m(1) refl m(3)]) (auto simp: live_state_def)
  then show ?thesis using set_msgs_tables(4)[OF st'] by (simp add: slice_simps) (simp add: set_leases_def)
qed

lemma expire_each_ok:
  "wq_ok s \<Longrightarrow> expire_each e ls s = Inr s' \<Longrightarrow> distinct (map l_id ls) \<Longrightarrow>
   \<forall>l \<in> set ls. l \<in> set (w_leases s) \<and> l_state l = LActive \<Longrightarrow> wq_ok s'"
proof (induction e ls s rule: expire_each.induct)
  case (2 e l ls s)
  from 2(3) obtain s1 where s1: "expire_lease e l s = Inr s1" "expire_each e ls s1 = Inr s'"
    by (auto simp: check_simps)
  have one: "wq_ok s1" "w_leases s1 = upd (\<lambda>r. l_id r = l_id l) (\<lambda>r. r\<lparr>l_state := LExpired, l_reason := ''expired''\<rparr>) (w_leases s)"
    using expire_lease_ok[OF 2(2) _ _ s1(1)] 2(5) by auto
  have "r \<in> set (w_leases s1) \<and> l_state r = LActive" if "r \<in> set ls" for r
    using that 2(4,5) unfolding one(2) set_upd by (auto intro!: image_eqI[of _ _ r])
  then show ?case using 2(1)[OF one(1) s1(2)] 2(4) by auto
qed simp

lemma expireLeases_ok:
  assumes "wq_ok s" "expireLeases e run s = Inr s'"
  shows "wq_ok s'"
  using assms wq_ok_keys[OF assms(1)] unfolding expireLeases_def
  by (intro expire_each_ok[OF assms(1)]) (auto simp: keys_ok_def distinct_map_filter)

section \<open>Handlers\<close>

lemma job_id_nonempty: "wq_ok s \<Longrightarrow> job_of s k = Some j \<Longrightarrow> k \<noteq> []"
  using job_ofD[of s k j] by (metis wq_ok_keys keys_ok_def imageI)

lemma release_ok:
  assumes ok: "wq_ok s" and st: "HandleReleaseWork e sid mid lid reason requeue transfer s = Inr s'"
  shows "wq_ok s'"
proof -
  let ?g = "\<lambda>l. l\<lparr>l_state := LReleased, l_reason := (if reason = [] then ''released'' else reason)\<rparr>"
  obtain m j l s1 where h: "release_message s mid lid = Some m" "job_of s (m_job m) = Some j"
      "active_lease_for e s lid sid (j_id j) = Inr l" "record_activity e sid [''last_work_release_at''] s1 = Inr s'"
    and st1: "set_msgs (\<lambda>r. m_id r = m_id m)
       (\<lambda>r. r\<lparr>m_state := (if requeue \<and> \<not> job_repo_write j \<or> transfer then MPending else MBlocked), m_lease := None\<rparr>)
       (set_job (j_id j) (\<lambda>r. r\<lparr>j_state := (if requeue \<and> \<not> job_repo_write j \<or> transfer then JQueued else JBlocked), j_lease := None\<rparr>)
         (set_leases (\<lambda>l. l_id l = lid) ?g s)) = Inr s1"
    using st by (auto simp: HandleReleaseWork_def check_simps Let_def)
  have m: "m \<in> set (w_msgs s)"
    using h(1) by (auto simp: release_message_def split: if_splits dest: msg_ofD find_SomeD)
  have j: "j_id j = m_job m" using job_ofD[OF h(2)] by simp
  have l: "l_job l = m_job m" "l \<in> set (w_leases s)" "l_state l = LActive" "l_id l = lid"
    using active_lease_forD[OF h(3)] j job_id_nonempty[OF ok h(2)] by auto
  have "wq_ok s1"
    by (rule give_up[OF ok l(2,3) st1[folded l(4), unfolded j, folded l(1)] _ _ m refl]) (auto simp: live_state_def l(1))
  then show ?thesis using record_activity_ok[OF h(4)] by simp
qed

text \<open>The lease check pins the lease of the job.\<close>

lemma active_lease_of_job:
  assumes "wq_ok s" "job_of s k = Some j" "active_lease_for e s lid sid k = Inr l"
  shows "l \<in> set (w_leases s)" "l_state l = LActive" "l_id l = lid" "l_job l = k" "l_owner l = sid"
  using active_lease_forD[OF assms(3)] job_id_nonempty[OF assms(1,2)] by auto

text \<open>Updates of different tables commute.\<close>

lemma set_job_leases: "set_leases p g (set_job k f s) = set_job k f (set_leases p g s)"
  by (simp add: set_job_def set_leases_def)

lemma set_msgs_leases:
  "set_msgs p f s = Inr s' \<Longrightarrow> set_msgs p f (set_leases q g s) = Inr (set_leases q g s')"
  by (auto simp: set_msgs_def store_msgs_def set_leases_def split: if_splits)

lemma block_ok:
  assumes ok: "wq_ok s" and st: "HandleBlockWork e q0 s = Inr s'"
  shows "wq_ok s'"
proof -
  obtain q j l where q: "normalizeBlockWork q0 = Inr q" and j: "job_of s (br_job q) = Some j"
      and al: "active_lease_for e s (br_lease q) (br_session q) (br_job q) = Inr l"
    using st by (auto simp: HandleBlockWork_def check_simps)
  note l = active_lease_of_job[OF ok j al]
  obtain m where m: "m \<in> set (w_msgs s)" "j_message j = Some (m_id m)" "m_job m = l_job l"
    using current_of_lease[OF ok l(1,2)] j l(4) by metis
  define bs where "bs = w_blockers s @ [\<lparr>b_id = e_newID e ''blk'' (length (w_blockers s)),
      b_run = j_run j, b_job = Some (br_job q), b_session = Some (br_session q), b_severity = br_severity q, b_kind = br_kind q, b_open = True\<rparr>]"
  let ?t = "s\<lparr>w_blockers := bs\<rparr>"
  have okt: "wq_ok ?t" using ok wq_ok_cong[of ?t s] by simp
  let ?jst = "if br_severity q = ''human_checkpoint'' then JWaitingHuman else JBlocked"
  obtain s1 where s1: "set_msgs (\<lambda>r. m_id r = m_id m) (\<lambda>r. r\<lparr>m_state := MBlocked, m_lease := None\<rparr>)
       (set_job (l_job l) (\<lambda>r. r\<lparr>j_state := ?jst, j_lease := None\<rparr>)
         (set_leases (\<lambda>r. l_id r = l_id l) (\<lambda>l. l\<lparr>l_state := LReleased, l_reason := ''blocked''\<rparr>) ?t)) = Inr s1"
    "record_activity e (br_session q) [''last_work_block_at''] s1 = Inr s'"
    using st q j al m(2) l(3,4) by (auto simp: HandleBlockWork_def check_simps Let_def set_job_leases bs_def)
  have "wq_ok s1"
    by (rule give_up[OF okt _ _ s1(1) _ _ _ refl m(3)]) (use l m in \<open>auto simp: live_state_def\<close>)
  then show ?thesis using record_activity_ok[OF s1(2)] by simp
qed

lemma settle_ok:
  assumes ok: "wq_ok s" and j: "job_of s (l_job l) = Some j" and l: "l \<in> set (w_leases s)" "l_state l = LActive" "l_id l = lid"
    and st: "settle_rows jst mst why j lid s = Inr s'" and how: "\<not> live_state mst" "jst \<noteq> JQueued"
  shows "wq_ok s'"
proof -
  obtain m where m: "m \<in> set (w_msgs s)" "j_message j = Some (m_id m)" "m_job m = l_job l"
    using current_of_lease[OF ok l(1,2) j] by metis
  let ?g = "\<lambda>l. l\<lparr>l_state := LReleased, l_reason := why\<rparr>"
  have jk: "j_id j = l_job l" using job_ofD[OF j] by simp
  obtain s1 where s1: "set_msgs (\<lambda>r. m_id r = m_id m) (\<lambda>r. r\<lparr>m_state := mst, m_lease := None\<rparr>)
        (set_job (l_job l) (\<lambda>r. r\<lparr>j_state := jst, j_lease := None\<rparr>) s) = Inr s1"
      "s' = set_leases (\<lambda>r. l_id r = l_id l) ?g s1"
    using st m(2) l(3) jk by (auto simp: settle_rows_def Let_def check_simps)
  show ?thesis unfolding s1(2)
    by (rule give_up[OF ok l(1,2) set_msgs_leases[OF s1(1), of "\<lambda>r. l_id r = l_id l" ?g, unfolded set_job_leases] _ _ m(1) refl m(3)])
      (use how in auto)
qed

lemma complete_rows_ok:
  assumes ok: "wq_ok s" and j: "job_of s k = Some j" and al: "active_lease_for e s lid sid k = Inr l"
    and st: "complete_rows e sid j lid s = Inr s'"
  shows "wq_ok s'"
proof -
  note l = active_lease_of_job[OF ok j al]
  obtain s1 where "settle_rows JCompleted MCompleted ''completed'' j lid s = Inr s1"
      "record_activity e sid [''last_work_complete_at''] s1 = Inr s'"
    using st by (auto simp: complete_rows_def check_simps)
  then show ?thesis
    using settle_ok[OF ok _ l(1-3)] j l(4) by (auto simp: live_state_def dest: record_activity_ok)
qed

lemma run_tables: "wq_ok (set_run k f s) = wq_ok s" "wq_ok (close_remaining_sessions k s) = wq_ok s"
    "wq_ok (escalate_provenance e k s) = wq_ok s" "wq_ok (resolve_blockers b k s) = wq_ok s"
  by (rule wq_ok_cong; simp add: set_run_def close_remaining_sessions_def escalate_provenance_def resolve_blockers_def Let_def)+

lemma maybeCompleteRun_ok: "wq_ok s \<Longrightarrow> maybeCompleteRun e run s = Inr s' \<Longrightarrow> wq_ok s'"
  by (auto simp: maybeCompleteRun_def check_simps Let_def run_tables split: if_splits)

lemma resolve_ok: "wq_ok s \<Longrightarrow> resolveAutonomousBlockersOnCompletion run k s = Inr s' \<Longrightarrow> wq_ok s'"
  by (auto simp: resolveAutonomousBlockersOnCompletion_def check_simps Let_def run_tables split: if_splits)

lemma complete_ok:
  assumes ok: "wq_ok s" and st: "HandleCompleteWork e sid k lid s = Inr s'"
  shows "wq_ok s'"
proof -
  obtain j where j: "job_of s k = Some j" using st by (auto simp: HandleCompleteWork_def Let_def check_simps)
  show ?thesis
  proof (cases "verdict_capable j \<and> j_state j = JCompleted")
    case True
    then show ?thesis using st j ok by (auto simp: HandleCompleteWork_def Let_def check_simps)
  next
    case False
    then obtain l s1 s2 s3 where "active_lease_for e s lid sid k = Inr l" "complete_rows e sid j lid s = Inr s1"
        "resolveAutonomousBlockersOnCompletion (j_run j) k s1 = Inr s2"
        "maybeEnqueueDownstream e k s2 = Inr s3" "maybeCompleteRun e (j_run j) s3 = Inr s'"
      using st j by (auto simp: HandleCompleteWork_def Let_def check_simps)
    then show ?thesis using complete_rows_ok[OF ok j] resolve_ok maybeEnqueueDownstream_ok maybeCompleteRun_ok by metis
  qed
qed

lemma ack_rows_ok:
  assumes ok: "wq_ok s" and m: "m \<in> set (w_msgs s)" "m_id m = mid" and j: "job_of s (m_job m) = Some j"
    and cl: "m_state m = MClaimed" "j_state j = JClaimed"
    and s1: "set_msgs (\<lambda>r. m_id r = mid) (\<lambda>r. r\<lparr>m_state := MAcked\<rparr>) s = Inr s1"
  shows "wq_ok (set_job (m_job m) (\<lambda>r. r\<lparr>j_state := JRunning\<rparr>) s1)" (is "wq_ok ?s2")
proof -
  let ?f = "\<lambda>r. r\<lparr>m_state := MAcked\<rparr>"
  have "m \<in> set (live_of s (m_job m))" using m cl by (simp add: live_of_def live_state_def)
  then have lv: "live_of s (m_job m) = [m]" "message_ok j m"
    using wq_ok_slice[OF ok, of "m_job m"] j by (auto simp: le_Suc_eq length_Suc_conv)
  have lv': "live_of s1 k = (if k = m_job m then [?f m] else live_of s k)" for k
    using set_msgs_live[OF s1 m] wq_ok_keys[OF ok] by (simp add: keys_ok_def live_state_def)
  show ?thesis
  proof (rule wq_okI[OF ok, where k = "m_job m"])
    show "keys_ok ?s2" using keys_set_msgs(1)[OF wq_ok_keys[OF ok] s1] by (intro keys_set_job) auto
    show "slice_ok (job_of ?s2 (m_job m)) (active_of ?s2 (m_job m)) (live_of ?s2 (m_job m))"
      using wq_ok_slice[OF ok, of "m_job m"] j lv lv' set_msgs_tables(1,2)[OF s1]
      by (auto simp: slice_simps message_ok_def lease_ok_def list_all_iff)
  qed (use lv' set_msgs_tables(1,2)[OF s1] in \<open>simp add: slice_simps\<close>)
qed

lemma ack_ok:
  assumes ok: "wq_ok s" and st: "HandleAckWork e sid mid lid s = Inr s'"
  shows "wq_ok s'"
proof -
  obtain m j l where m: "m \<in> set (w_msgs s)" "m_id m = mid" and j: "job_of s (m_job m) = Some j"
      and al: "active_lease_for e s lid sid (j_id j) = Inr l"
    using st by (auto simp: HandleAckWork_def check_simps dest!: msg_ofD)
  show ?thesis
  proof (cases "m_state m = MAcked")
    case True
    then have "s' = s"
      using st m wq_ok_keys[OF ok] find_key[of m_id "w_msgs s" m]
      by (auto simp: HandleAckWork_def check_simps keys_ok_def msg_of_def)
    then show ?thesis using ok by simp
  next
    case False
    obtain s1 where s1: "set_msgs (\<lambda>r. m_id r = mid) (\<lambda>r. r\<lparr>m_state := MAcked\<rparr>) s = Inr s1"
        "record_activity e sid [''last_ack_at''] (set_job (m_job m) (\<lambda>r. r\<lparr>j_state := JRunning\<rparr>) s1) = Inr s'"
        and cl: "m_state m = MClaimed" "j_state j = JClaimed"
      using st m False wq_ok_keys[OF ok] find_key[of m_id "w_msgs s" m] job_ofD[OF j] j
      by (auto simp: HandleAckWork_def check_simps keys_ok_def msg_of_def)
    show ?thesis using record_activity_ok[OF s1(2)] ack_rows_ok[OF ok m j cl s1(1)] by simp
  qed
qed

lemma heartbeat_ok:
  assumes ok: "wq_ok s" and st: "HandleHeartbeat e sid lid secs w s = Inr s'"
  shows "wq_ok s'"
proof -
  let ?f = "\<lambda>l. l\<lparr>l_heartbeat := now_string e, l_expires := expires_after e secs\<rparr>"
  let ?s1 = "set_leases (\<lambda>l. l_id l = lid) ?f s"
  have act: "active_of ?s1 k = upd (\<lambda>l. l_id l = lid) ?f (active_of s k)" for k
    by (simp add: active_of_def set_leases_def filter_upd_keep)
  have "slice_ok (job_of ?s1 k) (active_of ?s1 k) (live_of ?s1 k)" for k
    using wq_ok_slice[OF ok, of k]
    by (cases "job_of s k") (auto simp: slice_simps act list_all_iff set_upd lease_ok_def, auto simp: upd_def)
  then have "wq_ok ?s1" using keys_set_leases[OF wq_ok_keys[OF ok], of ?f] by (simp add: wq_ok_def)
  moreover obtain cols where "record_activity e sid cols ?s1 = Inr s'"
    using st by (auto simp: HandleHeartbeat_def check_simps)
  ultimately show ?thesis using record_activity_ok by metis
qed

lemma store_packet_ok: "store_packet p s = Inr s' \<Longrightarrow> wq_ok s' = wq_ok s"
  by (rule wq_ok_cong; clarsimp simp: store_packet_def split: if_splits)

lemma claim_candidate:
  assumes "m \<in> set (claim_candidates s x)"
  shows "m \<in> set (w_msgs s)" "claimable s x m"
  using assms by (auto simp: claim_candidates_def)

lemma claimChosenJob_ok:
  assumes ok: "wq_ok s" and m: "m \<in> set (w_msgs s)" "claimable s x m" and j: "job_of s (m_job m) = Some j"
    and st: "claimChosenJob e x j m secs s = Inr (r, s')"
  shows "wq_ok s'"
proof -
  define l where "l = \<lparr>l_id = e_newID e ''lease'' (length (w_leases s)), l_run = s_run x, l_job = j_id j, l_owner = s_id x,
      l_state = LActive, l_acquired = now_string e, l_expires = expires_after e secs, l_heartbeat = now_string e, l_reason = []\<rparr>"
  let ?f = "\<lambda>r. r\<lparr>m_state := MClaimed, m_lease := Some (l_id l), m_claims := m_claims r + 1\<rparr>"
  let ?g = "\<lambda>r. r\<lparr>j_state := JClaimed, j_lease := Some (l_id l)\<rparr>"
  have jm: "j_id j = m_job m" using job_ofD[OF j] by simp
  obtain s1 s2 s3 where s1: "store_leases (w_leases s @ [l]) s = Inr s1"
      and s2: "set_msgs (\<lambda>r. m_id r = m_id m) ?f s1 = Inr s2"
      and s3: "wq_ok s' = wq_ok (set_job (m_job m) ?g s2)"
    using st jm by (auto simp: claimChosenJob_def Let_def check_simps l_def dest!: store_packet_ok record_activity_ok)
  have e1: "s1 = s\<lparr>w_leases := w_leases s @ [l]\<rparr>" "distinct (map l_id (w_leases s @ [l]))"
      "distinct (map l_job (filter (\<lambda>l. l_state l = LActive) (w_leases s @ [l])))"
    using store_leasesD[OF s1] by auto
  have lj: "l_job l = m_job m" "l_state l = LActive" "l_run l = s_run x" by (simp_all add: l_def jm)
  have a1: "active_of s1 k = (if k = m_job m then [l] else active_of s k)" for k
    using single_active[OF e1(3), of l] lj e1(1) by (auto simp: active_of_def)
  have rest: "job_of s1 = job_of s" "live_of s1 = live_of s" "w_msgs s1 = w_msgs s" "w_jobs s1 = w_jobs s"
    using e1(1) by (auto simp: job_of_def live_of_def fun_eq_iff)
  have k1: "keys_ok s1" using wq_ok_keys[OF ok] e1 by (simp add: keys_ok_def msg_keys_def)
  have mp: "m_state m = MPending" "m_run m = s_run x" using m(2) by (auto simp: claimable_def)
  have "m \<in> set (live_of s (m_job m))" using m(1) mp by (simp add: live_of_def live_state_def)
  then have lv: "message_ok j m" using wq_ok_slice[OF ok, of "m_job m"] j by (auto simp: list_all_iff)
  have lv2: "live_of s2 k = (if k = m_job m then [?f m] else live_of s k)" for k
    using set_msgs_live[OF s2, of m k] m(1) rest k1 by (simp add: keys_ok_def live_state_def)
  let ?s = "set_job (m_job m) ?g s2"
  have "wq_ok ?s"
  proof (rule wq_okI[OF ok, where k = "m_job m"])
    show "keys_ok ?s" using keys_set_msgs(1)[OF k1 s2] by (intro keys_set_job) auto
    show "slice_ok (job_of ?s (m_job m)) (active_of ?s (m_job m)) (live_of ?s (m_job m))"
      using j lv lv2 a1 rest(1) set_msgs_tables(1,2)[OF s2] lj mp
      by (simp add: slice_simps message_ok_def lease_ok_def)
  qed (use lv2 a1 rest(1) set_msgs_tables(1,2)[OF s2] in \<open>simp add: slice_simps\<close>)
  then show ?thesis using s3 by simp
qed

lemma claim_ok:
  assumes ok: "wq_ok s" and st: "HandleClaimNext e sid secs s = Inr (r, s')"
  shows "wq_ok s'"
proof -
  obtain x s1 where x: "session_of s sid = Some x" "expireLeases e (s_run x) s = Inr s1"
    using st by (auto simp: HandleClaimNext_def check_simps)
  have ok1: "wq_ok s1" by (rule expireLeases_ok[OF ok x(2)])
  show ?thesis
  proof (cases "s' = s1")
    case False
    then obtain m ms j secs' where "claim_candidates s1 x = m # ms" "job_of s1 (m_job m) = Some j"
        "claimChosenJob e x j m secs' s1 = Inr (r, s')"
      using st x by (auto simp: HandleClaimNext_def check_simps split: if_splits list.splits)
    then show ?thesis using claimChosenJob_ok[OF ok1] claim_candidate[of m s1 x] by auto
  qed (simp add: ok1)
qed

lemma cancel_ok:
  assumes ok: "wq_ok s" and st: "cancelRunInTx run s = Inr s'"
  shows "wq_ok s'"
proof -
  define c where "c = (\<lambda>j :: wjob. j_run j = run \<and> j_state j \<in> {JBlocked, JQueued, JClaimed, JRunning, JStaleLease, JWaitingHuman})"
  let ?f = "\<lambda>j :: wjob. j\<lparr>j_state := JCanceled\<rparr>"
  let ?t = "\<lambda>s. release_run_leases run (s\<lparr>w_jobs := upd c ?f (w_jobs s)\<rparr>)"
  have act: "active_of (release_run_leases run u) k = filter (\<lambda>l. l_run l \<noteq> run) (active_of u k)" for u k
    by (auto simp: release_run_leases_def active_of_def set_leases_def filter_upd_drop intro!: filter_cong)
  have job: "job_of (?t s) k = map_option (\<lambda>j. if c j then ?f j else j) (job_of s k)" for k
    by (simp add: release_run_leases_def slice_simps) (simp add: job_of_def find_upd)
  have gone: "filter (\<lambda>l. l_run l \<noteq> run) (active_of s k) = []" if "job_of s k = Some j" "j_run j = run" for k j
    using wq_ok_slice[OF ok, of k] that by (auto simp: list_all_iff lease_ok_def filter_empty_conv)
  have stay: "filter (\<lambda>l. l_run l \<noteq> run) (active_of s k) = active_of s k" if "job_of s k = Some j" "j_run j \<noteq> run" for k j
    using wq_ok_slice[OF ok, of k] that by (auto simp: list_all_iff lease_ok_def)
  have none: "active_of s k = [] \<and> live_of s k = []" if "job_of s k = None" for k
    using wq_ok_slice[OF ok, of k] that by simp
  have lv: "live_of (release_run_leases run u) = live_of u" for u by (simp add: release_run_leases_def slice_simps)
  have a: "active_of (s\<lparr>w_jobs := js\<rparr>) = active_of s" "live_of (s\<lparr>w_jobs := js\<rparr>) = live_of s" for js
    by (auto simp: active_of_def live_of_def fun_eq_iff)
  have sl1: "slice_ok (job_of (?t s) k) (active_of (?t s) k) (live_of (?t s) k)" for k
  proof (cases "job_of s k")
    case (Some j)
    then have new: "job_of (?t s) k = Some (if c j then ?f j else j)" using job[of k] by simp
    show ?thesis using wq_ok_slice[OF ok, of k] gone[OF Some] stay[OF Some] Some
      unfolding new act a lv by (cases "j_run j = run") (auto simp: c_def message_ok_def list_all_iff)
  qed (use none in \<open>auto simp: act job a lv\<close>)
  have sl2: "slice_ok (job_of s k) (filter (\<lambda>l. l_run l \<noteq> run) (active_of s k)) (live_of s k)" for k
    using wq_ok_slice[OF ok, of k] by (cases "job_of s k") (auto simp: list_all_iff intro: order_trans[OF length_filter_le])
  have ids: "j_id ` set (upd c ?f (w_jobs s)) = j_id ` set (w_jobs s)" by (simp flip: set_map)
  have k1: "keys_ok (s\<lparr>w_jobs := upd c ?f (w_jobs s)\<rparr>)"
    using wq_ok_keys[OF ok] ids by (auto simp: keys_ok_def msg_keys_def list_all_iff set_upd)
  have "wq_ok (?t s)" using sl1 k1 by (auto simp: wq_ok_def release_run_leases_def intro!: keys_set_leases)
  moreover have "wq_ok (release_run_leases run s)"
    using sl2 wq_ok_keys[OF ok] by (auto simp: wq_ok_def act lv release_run_leases_def slice_simps intro!: keys_set_leases)
      (simp_all add: act[unfolded release_run_leases_def])
  ultimately show ?thesis using st
    by (auto simp: cancelRunInTx_def check_simps run_tables c_def split: if_splits)
qed

lemma close_session_ok:
  assumes ok: "wq_ok s" and st: "HandleCloseSession e sid r q s = Inr s'"
  shows "wq_ok s'"
proof -
  define s1 where "s1 = s\<lparr>w_sessions := upd (\<lambda>y. s_id y = sid) (\<lambda>y. y\<lparr>s_state := ''closed''\<rparr>) (w_sessions s)\<rparr>"
  have ok1: "wq_ok s1" using ok wq_ok_cong[of s1 s] by (simp add: s1_def)
  have "job_of s1 (j_id j) = Some j" if "inflight_job s1 sid = Some j" for j
    using that by (auto simp: inflight_job_def split: list.splits) (metis job_ofD)
  then show ?thesis using st ok ok1 requeue_ok[OF ok1]
    by (auto simp: HandleCloseSession_def check_simps Let_def simp flip: s1_def split: if_splits option.splits)
qed

lemma retryD:
  assumes "HandleRunRetryJob e run k allow s = Inr s'"
  obtains j s1 where "job_of s k = Some j" "j_state j \<in> {JFailed, JCanceled, JBlocked, JCompleted}"
    "reopenJobForAttempt e k ''retry_job'' s = Inr s1" "s' = s1 \<or> s' = set_run run (\<lambda>r. r\<lparr>r_state := RRunning\<rparr>) s1"
proof -
  obtain r :: wrun and j target s1 where h: "job_of s k = Some j"
      "(if j_state j \<notin> {JFailed, JCanceled, JBlocked} \<and> j_state j = JCompleted then isDeclaredCycleTarget s j else Inr False) = Inr target"
      "j_state j \<in> {JFailed, JCanceled, JBlocked} \<or> target" "reopenJobForAttempt e k ''retry_job'' s = Inr s1"
      "(if r_state r = RFailed \<or> r_state r = RCanceled then set_run run (\<lambda>r. r\<lparr>r_state := RRunning\<rparr>) s1 else s1) = s'"
    using assms unfolding HandleRunRetryJob_def Let_def guard_ok_Inr bind_ok_Inr fetch_Inr sum.inject
    by - (elim conjE exE, rule that, assumption+)
  show thesis by (rule that[OF h(1) _ h(4)]) (use h(2,3,5) in \<open>auto split: if_splits\<close>)
qed

lemma retry_ok:
  assumes ok: "wq_ok s" and st: "HandleRunRetryJob e run k allow s = Inr s'"
  shows "wq_ok s'"
  using st by (rule retryD) (use reopen_ok[OF ok] in \<open>auto simp: run_tables\<close>)

lemma force_ok:
  assumes ok: "wq_ok s"
  shows "wq_ok (operator_transfer k s)"
proof -
  let ?f = "\<lambda>j :: wjob. if j_state j \<in> {JClaimed, JRunning} then j\<lparr>j_state := JStaleLease\<rparr> else j"
  let ?s1 = "set_leases (\<lambda>l. l_job l = k \<and> l_state l = LActive)
    (\<lambda>l. l\<lparr>l_state := LExpired, l_reason := ''operator_transfer''\<rparr>) s"
  have ok1: "wq_ok ?s1" by (rule drop_leases[OF ok]) simp_all
  show ?thesis unfolding operator_transfer_def
  proof (rule wq_okI[OF ok1, where k = k])
    show "keys_ok (set_job k ?f ?s1)" using wq_ok_keys[OF ok1] by (intro keys_set_job) auto
    show "slice_ok (job_of (set_job k ?f ?s1) k) (active_of (set_job k ?f ?s1) k) (live_of (set_job k ?f ?s1) k)"
      using wq_ok_slice[OF ok1, of k] by (cases "job_of s k") (auto simp: slice_simps list_all_iff message_ok_def)
  qed (simp add: slice_simps)
qed

lemma requeue_stale_ok:
  assumes ok: "wq_ok s" and st: "HandleRecoveryRequeueStale e run k force why s = Inr s'"
  shows "wq_ok s'"
proof -
  define t where "t = (\<lambda>s1. if force then operator_transfer k s1 else s1)"
  obtain s1 j b where s1: "expireLeases e run s = Inr s1" "stale_row (t s1) run k = Inr j"
      "requeueJobSameAttempt e j (t s1) = Inr (b, s')"
    using st unfolding t_def by (auto simp: HandleRecoveryRequeueStale_def Let_def bind_ok_Inr guard_ok_Inr fetch_Inr)
  have okt: "wq_ok (t s1)" using expireLeases_ok[OF ok s1(1)] by (simp add: t_def force_ok)
  have "j \<in> set (w_jobs (t s1))"
    using s1(2) by (auto simp: stale_row_def Let_def split: if_splits dest: find_SomeD)
  then have "job_of (t s1) (j_id j) = Some j"
    using wq_ok_keys[OF okt] by (simp add: job_of_def keys_ok_def find_key)
  then show ?thesis using requeue_ok[OF okt] s1(3) by blast
qed

end
