(* ===== verification/WorkReviewSafety.thy ===== *)
theory WorkReviewSafety
  imports WorkSafety
begin

text \<open>
  The handlers of verdicts and checkpoints keep the invariant of the queue.
\<close>

section \<open>Tables the invariant does not read\<close>

lemma store_verdictD:
  "store_verdict v s = Inr s' \<Longrightarrow>
   s' = s\<lparr>w_verdicts := insort_key (\<lambda>w. (v_created w, v_id w)) v (w_verdicts s)\<rparr> \<and> v_verdict v \<in> set verdict_values \<and>
   \<not> list_ex (\<lambda>w. v_job_id w = v_job_id v \<and> v_session w = v_session v) (w_verdicts s)"
  by (auto simp: store_verdict_def split: if_splits)

text \<open>A step that changes only what is not a row of a job, a message or a lease.\<close>

definition same_work :: "wq \<Rightarrow> wq \<Rightarrow> bool" where
  "same_work s s' \<longleftrightarrow> w_jobs s' = w_jobs s \<and> w_msgs s' = w_msgs s \<and> w_leases s' = w_leases s"

lemma same_work_refl [simp]: "same_work s s"
  by (simp add: same_work_def)

lemma same_work_trans: "same_work s t \<Longrightarrow> same_work t u \<Longrightarrow> same_work s u"
  by (simp add: same_work_def)

lemma same_work_ok: "same_work s s' \<Longrightarrow> wq_ok s' = wq_ok s"
  by (rule wq_ok_cong) (simp_all add: same_work_def)

lemma same_work_job: "same_work s s' \<Longrightarrow> job_of s' = job_of s"
  by (auto simp: same_work_def job_of_def fun_eq_iff)

lemma same_work_lease: "same_work s s' \<Longrightarrow> active_lease_for e s' lid sid k = active_lease_for e s lid sid k"
  by (simp add: same_work_def active_lease_for_def lease_of_def)

lemma same_work_rows:
  "store_verdict v s = Inr s' \<Longrightarrow> same_work s s'"
  "same_work s (recordDissent j w s)" "same_work s (openAdvisoryGuardBlocker e run g kind s)"
  "same_work s (close_blockers p s)" "same_work s (supersede q s)"
  "same_work s (snd (resolveOverrideSession e s sid k))"
  by (auto simp: same_work_def recordDissent_def openAdvisoryGuardBlocker_def close_blockers_def supersede_def
      resolveOverrideSession_def Let_def dest!: store_verdictD split: option.splits)

lemma same_work_guards: "guard_gates e run gs s = Inr s' \<Longrightarrow> same_work s s'"
proof (induction gs arbitrary: s)
  case (Cons g gs)
  obtain t where t: "guard_gates e run gs t = Inr s'" "same_work s t"
    using Cons.prems same_work_rows(3)
    by (auto simp: check_simps Let_def split: if_splits intro: that)
  then show ?case using Cons.IH same_work_trans by blast
qed simp

lemma same_work_advisory: "applyAdvisoryGuards e k s = Inr s' \<Longrightarrow> same_work s s'"
  by (auto simp: applyAdvisoryGuards_def check_simps dest: same_work_guards)

section \<open>The end of a review\<close>

text \<open>The lease of a verdict: the active lease of its running job.\<close>

lemma settle_review_ok:
  assumes ok: "wq_ok s" and j: "job_of s k = Some j" and al: "active_lease_for e s lid sid k = Inr l"
    and st: "settle_rows jst mst why j lid s = Inr s'" and how: "\<not> live_state mst" "jst \<noteq> JQueued"
  shows "wq_ok s'"
  using settle_ok[OF ok _ active_lease_of_job(1-3)[OF ok j al] st how] active_lease_of_job(4)[OF ok j al] j by simp

lemma completeReviewJob_ok:
  assumes "wq_ok s" "job_of s k = Some j" "active_lease_for e s lid sid k = Inr l" "completeReviewJob e j lid s = Inr s'"
  shows "wq_ok s'"
  using assms settle_review_ok[OF assms(1-3)] by (auto simp: completeReviewJob_def check_simps live_state_def)

lemma openHumanCheckpoint_ok:
  assumes ok: "wq_ok s" and j: "job_of s k = Some j" and al: "active_lease_for e s lid sid k = Inr l"
    and st: "openHumanCheckpoint e' sid' j lid s = Inr s'"
  shows "wq_ok s'"
proof -
  define t where "t = s\<lparr>w_blockers := w_blockers s @ [\<lparr>b_id = e_newID e' ''blk'' (length (w_blockers s)), b_run = j_run j,
          b_job = Some (j_id j), b_session = Some sid', b_severity = ''human_checkpoint'', b_kind = ''revision_routing'',
          b_open = True\<rparr>]\<rparr>"
  have same: "same_work s t" by (simp add: t_def same_work_def)
  have "settle_rows JWaitingHuman MBlocked ''needs_revision'' j lid t = Inr s'"
    using st by (simp add: openHumanCheckpoint_def t_def)
  then show ?thesis
    using settle_review_ok[of t k j e lid sid l] same_work_ok[OF same] same_work_job[OF same] same_work_lease[OF same]
      ok j al by (auto simp: live_state_def)
qed

lemma enqueue_and_finish_ok: "wq_ok s \<Longrightarrow> enqueue_and_finish e j s = Inr s' \<Longrightarrow> wq_ok s'"
  by (auto simp: enqueue_and_finish_def check_simps dest: maybeEnqueueDownstream_ok maybeCompleteRun_ok)

lemma routeRevisionCycleD:
  assumes "routeRevisionCycle e j lid c s = Inr (Some s')"
  obtains target s1 n s2 s3 where "latestJobForWorkflowID s (j_run j) (rc_to c) = Some target"
    "completeReviewJob e j lid s = Inr s1" "inFlightSiblingGatingSeats s1 j = Some n"
    "s2 = s1\<lparr>w_routed := w_routed s1 @ [\<lparr>rt_run = j_run j, rt_from = rc_from c, rt_to = rc_to c,
       rt_iteration = countRevisionRoutings s (j_run j) c + 1, rt_in_flight = n\<rparr>]\<rparr>"
    "(if \<not> isTerminalJobState (j_state target) then Inr s2
      else reopenJobForAttempt e (j_id target) ''revision_cycle'' s2) = Inr s3"
    "maybeCompleteRun e (j_run j) s3 = Inr s'"
    "\<not> (rc_maxIterations c > 0 \<and> countRevisionRoutings s (j_run j) c \<ge> rc_maxIterations c)"
proof -
  let ?over = "rc_maxIterations c > 0 \<and> countRevisionRoutings s (j_run j) c \<ge> rc_maxIterations c"
  have n: "\<not> ?over" using assms by (auto simp: routeRevisionCycle_def Let_def)
  obtain target where t: "latestJobForWorkflowID s (j_run j) (rc_to c) = Some target"
    using assms n by (cases "latestJobForWorkflowID s (j_run j) (rc_to c)") (auto simp: routeRevisionCycle_def Let_def)
  show thesis
    using assms n t unfolding routeRevisionCycle_def Let_def
    by (simp only: if_False option.case bind_ok_Inr fetch_Inr sum.inject option.inject simp_thms ex_simps)
      (elim exE conjE, rule that[OF t _ _ refl _ _ n]; assumption?; simp)
qed

lemma route_ok:
  assumes ok: "wq_ok s" and j: "job_of s k = Some j" and al: "active_lease_for e s lid sid k = Inr l"
    and st: "routeRevisionCycle e j lid c s = Inr (Some s')"
  shows "wq_ok s'"
proof (rule routeRevisionCycleD[OF st])
  fix target s1 n s2 s3
  assume h: "completeReviewJob e j lid s = Inr s1"
    "s2 = s1\<lparr>w_routed := w_routed s1 @ [\<lparr>rt_run = j_run j, rt_from = rc_from c, rt_to = rc_to c,
       rt_iteration = countRevisionRoutings s (j_run j) c + 1, rt_in_flight = n\<rparr>]\<rparr>"
    "(if \<not> isTerminalJobState (j_state target) then Inr s2
      else reopenJobForAttempt e (j_id target) ''revision_cycle'' s2) = Inr s3"
    "maybeCompleteRun e (j_run j) s3 = Inr s'"
  have "wq_ok s1" by (rule completeReviewJob_ok[OF ok j al h(1)])
  then have "wq_ok s2" using same_work_ok[of s1 s2] by (simp add: h(2) same_work_def)
  then have "wq_ok s3" using h(3) by (auto split: if_splits dest: reopen_ok)
  then show ?thesis using h(4) by (rule maybeCompleteRun_ok)
qed

lemma then_status_Inr [check_simps]: "then_status st r = Inr (st', s') \<longleftrightarrow> st' = st \<and> r = Inr s'"
  by (cases r) (auto simp: then_status_def bind_ok_def)

lemma apply_needs_revision_ok:
  assumes ok: "wq_ok s" and j: "job_of s k = Some j" and al: "active_lease_for e s lid sid k = Inr l"
    and st: "apply_needs_revision e sid' j lid s = Inr (w, s')"
  shows "wq_ok s'"
proof -
  note c = completeReviewJob_ok[OF ok j al] and h = openHumanCheckpoint_ok[OF ok j al] and r = route_ok[OF ok j al]
  consider s1 where "completeReviewJob e j lid s = Inr s1" "maybeCompleteRun e (j_run j) s1 = Inr s'"
    | c where "routeRevisionCycle e j lid c s = Inr (Some s')" | "openHumanCheckpoint e sid' j lid s = Inr s'"
    | s1 where "completeReviewJob e j lid s = Inr s1" "enqueue_and_finish e j s1 = Inr s'"
    using st unfolding apply_needs_revision_def
    by (auto simp: check_simps split: option.splits if_splits)
  then show ?thesis
  proof cases
    case 1 then show ?thesis using c maybeCompleteRun_ok by blast
  next
    case 2 then show ?thesis by (rule r)
  next
    case 3 then show ?thesis by (rule h)
  next
    case 4 then show ?thesis using c enqueue_and_finish_ok by blast
  qed
qed

lemma apply_accept_ok:
  assumes ok: "wq_ok s" and j: "job_of s k = Some j" and al: "active_lease_for e s lid sid k = Inr l"
    and st: "apply_accept e j lid s = Inr (w, s')"
  shows "wq_ok s'"
  using st completeReviewJob_ok[OF ok j al] enqueue_and_finish_ok
  by (auto simp: apply_accept_def check_simps)

lemma apply_reject_ok:
  assumes ok: "wq_ok s" and j: "job_of s k = Some j" and al: "active_lease_for e s lid sid k = Inr l"
    and st: "apply_reject e j lid s = Inr (w, s')"
  shows "wq_ok s'"
proof -
  obtain s1 where s1: "settle_rows JFailed MCompleted ''reject'' j lid s = Inr s1" "maybeCompleteRun e (j_run j) s1 = Inr s'"
    using st by (auto simp: apply_reject_def failReviewJob_def check_simps)
  have "wq_ok s1" by (rule settle_review_ok[OF ok j al s1(1)]) (simp_all add: live_state_def)
  then show ?thesis using s1(2) by (rule maybeCompleteRun_ok)
qed

text \<open>What a recorded verdict goes through before its branch.\<close>

lemma applyVerdictD:
  assumes "applyVerdict e sid lid verdict ov j s = Inr (w, s')"
  obtains gen s1 s2 where "e_generations e \<Longrightarrow> reviewedBuildGeneration s j = Inr (the gen)"
    "gen = None \<longleftrightarrow> \<not> e_generations e"
    "store_verdict (new_verdict e sid j verdict gen ov s) s = Inr s1"
    "applyAdvisoryGuards e (j_id j) (recordDissent j verdict s1) = Inr s2" "same_work s s2"
    "isAcceptingVerdict verdict \<and> apply_accept e j lid s2 = Inr (w, s') \<or>
     verdict = ''needs_revision'' \<and> apply_needs_revision e sid j lid s2 = Inr (w, s') \<or>
     verdict = ''reject'' \<and> apply_reject e j lid s2 = Inr (w, s')"
proof -
  obtain gen s1 s2 where g: "(if e_generations e then bind_ok (reviewedBuildGeneration s j) (\<lambda>g. Inr (Some g)) else Inr None) = Inr gen"
    and h: "store_verdict (new_verdict e sid j verdict gen ov s) s = Inr s1"
      "applyAdvisoryGuards e (j_id j) (recordDissent j verdict s1) = Inr s2"
    and b: "(if isAcceptingVerdict verdict then apply_accept e j lid s2
       else if verdict = ''needs_revision'' then apply_needs_revision e sid j lid s2
       else if verdict = ''reject'' then apply_reject e j lid s2 else Inl (invalid ''unknown verdict'')) = Inr (w, s')"
    using assms unfolding applyVerdict_def bind_ok_Inr by blast
  have "same_work s s2"
    using same_work_rows(1)[OF h(1)] same_work_rows(2) same_work_advisory[OF h(2)] same_work_trans by blast
  moreover have "isAcceptingVerdict verdict \<and> apply_accept e j lid s2 = Inr (w, s') \<or>
     verdict = ''needs_revision'' \<and> apply_needs_revision e sid j lid s2 = Inr (w, s') \<or>
     verdict = ''reject'' \<and> apply_reject e j lid s2 = Inr (w, s')"
    using b by (simp split: if_splits)
  moreover have "e_generations e \<Longrightarrow> reviewedBuildGeneration s j = Inr (the gen)" "gen = None \<longleftrightarrow> \<not> e_generations e"
    using g by (auto simp: check_simps split: if_splits)
  ultimately show thesis using that h by blast
qed

lemma applyVerdict_ok:
  assumes ok: "wq_ok s" and j: "job_of s k = Some j" and al: "active_lease_for e s lid sid k = Inr l"
    and st: "applyVerdict e sid lid verdict ov j s = Inr (w, s')"
  shows "wq_ok s'"
proof (rule applyVerdictD[OF st])
  fix s2 assume same: "same_work s s2"
    and b: "isAcceptingVerdict verdict \<and> apply_accept e j lid s2 = Inr (w, s') \<or>
     verdict = ''needs_revision'' \<and> apply_needs_revision e sid j lid s2 = Inr (w, s') \<or>
     verdict = ''reject'' \<and> apply_reject e j lid s2 = Inr (w, s')"
  have "wq_ok s2" "job_of s2 k = Some j" "active_lease_for e s2 lid sid k = Inr l"
    using ok j al same_work_ok[OF same] same_work_job[OF same] same_work_lease[OF same] by simp_all
  then show ?thesis using b apply_accept_ok apply_needs_revision_ok apply_reject_ok by metis
qed

lemma recordVerdictD:
  assumes "recordVerdict e nb sid k lid verdict dec s = Inr (w, s')"
  obtains j l ov where "job_of s k = Some j" "verdict_capable j" "active_lease_for e s lid sid k = Inr l" "j_state j = JRunning"
    "enforceReviewProvenancePolicy e j sid verdict dec = Inr ov" "nb \<Longrightarrow> ov \<or> e_backend e sid"
    "e_artifacts e j" "applyVerdict e sid lid verdict (ov \<or> e_overridden e k sid) j s = Inr (w, s')"
  using assms unfolding recordVerdict_def check_simps by auto

lemma recordVerdict_ok: "wq_ok s \<Longrightarrow> recordVerdict e nb sid k lid verdict dec s = Inr (w, s') \<Longrightarrow> wq_ok s'"
  by (erule recordVerdictD) (rule applyVerdict_ok)

lemma HandleRecordVerdictD:
  assumes "HandleRecordVerdict e sid k lid verdict dec s = Inr (w, s')"
  shows "session_binding_for e s sid = None" "recordVerdict e True sid k lid (normalizeVerdict verdict) dec s = Inr (w, s')"
  using assms unfolding HandleRecordVerdict_def Let_def check_simps by auto

lemma verdict_ok: "wq_ok s \<Longrightarrow> HandleRecordVerdict e sid k lid verdict dec s = Inr (w, s') \<Longrightarrow> wq_ok s'"
  using HandleRecordVerdictD(2) recordVerdict_ok by blast

text \<open>\<open>ackInline\<close> writes the rows of \<open>HandleAckWork\<close>.\<close>

lemma ackInlineD:
  assumes "ackInline e sid mid lid s = Inr s'"
  obtains m j l where "msg_of s mid = Some m" "job_of s (m_job m) = Some j" "active_lease_for e s lid sid (m_job m) = Inr l"
    "m_state m = MAcked \<and> s' = s \<or> m_state m = MClaimed \<and> j_state j = JClaimed \<and>
      (\<exists>s1. set_msgs (\<lambda>r. m_id r = mid) (\<lambda>r. r\<lparr>m_state := MAcked\<rparr>) s = Inr s1 \<and>
        s' = set_job (m_job m) (\<lambda>r. r\<lparr>j_state := JRunning\<rparr>) s1)"
proof -
  obtain m j l where h: "msg_of s mid = Some m" "job_of s (m_job m) = Some j" "active_lease_for e s lid sid (j_id j) = Inr l"
    and b: "(if m_state m = MAcked then Inr s
      else guard_ok (m_state m = MClaimed \<and> j_state j = JClaimed) (invalid ''work must be claimed before ack'')
       (bind_ok (set_msgs (\<lambda>r. m_id r = mid) (\<lambda>r. r\<lparr>m_state := MAcked\<rparr>) s) (\<lambda>s1.
         Inr (set_job (j_id j) (\<lambda>r. r\<lparr>j_state := JRunning\<rparr>) s1)))) = Inr s'"
    using assms unfolding ackInline_def bind_ok_Inr fetch_Inr by blast
  have "j_id j = m_job m" using job_ofD[OF h(2)] by simp
  then show thesis using that[OF h(1,2)] h(3) b by (auto simp: check_simps split: if_splits)
qed

lemma ackInline_ok:
  assumes ok: "wq_ok s" and st: "ackInline e sid mid lid s = Inr s'"
  shows "wq_ok s'"
proof (rule ackInlineD[OF st])
  fix m j l assume h: "msg_of s mid = Some m" "job_of s (m_job m) = Some j"
    and b: "m_state m = MAcked \<and> s' = s \<or> m_state m = MClaimed \<and> j_state j = JClaimed \<and>
      (\<exists>s1. set_msgs (\<lambda>r. m_id r = mid) (\<lambda>r. r\<lparr>m_state := MAcked\<rparr>) s = Inr s1 \<and>
        s' = set_job (m_job m) (\<lambda>r. r\<lparr>j_state := JRunning\<rparr>) s1)"
  show "wq_ok s'" using b
  proof (elim disjE conjE exE)
    fix s1
    assume c: "m_state m = MClaimed" "j_state j = JClaimed"
      and s1: "set_msgs (\<lambda>r. m_id r = mid) (\<lambda>r. r\<lparr>m_state := MAcked\<rparr>) s = Inr s1"
        "s' = set_job (m_job m) (\<lambda>r. r\<lparr>j_state := JRunning\<rparr>) s1"
    show "wq_ok s'" unfolding s1(2) using ok msg_ofD[OF h(1)] h(2) c s1(1) by (intro ack_rows_ok) auto
  qed (simp add: ok)
qed

lemma HandleSubmitReviewD:
  assumes "HandleSubmitReview e sid k lid path verdict dec s = Inr (w, s')"
  obtains j s1 where "session_binding_for e s sid = None" "job_of s k = Some j"
    "(j_state j = JClaimed \<and> (\<exists>mid. j_message j = Some mid \<and> ackInline e sid mid lid s = Inr s1)) \<or> s1 = s"
    "recordVerdict e False sid k lid (normalizeVerdict verdict) dec s1 = Inr (w, s')"
proof -
  obtain j s1 where h: "session_binding_for e s sid = None" "job_of s k = Some j"
    "(case j_message j of Some mid \<Rightarrow> if j_state j = JClaimed then ackInline e sid mid lid s else Inr s
           | None \<Rightarrow> Inr s) = Inr s1"
    "recordVerdict e False sid k lid (normalizeVerdict verdict) dec s1 = Inr (w, s')"
    using assms unfolding HandleSubmitReview_def Let_def bind_ok_Inr guard_ok_Inr admit_Inr fetch_Inr
    by - (elim conjE exE, rule that, assumption+)
  show thesis by (rule that[OF h(1,2) _ h(4)]) (use h(3) in \<open>auto split: option.splits if_splits\<close>)
qed

lemma submit_ok: "wq_ok s \<Longrightarrow> HandleSubmitReview e sid k lid path verdict dec s = Inr (w, s') \<Longrightarrow> wq_ok s'"
  by (erule HandleSubmitReviewD) (metis ackInline_ok recordVerdict_ok)

section \<open>The operator\<close>

lemma end_waiting_ok:
  assumes ok: "wq_ok s" and j: "job_of s k = Some j" "j_state j \<noteq> JClaimed" "j_state j \<noteq> JRunning"
    and st: "end_waiting f mst j s = Inr s'" and how: "\<not> live_state mst"
    and f: "\<And>j. j_id (f j) = j_id j \<and> j_run (f j) = j_run j \<and> j_state (f j) \<noteq> JQueued \<and> (j_message (f j) = j_message j \<or> j_message (f j) = None)"
  shows "wq_ok s'"
proof -
  have k: "j_id j = k" using job_ofD[OF j(1)] by simp
  let ?s1 = "set_job k f s"
  have keys: "keys_ok ?s1"
  proof (rule keys_set_job[OF wq_ok_keys[OF ok]])
    fix i show "j_message (f i) = j_message i \<or> current_ok (msg_keys s) (f i)"
      using f[of i] by (auto simp: current_ok_def)
  qed (use f in auto)
  have free: "active_of s k = []" using no_lease_unless_working[OF ok j] .
  have cur: "j_message j = Some (m_id m)" if "m \<in> set (live_of s k)" for m
    using wq_ok_slice[OF ok, of k] j(1) that by (auto simp: list_all_iff message_ok_def)
  have core: "keys_ok s' \<and> job_of s' = job_of ?s1 \<and> active_of s' = active_of s \<and> live_of s' k = [] \<and> (\<forall>i. i \<noteq> k \<longrightarrow> live_of s' i = live_of s i)"
  proof (cases "j_message j")
    case None
    then have "live_of s k = []" using cur by (cases "live_of s k") auto
    then show ?thesis using st k keys None by (auto simp: end_waiting_def tables_set_job)
  next
    case (Some mid)
    have m: "set_msgs (\<lambda>m. m_id m = mid) (\<lambda>m. m\<lparr>m_state := mst, m_lease := None\<rparr>) ?s1 = Inr s'"
      using st k Some by (simp add: end_waiting_def)
    have drop: "live_of s' i = filter (\<lambda>m. m_id m \<noteq> mid) (live_of s i)" for i
      using set_msgs_drop[OF m] how by (simp add: slice_simps)
    have "live_of s' k = []" unfolding drop using cur Some by (auto simp: filter_empty_conv)
    moreover have "live_of s' i = live_of s i" if "i \<noteq> k" for i
      unfolding drop using current_message[OF wq_ok_keys[OF ok] j(1) Some] that
      by (auto simp: live_of_def intro!: filter_cong)
    moreover have "keys_ok s'" by (rule keys_set_msgs(1)[OF keys m]) simp
    ultimately show ?thesis using set_msgs_tables(1,2)[OF m] by (simp add: slice_simps)
  qed
  show ?thesis
  proof (rule wq_okI[OF ok, where k = k])
    show "slice_ok (job_of s' k) (active_of s' k) (live_of s' k)"
      using core free j(1) f[of j] by (simp add: job_of_set_job f)
  qed (use core f in \<open>auto simp: job_of_set_job\<close>)
qed

lemma HandleOverrideVerdictD:
  assumes "HandleOverrideVerdict e sid0 k verdict why auto s = Inr s'"
  obtains j sid t where "job_of s k = Some j" "j_type j = ''review''" "j_state j = JCompleted \<or> j_state j = JWaitingHuman"
    "(sid, t) = (if auto then resolveOverrideSession e s sid0 k else (sid0, s))" "same_work s t" "isAcceptingVerdict verdict"
    "s' = t \<or> apply_override e sid j verdict t = Inr s'"
proof -
  let ?r = "if auto then resolveOverrideSession e s sid0 k else (sid0, s)"
  obtain j where h: "isAcceptingVerdict verdict" "job_of s k = Some j" "j_type j = ''review''"
      "j_state j = JCompleted \<or> j_state j = JWaitingHuman"
    and b: "(if (case latest_any_verdict (snd ?r) k of None \<Rightarrow> False | Some v \<Rightarrow> isAcceptingVerdict (v_verdict v)) then Inr (snd ?r)
         else guard_ok (e_findings e j) (invalid ''findings artifact'') (apply_override e (fst ?r) j verdict (snd ?r))) = Inr s'"
    using assms unfolding HandleOverrideVerdict_def Let_def bind_ok_Inr guard_ok_Inr fetch_Inr
    by - (elim conjE exE, rule that, assumption+)
  have "s' = snd ?r \<or> apply_override e (fst ?r) j verdict (snd ?r) = Inr s'"
    using b by (simp only: guard_ok_Inr sum.inject split: if_splits) blast+
  moreover have "same_work s (snd ?r)" using same_work_rows(6) by simp
  ultimately show thesis using that[OF h(2-4), of "fst ?r" "snd ?r"] h(1) by simp
qed

lemma apply_override_ok:
  assumes ok: "wq_ok s" and j: "job_of s k = Some j" "j_state j = JCompleted \<or> j_state j = JWaitingHuman"
    and st: "apply_override e sid j verdict s = Inr s'"
  shows "wq_ok s'"
proof -
  obtain s1 s2 where s1: "store_verdict (override_verdict e sid j verdict (now_string e) s) s = Inr s1"
    and s2: "(if j_state j = JWaitingHuman
         then bind_ok (end_waiting (\<lambda>r. r\<lparr>j_state := JCompleted, j_lease := None\<rparr>) MCompleted j s1) (\<lambda>s2.
                 Inr (close_blockers (\<lambda>b. b_job b = Some (j_id j) \<and> b_open b \<and> b_severity b = ''human_checkpoint'' \<and>
                   b_kind b = ''revision_routing'') s2))
         else Inr s1) = Inr s2" and fin: "enqueue_and_finish e j s2 = Inr s'"
    using st unfolding apply_override_def bind_ok_Inr by blast
  note same1 = same_work_rows(1)[OF s1]
  have ok1: "wq_ok s1" "job_of s1 k = Some j" using ok j same_work_ok[OF same1] same_work_job[OF same1] by auto
  have "wq_ok s2"
  proof (cases "j_state j = JWaitingHuman")
    case True
    then obtain u where u: "end_waiting (\<lambda>r. r\<lparr>j_state := JCompleted, j_lease := None\<rparr>) MCompleted j s1 = Inr u"
        "same_work u s2"
      using s2 same_work_rows(4) by (auto simp: check_simps)
    have "wq_ok u" by (rule end_waiting_ok[OF ok1 _ _ u(1)]) (use True in \<open>auto simp: live_state_def\<close>)
    then show ?thesis using same_work_ok[OF u(2)] by simp
  qed (use s2 ok1 in simp)
  then show "wq_ok s'" using fin by (rule enqueue_and_finish_ok)
qed

lemma override_ok: "wq_ok s \<Longrightarrow> HandleOverrideVerdict e sid k verdict why auto s = Inr s' \<Longrightarrow> wq_ok s'"
  by (erule HandleOverrideVerdictD) (metis same_work_ok same_work_job apply_override_ok)

lemma waiting_job_Inr [check_simps]: "waiting_job s k = Inr j \<longleftrightarrow> job_of s k = Some j \<and> j_state j = JWaitingHuman"
  by (auto simp: waiting_job_def check_simps)

lemma same_work_close: "wq_ok (close_blockers p s) = wq_ok s" "job_of (close_blockers p s) = job_of s"
  using same_work_rows(4) same_work_ok same_work_job by blast+

lemma checkpoint_continue_ok: "wq_ok s \<Longrightarrow> checkpoint_continue e b s = Inr s' \<Longrightarrow> wq_ok s'"
  by (auto simp: checkpoint_continue_def Let_def check_simps same_work_close split: option.splits elim!: reopen_ok[rotated])

lemma checkpoint_cancel_ok:
  assumes ok: "wq_ok s" and st: "checkpoint_cancel e b s = Inr s'"
  shows "wq_ok s'"
proof -
  let ?c = "close_blockers (\<lambda>r. b_id r = b_id b) s"
  obtain u where u: "u = ?c \<or> (\<exists>k j. job_of s k = Some j \<and> j_state j = JWaitingHuman \<and>
      end_waiting (\<lambda>r. r\<lparr>j_state := JCanceled, j_lease := None, j_message := None\<rparr>) MCanceled j ?c = Inr u)"
    and fin: "maybeCompleteRun e (b_run b) u = Inr s'"
    using st by (auto simp: checkpoint_cancel_def Let_def check_simps split: option.splits)
  have "wq_ok u" using u
  proof (elim disjE exE conjE)
    fix k j assume j: "job_of s k = Some j" "j_state j = JWaitingHuman"
      and e: "end_waiting (\<lambda>r. r\<lparr>j_state := JCanceled, j_lease := None, j_message := None\<rparr>) MCanceled j ?c = Inr u"
    show "wq_ok u"
      by (rule end_waiting_ok[OF _ _ _ _ e, of k]) (use ok j in \<open>auto simp: same_work_close live_state_def\<close>)
  qed (simp add: ok same_work_close)
  then show ?thesis using fin by (rule maybeCompleteRun_ok)
qed

lemma checkpoint_overrideD:
  assumes "checkpoint_override e b outcome s = Inr s'"
  obtains k j s1 s2 v s3 where "b_job b = Some k" "job_of s k = Some j" "j_state j = JWaitingHuman"
    "end_waiting (\<lambda>r. r\<lparr>j_state := JCompleted, j_lease := None, j_message := None\<rparr>) MCompleted j
      (close_blockers (\<lambda>r. b_id r = b_id b) s) = Inr s1"
    "same_work s1 s2" "store_verdict v s2 = Inr s3" "enqueue_and_finish e (j\<lparr>j_run := b_run b\<rparr>) s3 = Inr s'"
proof -
  obtain k where k: "b_job b = Some k" using assms by (cases "b_job b") (auto simp: checkpoint_override_def check_simps)
  obtain j s1 where j: "job_of s k = Some j" "j_state j = JWaitingHuman"
    and s1: "end_waiting (\<lambda>r. r\<lparr>j_state := JCompleted, j_lease := None, j_message := None\<rparr>) MCompleted j
      (close_blockers (\<lambda>r. b_id r = b_id b) s) = Inr s1"
    and rest: "(let r = resolveOverrideSession e s1 (case b_session b of None \<Rightarrow> ''<nil>'' | Some x \<Rightarrow> x) k;
               s2 = supersede (\<lambda>v. v_job_id v = k \<and> v_verdict v = ''needs_revision'' \<and> \<not> v_superseded v) (snd r) in
           bind_ok (store_verdict (override_verdict e (fst r) j ''accept_with_findings'' (clearing_time e s2 k) s2) s2)
             (\<lambda>s3. bind_ok (maybeEnqueueDownstream e k s3) (maybeCompleteRun e (b_run b)))) = Inr s'"
    using assms k unfolding checkpoint_override_def
    by (simp only: bind_ok_Inr guard_ok_Inr waiting_job_Inr option.case) (elim conjE exE, rule that, assumption+)
  define s2 where "s2 = supersede (\<lambda>v. v_job_id v = k \<and> v_verdict v = ''needs_revision'' \<and> \<not> v_superseded v)
    (snd (resolveOverrideSession e s1 (case b_session b of None \<Rightarrow> ''<nil>'' | Some x \<Rightarrow> x) k))"
  have "same_work s1 s2" unfolding s2_def by (rule same_work_trans[OF same_work_rows(6) same_work_rows(5)])
  moreover obtain v s3 where "store_verdict v s2 = Inr s3"
    "bind_ok (maybeEnqueueDownstream e k s3) (maybeCompleteRun e (b_run b)) = Inr s'"
    using rest unfolding Let_def s2_def[symmetric] by (subst (asm) bind_ok_Inr) blast
  then have "store_verdict v s2 = Inr s3" "enqueue_and_finish e (j\<lparr>j_run := b_run b\<rparr>) s3 = Inr s'"
    using job_ofD[OF j(1)] by (simp_all add: enqueue_and_finish_def)
  ultimately show thesis using that[OF k j s1] by blast
qed

lemma checkpoint_override_ok: "wq_ok s \<Longrightarrow> checkpoint_override e b outcome s = Inr s' \<Longrightarrow> wq_ok s'"
proof (erule checkpoint_overrideD)
  fix k j s1 s2 v s3
  assume ok: "wq_ok s" and j: "job_of s k = Some j" "j_state j = JWaitingHuman"
    and s1: "end_waiting (\<lambda>r. r\<lparr>j_state := JCompleted, j_lease := None, j_message := None\<rparr>) MCompleted j
      (close_blockers (\<lambda>r. b_id r = b_id b) s) = Inr s1"
    and rest: "same_work s1 s2" "store_verdict v s2 = Inr s3" "enqueue_and_finish e (j\<lparr>j_run := b_run b\<rparr>) s3 = Inr s'"
  have "wq_ok s1" by (rule end_waiting_ok[OF _ _ _ _ s1, of k]) (use ok j in \<open>auto simp: same_work_close live_state_def\<close>)
  then have "wq_ok s3" using same_work_ok[OF rest(1)] same_work_ok[OF same_work_rows(1)[OF rest(2)]] by simp
  then show "wq_ok s'" using rest(3) by (rule enqueue_and_finish_ok)
qed

lemma HandleCheckpointResolveD:
  assumes "HandleCheckpointResolve e bid action dec s = Inr s'"
  obtains b outcome where "blocker_of s bid = Some b" "b_open b" "b_severity b = ''human_checkpoint''"
    "action = ''continue'' \<and> checkpoint_continue e b s = Inr s' \<or> action = ''override'' \<and> checkpoint_override e b outcome s = Inr s' \<or>
     action = ''cancel'' \<and> checkpoint_cancel e b s = Inr s'"
proof -
  obtain b outcome where h: "blocker_of s bid = Some b" "b_open b" "b_severity b = ''human_checkpoint''"
      "(if action = ''continue'' then checkpoint_continue e b s
         else if action = ''override'' then checkpoint_override e b outcome s
         else checkpoint_cancel e b s) = Inr s'" "action \<in> {''continue'', ''cancel'', ''override''}"
    using assms unfolding HandleCheckpointResolve_def bind_ok_Inr guard_ok_Inr fetch_Inr by blast
  show thesis by (rule that[OF h(1-3)]) (use h(4,5) in \<open>auto split: if_splits\<close>)
qed

lemma checkpoint_ok: "wq_ok s \<Longrightarrow> HandleCheckpointResolve e bid action dec s = Inr s' \<Longrightarrow> wq_ok s'"
  by (erule HandleCheckpointResolveD) (metis checkpoint_continue_ok checkpoint_override_ok checkpoint_cancel_ok)

lemma HandleRecoveryInvalidateJobD:
  assumes "HandleRecoveryInvalidateJob e k dec s = Inr s'"
  obtains j s1 s2 s3 where "job_of s k = Some j" "j_state j = JCompleted"
    "s1 = supersede (\<lambda>v. v_job_id v = k \<and> \<not> v_superseded v) s"
    "reset_each (downstream_jobs s1 k) s1 = Inr s2" "resetJobToBlocked ''job_invalidated'' k s2 = Inr s3" "enqueueJob e k s3 = Inr s'"
  using assms by (auto simp: HandleRecoveryInvalidateJob_def Let_def check_simps intro: that)

lemma invalidate_ok: "wq_ok s \<Longrightarrow> HandleRecoveryInvalidateJob e k dec s = Inr s' \<Longrightarrow> wq_ok s'"
  by (elim HandleRecoveryInvalidateJobD)
    (rule enqueueJob_ok[OF reset_ok[OF reset_each_ok]], simp_all only: same_work_ok[OF same_work_rows(5)])

end
