(* ===== verification/WorkReach.thy ===== *)
theory WorkReach
  imports WorkReviewSafety
begin

text \<open>
  The queue as a state machine: the calls, the states they reach, what holds in every reachable
  state, and concrete runs. Sessions, runs, blockers, dependencies and the inputs of the gates are
  written by code that is not modelled as well, so a step may change them in any way; jobs are added
  blocked. Verdicts, dissents and routings are only written by the calls, and the workflow of a run
  is never changed.
\<close>

datatype wq_call =
    Claim string int
  | Ack string string string
  | Heartbeat string string int bool
  | Release string string string string bool bool
  | Block block_request
  | Complete string string string
  | CloseSession string string bool
  | CancelRun string
  | RetryJob string string bool
  | RequeueStale string string bool string
  | SweepRequeue string
  | EnqueueReady string
  | Verdict string string string string string
  | SubmitReview string string string string string string
  | OverrideVerdict string string string string bool
  | ResolveCheckpoint string string string
  | InvalidateJob string string

text \<open>The sweep of \<open>RecoverySweep\<close> requeues a job that is not finished.\<close>

definition sweep_requeue :: "wenv \<Rightarrow> string \<Rightarrow> wq \<Rightarrow> wq_error + wq" where
  "sweep_requeue e k s =
     bind_ok (fetch (job_of s k)) (\<lambda>j.
       if j_state j \<in> {JClaimed, JRunning, JStaleLease, JQueued}
       then bind_ok (requeueJobSameAttempt e j s) (\<lambda>r. Inr (snd r)) else Inr s)"

fun call :: "wenv \<Rightarrow> wq_call \<Rightarrow> wq \<Rightarrow> wq_error + wq" where
  "call e (Claim sid secs) s = bind_ok (HandleClaimNext e sid secs s) (\<lambda>r. Inr (snd r))"
| "call e (Ack sid mid lid) s = HandleAckWork e sid mid lid s"
| "call e (Heartbeat sid lid secs w) s = HandleHeartbeat e sid lid secs w s"
| "call e (Release sid mid lid r q t) s = HandleReleaseWork e sid mid lid r q t s"
| "call e (Block q) s = HandleBlockWork e q s"
| "call e (Complete sid k lid) s = HandleCompleteWork e sid k lid s"
| "call e (CloseSession sid r q) s = HandleCloseSession e sid r q s"
| "call e (CancelRun run) s = cancelRunInTx run s"
| "call e (RetryJob run k allow) s = HandleRunRetryJob e run k allow s"
| "call e (RequeueStale run k force why) s = HandleRecoveryRequeueStale e run k force why s"
| "call e (SweepRequeue k) s = sweep_requeue e k s"
| "call e (EnqueueReady run) s = enqueueReadyBlockedJobs e run s"
| "call e (Verdict sid k lid v dec) s = bind_ok (HandleRecordVerdict e sid k lid v dec s) (\<lambda>r. Inr (snd r))"
| "call e (SubmitReview sid k lid path v dec) s = bind_ok (HandleSubmitReview e sid k lid path v dec s) (\<lambda>r. Inr (snd r))"
| "call e (OverrideVerdict sid k v why auto) s = HandleOverrideVerdict e sid k v why auto s"
| "call e (ResolveCheckpoint bid action dec) s = HandleCheckpointResolve e bid action dec s"
| "call e (InvalidateJob k dec) s = HandleRecoveryInvalidateJob e k dec s"

definition new_job :: "wjob \<Rightarrow> bool" where
  "new_job j \<longleftrightarrow> j_id j \<noteq> [] \<and> j_state j = JBlocked \<and> j_message j = None \<and> j_lease j = None"

inductive wq_reach :: "wq \<Rightarrow> bool" where
  wq_start: "w_jobs s = [] \<Longrightarrow> w_msgs s = [] \<Longrightarrow> w_leases s = [] \<Longrightarrow> w_packets s = [] \<Longrightarrow>
    w_verdicts s = [] \<Longrightarrow> w_routed s = [] \<Longrightarrow> wq_reach s"
| wq_call: "wq_reach s \<Longrightarrow> call e c s = Inr s' \<Longrightarrow> wq_reach s'"
| wq_prepare: "wq_reach s \<Longrightarrow> list_all new_job js \<Longrightarrow> distinct (map j_id (w_jobs s @ js)) \<Longrightarrow>
    wq_reach (s\<lparr>w_jobs := w_jobs s @ js\<rparr>)"
| wq_other: "wq_reach s \<Longrightarrow>
    wq_reach (s\<lparr>w_sessions := xs, w_runs := rs, w_blockers := bs, w_dependencies := ds,
      w_dead := d, w_assembled := a\<rparr>)"

inductive_cases wq_reachE: "wq_reach s"

section \<open>The invariant\<close>

lemma call_ok: "wq_ok s \<Longrightarrow> call e c s = Inr s' \<Longrightarrow> wq_ok s'"
  by (cases c)
    (auto simp: check_simps sweep_requeue_def enqueueReadyBlockedJobs_def split: if_splits
      intro: claim_ok ack_ok heartbeat_ok release_ok block_ok complete_ok close_session_ok cancel_ok retry_ok
        requeue_stale_ok fold_ok_enqueue requeue_ok verdict_ok submit_ok override_ok checkpoint_ok invalidate_ok
      dest: job_ofD)

lemma find_append: "find P (xs @ ys) = (case find P xs of None \<Rightarrow> find P ys | Some x \<Rightarrow> Some x)"
  by (induction xs) auto

lemma prepare_ok:
  assumes ok: "wq_ok s" and new: "list_all new_job js" "distinct (map j_id (w_jobs s @ js))"
  shows "wq_ok (s\<lparr>w_jobs := w_jobs s @ js\<rparr>)" (is "wq_ok ?s")
proof -
  have tabs: "active_of ?s = active_of s" "live_of ?s = live_of s" "msg_keys ?s = msg_keys s"
    by (auto simp: active_of_def live_of_def msg_keys_def fun_eq_iff)
  have "slice_ok (job_of ?s k) (active_of ?s k) (live_of ?s k)" for k
  proof (cases "job_of s k")
    case None
    then show ?thesis using wq_ok_slice[OF ok, of k] new(1)
      by (cases "find (\<lambda>j. j_id j = k) js")
        (auto simp: tabs job_of_def find_append new_job_def list_all_iff dest!: find_SomeD split: option.splits)
  next
    case (Some j)
    then show ?thesis using wq_ok_slice[OF ok, of k] by (simp add: tabs job_of_def find_append)
  qed
  then show ?thesis using wq_ok_keys[OF ok] new tabs(3)
    by (auto simp: wq_ok_def keys_ok_def list_all_iff new_job_def current_ok_def msg_keys_def)
qed

lemma reach_ok: "wq_reach s \<Longrightarrow> wq_ok s"
proof (induction rule: wq_reach.induct)
  case (wq_start s)
  then show ?case by (simp add: wq_ok_def keys_ok_def job_of_def active_of_def live_of_def)
next
  case (wq_call s e c s')
  then show ?case using call_ok by blast
next
  case (wq_prepare s js)
  then show ?case using prepare_ok by blast
next
  case (wq_other s xs rs bs ds d a)
  then show ?case by (subst wq_ok_cong[of _ s]) simp_all
qed

text \<open>A series of calls.\<close>

fun calls :: "(wenv \<times> wq_call) list \<Rightarrow> wq \<Rightarrow> wq_error + wq" where
  "calls [] s = Inr s"
| "calls (c # cs) s = bind_ok (call (fst c) (snd c) s) (calls cs)"

lemma calls_reach: "wq_reach s \<Longrightarrow> calls cs s = Inr s' \<Longrightarrow> wq_reach s'"
  by (induction cs s rule: calls.induct) (auto simp: check_simps intro: wq_call)

section \<open>A repository to run\<close>

text \<open>One run \<open>R\<close> with jobs of one role, and sessions that serve it.\<close>

definition ex_env :: "int \<Rightarrow> wenv" where
  "ex_env t =
     \<lparr>e_now = seconds t, e_print = (\<lambda>_. []), e_newID = (\<lambda>p n. p @ show_nat n), e_bound = None, e_barrier = False,
      e_generations = True, e_backend = (\<lambda>_. True), e_lineage = (\<lambda>_ _. True), e_completable = (\<lambda>_. True),
      e_artifacts = (\<lambda>_. True), e_restorable = (\<lambda>_. True), e_inspectable = (\<lambda>_. True), e_ledger = (\<lambda>_ _. True),
      e_findings = (\<lambda>_. True), e_publish = (\<lambda>_ _. True), e_durable = (\<lambda>_. True), e_attested = (\<lambda>_. True),
      e_decision = (\<lambda>_ _. True), e_escape = (\<lambda>_. False), e_override = (\<lambda>_ _ _. True),
      e_outcome = (\<lambda>_ _. Some ''accepted''), e_overridden = (\<lambda>_ _. False)\<rparr>"

definition ex_job :: "string \<Rightarrow> wjob" where
  "ex_job k =
     \<lparr>j_id = k, j_run = ''R'', j_workflow_job = k, j_type = ''build'', j_role = ''dev'', j_selector = [], j_scope = [],
      j_definition = [], j_fresh = False, j_attempt = 1, j_generation = 1, j_max = 3, j_created = 0, j_state = JBlocked,
      j_message = None, j_lease = None\<rparr>"

definition ex_session :: "string \<Rightarrow> wsession" where
  "ex_session k =
     \<lparr>s_id = k, s_run = ''R'', s_role = ''dev'', s_lane = ''L'', s_ordinal = 1, s_state = ''active'', s_activity = []\<rparr>"

definition ex_queue :: "wjob list \<Rightarrow> wq" where
  "ex_queue js =
     \<lparr>w_jobs = js, w_msgs = [], w_leases = [], w_packets = [], w_sessions = map ex_session [''S'', ''T''],
      w_runs = [\<lparr>r_id = ''R'', r_state = RRunning, r_paused = False\<rparr>], w_blockers = [],
      w_dependencies = [], w_verdicts = [], w_dissents = Some [], w_workflows = [], w_routed = [],
      w_dead = (\<lambda>_ _ _. False), w_assembled = (\<lambda>_. True)\<rparr>"

lemma ex_queue_reach:
  assumes "list_all new_job js" "distinct (map j_id js)"
  shows "wq_reach (ex_queue js)"
proof -
  have "wq_reach ((ex_queue [])\<lparr>w_jobs := w_jobs (ex_queue []) @ js\<rparr>)"
    using assms by (intro wq_prepare wq_start) (simp_all add: ex_queue_def)
  then show ?thesis by (simp add: ex_queue_def)
qed

text \<open>A run of the example: the calls, then one more, and a statement of the states before and after it.\<close>

definition ex_claimed :: "(wenv \<times> wq_call) list" where
  "ex_claimed = [(ex_env 0, EnqueueReady ''R''), (ex_env 1, Claim ''S'' 60)]"

definition ex_running :: "(wenv \<times> wq_call) list" where
  "ex_running = ex_claimed @ [(ex_env 2, Ack ''S'' ''msg0'' ''lease0'')]"

definition ex_step :: "(wenv \<times> wq_call) list \<Rightarrow> wenv \<Rightarrow> wq_call \<Rightarrow> (wq \<Rightarrow> wq \<Rightarrow> bool) \<Rightarrow> bool" where
  "ex_step cs e c P \<longleftrightarrow>
     (case calls cs (ex_queue (map ex_job [''A'', ''B''])) of Inl _ \<Rightarrow> False
      | Inr s \<Rightarrow> (case call e c s of Inl _ \<Rightarrow> False | Inr s' \<Rightarrow> P s s'))"

lemma ex_stepD:
  assumes "ex_step cs e c P"
  obtains s s' where "wq_reach s" "call e c s = Inr s'" "P s s'"
proof -
  obtain s s' where s: "calls cs (ex_queue (map ex_job [''A'', ''B''])) = Inr s" "call e c s = Inr s'" "P s s'"
    using assms by (auto simp: ex_step_def split: sum.splits)
  have "wq_reach s"
    by (rule calls_reach[OF ex_queue_reach s(1)]) (simp_all add: new_job_def ex_job_def)
  with s show thesis by (blast intro: that)
qed

end
