(* ===== verification/RpcLane.thy ===== *)
theory RpcLane
  imports RpcServer WorkReach
begin

text \<open>
  Where the RPC surface meets the work queue: the decision of the authorizer is the binding the
  handlers of the queue enforce (\<open>rpc/principal_session.go\<close>, \<open>enforceSessionBinding\<close> in
  \<open>mutations/mutations.go\<close>).
\<close>

text \<open>The environment a handler runs in under a decision.\<close>

definition bound_env :: "auth_context \<Rightarrow> wenv \<Rightarrow> wenv" where
  "bound_env a e = e\<lparr>e_bound := (if IsSessionBound a then Some (ac_session a) else None)\<rparr>"

text \<open>The session a call of the queue acts as; closing a session and the calls of an operator act as none.\<close>

fun acts_as :: "wq_call \<Rightarrow> string option" where
  "acts_as (Claim sid secs) = Some sid"
| "acts_as (Ack sid mid lid) = Some sid"
| "acts_as (Heartbeat sid lid secs w) = Some sid"
| "acts_as (Release sid mid lid r q t) = Some sid"
| "acts_as (Block q) = Some (trim_space (br_session q))"
| "acts_as (Complete sid k lid) = Some sid"
| "acts_as (Verdict sid k lid v dec) = Some sid"
| "acts_as (SubmitReview sid k lid path v dec) = Some sid"
| "acts_as _ = None"

text \<open>The enforcement in the handlers and the predicate of the authorization layer are the same rule.\<close>

lemma session_binding_may_act: "session_binding (bound_env a e) sid = None \<longleftrightarrow> MayActAsSession a sid"
  by (simp add: session_binding_def bound_env_def MayActAsSession_def)

lemma session_binding_for_may_act: "session_binding_for (bound_env a e) s sid = None \<longleftrightarrow> MayActAsSession a sid"
  by (simp add: session_binding_for_def session_binding_def bound_env_def MayActAsSession_def)

lemma admit_refused: "c \<noteq> None \<Longrightarrow> isl (admit c r)"
  by (auto simp: admit_def)

lemma admit_unbound:
  assumes "\<not> MayActAsSession a sid"
  shows "isl (admit (session_binding (bound_env a e) sid) k)" "isl (admit (session_binding_for (bound_env a e) s sid) k')"
  using assms by (intro admit_refused, simp add: session_binding_may_act session_binding_for_may_act)+

lemma guard_isl: "isl r \<Longrightarrow> isl (guard_ok b err r)"
  by (simp add: guard_ok_def)

lemma bind_isl: "isl r \<Longrightarrow> isl (bind_ok r k)"
  by (cases r) simp_all

lemma normalized_session: "normalizeBlockWork q = Inr q' \<Longrightarrow> br_session q' = trim_space (br_session q)"
  by (auto simp: normalizeBlockWork_def Let_def split: if_splits)

lemma call_refused:
  assumes "acts_as c = Some sid" "\<not> MayActAsSession a sid"
  shows "isl (call (bound_env a e) c s)"
proof -
  note r = admit_unbound[OF assms(2)]
  show ?thesis
  proof (cases c)
    case (Block q)
    show ?thesis
    proof (cases "normalizeBlockWork q")
      case (Inr b)
      then have "br_session b = sid" using assms(1) Block normalized_session by simp
      then show ?thesis using Inr Block by (simp add: HandleBlockWork_def r)
    qed (simp add: Block HandleBlockWork_def)
  qed (use assms(1) in \<open>auto simp: r HandleClaimNext_def HandleAckWork_def HandleHeartbeat_def HandleReleaseWork_def
      HandleCompleteWork_def HandleRecordVerdict_def HandleSubmitReview_def Let_def intro!: guard_isl bind_isl\<close>)
qed


text \<open>Closing a session is outside that rule. A lane bound to its own session closes any other active
  session that holds no lease at the moment, by the same authority it claims work with.\<close>

theorem bound_lane_closes_others:
  assumes "IsSessionBound a" "\<not> MayActAsSession a sid" "session_of s sid = Some x" "s_state x = ''active''" "sid \<noteq> []"
    and "\<not> list_ex (\<lambda>l. l_owner l = sid \<and> l_state l = LActive) (w_leases s)" "trim_space reason \<noteq> []"
  shows "\<exists>s'. call (bound_env a e) (CloseSession sid reason False) s = Inr s' \<and>
    map_option s_state (session_of s' sid) = Some ''closed''"
proof -
  have keep: "find (\<lambda>y. s_id y = sid) (upd (\<lambda>y. s_id y = sid) (\<lambda>y. y\<lparr>s_state := st\<rparr>) xs) =
      map_option (\<lambda>y. y\<lparr>s_state := st\<rparr>) (find (\<lambda>y. s_id y = sid) xs)" for st and xs :: "wsession list"
    by (induction xs) (simp_all add: upd_def)
  show ?thesis using assms
    by (simp add: HandleCloseSession_def session_of_def guard_ok_def Let_def fetch_def keep)
qed

section \<open>Examples\<close>

text \<open>A client with a broad grant and one for its lane \<open>S\<close>.\<close>

definition ex_db :: token_db where
  "ex_db = \<lparr>td_clients = [\<lparr>cl_token = ''t'', cl_client = ''c'', cl_hash = ''s'', cl_salt = [], cl_revoked = False, cl_expires = None\<rparr>],
     td_caps = [\<lparr>cp_client = ''c'', cp_capability = ''claim'', cp_repo = None, cp_session = None, cp_expires = None,
         cp_revoked = False, cp_granted = 0\<rparr>,
       \<lparr>cp_client = ''c'', cp_capability = ''claim'', cp_repo = Some ''r'', cp_session = Some ''S'', cp_expires = None,
         cp_revoked = False, cp_granted = 0\<rparr>],
     td_client_fails = False, td_caps_fail = False, td_scope_fails = False\<rparr>"

definition ex_decision :: auth_context where
  "ex_decision = \<lparr>ac_client = ''c'', ac_token = ''t'', ac_repo = ''r'', ac_session = ''S'', ac_capability = ''claim'',
     ac_decision = ''allowed'', ac_reason = []\<rparr>"

lemma ex_authorized: "PostgresAuthorize (\<lambda>_ s. s) 0 (\<lambda>_ _ _ _. None) ex_db (Some ''claim'') ''r'' ''t.s'' = ex_decision"
  by code_simp


theorem bound_lane_closes_others_witness:
  "\<exists>s'. call (bound_env ex_decision (ex_env 0)) (CloseSession ''T'' ''why'' False) (ex_queue []) = Inr s' \<and>
    map_option s_state (session_of s' ''T'') = Some ''closed''"
  by (rule bound_lane_closes_others[where x = "ex_session ''T''"])
    (simp_all add: ex_decision_def IsSessionBound_def MayActAsSession_def session_of_def ex_queue_def ex_session_def, code_simp)

end
