(* ===== verification/RepoPath.thy ===== *)
theory RepoPath
  imports GoValue
begin

text \<open>
  Repository paths in write scopes (\<open>go/pkg/workflowauthoring/workflow.go\<close>): the validity
  check, normalisation, containment and the glob test. The containment test works on strings;
  the lemmas show that it is the prefix order on path components.
\<close>

section \<open>The code\<close>

definition repoPathInvalid :: "string \<Rightarrow> bool" where
  "repoPathInvalid path \<longleftrightarrow>
     path = [] \<or> prefix ''/'' path \<or> list_ex (\<lambda>part. part = ''..'') (split_on CHR ''/'' path)"

definition writeScopePathHasGlob :: "string \<Rightarrow> bool" where
  "writeScopePathHasGlob path = contains_any path ''*?[''"

text \<open>\<open>strings.Cut(path, marker)\<close> for a one-byte marker: the part before it, if there is one.\<close>

definition cut_before :: "char \<Rightarrow> string \<Rightarrow> string option" where
  "cut_before c s = (if c \<in> set s then Some (takeWhile (\<lambda>x. x \<noteq> c) s) else None)"

definition globPrefixSuggestion :: "string \<Rightarrow> string" where
  "globPrefixSuggestion path =
     (let before = fold (\<lambda>marker before.
            (case cut_before marker path of
               Some candidate \<Rightarrow> if length candidate < length before then candidate else before
             | None \<Rightarrow> before)) [CHR ''*'', CHR ''?'', CHR ''[''] path
      in if before = path then path
         else (let pre = trim_right CHR ''/'' before
               in if pre = [] \<or> pre = ''.'' then ''./'' else pre @ ''/''))"

text \<open>\<open>filepath.ToSlash\<close> is the identity where the separator is the slash.\<close>

definition path_parts :: "string \<Rightarrow> string list" where
  "path_parts path = filter (\<lambda>part. \<not> (part = [] \<or> part = ''.'')) (split_on CHR ''/'' path)"

definition normalizeRepoPath :: "string \<Rightarrow> string" where
  "normalizeRepoPath path = trim_right CHR ''/'' (join ''/'' (path_parts path))"

definition repoPathWithin :: "string \<Rightarrow> string \<Rightarrow> bool" where
  "repoPathWithin child parent =
     (let childNorm = normalizeRepoPath child; parentNorm = normalizeRepoPath parent
      in if parentNorm = [] \<or> childNorm = parentNorm then True
         else prefix (parentNorm @ ''/'') childNorm)"

section \<open>Components\<close>

lemma path_parts_ok: "w \<in> set (path_parts p) \<Longrightarrow> w \<noteq> [] \<and> w \<noteq> ''.'' \<and> CHR ''/'' \<notin> set w"
  by (auto simp: path_parts_def dest: split_on_parts)

lemma last_join_parts:
  assumes "ws \<noteq> []" and "\<forall>w \<in> set ws. w \<noteq> [] \<and> c \<notin> set w"
  shows "join [c] ws \<noteq> [] \<and> last (join [c] ws) \<noteq> c"
  using assms
proof (induction "[c]" ws rule: join.induct)
  case (2 w)
  then have "w \<noteq> []" and "c \<notin> set w" by auto
  then show ?case using last_in_set [of w] by auto
next
  case (3 w v ws)
  then show ?case by auto
qed simp

lemma normalizeRepoPath_eq: "normalizeRepoPath p = join ''/'' (path_parts p)"
proof (cases "path_parts p = []")
  case True
  then show ?thesis by (simp add: normalizeRepoPath_def trim_right_def)
next
  case False
  with last_join_parts [of "path_parts p" "CHR ''/''"] path_parts_ok
  show ?thesis unfolding normalizeRepoPath_def by (intro trim_right_id) blast
qed

lemma split_normalize: "path_parts p \<noteq> [] \<Longrightarrow> split_on CHR ''/'' (normalizeRepoPath p) = path_parts p"
  using path_parts_ok by (auto simp: normalizeRepoPath_eq intro!: split_join)

lemma normalizeRepoPath_Nil [simp]: "normalizeRepoPath p = [] \<longleftrightarrow> path_parts p = []"
  using split_normalize [of p] path_parts_ok [of "[]" p]
  by (cases "path_parts p") (auto simp: normalizeRepoPath_eq)

lemma path_parts_normalize [simp]: "path_parts (normalizeRepoPath p) = path_parts p"
proof (cases "path_parts p = []")
  case True
  then show ?thesis by (simp add: normalizeRepoPath_eq path_parts_def)
next
  case False
  have "filter (\<lambda>part. \<not> (part = [] \<or> part = ''.'')) (path_parts p) = path_parts p"
    by (simp add: path_parts_def)
  with split_normalize [OF False] show ?thesis
    by (metis path_parts_def)
qed

lemma split_on_join_append:
  "us \<noteq> [] \<Longrightarrow> \<forall>w \<in> set us. c \<notin> set w \<Longrightarrow>
   split_on c (join [c] us @ c # t) = us @ split_on c t"
  by (induction "[c]" us rule: join.induct) (auto simp: split_on_append)

lemma join_prefix_iff:
  assumes us: "us \<noteq> []" "\<forall>w \<in> set us. w \<noteq> [] \<and> c \<notin> set w"
    and vs: "\<forall>w \<in> set vs. w \<noteq> [] \<and> c \<notin> set w"
  shows "join [c] vs = join [c] us \<or> prefix (join [c] us @ [c]) (join [c] vs) \<longleftrightarrow> prefix us vs"
    (is "?eq \<or> ?pre \<longleftrightarrow> _")
proof
  assume "prefix us vs"
  then obtain ws where vs_eq: "vs = us @ ws" by (auto elim: prefixE)
  show "?eq \<or> ?pre"
  proof (cases "ws = []")
    case True
    with vs_eq show ?thesis by simp
  next
    case False
    with us(1) have "join [c] vs = (join [c] us @ [c]) @ join [c] ws"
      unfolding vs_eq by (simp add: join_append)
    then show ?thesis unfolding prefix_def by blast
  qed
next
  have vs_split: "vs \<noteq> [] \<Longrightarrow> split_on c (join [c] vs) = vs"
    using vs by (intro split_join) auto
  have us_split: "split_on c (join [c] us) = us"
    using us by (intro split_join) auto
  have us_ne: "join [c] us \<noteq> []"
    using last_join_parts [OF us] by simp
  assume "?eq \<or> ?pre"
  then show "prefix us vs"
  proof
    assume eq: ?eq
    with us_ne have "vs \<noteq> []" by auto
    from vs_split [OF this] have "vs = us" unfolding eq us_split by simp
    then show ?thesis by simp
  next
    assume ?pre
    then obtain t where t: "join [c] vs = join [c] us @ c # t" by (auto simp: prefix_def)
    then have "vs \<noteq> []" by auto
    from vs_split [OF this] have "vs = split_on c (join [c] us @ c # t)" unfolding t by simp
    also have "\<dots> = us @ split_on c t" using us by (intro split_on_join_append) auto
    finally show ?thesis by simp
  qed
qed

lemma repoPathWithin_iff: "repoPathWithin child parent \<longleftrightarrow> prefix (path_parts parent) (path_parts child)"
proof (cases "path_parts parent = []")
  case True
  then show ?thesis by (simp add: repoPathWithin_def Let_def)
next
  case False
  have "normalizeRepoPath child = normalizeRepoPath parent \<or>
      prefix (normalizeRepoPath parent @ ''/'') (normalizeRepoPath child) \<longleftrightarrow>
      prefix (path_parts parent) (path_parts child)"
    unfolding normalizeRepoPath_eq
    by (rule join_prefix_iff) (use False path_parts_ok in auto)
  with False show ?thesis by (auto simp: repoPathWithin_def Let_def)
qed

section \<open>The interface other components use\<close>

text \<open>
  What a client of a containment test relies on: containment is the prefix order on some
  view of the paths as component lists.
\<close>

locale path_scope =
  fixes parts :: "string \<Rightarrow> string list"
    and within :: "string \<Rightarrow> string \<Rightarrow> bool"
  assumes within_iff: "within c p \<longleftrightarrow> prefix (parts p) (parts c)"
begin

lemma within_refl: "within p p"
  by (simp add: within_iff)

lemma within_trans: "within a b \<Longrightarrow> within b c \<Longrightarrow> within a c"
  by (simp add: within_iff)

lemma within_comparable: "within x a \<Longrightarrow> within x b \<Longrightarrow> within a b \<or> within b a"
  by (auto simp: within_iff dest: prefix_same_cases)

text \<open>Two scopes neither of which contains the other share no path.\<close>

lemma incomparable_disjoint:
  "\<not> within a b \<Longrightarrow> \<not> within b a \<Longrightarrow> \<not> (within x a \<and> within x b)"
  using within_comparable by blast

end

interpretation repo_path: path_scope path_parts repoPathWithin
  by unfold_locales (rule repoPathWithin_iff)

section \<open>Properties\<close>

text \<open>The string containment test of write scopes decides exactly component-wise
  prefix containment: \<open>repoPathWithin child parent\<close> holds iff the components of \<open>parent\<close>
  (its parts between slashes, empty and dot parts dropped) are an initial segment of those
  of \<open>child\<close>; so \<open>docs2/x\<close> is not inside \<open>docs\<close>.\<close>

theorem repoPathWithin_components:
  "repoPathWithin child parent \<longleftrightarrow>
     (\<exists>rest. path_parts child = path_parts parent @ rest)"
  by (auto simp: repoPathWithin_iff prefix_def)

text \<open>Normalisation is idempotent, keeps the components and decides equality of scopes:
  two paths contain each other exactly when their normal forms are equal.\<close>

theorem normalizeRepoPath_canonical:
  "normalizeRepoPath (normalizeRepoPath p) = normalizeRepoPath p \<and>
   (repoPathWithin p q \<and> repoPathWithin q p \<longleftrightarrow> normalizeRepoPath p = normalizeRepoPath q)"
proof
  show "normalizeRepoPath (normalizeRepoPath p) = normalizeRepoPath p"
    by (metis normalizeRepoPath_eq path_parts_normalize)
  show "repoPathWithin p q \<and> repoPathWithin q p \<longleftrightarrow> normalizeRepoPath p = normalizeRepoPath q"
    unfolding repoPathWithin_iff
    by (metis normalizeRepoPath_eq path_parts_normalize prefix_order.antisym prefix_order.refl)
qed

end
