(* ===== verification/WorkflowFields.thy ===== *)
theory WorkflowFields
  imports GoValue RepoPath
begin

text \<open>
  What the validators of \<open>go/pkg/workflowauthoring/workflow.go\<close> share: their error values,
  their tables of admissible values, the field accessors \<open>object\<close>, \<open>list\<close> and
  \<open>stringField\<close>, and the artifact tables of \<open>go/pkg/artifactcontracts\<close>. An error is the
  message of \<open>errf\<close> or \<open>fieldErr\<close> as a constructor that carries the message's arguments, with
  the \<open>FieldPath\<close> of the error (empty for \<open>errf\<close>).
\<close>

section \<open>Errors\<close>

text \<open>The top level of \<open>Validate\<close>.\<close>

datatype structure_msg =
    MissingFields "string list"
  | BadSchemaVersion
  | BadNeutralityRationale
  | NotAnObject string
  | NotAList string
  | EmptyStringField string
  | JobNotObject
  | DuplicateJobId string
  | UnknownRole string string
  | UnknownLane string string
  | JobAssertionPanics

datatype lane_msg =
    LaneNotObject string
  | ModelEmpty string
  | CommandEmpty string
  | CommandEntry string
  | BadIsolation string
  | AllowNotBool string
  | AllowNeedsRationale string
  | RationaleEmpty string
  | PrefixNotArray string
  | PrefixEntry string
  | PrefixRelative string string

datatype lane_env_msg =
    EnvNotObject string
  | EnvKeyEmpty string
  | EnvSetsPath string
  | EnvReserved string string
  | EnvValue string string
  | NeedsAgentLoop string
  | ConstraintsNotObject string
  | UnknownConstraint string string
  | BadConstraintValue string string
  | EnforcementNotObject string
  | UndeclaredConstraint string string
  | BadEnforcementLevel string
  | EnforcementShort string string string string

datatype path_msg =
    BadAllowedPath string
  | AllowedGlob string string string
  | BadForbiddenPath string
  | ForbiddenGlob string string string
  | AllowedInsideForbidden string string string
  | ArtifactNotObject string
  | BadArtifactPath string
  | KindMissing string nat
  | UnknownKind string string
  | UnknownPlacement string string
  | ArtifactForbidden string string string
  | ArtifactOutside string string

datatype review_msg =
    PolicyOnNonReview string
  | UnknownAccess string goval
  | CrossRepoOnly string
  | DocumentOnlyInputs string
  | UnknownContext string goval
  | FreshContradiction string
  | PostureOnNonReview string
  | PostureEmpty string
  | UnknownPosture string string string
  | PanelRoleOnNonReview string
  | UnknownPanelRole string goval
  | AllowAbstentionsNotBool string
  | AbstentionsNotWhole string
  | AbstentionsNeedOptIn string

datatype posture_msg =
    RequiredOnNonBuild string
  | RequiredEmpty string
  | RequiredEntry string
  | ResourcesNotList string
  | ResourceId string
  | ResourceMode string
  | ResourceDescription string
  | ResourceNamespace string
  | ResourceNeedsNamespace string
  | ResourceShape string

datatype edge_msg =
    EdgeNotObject
  | EdgeUnknownJob
  | EdgeNotCompleted
  | NonStringDependency string
  | NeedsDisagree string
  | CycleNotObject
  | CycleUnknownJob
  | CycleVerdict
  | CycleIterations
  | DebounceString
  | DebounceValue
  | CycleUnsound string string

datatype target_msg =
    TargetsAndInterrogable string
  | TargetsNotList string
  | TargetsEmpty string
  | TargetNotObject string
  | TargetNoId string
  | TargetSelf string
  | TargetDuplicate string string
  | TargetUnknown string string
  | TargetNotInterrogable string string
  | TargetUnreachable string string

datatype group_msg =
    ArtifactShared string string string
  | GroupArtifactReused string string
  | GroupMixesWrite string
  | GroupOverlap string
  | PostureUnreachable string string
  | PolicyNotObject
  | RootPolicyInvalid
  | DescriptionNotString
  | RootReviewsMissing "string list"

datatype phase_msg =
    V1Phases
  | V1PhaseId string
  | V1Synthesis string
  | PhaseIdUndeclared string
  | SynthesisUndeclared string
  | PhaseIdNotUnique
  | UnknownPhase string string
  | MultipleSynthesis string string string
  | NoSynthesis string
  | NoPeer string
  | DeclaredNotSynthesis string string
  | DeclaredMismatch string string string
  | EdgeBackwards string string string string
  | EdgeSkips string string
  | EdgeNotFromSynthesis string string string
  | EdgeToSynthesis string string

datatype gate_msg =
    GateNeedsJob string
  | GateUnknownJob string string
  | GateNoVerdict string string string
  | GateEmpty string
  | GateBlankType string
  | GateDuplicateType string string
  | GateUnusedType string string
  | GateSelfWithheld string string string
  | GateNoDependency string string string string

datatype werror_msg =
    StructureMsg structure_msg
  | LaneMsg lane_msg
  | LaneEnvMsg lane_env_msg
  | PathMsg path_msg
  | ReviewMsg review_msg
  | PostureMsg posture_msg
  | EdgeMsg edge_msg
  | TargetMsg target_msg
  | GroupMsg group_msg
  | PhaseMsg phase_msg
  | GateMsg gate_msg

record werror =
  Message :: werror_msg
  FieldPath :: string

definition errf :: "werror_msg \<Rightarrow> werror" where
  "errf m = \<lparr>Message = m, FieldPath = []\<rparr>"

definition fieldErr :: "string \<Rightarrow> werror_msg \<Rightarrow> werror" where
  "fieldErr path m = \<lparr>Message = m, FieldPath = path\<rparr>"

definition index_path :: "string \<Rightarrow> nat \<Rightarrow> string" where
  "index_path field i = field @ ''['' @ show_nat i @ '']''"

section \<open>Tables\<close>

definition SchemaV1 :: string where "SchemaV1 = ''striatum.workflow.v1''"
definition SchemaV11 :: string where "SchemaV11 = ''striatum.workflow.v1.1''"

definition constraintValues :: "(string \<times> string list) list" where
  "constraintValues =
     [(''network'', [''allowed'', ''forbidden'', ''advisory_forbidden'']),
      (''transcripts'', [''off'', ''redacted'', ''allowed'']),
      (''repo_scope'', [''local_only'', ''unrestricted''])]"

definition enforcementLevels :: "(string \<times> nat) list" where
  "enforcementLevels =
     [(''unsupported'', 0), (''advisory'', 1), (''advisory_strict'', 2), (''enforced'', 3)]"

definition worktreeIsolationValues :: "string list" where
  "worktreeIsolationValues = [''off'', ''per_job'']"

definition reviewerAccessScopes :: "string list" where
  "reviewerAccessScopes =
     [''document_only'', ''artifact_augmented'', ''repo_level'', ''cross_repo_artifact_augmented'']"

definition reviewerContextPolicies :: "string list" where
  "reviewerContextPolicies = [''fresh'', ''cross_round'']"

definition sharedResourceModes :: "string list" where
  "sharedResourceModes = [''exclusive'', ''per_lane_namespace'']"

definition reviewPostures :: "string list" where
  "reviewPostures =
     [''neutral'', ''devils_advocate'', ''security'', ''threat_model'', ''latency_performance'',
      ''ergonomics_dx'', ''accessibility'', ''compliance_license'', ''supply_chain'']"

definition requiredTopLevel :: "string list" where
  "requiredTopLevel =
     [''schema_version'', ''workflow_id'', ''workflow_version'', ''name'', ''branch'',
      ''coordinator'', ''lanes'', ''roles'', ''context_docs'', ''parallelism'', ''jobs'',
      ''edges'', ''cycles'']"

definition verdictJobTypes :: "string list" where
  "verdictJobTypes = [''review'', ''phase_synthesis'']"

definition allowedKinds :: "string list" where
  "allowedKinds =
     [''prompt'', ''finding'', ''findings_ledger'', ''synthesis'', ''marker'', ''handoff'',
      ''decision'', ''patch_summary'', ''test_report'', ''other'', ''support_ledger'',
      ''action_item_ledger'', ''harness_improvement_proposal'', ''escalation'',
      ''operator_brief'', ''work_plan'', ''progress_note'', ''operator_report'',
      ''commit_request'', ''pr_request'', ''auto_finalize_gate_evidence'',
      ''collaboration_ledger'', ''join_manifest'', ''claim_ledger'', ''receipt'',
      ''advisory_minority_report'']"

definition allowedPlacements :: "string list" where
  "allowedPlacements = [''blob_exhaust'', ''git_publication'', ''git_pointer_manifest'']"

definition legacyBlobExhaustKinds :: "string list" where
  "legacyBlobExhaustKinds =
     [''finding'', ''findings_ledger'', ''synthesis'', ''support_ledger'', ''action_item_ledger'',
      ''collaboration_ledger'', ''harness_improvement_proposal'', ''progress_note'']"

definition IsAllowedPlacement :: "string \<Rightarrow> bool" where
  "IsAllowedPlacement placement \<longleftrightarrow> trim_space placement \<in> set allowedPlacements"

definition DefaultPlacementForKind :: "string \<Rightarrow> string" where
  "DefaultPlacementForKind kind =
     (if trim_space kind \<in> set legacyBlobExhaustKinds then ''blob_exhaust'' else ''git_publication'')"

definition ResolvePlacement :: "string \<Rightarrow> goval \<Rightarrow> string" where
  "ResolvePlacement kind placement =
     (let text = trim_space (stringValue placement)
      in if text \<in> set allowedPlacements then text else DefaultPlacementForKind kind)"

definition PlacementUsesBlob :: "string \<Rightarrow> bool" where
  "PlacementUsesBlob placement \<longleftrightarrow> trim_space placement = ''blob_exhaust''"

definition PlacementUsesGitAnchor :: "string \<Rightarrow> bool" where
  "PlacementUsesGitAnchor placement \<longleftrightarrow>
     trim_space placement = ''git_publication'' \<or> trim_space placement = ''git_pointer_manifest''"

section \<open>Fields\<close>

definition object :: "gomap \<Rightarrow> string \<Rightarrow> werror + gomap" where
  "object value key =
     (case as_map (mget value key) of
        Some item \<Rightarrow> Inr item
      | None \<Rightarrow> Inl (errf (StructureMsg (NotAnObject key))))"

definition list_field :: "gomap \<Rightarrow> string \<Rightarrow> werror + goval list" where
  "list_field value key =
     (case mget value key of
        VList item \<Rightarrow> Inr item
      | VMaps item \<Rightarrow> Inr (map VMap item)
      | _ \<Rightarrow> Inl (errf (StructureMsg (NotAList key))))"

definition stringField :: "gomap \<Rightarrow> string \<Rightarrow> werror + string" where
  "stringField value key =
     (case as_str (mget value key) of
        Some item \<Rightarrow> (if item = [] then Inl (errf (StructureMsg (EmptyStringField key))) else Inr item)
      | None \<Rightarrow> Inl (errf (StructureMsg (EmptyStringField key))))"

definition job_type :: "gomap \<Rightarrow> string" where
  "job_type job = defaultString (mget job ''type'') ''generic''"

text \<open>\<open>anySlice\<close> of a field, with the non-map entries dropped, as the loops of the code do.\<close>

definition slice_maps :: "goval \<Rightarrow> gomap list" where
  "slice_maps v = List.map_filter as_map (anySlice v)"

lemma object_Inr [check_simps]: "object value key = Inr m \<longleftrightarrow> mget value key = VMap m"
  by (auto simp: object_def split: option.splits)

lemma list_field_Inr [check_simps]:
  "list_field value key = Inr l \<Longrightarrow> anySlice (mget value key) = l"
  by (cases "mget value key") (auto simp: list_field_def)

lemma stringField_Inr [check_simps]:
  "stringField value key = Inr s \<longleftrightarrow> mget value key = VStr s \<and> s \<noteq> []"
  by (auto simp: stringField_def split: option.splits)

lemma stringField_value: "stringField value key = Inr s \<Longrightarrow> stringValue (mget value key) = s"
  by (simp add: stringField_Inr)

lemma in_slice_maps [simp]: "m \<in> set (slice_maps v) \<longleftrightarrow> VMap m \<in> set (anySlice v)"
  by (auto simp: slice_maps_def)

section \<open>Placements\<close>

lemma resolve_cases: "ResolvePlacement kind p \<in> set allowedPlacements"
  by (simp add: ResolvePlacement_def DefaultPlacementForKind_def Let_def allowedPlacements_def)

lemma trim_placement: "p \<in> set allowedPlacements \<Longrightarrow> trim_space p = p"
proof -
  have "list_all (\<lambda>p. trim_space p = p) allowedPlacements" by code_simp
  then show "p \<in> set allowedPlacements \<Longrightarrow> trim_space p = p" by (simp add: list_all_iff)
qed

text \<open>Every artifact has exactly one durable home: whatever its kind and declared
  placement, the resolved placement is an admissible one and either the blob store or the git
  anchor stores it, never both and never neither.\<close>

theorem ResolvePlacement_partition:
  "IsAllowedPlacement (ResolvePlacement kind p) \<and>
   PlacementUsesBlob (ResolvePlacement kind p) \<noteq> PlacementUsesGitAnchor (ResolvePlacement kind p)"
proof -
  have "list_all (\<lambda>q. IsAllowedPlacement q \<and> PlacementUsesBlob q \<noteq> PlacementUsesGitAnchor q)
      allowedPlacements"
    by code_simp
  with resolve_cases [of kind p] show ?thesis by (simp add: list_all_iff)
qed

end
