(* ===== verification/WorkflowLanes.thy ===== *)
theory WorkflowLanes
  imports WorkflowFields "HOL-Library.Multiset"
begin

text \<open>
  \<open>validateLanes\<close> of \<open>go/pkg/workflowauthoring/workflow.go\<close>: the lane objects of a workflow,
  each checked by the stages of the loop body in the order of the code. Lanes, command
  environment and constraints are maps; the list order is the iteration order.
\<close>

section \<open>The stages of the loop body\<close>

text \<open>\<open>if raw, exists := m[key]; exists { ... }\<close>.\<close>

definition when_field :: "gomap \<Rightarrow> string \<Rightarrow> (goval \<Rightarrow> 'e check) \<Rightarrow> 'e check" where
  "when_field m key f = (case map_of m key of Some raw \<Rightarrow> f raw | None \<Rightarrow> None)"

definition lane_path :: "string \<Rightarrow> string \<Rightarrow> string" where
  "lane_path laneID field = ''lanes.'' @ laneID @ ''.'' @ field"

definition check_model :: "string \<Rightarrow> gomap \<Rightarrow> werror check" where
  "check_model laneID lane = when_field lane ''model'' (\<lambda>v.
     fail_if (stringValue v = []) (fieldErr (lane_path laneID ''model'') (LaneMsg (ModelEmpty laneID))))"

definition check_command :: "string \<Rightarrow> gomap \<Rightarrow> werror check" where
  "check_command laneID lane =
     (if mget lane ''adapter'' = VStr ''process'' then
        (let command = anySlice (mget lane ''command'')
         in checks
              [fail_if (command = []) (errf (LaneMsg (CommandEmpty laneID))),
               check_each (\<lambda>part. fail_if (stringValue part = []) (errf (LaneMsg (CommandEntry laneID))))
                 command])
      else None)"

definition check_isolation :: "string \<Rightarrow> gomap \<Rightarrow> werror check" where
  "check_isolation laneID lane =
     (let mode = stringValue (mget lane ''worktree_isolation'')
      in fail_if (mode \<noteq> [] \<and> mode \<notin> set worktreeIsolationValues) (errf (LaneMsg (BadIsolation laneID))))"

definition blank :: "goval \<Rightarrow> bool" where
  "blank v \<longleftrightarrow> trim_space (stringValue v) = []"

definition check_shared_checkout :: "string \<Rightarrow> gomap \<Rightarrow> werror check" where
  "check_shared_checkout laneID lane = checks
     [when_field lane ''allow_shared_checkout_repo_write'' (\<lambda>raw.
        case as_bool raw of
          None \<Rightarrow> Some (fieldErr (lane_path laneID ''allow_shared_checkout_repo_write'')
                     (LaneMsg (AllowNotBool laneID)))
        | Some allow \<Rightarrow>
            fail_if (allow \<and> blank (mget lane ''shared_checkout_repo_write_rationale''))
              (fieldErr (lane_path laneID ''shared_checkout_repo_write_rationale'')
                (LaneMsg (AllowNeedsRationale laneID)))),
      when_field lane ''shared_checkout_repo_write_rationale'' (\<lambda>raw.
        fail_if (as_str raw = None \<or> blank raw)
          (fieldErr (lane_path laneID ''shared_checkout_repo_write_rationale'')
            (LaneMsg (RationaleEmpty laneID))))]"

definition is_abs :: "string \<Rightarrow> bool" where
  "is_abs p \<longleftrightarrow> prefix ''/'' p"

definition check_path_prefix :: "string \<Rightarrow> gomap \<Rightarrow> werror check" where
  "check_path_prefix laneID lane = when_field lane ''path_prefix'' (\<lambda>raw.
     case raw of
       VList items \<Rightarrow> check_each (\<lambda>item.
         case as_str item of
           None \<Rightarrow> Some (errf (LaneMsg (PrefixEntry laneID)))
         | Some dir \<Rightarrow> checks
             [fail_if (trim_space dir = []) (errf (LaneMsg (PrefixEntry laneID))),
              fail_if (\<not> is_abs (trim_space dir)) (errf (LaneMsg (PrefixRelative laneID dir)))]) items
     | _ \<Rightarrow> Some (errf (LaneMsg (PrefixNotArray laneID))))"

definition check_command_env :: "string \<Rightarrow> gomap \<Rightarrow> werror check" where
  "check_command_env laneID lane = when_field lane ''command_env'' (\<lambda>raw.
     case as_map raw of
       None \<Rightarrow> Some (errf (LaneEnvMsg (EnvNotObject laneID)))
     | Some obj \<Rightarrow> check_each (\<lambda>(key, v).
         let trimmed = trim_space key in checks
           [fail_if (trimmed = []) (errf (LaneEnvMsg (EnvKeyEmpty laneID))),
            fail_if (trimmed = ''PATH'') (errf (LaneEnvMsg (EnvSetsPath laneID))),
            fail_if (prefix ''STRIATUM_'' trimmed) (errf (LaneEnvMsg (EnvReserved laneID trimmed))),
            fail_if (as_str v = None) (errf (LaneEnvMsg (EnvValue laneID trimmed)))]) obj)"

definition laneDeclaresAgentLoop :: "gomap \<Rightarrow> bool" where
  "laneDeclaresAgentLoop lane \<longleftrightarrow>
     mget lane ''agent_loop'' = VBool True \<or>
     (case as_map (mget lane ''adapter_capabilities'') of
        None \<Rightarrow> False
      | Some caps \<Rightarrow> mget caps ''agent_loop'' = VBool True)"

definition check_supervision :: "string \<Rightarrow> gomap \<Rightarrow> werror check" where
  "check_supervision laneID lane = when_field lane ''supervision'' (\<lambda>supRaw.
     case as_map supRaw of
       None \<Rightarrow> None
     | Some svn \<Rightarrow>
         (let wants = mget svn ''require_tmux'' = VBool True \<or> mget svn ''transport'' = VStr ''pty_helper''
          in fail_if (wants \<and> \<not> laneDeclaresAgentLoop lane)
               (fieldErr (lane_path laneID ''adapter_capabilities'') (LaneEnvMsg (NeedsAgentLoop laneID)))))"

definition adapterConstraintEnforcement :: "goval \<Rightarrow> string \<Rightarrow> string \<Rightarrow> string" where
  "adapterConstraintEnforcement adapter constraint requested =
     (if adapter = VStr ''process'' then
        (if constraint = ''transcripts'' \<and> requested = ''off'' then ''enforced''
         else if constraint = ''network'' \<and> requested = ''forbidden'' then ''advisory_strict''
         else if constraint = ''repo_scope'' \<and> requested = ''local_only'' then ''advisory_strict''
         else ''advisory'')
      else ''unsupported'')"

definition enforcement_level :: "string \<Rightarrow> nat" where
  "enforcement_level s = (case map_of enforcementLevels s of Some n \<Rightarrow> n | None \<Rightarrow> 0)"

definition adapterEnforcementSatisfies :: "string \<Rightarrow> string \<Rightarrow> bool" where
  "adapterEnforcementSatisfies actual required \<longleftrightarrow> enforcement_level actual \<ge> enforcement_level required"

definition enforcementLevelKnown :: "string \<Rightarrow> bool" where
  "enforcementLevelKnown level \<longleftrightarrow> map_of enforcementLevels level \<noteq> None"

definition check_constraint :: "string \<Rightarrow> string \<times> goval \<Rightarrow> werror check" where
  "check_constraint laneID kv =
     (case map_of constraintValues (fst kv) of
        None \<Rightarrow> Some (errf (LaneEnvMsg (UnknownConstraint laneID (fst kv))))
      | Some allowed \<Rightarrow>
          fail_if (go_sprint (snd kv) \<notin> set allowed)
            (errf (LaneEnvMsg (BadConstraintValue laneID (fst kv)))))"

definition check_required :: "string \<Rightarrow> gomap \<Rightarrow> gomap \<Rightarrow> string \<times> goval \<Rightarrow> werror check" where
  "check_required laneID lane constraints kv =
     (if \<not> mhas constraints (fst kv) then Some (errf (LaneEnvMsg (UndeclaredConstraint laneID (fst kv))))
      else (case as_str (snd kv) of
        None \<Rightarrow> Some (errf (LaneEnvMsg (BadEnforcementLevel laneID)))
      | Some requiredText \<Rightarrow>
          if \<not> enforcementLevelKnown requiredText then Some (errf (LaneEnvMsg (BadEnforcementLevel laneID)))
          else
            (let actual = adapterConstraintEnforcement (mget lane ''adapter'') (fst kv)
                            (go_sprint (mget constraints (fst kv)))
             in fail_if (\<not> adapterEnforcementSatisfies actual requiredText)
                  (errf (LaneEnvMsg (EnforcementShort laneID requiredText (fst kv) actual))))))"

text \<open>Constraints default to the empty map; the enforcement loop reads them.\<close>

definition check_constraints :: "string \<Rightarrow> gomap \<Rightarrow> werror check" where
  "check_constraints laneID lane =
     with_ok
       (case map_of lane ''constraints'' of
          None \<Rightarrow> Inr []
        | Some raw \<Rightarrow> (case as_map raw of
            None \<Rightarrow> Inl (errf (LaneEnvMsg (ConstraintsNotObject laneID)))
          | Some c \<Rightarrow> (case check_each (check_constraint laneID) c of Some e \<Rightarrow> Inl e | None \<Rightarrow> Inr c)))
       (\<lambda>constraints. when_field lane ''required_enforcement'' (\<lambda>required.
          case as_map required of
            None \<Rightarrow> Some (errf (LaneEnvMsg (EnforcementNotObject laneID)))
          | Some requiredMap \<Rightarrow> check_each (check_required laneID lane constraints) requiredMap))"

definition validateLane :: "string \<times> goval \<Rightarrow> werror check" where
  "validateLane kv =
     (let laneID = fst kv in
      case as_map (snd kv) of
        None \<Rightarrow> Some (fieldErr (''lanes.'' @ laneID) (LaneMsg (LaneNotObject laneID)))
      | Some lane \<Rightarrow> checks
          [check_model laneID lane, check_command laneID lane, check_isolation laneID lane,
           check_shared_checkout laneID lane, check_path_prefix laneID lane,
           check_command_env laneID lane, check_supervision laneID lane,
           check_constraints laneID lane])"

definition validateLanes :: "gomap \<Rightarrow> werror check" where
  "validateLanes lanes = check_each validateLane lanes"

section \<open>What a validated lane guarantees\<close>

lemma validateLanes_order: "mset lanes = mset lanes' \<Longrightarrow> (validateLanes lanes = None) = (validateLanes lanes' = None)"
  unfolding validateLanes_def by (rule check_each_perm) (rule mset_eq_setD)

lemma validateLanes_lane:
  "validateLanes lanes = None \<Longrightarrow> map_of lanes laneID = Some v \<Longrightarrow> validateLane (laneID, v) = None"
  by (auto simp: validateLanes_def dest: map_of_SomeD)

lemma when_field_None [check_simps]:
  "when_field m key f = None \<longleftrightarrow> (\<forall>raw. map_of m key = Some raw \<longrightarrow> f raw = None)"
  by (auto simp: when_field_def split: option.splits)

lemma validateLane_stages:
  assumes "validateLane (laneID, VMap lane) = None"
  shows "check_command laneID lane = None" "check_shared_checkout laneID lane = None"
    "check_command_env laneID lane = None" "check_constraints laneID lane = None"
    "check_supervision laneID lane = None" "check_path_prefix laneID lane = None"
  using assms by (simp_all add: validateLane_def)

lemma validateLane_object: "validateLane (laneID, v) = None \<Longrightarrow> \<exists>lane. v = VMap lane"
  by (auto simp: validateLane_def Let_def split: option.splits)

text \<open>The environment variables a lane may set.\<close>

definition env_ok :: "gomap \<Rightarrow> bool" where
  "env_ok obj \<longleftrightarrow> (\<forall>(key, v) \<in> set obj. trim_space key \<noteq> [] \<and> trim_space key \<noteq> ''PATH'' \<and>
     \<not> prefix ''STRIATUM_'' (trim_space key) \<and> (\<exists>s. v = VStr s))"

lemma command_env_ok:
  assumes "check_command_env laneID lane = None" and "map_of lane ''command_env'' = Some raw"
  shows "\<exists>obj. raw = VMap obj \<and> env_ok obj"
  using assms
  by (auto simp: check_command_env_def when_field_def env_ok_def Let_def split: option.splits)

lemma constraints_ok:
  assumes "check_constraints laneID lane = None"
    and "map_of lane ''required_enforcement'' = Some (VMap req)" and "kv \<in> set req"
  obtains c where "map_of lane ''constraints'' = Some (VMap c) \<or> c = [] \<and> map_of lane ''constraints'' = None"
    and "check_required laneID lane c kv = None"
proof -
  from assms(1) obtain c where "map_of lane ''constraints'' = Some (VMap c) \<or> c = [] \<and> map_of lane ''constraints'' = None"
    and "when_field lane ''required_enforcement'' (\<lambda>required. case as_map required of
            None \<Rightarrow> Some (errf (LaneEnvMsg (EnforcementNotObject laneID)))
          | Some requiredMap \<Rightarrow> check_each (check_required laneID lane c) requiredMap) = None"
    unfolding check_constraints_def with_ok_None by (auto split: option.splits)
  with assms(2,3) that show thesis by (simp add: when_field_def)
qed

lemma level_values [simp]:
  "enforcement_level ''unsupported'' = 0" "enforcement_level ''advisory'' = 1"
  "enforcement_level ''advisory_strict'' = 2" "enforcement_level ''enforced'' = 3"
  by code_simp+

lemma enforced_only:
  assumes "3 \<le> enforcement_level (adapterConstraintEnforcement adapter k requested)"
  shows "adapter = VStr ''process'' \<and> k = ''transcripts'' \<and> requested = ''off''"
proof (rule ccontr)
  assume "\<not> ?thesis"
  then have "adapterConstraintEnforcement adapter k requested
      \<in> set [''advisory_strict'', ''advisory'', ''unsupported'']"
    by (auto simp: adapterConstraintEnforcement_def)
  then have "enforcement_level (adapterConstraintEnforcement adapter k requested) \<le> 2" by auto
  with assms show False by simp
qed

lemma check_required_ok:
  assumes "check_required laneID lane c (k, v) = None"
  shows "\<exists>lvl. v = VStr lvl \<and> mhas c k \<and> enforcementLevelKnown lvl \<and>
    enforcement_level lvl \<le>
      enforcement_level (adapterConstraintEnforcement (mget lane ''adapter'') k (go_sprint (mget c k)))"
  using assms
  by (auto simp: check_required_def adapterEnforcementSatisfies_def Let_def split: option.splits if_splits)

lemma command_ok:
  "check_command laneID lane = None \<Longrightarrow> mget lane ''adapter'' = VStr ''process'' \<Longrightarrow>
   anySlice (mget lane ''command'') \<noteq> [] \<and>
   (\<forall>part \<in> set (anySlice (mget lane ''command'')). stringValue part \<noteq> [])"
  by (simp add: check_command_def Let_def)

lemma shared_checkout_ok:
  "check_shared_checkout laneID lane = None \<Longrightarrow>
   mget lane ''allow_shared_checkout_repo_write'' = VBool True \<Longrightarrow>
   \<not> blank (mget lane ''shared_checkout_repo_write_rationale'')"
  by (auto simp: check_shared_checkout_def when_field_def mget_def split: option.splits)

section \<open>Properties\<close>

text \<open>A validated lane cannot take over the daemon's control plane or start nothing: its
  environment sets neither \<open>PATH\<close> nor a \<open>STRIATUM_\<close> variable and holds strings only, a process
  lane has a command of non-empty strings, and a lane that may write the shared checkout says why.\<close>

theorem validateLanes_safe:
  assumes "validateLanes lanes = None" and "map_of lanes laneID = Some v"
  shows "\<exists>lane. v = VMap lane \<and>
    (\<forall>raw. map_of lane ''command_env'' = Some raw \<longrightarrow> (\<exists>obj. raw = VMap obj \<and> env_ok obj)) \<and>
    (mget lane ''adapter'' = VStr ''process'' \<longrightarrow>
       anySlice (mget lane ''command'') \<noteq> [] \<and>
       (\<forall>part \<in> set (anySlice (mget lane ''command'')). stringValue part \<noteq> [])) \<and>
    (mget lane ''allow_shared_checkout_repo_write'' = VBool True \<longrightarrow>
       \<not> blank (mget lane ''shared_checkout_repo_write_rationale''))"
proof -
  note ok = validateLanes_lane [OF assms]
  from validateLane_object [OF ok] obtain lane where v: "v = VMap lane" by blast
  note st = validateLane_stages [OF ok [unfolded v]]
  from command_env_ok [OF st(3)] command_ok [OF st(1)] shared_checkout_ok [OF st(2)] v
  show ?thesis by blast
qed

text \<open>Enforcement promises are kept: whatever level of enforcement a validated lane requires
  for a constraint, the constraint is declared and the lane's adapter provides at least that
  level; the level \<open>enforced\<close> is accepted for process lanes with transcripts off only.\<close>

theorem validateLanes_enforcement:
  assumes "validateLanes lanes = None" and "map_of lanes laneID = Some (VMap lane)"
    and "map_of lane ''required_enforcement'' = Some (VMap req)" and "(k, v) \<in> set req"
  shows "\<exists>lvl c. v = VStr lvl \<and> map_of lane ''constraints'' = Some (VMap c) \<and> mhas c k \<and>
    enforcement_level lvl \<le>
      enforcement_level (adapterConstraintEnforcement (mget lane ''adapter'') k (go_sprint (mget c k))) \<and>
    (lvl = ''enforced'' \<longrightarrow> mget lane ''adapter'' = VStr ''process'' \<and> k = ''transcripts'' \<and>
       go_sprint (mget c k) = ''off'')"
proof -
  from constraints_ok [OF validateLane_stages(4) [OF validateLanes_lane [OF assms(1,2)]] assms(3,4)]
  obtain c where c: "map_of lane ''constraints'' = Some (VMap c) \<or> c = [] \<and> map_of lane ''constraints'' = None"
    and req: "check_required laneID lane c (k, v) = None" .
  let ?given = "adapterConstraintEnforcement (mget lane ''adapter'') k (go_sprint (mget c k))"
  from check_required_ok [OF req] obtain lvl where v: "v = VStr lvl" and k: "mhas c k"
    and le: "enforcement_level lvl \<le> enforcement_level ?given"
    by blast
  from k c have "map_of lane ''constraints'' = Some (VMap c)" by (auto simp: mhas_def)
  moreover have "lvl = ''enforced'' \<Longrightarrow> 3 \<le> enforcement_level ?given"
    using le by (simp only: level_values)
  ultimately show ?thesis using v k le enforced_only [of "mget lane ''adapter''" k] by blast
qed

definition ex_lanes :: gomap where
  "ex_lanes =
     [(''dev'', VMap [(''adapter'', VStr ''process''), (''command'', VList [VStr ''codex'']),
        (''command_env'', VMap [(''LANG'', VStr ''C'')]),
        (''constraints'', VMap [(''transcripts'', VStr ''off'')]),
        (''required_enforcement'', VMap [(''transcripts'', VStr ''enforced'')])])]"

lemma ex_lanes_ok: "validateLanes ex_lanes = None"
  by code_simp

definition ex_lane :: gomap where
  "ex_lane = (case ex_lanes of (_, VMap m) # _ \<Rightarrow> m | _ \<Rightarrow> [])"

lemma ex_lane_at: "map_of ex_lanes ''dev'' = Some (VMap ex_lane)"
  by (simp add: ex_lanes_def ex_lane_def)

theorem validateLanes_safe_witness:
  "\<exists>lane. VMap ex_lane = VMap lane \<and>
    (\<forall>raw. map_of lane ''command_env'' = Some raw \<longrightarrow> (\<exists>obj. raw = VMap obj \<and> env_ok obj)) \<and>
    (mget lane ''adapter'' = VStr ''process'' \<longrightarrow>
       anySlice (mget lane ''command'') \<noteq> [] \<and>
       (\<forall>part \<in> set (anySlice (mget lane ''command'')). stringValue part \<noteq> [])) \<and>
    (mget lane ''allow_shared_checkout_repo_write'' = VBool True \<longrightarrow>
       \<not> blank (mget lane ''shared_checkout_repo_write_rationale''))"
  by (rule validateLanes_safe [OF ex_lanes_ok ex_lane_at])

theorem validateLanes_enforcement_witness:
  "\<exists>lvl c. VStr ''enforced'' = VStr lvl \<and> map_of ex_lane ''constraints'' = Some (VMap c) \<and>
    mhas c ''transcripts'' \<and>
    enforcement_level lvl \<le>
      enforcement_level (adapterConstraintEnforcement (mget ex_lane ''adapter'') ''transcripts''
        (go_sprint (mget c ''transcripts''))) \<and>
    (lvl = ''enforced'' \<longrightarrow> mget ex_lane ''adapter'' = VStr ''process'' \<and> ''transcripts'' = ''transcripts'' \<and>
       go_sprint (mget c ''transcripts'') = ''off'')"
  by (rule validateLanes_enforcement [OF ex_lanes_ok ex_lane_at, of "[(''transcripts'', VStr ''enforced'')]"])
     (simp_all add: ex_lane_def ex_lanes_def)

end
