(* ===== verification/WorkflowJobs.thy ===== *)
theory WorkflowJobs
  imports WorkflowLanes
begin

text \<open>
  The per-job validators of \<open>go/pkg/workflowauthoring/workflow.go\<close>: write scopes and expected
  artifacts (\<open>validateJobPaths\<close>, \<open>validateArtifactInWriteScope\<close>), reviewer policy, review
  postures, the panel quorum configuration and shared resources.
\<close>

section \<open>Write scopes and artifacts\<close>

definition check_forbidden :: "string \<Rightarrow> string \<Rightarrow> string \<Rightarrow> werror check" where
  "check_forbidden jobID allowedPath forbiddenPath = checks
     [fail_if (repoPathInvalid forbiddenPath) (errf (PathMsg (BadForbiddenPath jobID))),
      fail_if (writeScopePathHasGlob forbiddenPath)
        (errf (PathMsg (ForbiddenGlob jobID forbiddenPath (globPrefixSuggestion forbiddenPath)))),
      fail_if (repoPathWithin allowedPath forbiddenPath)
        (errf (PathMsg (AllowedInsideForbidden jobID allowedPath forbiddenPath)))]"

definition check_allowed :: "string \<Rightarrow> string list \<Rightarrow> string \<Rightarrow> werror check" where
  "check_allowed jobID forbidden allowedPath = checks
     [fail_if (repoPathInvalid allowedPath) (errf (PathMsg (BadAllowedPath jobID))),
      fail_if (writeScopePathHasGlob allowedPath)
        (errf (PathMsg (AllowedGlob jobID allowedPath (globPrefixSuggestion allowedPath)))),
      check_each (check_forbidden jobID allowedPath) forbidden]"

definition allowed_paths :: "gomap \<Rightarrow> string list" where
  "allowed_paths scope = stringsFromSlice (mget scope ''allowed_paths'')"

definition forbidden_paths :: "gomap \<Rightarrow> string list" where
  "forbidden_paths scope = stringsFromSlice (mget scope ''forbidden_paths'')"

definition validateArtifactInWriteScope :: "string \<Rightarrow> gomap \<Rightarrow> string \<Rightarrow> werror check" where
  "validateArtifactInWriteScope jobID job artifactPath =
     (case as_map (mget job ''write_scope'') of
        None \<Rightarrow> None
      | Some scope \<Rightarrow>
          (let allowed = allowed_paths scope; forbidden = forbidden_paths scope in
           if allowed = [] then None
           else (case check_each (\<lambda>forbiddenPath.
                   fail_if (repoPathWithin artifactPath forbiddenPath)
                     (errf (PathMsg (ArtifactForbidden jobID artifactPath forbiddenPath)))) forbidden of
               Some e \<Rightarrow> Some e
             | None \<Rightarrow>
                 fail_if (\<not> list_ex (\<lambda>allowedPath. repoPathWithin artifactPath allowedPath) allowed)
                   (errf (PathMsg (ArtifactOutside jobID artifactPath))))))"

definition artifact_field :: "nat \<Rightarrow> nat \<Rightarrow> string \<Rightarrow> string" where
  "artifact_field jobIndex artifactIndex field =
     index_path ''jobs'' jobIndex @ ''.'' @ index_path ''expected_artifacts'' artifactIndex @ ''.'' @ field"

definition check_artifact :: "nat \<Rightarrow> string \<Rightarrow> gomap \<Rightarrow> nat \<Rightarrow> goval \<Rightarrow> werror check" where
  "check_artifact jobIndex jobID job artifactIndex item =
     (case as_map item of
        None \<Rightarrow> Some (errf (PathMsg (ArtifactNotObject jobID)))
      | Some artifact \<Rightarrow>
          (let path = stringValue (mget artifact ''path'');
               kind = stringValue (mget artifact ''kind'');
               placement = trim_space (stringValue (mget artifact ''placement'')) in checks
             [fail_if (path = [] \<or> repoPathInvalid path)
                (fieldErr (artifact_field jobIndex artifactIndex ''path'') (PathMsg (BadArtifactPath jobID))),
              fail_if (kind = [])
                (fieldErr (artifact_field jobIndex artifactIndex ''kind'')
                  (PathMsg (KindMissing jobID artifactIndex))),
              fail_if (kind \<notin> set allowedKinds)
                (fieldErr (artifact_field jobIndex artifactIndex ''kind'') (PathMsg (UnknownKind jobID kind))),
              fail_if (placement \<noteq> [] \<and> \<not> IsAllowedPlacement placement)
                (fieldErr (artifact_field jobIndex artifactIndex ''placement'')
                  (PathMsg (UnknownPlacement jobID placement))),
              validateArtifactInWriteScope jobID job path]))"

definition validateJobPaths :: "nat \<Rightarrow> string \<Rightarrow> gomap \<Rightarrow> werror check" where
  "validateJobPaths jobIndex jobID job = checks
     [(case as_map (mget job ''write_scope'') of
         None \<Rightarrow> None
       | Some scope \<Rightarrow> check_each (check_allowed jobID (forbidden_paths scope)) (allowed_paths scope)),
      check_idx (check_artifact jobIndex jobID job) 0 (anySlice (mget job ''expected_artifacts''))]"

section \<open>Review configuration\<close>

definition validateReviewerPolicy :: "string \<Rightarrow> gomap \<Rightarrow> bool \<Rightarrow> werror check" where
  "validateReviewerPolicy jobID job crossRepo =
     (let hasAccess = mhas job ''reviewer_access_scope'';
          hasContext = mhas job ''reviewer_context_policy'' in
      if \<not> hasAccess \<and> \<not> hasContext then None
      else
        (let access = stringValue (mget job ''reviewer_access_scope'');
             ctx = stringValue (mget job ''reviewer_context_policy'') in checks
           [fail_if (job_type job \<noteq> ''review'') (errf (ReviewMsg (PolicyOnNonReview jobID))),
            fail_if (hasAccess \<and> access \<notin> set reviewerAccessScopes)
              (errf (ReviewMsg (UnknownAccess jobID (mget job ''reviewer_access_scope'')))),
            fail_if (hasAccess \<and> access = ''cross_repo_artifact_augmented'' \<and> \<not> crossRepo)
              (errf (ReviewMsg (CrossRepoOnly jobID))),
            fail_if (hasAccess \<and> access = ''document_only'' \<and> anySlice (mget job ''inputs'') = [])
              (errf (ReviewMsg (DocumentOnlyInputs jobID))),
            fail_if (hasContext \<and> ctx \<notin> set reviewerContextPolicies)
              (errf (ReviewMsg (UnknownContext jobID (mget job ''reviewer_context_policy'')))),
            fail_if (hasContext \<and> ctx = ''fresh'' \<and> mget job ''fresh_session_required'' = VBool False)
              (errf (ReviewMsg (FreshContradiction jobID)))]))"

definition validatePostureValue :: "string \<Rightarrow> string \<Rightarrow> string \<Rightarrow> werror check" where
  "validatePostureValue jobID label posture =
     (if posture \<in> set reviewPostures then None
      else if prefix ''custom:'' posture \<and> trim_space (drop 7 posture) \<noteq> [] then None
      else Some (errf (ReviewMsg (UnknownPosture label jobID posture))))"

definition validateReviewPosture :: "string \<Rightarrow> gomap \<Rightarrow> werror check" where
  "validateReviewPosture jobID job = when_field job ''review_posture'' (\<lambda>v.
     if job_type job \<noteq> ''review'' then Some (errf (ReviewMsg (PostureOnNonReview jobID)))
     else if stringValue v = [] then Some (errf (ReviewMsg (PostureEmpty jobID)))
     else validatePostureValue jobID ''review job'' (stringValue v))"

definition validatePanelQuorum :: "string \<Rightarrow> gomap \<Rightarrow> werror check" where
  "validatePanelQuorum jobID job =
     (case when_field job ''panel_role'' (\<lambda>v. checks
             [fail_if (job_type job \<noteq> ''review'') (errf (ReviewMsg (PanelRoleOnNonReview jobID))),
              fail_if (v \<noteq> VStr ''gating'' \<and> v \<noteq> VStr ''advisory'')
                (errf (ReviewMsg (UnknownPanelRole jobID v)))]) of
        Some e \<Rightarrow> Some e
      | None \<Rightarrow> with_ok
          (case map_of job ''allow_gating_abstentions'' of
             None \<Rightarrow> Inr False
           | Some raw \<Rightarrow> (case as_bool raw of
               None \<Rightarrow> Inl (errf (ReviewMsg (AllowAbstentionsNotBool jobID)))
             | Some flag \<Rightarrow> Inr flag))
          (\<lambda>allowAbstentions. when_field job ''max_gating_abstentions'' (\<lambda>v. checks
             [fail_if (\<not> nonNegativeWholeNumber v) (errf (ReviewMsg (AbstentionsNotWhole jobID))),
              fail_if (positiveWholeNumber v \<and> \<not> allowAbstentions)
                (errf (ReviewMsg (AbstentionsNeedOptIn jobID)))])))"

definition validateRequiredReviewPostures :: "string \<Rightarrow> gomap \<Rightarrow> werror check" where
  "validateRequiredReviewPostures jobID job = when_field job ''required_review_postures'' (\<lambda>raw. checks
     [fail_if (job_type job \<noteq> ''build'') (errf (PostureMsg (RequiredOnNonBuild jobID))),
      fail_if (anySlice raw = []) (errf (PostureMsg (RequiredEmpty jobID))),
      check_each (\<lambda>item.
        if stringValue item = [] then Some (errf (PostureMsg (RequiredEntry jobID)))
        else validatePostureValue jobID ''build job'' (stringValue item)) (anySlice raw)])"

section \<open>Shared resources\<close>

definition check_resource :: "string \<Rightarrow> string \<Rightarrow> goval \<Rightarrow> werror check" where
  "check_resource path jobID item =
     (case item of
        VStr resource \<Rightarrow> fail_if (trim_space resource = []) (fieldErr path (PostureMsg (ResourceId jobID)))
      | VMap resource \<Rightarrow>
          (let mode = defaultString (mget resource ''mode'') ''exclusive'' in checks
             [fail_if (blank (mget resource ''id'')) (fieldErr (path @ ''.id'') (PostureMsg (ResourceId jobID))),
              fail_if (mode \<notin> set sharedResourceModes)
                (fieldErr (path @ ''.mode'') (PostureMsg (ResourceMode jobID))),
              when_field resource ''description'' (\<lambda>v.
                fail_if (as_str v = None)
                  (fieldErr (path @ ''.description'') (PostureMsg (ResourceDescription jobID)))),
              when_field resource ''namespace'' (\<lambda>v.
                fail_if (as_str v = None \<or> blank v)
                  (fieldErr (path @ ''.namespace'') (PostureMsg (ResourceNamespace jobID)))),
              fail_if (mode = ''per_lane_namespace'' \<and> blank (mget resource ''namespace''))
                (fieldErr (path @ ''.namespace'') (PostureMsg (ResourceNeedsNamespace jobID)))])
      | _ \<Rightarrow> Some (fieldErr path (PostureMsg (ResourceShape jobID))))"

definition is_list :: "goval \<Rightarrow> bool" where
  "is_list v \<longleftrightarrow> (case v of VList _ \<Rightarrow> True | VStrs _ \<Rightarrow> True | VMaps _ \<Rightarrow> True | _ \<Rightarrow> False)"

definition validateSharedResources :: "nat \<Rightarrow> string \<Rightarrow> gomap \<Rightarrow> werror check" where
  "validateSharedResources jobIndex jobID job = when_field job ''shared_resources'' (\<lambda>raw.
     let field = index_path ''jobs'' jobIndex @ ''.shared_resources'' in
     if \<not> is_list raw then Some (fieldErr field (PostureMsg (ResourcesNotList jobID)))
     else check_idx (\<lambda>i. check_resource (field @ ''['' @ show_nat i @ '']'') jobID) 0 (anySlice raw))"

section \<open>What a validated job guarantees\<close>

lemmas job_check_defs = validateJobPaths_def check_allowed_def check_forbidden_def check_artifact_def
  validateArtifactInWriteScope_def

text \<open>The artifacts a job declares, as paths.\<close>

definition artifact_paths :: "gomap \<Rightarrow> string list" where
  "artifact_paths job =
     map (\<lambda>a. stringValue (mget a ''path'')) (slice_maps (mget job ''expected_artifacts''))"

lemma job_paths_allowed:
  assumes "validateJobPaths i jobID job = None" and "mget job ''write_scope'' = VMap scope"
    and "a \<in> set (allowed_paths scope)"
  shows "\<not> repoPathInvalid a" "\<not> writeScopePathHasGlob a"
    "f \<in> set (forbidden_paths scope) \<Longrightarrow> \<not> repoPathInvalid f \<and> \<not> repoPathWithin a f"
  using assms by (auto simp: validateJobPaths_def check_allowed_def check_forbidden_def)

lemma job_artifact:
  assumes "validateJobPaths i jobID job = None" and "p \<in> set (artifact_paths job)"
  shows "p \<noteq> [] \<and> \<not> repoPathInvalid p \<and> validateArtifactInWriteScope jobID job p = None"
proof -
  from assms(2) obtain a where a: "VMap a \<in> set (anySlice (mget job ''expected_artifacts''))"
    and p: "p = stringValue (mget a ''path'')" by (auto simp: artifact_paths_def)
  from assms(1) have "check_idx (check_artifact i jobID job) 0 (anySlice (mget job ''expected_artifacts'')) = None"
    by (simp add: validateJobPaths_def)
  from check_idx_NoneD [OF this a] show ?thesis by (auto simp: check_artifact_def p Let_def)
qed

lemma artifact_scope:
  assumes "validateArtifactInWriteScope jobID job p = None" and "mget job ''write_scope'' = VMap scope"
    and "allowed_paths scope \<noteq> []"
  shows "(\<exists>a \<in> set (allowed_paths scope). repoPathWithin p a) \<and>
    (\<forall>f \<in> set (forbidden_paths scope). \<not> repoPathWithin p f)"
  using assms by (auto simp: validateArtifactInWriteScope_def list_ex_iff Let_def split: option.splits)

text \<open>The artifacts of a validated job with declared write paths lie inside one of its
  allowed paths and inside none of its forbidden paths, and every allowed path is itself a
  proper repository path outside all forbidden ones.\<close>

theorem validateJobPaths_sound:
  assumes "validateJobPaths i jobID job = None" and "mget job ''write_scope'' = VMap scope"
    and "allowed_paths scope \<noteq> []"
  shows "(\<forall>p \<in> set (artifact_paths job). \<not> repoPathInvalid p \<and>
       (\<exists>a \<in> set (allowed_paths scope). repoPathWithin p a) \<and>
       (\<forall>f \<in> set (forbidden_paths scope). \<not> repoPathWithin p f)) \<and>
    (\<forall>a \<in> set (allowed_paths scope). \<not> repoPathInvalid a \<and>
       (\<forall>f \<in> set (forbidden_paths scope). \<not> repoPathWithin a f))"
proof (intro conjI ballI)
  fix p
  assume "p \<in> set (artifact_paths job)"
  note art = job_artifact [OF assms(1) this]
  from art show "\<not> repoPathInvalid p" by simp
  from artifact_scope [OF _ assms(2,3)] art
  show "\<exists>a \<in> set (allowed_paths scope). repoPathWithin p a" by blast
  show "\<not> repoPathWithin p f" if "f \<in> set (forbidden_paths scope)" for f
    using artifact_scope [OF _ assms(2,3)] art that by blast
qed (use job_paths_allowed [OF assms(1,2)] in blast)+

text \<open>An abstention budget is an explicit choice: a validated job whose budget is positive
  has \<open>allow_gating_abstentions: true\<close>, and every budget it declares is a whole number.\<close>

theorem validatePanelQuorum_opt_in:
  assumes "validatePanelQuorum jobID job = None" and "map_of job ''max_gating_abstentions'' = Some v"
  shows "nonNegativeWholeNumber v \<and>
    (positiveWholeNumber v \<longrightarrow> map_of job ''allow_gating_abstentions'' = Some (VBool True))"
proof -
  have b: "as_bool raw = Some flag \<Longrightarrow> raw = VBool flag" for raw flag by (cases raw) auto
  from assms show ?thesis
    by (auto simp: validatePanelQuorum_def when_field_def with_ok_def split: option.splits sum.splits dest!: b)
qed

section \<open>Concrete jobs\<close>

definition ex_job_document :: gomap where
  "ex_job_document =
     [(''id'', VStr ''build''), (''write_scope'', VMap
        [(''allowed_paths'', VList [VStr ''docs/'']), (''forbidden_paths'', VList [VStr ''docs/secret''])]),
      (''expected_artifacts'', VList [VMap [(''path'', VStr ''docs/a.md''), (''kind'', VStr ''handoff'')]]),
      (''allow_gating_abstentions'', VBool True), (''max_gating_abstentions'', VNumber ''1'')]"

definition ex_scope :: gomap where
  "ex_scope =
     [(''allowed_paths'', VList [VStr ''docs/'']), (''forbidden_paths'', VList [VStr ''docs/secret''])]"

lemma ex_job_ok: "validateJobPaths 0 ''build'' ex_job_document = None" "validatePanelQuorum ''build'' ex_job_document = None"
  by code_simp+

theorem validateJobPaths_sound_witness:
  "artifact_paths ex_job_document = [''docs/a.md''] \<and> \<not> repoPathInvalid ''docs/a.md'' \<and>
   (\<exists>a \<in> set (allowed_paths ex_scope). repoPathWithin ''docs/a.md'' a) \<and>
   list_all (\<lambda>f. \<not> repoPathWithin ''docs/a.md'' f) (forbidden_paths ex_scope)"
proof -
  have paths: "artifact_paths ex_job_document = [''docs/a.md'']" by code_simp
  have "mget ex_job_document ''write_scope'' = VMap ex_scope" by code_simp
  moreover have "allowed_paths ex_scope \<noteq> []" by code_simp
  moreover have "''docs/a.md'' \<in> set (artifact_paths ex_job_document)" by (simp add: paths)
  ultimately show ?thesis
    using validateJobPaths_sound [OF ex_job_ok(1)] paths unfolding list_all_iff by blast
qed

theorem validatePanelQuorum_opt_in_witness:
  "positiveWholeNumber (VNumber ''1'') \<and> map_of ex_job_document ''allow_gating_abstentions'' = Some (VBool True)"
proof -
  have "map_of ex_job_document ''max_gating_abstentions'' = Some (VNumber ''1'')" by code_simp
  moreover have "positiveWholeNumber (VNumber ''1'')" by code_simp
  ultimately show ?thesis using validatePanelQuorum_opt_in [OF ex_job_ok(2)] by blast
qed

text \<open>Forbidden paths without allowed paths are never looked at: a job that forbids
  \<open>secrets\<close> and lists no allowed path validates although its artifact lies in \<open>secrets\<close>, and an
  invalid forbidden path goes unnoticed; with an allowed path both are errors.\<close>

theorem forbidden_unchecked_without_allowed:
  "validateJobPaths 0 ''j''
     [(''write_scope'', VMap [(''forbidden_paths'', VList [VStr ''secrets'', VStr ''../x''])]),
      (''expected_artifacts'', VList [VMap [(''path'', VStr ''secrets/a''), (''kind'', VStr ''other'')]])]
     = None \<and>
   validateArtifactInWriteScope ''j''
     [(''write_scope'', VMap [(''allowed_paths'', VList [VStr ''.'']), (''forbidden_paths'', VList [VStr ''secrets''])])]
     ''secrets/a'' \<noteq> None \<and>
   validateJobPaths 0 ''j''
     [(''write_scope'', VMap [(''allowed_paths'', VList [VStr ''docs'']), (''forbidden_paths'', VList [VStr ''../x''])])]
     \<noteq> None"
  by code_simp

end
