(* ===== verification/WorkflowGraph.thy ===== *)
theory WorkflowGraph
  imports WorkflowJobs Digraph
begin

text \<open>
  The cross-job validators of \<open>go/pkg/workflowauthoring/workflow.go\<close> and the dependency pairs
  of \<open>plan.go\<close>: edges against the \<open>needs\<close> lists, interrogation targets, revision cycles,
  artifact ownership, parallel groups, required review postures and the root review policy.
  A job map is the list of ids and jobs in the order Go iterates over it.
\<close>

type_synonym job_map = "(string \<times> gomap) list"

section \<open>Edges\<close>

text \<open>The separator of the composite keys.\<close>

definition nul :: char where "nul = CHR 0x00"

text \<open>The checks on one edge, the same in \<open>validateEdges\<close> and \<open>EdgeDependencyPairs\<close>.\<close>

definition read_edge :: "job_map \<Rightarrow> goval \<Rightarrow> werror + edge" where
  "read_edge jobMap item =
     (case as_map item of
        None \<Rightarrow> Inl (errf (EdgeMsg EdgeNotObject))
      | Some e \<Rightarrow> (case stringField e ''from'' of
          Inl err \<Rightarrow> Inl err
        | Inr fromID \<Rightarrow> (case stringField e ''to'' of
            Inl err \<Rightarrow> Inl err
          | Inr toID \<Rightarrow>
              if map_of jobMap fromID = None \<or> map_of jobMap toID = None
              then Inl (errf (EdgeMsg EdgeUnknownJob))
              else if mget e ''on'' \<noteq> VStr ''completed'' then Inl (errf (EdgeMsg EdgeNotCompleted))
              else Inr (fromID, toID))))"

fun read_edges :: "job_map \<Rightarrow> goval list \<Rightarrow> werror + edge list" where
  "read_edges jobMap [] = Inr []"
| "read_edges jobMap (item # items) =
     (case read_edge jobMap item of
        Inl err \<Rightarrow> Inl err
      | Inr e \<Rightarrow> (case read_edges jobMap items of Inl err \<Rightarrow> Inl err | Inr es \<Rightarrow> Inr (e # es)))"

text \<open>The set \<open>seen\<close> of \<open>validateEdges\<close>, and what the needs check reads back from its keys.\<close>

definition edge_key :: "edge \<Rightarrow> string" where
  "edge_key e = snd e @ nul # fst e"

definition edge_needs :: "string list \<Rightarrow> string \<Rightarrow> string list" where
  "edge_needs seen jobID =
     List.map_filter (\<lambda>key. case split_on nul key of
         [toID, fromID] \<Rightarrow> (if toID = jobID then Some fromID else None)
       | _ \<Rightarrow> None) seen"

definition sameStringSet :: "string list \<Rightarrow> string list \<Rightarrow> bool" where
  "sameStringSet l r \<longleftrightarrow> set l = set r"

definition check_needs :: "string list \<Rightarrow> string \<times> gomap \<Rightarrow> werror check" where
  "check_needs seen job = when_field (snd job) ''needs'' (\<lambda>needs. checks
     [check_each (\<lambda>item. fail_if (as_str item = None) (errf (EdgeMsg (NonStringDependency (fst job)))))
        (anySlice needs),
      fail_if (\<not> sameStringSet (stringsFromSlice needs) (edge_needs seen (fst job)))
        (errf (EdgeMsg (NeedsDisagree (fst job))))])"

definition validateEdges :: "gomap \<Rightarrow> job_map \<Rightarrow> werror check" where
  "validateEdges workflow jobMap =
     with_ok (read_edges jobMap (anySlice (mget workflow ''edges'')))
       (\<lambda>es. check_each (check_needs (map edge_key es)) jobMap)"

text \<open>
  \<open>WorkflowJobMap\<close>, the last job of an id first; its type assertion on a job that is no object
  panics, which is an error value here.
\<close>

definition WorkflowJobMap :: "gomap \<Rightarrow> werror + job_map" where
  "WorkflowJobMap workflow =
     (if list_all (\<lambda>item. as_map item \<noteq> None) (anySlice (mget workflow ''jobs''))
      then Inr (rev (map (\<lambda>job. (stringValue (mget job ''id''), job)) (slice_maps (mget workflow ''jobs''))))
      else Inl (errf (StructureMsg JobAssertionPanics)))"

fun dedupe_pairs :: "edge list \<Rightarrow> string list \<Rightarrow> edge list" where
  "dedupe_pairs [] seen = []"
| "dedupe_pairs (e # es) seen =
     (let key = fst e @ nul # snd e
      in if key \<in> set seen then dedupe_pairs es seen else e # dedupe_pairs es (key # seen))"

definition EdgeDependencyPairs :: "gomap \<Rightarrow> werror + edge list" where
  "EdgeDependencyPairs workflow =
     (case WorkflowJobMap workflow of
        Inl err \<Rightarrow> Inl err
      | Inr jobs \<Rightarrow> (case read_edges jobs (anySlice (mget workflow ''edges'')) of
          Inl err \<Rightarrow> Inl err
        | Inr es \<Rightarrow> Inr (dedupe_pairs es [])))"

section \<open>Interrogation targets\<close>

definition target_path :: "string \<Rightarrow> nat \<Rightarrow> string" where
  "target_path jobID i = ''jobs.'' @ jobID @ ''.'' @ index_path ''interrogation_targets'' i"

fun check_targets ::
  "job_map \<Rightarrow> edge list \<Rightarrow> string \<Rightarrow> nat \<Rightarrow> string list \<Rightarrow> goval list \<Rightarrow> werror check" where
  "check_targets jobMap pairs jobID i seen [] = None"
| "check_targets jobMap pairs jobID i seen (item # items) =
     (case as_map item of
        None \<Rightarrow> Some (fieldErr (target_path jobID i) (TargetMsg (TargetNotObject jobID)))
      | Some tgt \<Rightarrow>
          (let targetID = stringValue (mget tgt ''workflow_job_id'') in
           if trim_space targetID = []
           then Some (fieldErr (target_path jobID i @ ''.workflow_job_id'') (TargetMsg (TargetNoId jobID)))
           else if targetID = jobID then Some (errf (TargetMsg (TargetSelf jobID)))
           else if targetID \<in> set seen then Some (errf (TargetMsg (TargetDuplicate jobID targetID)))
           else (case map_of jobMap targetID of
               None \<Rightarrow> Some (errf (TargetMsg (TargetUnknown jobID targetID)))
             | Some targetJob \<Rightarrow>
                 if mget targetJob ''interrogable'' \<noteq> VBool True
                 then Some (errf (TargetMsg (TargetNotInterrogable jobID targetID)))
                 else if \<not> hasPath pairs targetID jobID
                 then Some (errf (TargetMsg (TargetUnreachable jobID targetID)))
                 else check_targets jobMap pairs jobID (Suc i) (targetID # seen) items)))"

definition check_job_targets :: "job_map \<Rightarrow> edge list \<Rightarrow> string \<times> gomap \<Rightarrow> werror check" where
  "check_job_targets jobMap pairs idjob =
     (let jobID = fst idjob; job = snd idjob in
      when_field job ''interrogation_targets'' (\<lambda>raw.
        if mget job ''interrogable'' = VBool True then Some (errf (TargetMsg (TargetsAndInterrogable jobID)))
        else with_ok
          (case raw of
             VList items \<Rightarrow> Inr items
           | VMaps items \<Rightarrow> Inr (map VMap items)
           | _ \<Rightarrow> Inl (errf (TargetMsg (TargetsNotList jobID))))
          (\<lambda>targets. checks
            [fail_if (targets = []) (errf (TargetMsg (TargetsEmpty jobID))),
             check_targets jobMap pairs jobID 0 [] targets])))"

definition validateInterrogationTargets :: "gomap \<Rightarrow> job_map \<Rightarrow> werror check" where
  "validateInterrogationTargets workflow jobMap =
     with_ok (EdgeDependencyPairs workflow)
       (\<lambda>pairs. check_each (check_job_targets jobMap pairs) jobMap)"

section \<open>Cycles\<close>

definition validateDebounceCohort :: "goval \<Rightarrow> nat \<Rightarrow> werror check" where
  "validateDebounceCohort v index =
     (let field = index_path ''cycles'' index @ ''.debounce_cohort'' in
      case v of
        VNil \<Rightarrow> None
      | VStr typed \<Rightarrow> fail_if (typed \<noteq> [] \<and> typed \<noteq> ''all'') (fieldErr field (EdgeMsg DebounceString))
      | _ \<Rightarrow> fail_if (\<not> positiveWholeNumber v) (fieldErr field (EdgeMsg DebounceValue)))"

definition check_cycle :: "job_map \<Rightarrow> nat \<Rightarrow> goval \<Rightarrow> werror check" where
  "check_cycle jobMap index item =
     (case as_map item of
        None \<Rightarrow> Some (errf (EdgeMsg CycleNotObject))
      | Some cycle \<Rightarrow>
          with_ok (stringField cycle ''from'') (\<lambda>fromID.
          with_ok (stringField cycle ''to'') (\<lambda>toID. checks
            [fail_if (map_of jobMap fromID = None \<or> map_of jobMap toID = None)
               (fieldErr (index_path ''cycles'' index @ ''.from'') (EdgeMsg CycleUnknownJob)),
             fail_if (mget cycle ''on_verdict'' \<noteq> VStr ''needs_revision'') (errf (EdgeMsg CycleVerdict)),
             fail_if (\<not> positiveWholeNumber (mget cycle ''max_iterations''))
               (fieldErr (index_path ''cycles'' index @ ''.max_iterations'') (EdgeMsg CycleIterations)),
             validateDebounceCohort (mget cycle ''debounce_cohort'') index])))"

definition validateCycles :: "gomap \<Rightarrow> job_map \<Rightarrow> werror check" where
  "validateCycles workflow jobMap = check_idx (check_cycle jobMap) 0 (anySlice (mget workflow ''cycles''))"

definition validateCycleTargets :: "gomap \<Rightarrow> job_map \<Rightarrow> werror check" where
  "validateCycleTargets workflow jobMap =
     with_ok (EdgeDependencyPairs workflow) (\<lambda>pairs.
       check_each (\<lambda>cycle.
         let fromID = stringValue (mget cycle ''from''); toID = stringValue (mget cycle ''to'') in
         if map_of jobMap fromID = None \<or> map_of jobMap toID = None then None
         else fail_if (\<not> hasPath pairs toID fromID) (errf (EdgeMsg (CycleUnsound fromID toID))))
       (slice_maps (mget workflow ''cycles'')))"

section \<open>Artifact ownership and parallel groups\<close>

fun unique_loop :: "(string \<times> string) list \<Rightarrow> (string \<times> string) list \<Rightarrow> werror check" where
  "unique_loop seen [] = None"
| "unique_loop seen ((path, jobID) # claims) =
     (if path = [] then unique_loop seen claims
      else (case map_of seen path of
          Some previous \<Rightarrow>
            (if previous \<noteq> jobID then Some (errf (GroupMsg (ArtifactShared previous jobID path)))
             else unique_loop ((path, jobID) # seen) claims)
        | None \<Rightarrow> unique_loop ((path, jobID) # seen) claims))"

definition artifact_claims :: "goval list \<Rightarrow> (string \<times> string) list" where
  "artifact_claims jobs =
     concat (map (\<lambda>job. map (\<lambda>p. (normalizeRepoPath p, stringValue (mget job ''id''))) (artifact_paths job))
       (List.map_filter as_map jobs))"

definition validateArtifactUniqueness :: "goval list \<Rightarrow> werror check" where
  "validateArtifactUniqueness jobs = unique_loop [] (artifact_claims jobs)"

record group_state =
  gs_artifacts :: "string list"
  gs_writes :: "string list"
  gs_repoWrite :: "bool option"

fun group_artifacts :: "string \<Rightarrow> string list \<Rightarrow> string list \<Rightarrow> werror + string list" where
  "group_artifacts g [] seen = Inr seen"
| "group_artifacts g (p # ps) seen =
     (let path = normalizeRepoPath p in
      if path = [] then group_artifacts g ps seen
      else if path \<in> set seen then Inl (errf (GroupMsg (GroupArtifactReused g path)))
      else group_artifacts g ps (path # seen))"

fun group_writes :: "string \<Rightarrow> string list \<Rightarrow> string list \<Rightarrow> werror + string list" where
  "group_writes g [] seen = Inr seen"
| "group_writes g (p # ps) seen =
     (let path = normalizeRepoPath p in
      if path = [] then group_writes g ps seen
      else if list_ex (\<lambda>s. repoPathWithin path s \<or> repoPathWithin s path) seen
      then Inl (errf (GroupMsg (GroupOverlap g)))
      else group_writes g ps (path # seen))"

definition job_scope :: "gomap \<Rightarrow> gomap" where
  "job_scope job = map_or_empty (mget job ''write_scope'')"

definition repo_write :: "gomap \<Rightarrow> bool" where
  "repo_write job \<longleftrightarrow> mget (job_scope job) ''repo_write'' = VBool True"

definition group_member :: "string \<Rightarrow> gomap \<Rightarrow> group_state \<Rightarrow> werror + group_state" where
  "group_member g job st =
     (case group_artifacts g (artifact_paths job) (gs_artifacts st) of
        Inl err \<Rightarrow> Inl err
      | Inr arts \<Rightarrow>
          if gs_repoWrite st \<noteq> None \<and> gs_repoWrite st \<noteq> Some (repo_write job)
          then Inl (errf (GroupMsg (GroupMixesWrite g)))
          else
            (let st' = st\<lparr>gs_artifacts := arts, gs_repoWrite := Some (repo_write job)\<rparr> in
             if \<not> repo_write job then Inr st'
             else (case group_writes g (allowed_paths (job_scope job)) (gs_writes st) of
                 Inl err \<Rightarrow> Inl err
               | Inr ws \<Rightarrow> Inr (st'\<lparr>gs_writes := ws\<rparr>))))"

fun group_loop :: "string \<Rightarrow> gomap list \<Rightarrow> group_state \<Rightarrow> werror check" where
  "group_loop g [] st = None"
| "group_loop g (job # jobs) st =
     (case group_member g job st of Inl err \<Rightarrow> Some err | Inr st' \<Rightarrow> group_loop g jobs st')"

definition job_group :: "gomap \<Rightarrow> string" where
  "job_group job = stringValue (mget job ''parallel_group'')"

definition validateParallelism :: "goval list \<Rightarrow> werror check" where
  "validateParallelism jobs =
     (let js = List.map_filter as_map jobs;
          groups = remdups (filter (\<lambda>g. g \<noteq> []) (map job_group js))
      in check_each (\<lambda>g. group_loop g (filter (\<lambda>job. job_group job = g) js)
           \<lparr>gs_artifacts = [], gs_writes = [], gs_repoWrite = None\<rparr>) groups)"

section \<open>Review postures and root reviews\<close>

text \<open>The edges \<open>reachableJobs\<close> and \<open>rootReviewJobIDs\<close> read: no checks, missing ends are empty.\<close>

definition raw_edges :: "gomap \<Rightarrow> edge list" where
  "raw_edges workflow =
     map (\<lambda>e. (stringValue (mget e ''from''), stringValue (mget e ''to''))) (slice_maps (mget workflow ''edges''))"

definition reachableJobs :: "gomap \<Rightarrow> string \<Rightarrow> string list" where
  "reachableJobs workflow start = reachable_pairs (raw_edges workflow) start"

definition available_postures :: "gomap \<Rightarrow> job_map \<Rightarrow> string \<Rightarrow> string list" where
  "available_postures workflow jobMap buildID =
     List.map_filter (\<lambda>candidateID. case map_of jobMap candidateID of
         None \<Rightarrow> None
       | Some candidate \<Rightarrow>
           (if job_type candidate \<noteq> ''review'' then None
            else Some (defaultString (mget candidate ''review_posture'') ''neutral'')))
       (reachableJobs workflow buildID)"

definition validateRequiredPosturesReachable :: "gomap \<Rightarrow> job_map \<Rightarrow> werror check" where
  "validateRequiredPosturesReachable workflow jobMap =
     check_each (\<lambda>(buildID, build).
       if job_type build \<noteq> ''build'' then None
       else
         (let required = stringsFromSlice (mget build ''required_review_postures'');
              available = available_postures workflow jobMap buildID
          in check_each (\<lambda>posture. fail_if (posture \<notin> set available)
               (errf (GroupMsg (PostureUnreachable buildID posture)))) required)) jobMap"

definition rootReviewJobIDs :: "gomap \<Rightarrow> goval list \<Rightarrow> string list" where
  "rootReviewJobIDs workflow jobs =
     (let targets = map snd (raw_edges workflow)
      in filter (\<lambda>jobID. jobID \<notin> set targets)
           (map (\<lambda>job. stringValue (mget job ''id''))
             (filter (\<lambda>job. job_type job = ''review'') (List.map_filter as_map jobs))))"

definition cycle_sources :: "gomap \<Rightarrow> string list" where
  "cycle_sources workflow =
     map (\<lambda>cycle. stringValue (mget cycle ''from''))
       (filter (\<lambda>cycle. mget cycle ''on_verdict'' = VStr ''needs_revision'')
         (slice_maps (mget workflow ''cycles'')))"

definition validateRevisionPolicy :: "gomap \<Rightarrow> goval list \<Rightarrow> werror check" where
  "validateRevisionPolicy workflow jobs = when_field workflow ''review_revision_policy'' (\<lambda>raw.
     case as_map raw of
       None \<Rightarrow> Some (errf (GroupMsg PolicyNotObject))
     | Some policy \<Rightarrow>
         (let rootPolicy = stringValue (mget policy ''root_review_needs_revision'');
              missing = filter (\<lambda>reviewID. reviewID \<notin> set (cycle_sources workflow))
                          (rootReviewJobIDs workflow jobs) in checks
            [fail_if (rootPolicy \<noteq> ''human_checkpoint'' \<and> rootPolicy \<noteq> ''declared_cycle'')
               (errf (GroupMsg RootPolicyInvalid)),
             when_field policy ''description'' (\<lambda>d.
               fail_if (as_str d = None) (errf (GroupMsg DescriptionNotString))),
             fail_if (rootPolicy = ''declared_cycle'' \<and> missing \<noteq> [])
               (errf (GroupMsg (RootReviewsMissing (sort_strings missing))))]))"

end
