(* ===== verification/WorkflowGraphLaws.thy ===== *)
theory WorkflowGraphLaws
  imports WorkflowGraph
begin

text \<open>
  What the cross-job validators guarantee: the edges they read are the raw edges and end in
  declared jobs, deduplication keeps them, the \<open>needs\<close> lists agree with them, targets and
  cycles are joined by paths, an artifact path has one owner, and the write scopes of a
  parallel group are disjoint.
\<close>

section \<open>Edges\<close>

lemma read_edge_Inr:
  "read_edge jobMap item = Inr e \<longleftrightarrow>
     (\<exists>m. item = VMap m \<and> mget m ''from'' = VStr (fst e) \<and> fst e \<noteq> [] \<and>
        mget m ''to'' = VStr (snd e) \<and> snd e \<noteq> [] \<and> map_of jobMap (fst e) \<noteq> None \<and>
        map_of jobMap (snd e) \<noteq> None \<and> mget m ''on'' = VStr ''completed'')"
proof (cases "as_map item")
  case None
  then show ?thesis by (cases item) (auto simp: read_edge_def)
next
  case (Some m)
  then show ?thesis
    by (cases e; cases "stringField m ''from''"; cases "stringField m ''to''")
       (auto simp: read_edge_def stringField_Inr stringField_def split: option.splits if_splits)
qed

lemma read_edges_Inr:
  "read_edges jobMap items = Inr es \<Longrightarrow>
     list_all2 (\<lambda>item e. read_edge jobMap item = Inr e) items es"
  by (induction items arbitrary: es) (auto split: sum.splits)

lemma read_edges_raw:
  assumes "read_edges jobMap (anySlice (mget workflow ''edges'')) = Inr es"
  shows "raw_edges workflow = es" and "\<forall>e \<in> set es. map_of jobMap (fst e) \<noteq> None \<and> map_of jobMap (snd e) \<noteq> None"
proof -
  have "map (\<lambda>e. (stringValue (mget e ''from''), stringValue (mget e ''to''))) (List.map_filter as_map items) = es \<and>
      (\<forall>e \<in> set es. map_of jobMap (fst e) \<noteq> None \<and> map_of jobMap (snd e) \<noteq> None)"
    if "list_all2 (\<lambda>item e. read_edge jobMap item = Inr e) items es" for items
    using that by (induction rule: list_all2_induct) (auto simp: read_edge_Inr map_filter_simps)
  with read_edges_Inr [OF assms]
  show "raw_edges workflow = es" "\<forall>e \<in> set es. map_of jobMap (fst e) \<noteq> None \<and> map_of jobMap (snd e) \<noteq> None"
    by (auto simp: raw_edges_def slice_maps_def)
qed

text \<open>Ids without the separator make the composite keys unambiguous.\<close>

definition nul_free :: "edge list \<Rightarrow> bool" where
  "nul_free es \<longleftrightarrow> list_all (\<lambda>e. nul \<notin> set (fst e) \<and> nul \<notin> set (snd e)) es"

lemma append_nul_inject:
  "nul \<notin> set a \<Longrightarrow> nul \<notin> set c \<Longrightarrow> a @ nul # b = c @ nul # d \<longleftrightarrow> a = c \<and> b = d"
proof (induction a arbitrary: c)
  case Nil
  then show ?case by (cases c) auto
next
  case (Cons x a)
  then show ?case by (cases c) auto
qed

lemma dedupe_pairs_sub: "set (dedupe_pairs es seen) \<subseteq> set es"
  by (induction es seen rule: dedupe_pairs.induct) (auto simp: Let_def)

definition pair_key :: "edge \<Rightarrow> string" where
  "pair_key e = fst e @ nul # snd e"

lemma dedupe_pairs_keys:
  "pair_key ` set (dedupe_pairs es seen) \<union> set seen = pair_key ` set es \<union> set seen"
  by (induction es seen rule: dedupe_pairs.induct) (auto simp: Let_def pair_key_def)

lemma pair_key_inj: "nul_free es \<Longrightarrow> inj_on pair_key (set es)"
  by (rule inj_onI) (auto simp: nul_free_def list_all_iff pair_key_def prod_eq_iff append_nul_inject)

lemma dedupe_pairs_set:
  assumes "nul_free es"
  shows "set (dedupe_pairs es []) = set es"
  using inj_on_image_eq_iff [OF pair_key_inj [OF assms] dedupe_pairs_sub subset_refl]
    dedupe_pairs_keys [of es "[]"] by simp

lemma EdgeDependencyPairs_raw:
  assumes "EdgeDependencyPairs workflow = Inr pairs" and "nul_free (raw_edges workflow)"
  shows "set pairs = set (raw_edges workflow)"
proof -
  from assms(1) obtain jobs es where r: "read_edges jobs (anySlice (mget workflow ''edges'')) = Inr es"
    and p: "pairs = dedupe_pairs es []"
    by (auto simp: EdgeDependencyPairs_def split: sum.splits)
  from read_edges_raw(1) [OF r] dedupe_pairs_set [of es] assms(2) show ?thesis by (simp add: p)
qed

lemma dedupe_pairs_distinct:
  "distinct (map pair_key (dedupe_pairs es seen)) \<and> pair_key ` set (dedupe_pairs es seen) \<inter> set seen = {}"
  by (induction es seen rule: dedupe_pairs.induct) (auto simp: Let_def pair_key_def)

section \<open>The needs lists\<close>

lemma split_two: "nul \<notin> set a \<Longrightarrow> nul \<notin> set b \<Longrightarrow> split_on nul (a @ nul # b) = [a, b]"
  by (simp add: split_on_append)

lemma edge_needs_set:
  assumes "nul_free es"
  shows "set (edge_needs (map edge_key es) jobID) = {u. (u, jobID) \<in> set es}"
proof (rule set_eqI)
  fix u
  have key: "e \<in> set es \<Longrightarrow> split_on nul (edge_key e) = [snd e, fst e]" for e
    using assms by (auto simp: nul_free_def list_all_iff edge_key_def split_two)
  show "u \<in> set (edge_needs (map edge_key es) jobID) \<longleftrightarrow> u \<in> {u. (u, jobID) \<in> set es}"
    unfolding edge_needs_def in_map_filter by (force simp: key)
qed

lemma validateEdges_needs:
  assumes "validateEdges workflow jobMap = None" and "nul_free (raw_edges workflow)"
    and "(jobID, job) \<in> set jobMap" and "map_of job ''needs'' = Some needs"
  shows "set (stringsFromSlice needs) = {u. (u, jobID) \<in> set (raw_edges workflow)}"
proof -
  from assms(1) obtain es where r: "read_edges jobMap (anySlice (mget workflow ''edges'')) = Inr es"
    and c: "check_each (check_needs (map edge_key es)) jobMap = None"
    by (auto simp: validateEdges_def with_ok_None)
  from c assms(3) have "check_needs (map edge_key es) (jobID, job) = None" by simp
  with assms(4) have "set (stringsFromSlice needs) = set (edge_needs (map edge_key es) jobID)"
    by (simp add: check_needs_def when_field_def sameStringSet_def)
  with edge_needs_set [of es jobID] assms(2) read_edges_raw(1) [OF r] show ?thesis by simp
qed

lemma validateEdges_read:
  assumes "validateEdges workflow jobMap = None"
  obtains es where "read_edges jobMap (anySlice (mget workflow ''edges'')) = Inr es"
    and "raw_edges workflow = es"
  using assms read_edges_raw(1) by (auto simp: validateEdges_def with_ok_None)

lemma validateEdges_known:
  assumes "validateEdges workflow jobMap = None" and "(u, v) \<in> set (raw_edges workflow)"
  shows "map_of jobMap u \<noteq> None \<and> map_of jobMap v \<noteq> None"
proof -
  from validateEdges_read [OF assms(1)] obtain es
    where r: "read_edges jobMap (anySlice (mget workflow ''edges'')) = Inr es"
      and "raw_edges workflow = es" .
  with assms(2) have "(u, v) \<in> set es" by simp
  with read_edges_raw(2) [OF r] show ?thesis by fastforce
qed

lemma validateEdges_order:
  assumes "map_of jobMap = map_of jobMap'" and "set jobMap = set jobMap'"
  shows "(validateEdges workflow jobMap = None) = (validateEdges workflow jobMap' = None)"
proof -
  from assms(1) have "read_edge jobMap = read_edge jobMap'" unfolding read_edge_def by (simp only:)
  then have "read_edges jobMap items = read_edges jobMap' items" for items
    by (induction items) (simp_all split: sum.split)
  with assms(2) show ?thesis unfolding validateEdges_def with_ok_None by simp
qed

section \<open>Paths: targets, cycles, postures\<close>

definition target_id :: "gomap \<Rightarrow> string" where
  "target_id m = stringValue (mget m ''workflow_job_id'')"

lemma check_targets_Cons:
  "check_targets jobMap pairs jobID i seen (item # items) = None \<longleftrightarrow>
     (\<exists>m t. item = VMap m \<and> trim_space (target_id m) \<noteq> [] \<and> target_id m \<noteq> jobID \<and>
        target_id m \<notin> set seen \<and> map_of jobMap (target_id m) = Some t \<and>
        mget t ''interrogable'' = VBool True \<and> hasPath pairs (target_id m) jobID \<and>
        check_targets jobMap pairs jobID (Suc i) (target_id m # seen) items = None)"
  by (cases item) (auto simp: Let_def target_id_def split: option.splits)

declare check_targets.simps(2) [simp del]

lemma check_targets_None:
  assumes "check_targets jobMap pairs jobID i seen items = None" and "item \<in> set items"
  shows "\<exists>m t. item = VMap m \<and> target_id m \<noteq> jobID \<and> map_of jobMap (target_id m) = Some t \<and>
     mget t ''interrogable'' = VBool True \<and> hasPath pairs (target_id m) jobID"
  using assms by (induction items arbitrary: i seen) (auto simp: check_targets_Cons)

lemma check_targets_distinct:
  "check_targets jobMap pairs jobID i seen items = None \<Longrightarrow>
   distinct (map target_id (List.map_filter as_map items)) \<and>
   set (map target_id (List.map_filter as_map items)) \<inter> set seen = {} \<and>
   length (List.map_filter as_map items) = length items"
proof (induction items arbitrary: i seen)
  case Nil
  then show ?case by (simp add: map_filter_simps)
next
  case (Cons item items)
  from Cons.prems obtain m where m: "item = VMap m" "target_id m \<notin> set seen"
    "check_targets jobMap pairs jobID (Suc i) (target_id m # seen) items = None"
    by (auto simp: check_targets_Cons)
  from Cons.IH [OF m(3)] m(1,2) show ?case by (auto simp: map_filter_simps)
qed

definition target_ids :: "gomap \<Rightarrow> string list" where
  "target_ids job = map target_id (slice_maps (mget job ''interrogation_targets''))"

lemma check_job_targets_None:
  assumes "check_job_targets jobMap pairs (jobID, job) = None" and "mhas job ''interrogation_targets''"
  shows "mget job ''interrogable'' \<noteq> VBool True" and "anySlice (mget job ''interrogation_targets'') \<noteq> []"
    and "check_targets jobMap pairs jobID 0 [] (anySlice (mget job ''interrogation_targets'')) = None"
proof -
  from assms(2) obtain raw where raw: "map_of job ''interrogation_targets'' = Some raw" by (auto simp: mhas_def)
  from assms(1) raw show "mget job ''interrogable'' \<noteq> VBool True"
    by (simp add: check_job_targets_def when_field_def split: if_splits)
  with assms(1) raw show "anySlice (mget job ''interrogation_targets'') \<noteq> []"
    and "check_targets jobMap pairs jobID 0 [] (anySlice (mget job ''interrogation_targets'')) = None"
    by (cases raw; simp add: check_job_targets_def when_field_def mget_def)+
qed

lemma validateInterrogationTargets_job:
  assumes "validateInterrogationTargets workflow jobMap = None" and "(jobID, job) \<in> set jobMap"
    and "mhas job ''interrogation_targets''" and "nul_free (raw_edges workflow)"
  shows "distinct (target_ids job) \<and> target_ids job \<noteq> [] \<and> mget job ''interrogable'' \<noteq> VBool True"
    and "t \<in> set (target_ids job) \<Longrightarrow> t \<noteq> jobID \<and>
      (\<exists>tj. map_of jobMap t = Some tj \<and> mget tj ''interrogable'' = VBool True) \<and>
      (t, jobID) \<in> (set (raw_edges workflow))\<^sup>+"
proof -
  from assms(1) obtain pairs where p: "EdgeDependencyPairs workflow = Inr pairs"
    and "check_each (check_job_targets jobMap pairs) jobMap = None"
    by (auto simp: validateInterrogationTargets_def with_ok_None)
  with assms(2) have "check_job_targets jobMap pairs (jobID, job) = None" by simp
  note c = check_job_targets_None [OF this assms(3)]
  from check_targets_distinct [OF c(3)] c(1,2)
  show "distinct (target_ids job) \<and> target_ids job \<noteq> [] \<and> mget job ''interrogable'' \<noteq> VBool True"
    by (auto simp: target_ids_def slice_maps_def)
  assume "t \<in> set (target_ids job)"
  then obtain m where m: "VMap m \<in> set (anySlice (mget job ''interrogation_targets''))" "t = target_id m"
    by (auto simp: target_ids_def)
  from check_targets_None [OF c(3) m(1)]
  have "t \<noteq> jobID" "\<exists>tj. map_of jobMap t = Some tj \<and> mget tj ''interrogable'' = VBool True"
    and "(t, jobID) \<in> (set pairs)\<^sup>*"
    by (auto simp: hasPath_iff m(2))
  with EdgeDependencyPairs_raw [OF p assms(4)]
  show "t \<noteq> jobID \<and> (\<exists>tj. map_of jobMap t = Some tj \<and> mget tj ''interrogable'' = VBool True) \<and>
      (t, jobID) \<in> (set (raw_edges workflow))\<^sup>+"
    by (simp add: rtrancl_eq_or_trancl)
qed

lemma validateCycles_cycle:
  assumes "validateCycles workflow jobMap = None" and "VMap cycle \<in> set (anySlice (mget workflow ''cycles''))"
  shows "map_of jobMap (stringValue (mget cycle ''from'')) \<noteq> None"
    "map_of jobMap (stringValue (mget cycle ''to'')) \<noteq> None"
    "mget cycle ''on_verdict'' = VStr ''needs_revision''" "positiveWholeNumber (mget cycle ''max_iterations'')"
proof -
  from check_idx_NoneD [OF assms(1) [unfolded validateCycles_def] assms(2)]
  obtain j where "check_cycle jobMap j (VMap cycle) = None" by blast
  then show "map_of jobMap (stringValue (mget cycle ''from'')) \<noteq> None"
    "map_of jobMap (stringValue (mget cycle ''to'')) \<noteq> None"
    "mget cycle ''on_verdict'' = VStr ''needs_revision''" "positiveWholeNumber (mget cycle ''max_iterations'')"
    by (auto simp: check_cycle_def with_ok_None stringField_Inr)
qed

lemma validateCycleTargets_path:
  assumes "validateCycles workflow jobMap = None" and "validateCycleTargets workflow jobMap = None"
    and "nul_free (raw_edges workflow)" and "VMap cycle \<in> set (anySlice (mget workflow ''cycles''))"
  shows "(stringValue (mget cycle ''to''), stringValue (mget cycle ''from'')) \<in> (set (raw_edges workflow))\<^sup>*"
proof -
  from assms(2) obtain pairs where p: "EdgeDependencyPairs workflow = Inr pairs"
    and c: "\<forall>cycle \<in> set (slice_maps (mget workflow ''cycles'')).
      map_of jobMap (stringValue (mget cycle ''from'')) = None \<or>
      map_of jobMap (stringValue (mget cycle ''to'')) = None \<or>
      hasPath pairs (stringValue (mget cycle ''to'')) (stringValue (mget cycle ''from''))"
    by (auto simp: validateCycleTargets_def with_ok_None Let_def split: if_splits)
  from assms(4) have "cycle \<in> set (slice_maps (mget workflow ''cycles''))" by simp
  with bspec [OF c this] validateCycles_cycle(1,2) [OF assms(1,4)] EdgeDependencyPairs_raw [OF p assms(3)]
  show ?thesis by (auto simp: hasPath_iff)
qed

section \<open>Artifact owners\<close>

lemma unique_loop_Cons:
  "unique_loop seen ((path, jobID) # claims) = None \<longleftrightarrow>
     (if path = [] then unique_loop seen claims = None
      else (\<forall>j. map_of seen path = Some j \<longrightarrow> j = jobID) \<and>
           unique_loop ((path, jobID) # seen) claims = None)"
  by (simp split: option.split)

lemma unique_loop_seen:
  "unique_loop seen claims = None \<Longrightarrow> p \<noteq> [] \<Longrightarrow> map_of seen p = Some i \<Longrightarrow> (p, j) \<in> set claims \<Longrightarrow> j = i"
proof (induction claims arbitrary: seen)
  case Nil
  then show ?case by simp
next
  case (Cons c claims)
  obtain path jobID where c: "c = (path, jobID)" by (cases c)
  show ?case
  proof (cases "path = []")
    case True
    with Cons show ?thesis by (auto simp: c)
  next
    case False
    with Cons.prems(1) have "\<forall>j. map_of seen path = Some j \<longrightarrow> j = jobID"
      and r: "unique_loop ((path, jobID) # seen) claims = None"
      unfolding c unique_loop_Cons by simp_all
    with Cons.IH [OF r Cons.prems(2)] Cons.prems(3,4) show ?thesis
      by (cases "p = path") (auto simp: c)
  qed
qed

lemma unique_loop_owner:
  "unique_loop seen claims = None \<Longrightarrow> p \<noteq> [] \<Longrightarrow> (p, i) \<in> set claims \<Longrightarrow> (p, j) \<in> set claims \<Longrightarrow> i = j"
proof (induction claims arbitrary: seen)
  case Nil
  then show ?case by simp
next
  case (Cons c claims)
  obtain path jobID where c: "c = (path, jobID)" by (cases c)
  show ?case
  proof (cases "path = []")
    case True
    with Cons show ?thesis by (auto simp: c)
  next
    case False
    with Cons.prems(1) have r: "unique_loop ((path, jobID) # seen) claims = None"
      unfolding c unique_loop_Cons by simp
    with Cons.IH [OF r Cons.prems(2)] Cons.prems(2-4) unique_loop_seen [OF r Cons.prems(2)] show ?thesis
      by (cases "p = path") (auto simp: c)
  qed
qed

section \<open>Parallel groups\<close>

text \<open>Two paths that are not the repository root share no path, and so for the scopes of two jobs.\<close>

definition disjoint_scopes :: "gomap \<Rightarrow> gomap \<Rightarrow> bool" where
  "disjoint_scopes a b \<longleftrightarrow>
     (\<forall>p \<in> set (allowed_paths (job_scope a)). \<forall>q \<in> set (allowed_paths (job_scope b)).
        normalizeRepoPath p \<noteq> [] \<longrightarrow> normalizeRepoPath q \<noteq> [] \<longrightarrow>
        (\<forall>x. \<not> (repoPathWithin x p \<and> repoPathWithin x q)))"

definition clear_of :: "string list \<Rightarrow> gomap \<Rightarrow> bool" where
  "clear_of ws job \<longleftrightarrow> (\<forall>p \<in> set (allowed_paths (job_scope job)). normalizeRepoPath p \<noteq> [] \<longrightarrow>
     (\<forall>s \<in> set ws. \<not> repoPathWithin p s \<and> \<not> repoPathWithin s p))"

declare normalizeRepoPath_Nil [simp del]

lemma within_normalize:
  "repoPathWithin (normalizeRepoPath p) s = repoPathWithin p s"
  "repoPathWithin s (normalizeRepoPath p) = repoPathWithin s p"
  by (simp_all only: repoPathWithin_iff path_parts_normalize)

lemma group_writes_Cons:
  "group_writes g (p # ps) seen = Inr ws \<longleftrightarrow>
     (if normalizeRepoPath p = [] then group_writes g ps seen = Inr ws
      else (\<forall>s \<in> set seen. \<not> repoPathWithin p s \<and> \<not> repoPathWithin s p) \<and>
           group_writes g ps (normalizeRepoPath p # seen) = Inr ws)"
  by (auto simp: Let_def list_ex_iff within_normalize)

declare group_writes.simps(2) [simp del]

lemma group_writes_sub:
  "group_writes g ps seen = Inr ws \<Longrightarrow>
     set seen \<subseteq> set ws \<and> (\<forall>p \<in> set ps. normalizeRepoPath p \<noteq> [] \<longrightarrow> normalizeRepoPath p \<in> set ws)"
proof (induction ps arbitrary: seen)
  case Nil
  then show ?case by simp
next
  case (Cons a ps)
  show ?case
  proof (cases "normalizeRepoPath a = []")
    case True
    with Cons show ?thesis by (simp add: group_writes_Cons)
  next
    case False
    with Cons.prems Cons.IH [of "normalizeRepoPath a # seen"] show ?thesis by (simp add: group_writes_Cons)
  qed
qed

lemma group_writes_clear:
  "group_writes g ps seen = Inr ws \<Longrightarrow>
     \<forall>p \<in> set ps. normalizeRepoPath p \<noteq> [] \<longrightarrow>
       (\<forall>s \<in> set seen. \<not> repoPathWithin p s \<and> \<not> repoPathWithin s p)"
proof (induction ps arbitrary: seen)
  case Nil
  then show ?case by simp
next
  case (Cons a ps)
  show ?case
  proof (cases "normalizeRepoPath a = []")
    case True
    with Cons show ?thesis by (simp add: group_writes_Cons)
  next
    case False
    with Cons.prems Cons.IH [of "normalizeRepoPath a # seen"] show ?thesis by (simp add: group_writes_Cons)
  qed
qed

lemma group_member_Inr:
  assumes "group_member g job st = Inr st'"
  shows "gs_repoWrite st' = Some (repo_write job) \<and>
     (gs_repoWrite st \<noteq> None \<longrightarrow> gs_repoWrite st = Some (repo_write job)) \<and>
     (if repo_write job
      then group_writes g (allowed_paths (job_scope job)) (gs_writes st) = Inr (gs_writes st')
      else gs_writes st' = gs_writes st)"
  using assms unfolding group_member_def Let_def
  by (simp split: sum.splits if_splits) auto

lemma group_member_scope:
  assumes "group_member g job st = Inr st'"
  shows "repo_write job \<Longrightarrow> clear_of (gs_writes st) job"
    and "set (gs_writes st) \<subseteq> set (gs_writes st')"
    and "repo_write job \<Longrightarrow> p \<in> set (allowed_paths (job_scope job)) \<Longrightarrow> normalizeRepoPath p \<noteq> [] \<Longrightarrow>
      normalizeRepoPath p \<in> set (gs_writes st')"
proof -
  note m = group_member_Inr [OF assms]
  show "clear_of (gs_writes st) job" if rw: "repo_write job"
  proof -
    from m rw have "group_writes g (allowed_paths (job_scope job)) (gs_writes st) = Inr (gs_writes st')"
      by simp
    from group_writes_clear [OF this] show ?thesis unfolding clear_of_def .
  qed
  from m show "set (gs_writes st) \<subseteq> set (gs_writes st')"
    by (cases "repo_write job") (auto dest: group_writes_sub)
  from m show "repo_write job \<Longrightarrow> p \<in> set (allowed_paths (job_scope job)) \<Longrightarrow> normalizeRepoPath p \<noteq> [] \<Longrightarrow>
      normalizeRepoPath p \<in> set (gs_writes st')"
    by (auto dest: group_writes_sub)
qed

lemma clear_disjoint:
  assumes "clear_of ws b"
    and "\<And>p. p \<in> set (allowed_paths (job_scope a)) \<Longrightarrow> normalizeRepoPath p \<noteq> [] \<Longrightarrow> normalizeRepoPath p \<in> set ws"
  shows "disjoint_scopes a b"
proof -
  { fix p q x
    assume "p \<in> set (allowed_paths (job_scope a))" "q \<in> set (allowed_paths (job_scope b))"
      "normalizeRepoPath p \<noteq> []" "normalizeRepoPath q \<noteq> []"
    with assms have "\<not> repoPathWithin q (normalizeRepoPath p) \<and> \<not> repoPathWithin (normalizeRepoPath p) q"
      unfolding clear_of_def by blast
    then have "\<not> repoPathWithin p q" "\<not> repoPathWithin q p" unfolding within_normalize by simp_all
    from repo_path.incomparable_disjoint [OF this]
    have "\<not> (repoPathWithin x p \<and> repoPathWithin x q)" . }
  then show ?thesis unfolding disjoint_scopes_def by blast
qed

lemma group_loop_flag:
  "group_loop g jobs st = None \<Longrightarrow> gs_repoWrite st = Some v \<Longrightarrow> job \<in> set jobs \<Longrightarrow> repo_write job = v"
proof (induction jobs arbitrary: st)
  case Nil
  then show ?case by simp
next
  case (Cons j jobs)
  then obtain st' where m: "group_member g j st = Inr st'" and r: "group_loop g jobs st' = None"
    by (auto split: sum.splits)
  from group_member_Inr [OF m] Cons.prems(2) have "repo_write j = v" "gs_repoWrite st' = Some v" by simp_all
  with Cons.IH [OF r] Cons.prems(3) show ?case by auto
qed

lemma group_loop_flags:
  assumes "group_loop g jobs st = None"
  shows "\<exists>v. \<forall>job \<in> set jobs. repo_write job = v"
proof (cases jobs)
  case Nil
  then show ?thesis by simp
next
  case (Cons j js)
  with assms obtain st' where m: "group_member g j st = Inr st'" and r: "group_loop g js st' = None"
    by (auto split: sum.splits)
  from group_member_Inr [OF m] have "gs_repoWrite st' = Some (repo_write j)" by simp
  from group_loop_flag [OF r this] Cons show ?thesis by auto
qed

lemma group_loop_scopes:
  "group_loop g jobs st = None \<Longrightarrow>
     sorted_wrt disjoint_scopes (filter repo_write jobs) \<and>
     (\<forall>job \<in> set jobs. repo_write job \<longrightarrow> clear_of (gs_writes st) job)"
proof (induction jobs arbitrary: st)
  case Nil
  then show ?case by simp
next
  case (Cons job jobs)
  then obtain st' where m: "group_member g job st = Inr st'" and r: "group_loop g jobs st' = None"
    by (auto split: sum.splits)
  note IH = Cons.IH [OF r] and mem = group_member_scope [OF m]
  have "disjoint_scopes job b" if "repo_write job" "b \<in> set jobs" "repo_write b" for b
    by (rule clear_disjoint [of "gs_writes st'"]) (use IH mem(3) that in auto)
  moreover have "clear_of (gs_writes st) b" if "b \<in> set jobs" "repo_write b" for b
  proof -
    from IH that have "clear_of (gs_writes st') b" by blast
    with mem(2) show ?thesis unfolding clear_of_def by blast
  qed
  ultimately show ?case using IH mem(1) by simp
qed

lemma disjoint_scopes_sym: "disjoint_scopes a b = disjoint_scopes b a"
  unfolding disjoint_scopes_def by blast

lemma validateParallelism_group:
  assumes "validateParallelism jobs = None" and "grp \<noteq> []"
    and "grp \<in> set (map job_group (List.map_filter as_map jobs))"
  shows "sorted_wrt disjoint_scopes
      (filter repo_write (filter (\<lambda>job. job_group job = grp) (List.map_filter as_map jobs))) \<and>
    (\<exists>v. \<forall>job. VMap job \<in> set jobs \<and> job_group job = grp \<longrightarrow> repo_write job = v)"
proof -
  from assms have "group_loop grp (filter (\<lambda>job. job_group job = grp) (List.map_filter as_map jobs))
      \<lparr>gs_artifacts = [], gs_writes = [], gs_repoWrite = None\<rparr> = None"
    by (simp only: validateParallelism_def Let_def check_each_None set_remdups set_filter) blast
  from group_loop_scopes [OF this] group_loop_flags [OF this] show ?thesis by simp
qed

end
