(* ===== verification/WorkflowPhases.thy ===== *)
theory WorkflowPhases
  imports WorkflowGraphLaws
begin

text \<open>
  The phase-shape rules of \<open>go/pkg/workflowauthoring/phases.go\<close>: the phase index
  (\<open>buildPhaseIndex\<close>), the edges between phases (\<open>validatePhaseEdges\<close>) and the sequencing of
  packet types behind a gate job (\<open>validatePhaseGateSequencing\<close>). Go maps are association
  lists whose newest entry comes first.
\<close>

section \<open>The phase index\<close>

record phase_index =
  Declared :: bool
  PhaseOrder :: "string list"
  PhasePosition :: "(string \<times> nat) list"
  JobPhase :: "(string \<times> string) list"
  SynthesisByPhase :: "(string \<times> string) list"

definition emptyPhaseIndex :: phase_index where
  "emptyPhaseIndex = \<lparr>Declared = False, PhaseOrder = [], PhasePosition = [], JobPhase = [], SynthesisByPhase = []\<rparr>"

text \<open>Reading a \<open>map[string]string\<close>: the empty string for a missing key.\<close>

definition lookup_str :: "(string \<times> string) list \<Rightarrow> string \<Rightarrow> string" where
  "lookup_str m k = (case map_of m k of Some v \<Rightarrow> v | None \<Rightarrow> [])"

definition jobDefinitions :: "gomap \<Rightarrow> gomap list" where
  "jobDefinitions workflow = slice_maps (mget workflow ''jobs'')"

definition job_id :: "gomap \<Rightarrow> string" where "job_id job = stringValue (mget job ''id'')"
definition job_phase :: "gomap \<Rightarrow> string" where "job_phase job = stringValue (mget job ''phase_id'')"

definition is_synthesis :: "gomap \<Rightarrow> bool" where
  "is_synthesis job \<longleftrightarrow> stringValue (mget job ''type'') = ''phase_synthesis''"

text \<open>The jobs of a workflow that declares no phases.\<close>

definition check_unphased :: "(string \<Rightarrow> phase_msg) \<Rightarrow> (string \<Rightarrow> phase_msg) \<Rightarrow> gomap list \<Rightarrow> werror check" where
  "check_unphased phaseMsg synthesisMsg jobs = check_each (\<lambda>job. checks
     [fail_if (mhas job ''phase_id'') (errf (PhaseMsg (phaseMsg (job_id job)))),
      fail_if (is_synthesis job) (errf (PhaseMsg (synthesisMsg (job_id job))))]) jobs"

text \<open>The loop over the declared phases: their order and positions, and the declared synthesis jobs.\<close>

fun read_phases ::
  "nat \<Rightarrow> goval list \<Rightarrow> phase_index \<times> (string \<times> string) list
    \<Rightarrow> werror + phase_index \<times> (string \<times> string) list" where
  "read_phases pos [] (idx, declared) = Inr (idx, declared)"
| "read_phases pos (p # ps) (idx, declared) =
     (let phase = map_or_empty p; phaseID = stringValue (mget phase ''id'') in
      if phaseID = [] \<or> phaseID \<in> set (PhaseOrder idx) then Inl (errf (PhaseMsg PhaseIdNotUnique))
      else read_phases (Suc pos) ps
        (idx\<lparr>PhaseOrder := PhaseOrder idx @ [phaseID], PhasePosition := (phaseID, pos) # PhasePosition idx\<rparr>,
         (phaseID, stringValue (mget phase ''synthesis_job_id'')) # declared))"

text \<open>The loop over the jobs: their phases and the synthesis job of each phase.\<close>

fun assign_jobs :: "gomap list \<Rightarrow> phase_index \<Rightarrow> werror + phase_index" where
  "assign_jobs [] idx = Inr idx"
| "assign_jobs (job # jobs) idx =
     (let jobID = job_id job; phaseID = job_phase job in
      if phaseID = [] \<or> phaseID \<notin> set (PhaseOrder idx)
      then Inl (errf (PhaseMsg (UnknownPhase jobID phaseID)))
      else
        (let idx' = idx\<lparr>JobPhase := (jobID, phaseID) # JobPhase idx\<rparr> in
         if \<not> is_synthesis job then assign_jobs jobs idx'
         else if lookup_str (SynthesisByPhase idx) phaseID \<noteq> []
         then Inl (errf (PhaseMsg (MultipleSynthesis phaseID (lookup_str (SynthesisByPhase idx) phaseID) jobID)))
         else assign_jobs jobs (idx'\<lparr>SynthesisByPhase := (phaseID, jobID) # SynthesisByPhase idx\<rparr>)))"

definition job_types :: "gomap list \<Rightarrow> (string \<times> string) list" where
  "job_types jobs = rev (map (\<lambda>job. (job_id job, stringValue (mget job ''type''))) jobs)"

text \<open>The loop over the phases that checks what the jobs gave them.\<close>

definition check_phase ::
  "gomap list \<Rightarrow> phase_index \<Rightarrow> (string \<times> string) list \<Rightarrow> string \<Rightarrow> werror check" where
  "check_phase jobs idx declaredSynthesis phaseID =
     (let synthesis = lookup_str (SynthesisByPhase idx) phaseID;
          declared = lookup_str declaredSynthesis phaseID in checks
        [fail_if (synthesis = []) (errf (PhaseMsg (NoSynthesis phaseID))),
         fail_if (length (filter (\<lambda>job. job_phase job = phaseID) jobs) < 2) (errf (PhaseMsg (NoPeer phaseID))),
         fail_if (declared \<noteq> [] \<and> (lookup_str (job_types jobs) declared \<noteq> ''phase_synthesis'' \<or>
                    lookup_str (JobPhase idx) declared \<noteq> phaseID))
           (errf (PhaseMsg (DeclaredNotSynthesis phaseID declared))),
         fail_if (declared \<noteq> [] \<and> declared \<noteq> synthesis)
           (errf (PhaseMsg (DeclaredMismatch phaseID declared synthesis)))])"

definition buildPhaseIndex :: "gomap \<Rightarrow> gomap list \<Rightarrow> string \<Rightarrow> werror + phase_index" where
  "buildPhaseIndex workflow jobs schemaVersion =
     (let phases = anySlice (mget workflow ''phases'') in
      if schemaVersion = SchemaV1 then
        (if phases \<noteq> [] then Inl (errf (PhaseMsg V1Phases))
         else (case check_unphased V1PhaseId V1Synthesis jobs of
             Some e \<Rightarrow> Inl e | None \<Rightarrow> Inr emptyPhaseIndex))
      else if phases = [] then
        (case check_unphased PhaseIdUndeclared SynthesisUndeclared jobs of
           Some e \<Rightarrow> Inl e | None \<Rightarrow> Inr emptyPhaseIndex)
      else (case read_phases 0 phases (emptyPhaseIndex\<lparr>Declared := True\<rparr>, []) of
          Inl e \<Rightarrow> Inl e
        | Inr (idx0, declaredSynthesis) \<Rightarrow> (case assign_jobs jobs idx0 of
            Inl e \<Rightarrow> Inl e
          | Inr idx \<Rightarrow> (case check_each (check_phase jobs idx declaredSynthesis) (PhaseOrder idx) of
              Some e \<Rightarrow> Inl e
            | None \<Rightarrow> Inr idx))))"

section \<open>Edges between phases\<close>

definition phaseDeclaredEdges :: "gomap \<Rightarrow> edge list" where
  "phaseDeclaredEdges workflow =
     dedupe_pairs
       (map (\<lambda>e. (stringValue (mget e ''from''), stringValue (mget e ''to'')))
         (filter (\<lambda>e. stringValue (mget e ''from'') \<noteq> [] \<and> stringValue (mget e ''to'') \<noteq> [] \<and>
                      mget e ''on'' = VStr ''completed'')
           (slice_maps (mget workflow ''edges'')))) []"

definition phase_position :: "phase_index \<Rightarrow> string \<Rightarrow> nat" where
  "phase_position idx phaseID = (case map_of (PhasePosition idx) phaseID of Some n \<Rightarrow> n | None \<Rightarrow> 0)"

definition check_phase_edge :: "gomap list \<Rightarrow> phase_index \<Rightarrow> edge \<Rightarrow> werror check" where
  "check_phase_edge jobs idx e =
     (let fromID = fst e; toID = snd e;
          fromPhase = lookup_str (JobPhase idx) fromID; toPhase = lookup_str (JobPhase idx) toID in
      if fromPhase = [] \<or> toPhase = [] \<or> fromPhase = toPhase then None
      else
        (let fromPos = phase_position idx fromPhase; toPos = phase_position idx toPhase in checks
           [fail_if (toPos < fromPos) (errf (PhaseMsg (EdgeBackwards fromID toID fromPhase toPhase))),
            fail_if (toPos \<noteq> fromPos + 1) (errf (PhaseMsg (EdgeSkips fromID toID))),
            fail_if (lookup_str (SynthesisByPhase idx) fromPhase \<noteq> fromID)
              (errf (PhaseMsg (EdgeNotFromSynthesis fromID toID fromPhase))),
            fail_if (lookup_str (job_types jobs) toID = ''phase_synthesis'')
              (errf (PhaseMsg (EdgeToSynthesis fromID toID)))]))"

definition validatePhaseEdges :: "gomap \<Rightarrow> phase_index \<Rightarrow> werror check" where
  "validatePhaseEdges workflow idx =
     (if \<not> Declared idx then None
      else check_each (check_phase_edge (jobDefinitions workflow) idx) (phaseDeclaredEdges workflow))"

section \<open>Packet types behind a gate\<close>

definition default_types :: "gomap list \<Rightarrow> (string \<times> string) list" where
  "default_types jobs = rev (map (\<lambda>job. (job_id job, job_type job)) jobs)"

fun check_withheld ::
  "string \<Rightarrow> string \<Rightarrow> string \<Rightarrow> gomap list \<Rightarrow> string list \<Rightarrow> string list \<Rightarrow> werror check" where
  "check_withheld phaseID gateJobID gateType jobs seen [] = None"
| "check_withheld phaseID gateJobID gateType jobs seen (packetType # ts) =
     (if trim_space packetType = [] then Some (errf (GateMsg (GateBlankType phaseID)))
      else if packetType \<in> set seen then Some (errf (GateMsg (GateDuplicateType phaseID packetType)))
      else if packetType \<notin> set (map job_type jobs)
      then Some (errf (GateMsg (GateUnusedType phaseID packetType)))
      else if gateType = packetType
      then Some (errf (GateMsg (GateSelfWithheld phaseID gateJobID packetType)))
      else check_withheld phaseID gateJobID gateType jobs (packetType # seen) ts)"

definition check_gate :: "edge list \<Rightarrow> gomap list \<Rightarrow> goval \<Rightarrow> werror check" where
  "check_gate edges jobs phaseValue =
     (let phase = map_or_empty phaseValue in
      case as_map (mget phase ''gate'') of
        None \<Rightarrow> None
      | Some gate \<Rightarrow> when_field gate ''withhold_packet_types'' (\<lambda>withholdRaw.
          let phaseID = stringValue (mget phase ''id'');
              gateJobID = stringValue (mget gate ''until_verdict_clears'') in
          if gateJobID = [] then Some (errf (GateMsg (GateNeedsJob phaseID)))
          else (case map_of (default_types jobs) gateJobID of
            None \<Rightarrow> Some (errf (GateMsg (GateUnknownJob phaseID gateJobID)))
          | Some gateType \<Rightarrow>
              if gateType \<notin> set verdictJobTypes
              then Some (errf (GateMsg (GateNoVerdict phaseID gateJobID gateType)))
              else
                (let withheld = stringsFromSlice withholdRaw in checks
                   [fail_if (withheld = []) (errf (GateMsg (GateEmpty phaseID))),
                    check_withheld phaseID gateJobID gateType jobs [] withheld,
                    check_each (\<lambda>job.
                      let jobID = job_id job; jobType = lookup_str (default_types jobs) jobID in
                      if jobID = gateJobID \<or> jobType \<notin> set withheld then None
                      else fail_if ((gateJobID, jobID) \<notin> set edges)
                        (errf (GateMsg (GateNoDependency phaseID jobType gateJobID jobID)))) jobs]))))"

definition validatePhaseGateSequencing :: "gomap \<Rightarrow> gomap list \<Rightarrow> werror check" where
  "validatePhaseGateSequencing workflow jobs =
     check_each (check_gate (phaseDeclaredEdges workflow) jobs) (anySlice (mget workflow ''phases''))"

definition ValidatePhaseShapes :: "gomap \<Rightarrow> werror check" where
  "ValidatePhaseShapes workflow =
     (let jobs = jobDefinitions workflow in
      with_ok (buildPhaseIndex workflow jobs (stringValue (mget workflow ''schema_version'')))
        (\<lambda>idx. checks [validatePhaseEdges workflow idx, validatePhaseGateSequencing workflow jobs]))"

section \<open>The index built\<close>

lemma read_phases_Inr:
  assumes "read_phases pos ps (idx, declared) = Inr (idx', declared')"
    and "PhasePosition idx = rev (zip (PhaseOrder idx) [0..<pos])" and "length (PhaseOrder idx) = pos"
    and "distinct (PhaseOrder idx)"
  shows "PhasePosition idx' = rev (zip (PhaseOrder idx') [0..<length (PhaseOrder idx')]) \<and>
    distinct (PhaseOrder idx') \<and> Declared idx' = Declared idx \<and> JobPhase idx' = JobPhase idx \<and>
    SynthesisByPhase idx' = SynthesisByPhase idx \<and>
    PhaseOrder idx' = PhaseOrder idx @ map (\<lambda>p. stringValue (mget (map_or_empty p) ''id'')) ps"
  using assms
proof (induction ps arbitrary: pos idx declared)
  case Nil
  then show ?case by simp
next
  case (Cons p ps)
  let ?id = "stringValue (mget (map_or_empty p) ''id'')"
  let ?idx = "idx\<lparr>PhaseOrder := PhaseOrder idx @ [?id], PhasePosition := (?id, pos) # PhasePosition idx\<rparr>"
  from Cons.prems(1) have new: "?id \<notin> set (PhaseOrder idx)"
    and r: "read_phases (Suc pos) ps (?idx, (?id, stringValue (mget (map_or_empty p) ''synthesis_job_id'')) # declared)
      = Inr (idx', declared')"
    by (auto simp: Let_def split: if_splits)
  have "PhasePosition ?idx = rev (zip (PhaseOrder ?idx) [0..<Suc pos])" "length (PhaseOrder ?idx) = Suc pos"
    "distinct (PhaseOrder ?idx)"
    using Cons.prems(2-4) new by simp_all
  note IH = Cons.IH [OF r this]
  from IH show ?case by (elim conjE) (intro conjI; simp)
qed

lemma assign_jobs_Inr:
  assumes "assign_jobs jobs idx = Inr idx'"
  shows "PhaseOrder idx' = PhaseOrder idx \<and> PhasePosition idx' = PhasePosition idx \<and>
    Declared idx' = Declared idx \<and>
    JobPhase idx' = rev (map (\<lambda>j. (job_id j, job_phase j)) jobs) @ JobPhase idx \<and>
    SynthesisByPhase idx' =
      rev (map (\<lambda>j. (job_phase j, job_id j)) (filter is_synthesis jobs)) @ SynthesisByPhase idx \<and>
    (\<forall>j \<in> set jobs. job_phase j \<noteq> [] \<and> job_phase j \<in> set (PhaseOrder idx))"
  using assms
proof (induction jobs arbitrary: idx)
  case Nil
  then show ?case by simp
next
  case (Cons job jobs)
  let ?idx = "idx\<lparr>JobPhase := (job_id job, job_phase job) # JobPhase idx\<rparr>"
  let ?idx' = "if is_synthesis job then ?idx\<lparr>SynthesisByPhase := (job_phase job, job_id job) # SynthesisByPhase idx\<rparr>
    else ?idx"
  from Cons.prems have r: "assign_jobs jobs ?idx' = Inr idx'"
    and ph: "job_phase job \<noteq> []" "job_phase job \<in> set (PhaseOrder idx)"
    by (auto simp: Let_def split: if_splits)
  from Cons.IH [OF r] ph show ?case by (cases "is_synthesis job") simp_all
qed

lemma assign_jobs_distinct:
  assumes "assign_jobs jobs idx = Inr idx'" and "\<forall>j \<in> set jobs. job_id j \<noteq> []"
  shows "distinct (map job_phase (filter is_synthesis jobs)) \<and>
    (\<forall>j \<in> set (filter is_synthesis jobs). lookup_str (SynthesisByPhase idx) (job_phase j) = [])"
  using assms
proof (induction jobs arbitrary: idx)
  case Nil
  then show ?case by simp
next
  case (Cons job jobs)
  show ?case
  proof (cases "is_synthesis job")
    case False
    with Cons.prems(1) have r: "assign_jobs jobs (idx\<lparr>JobPhase := (job_id job, job_phase job) # JobPhase idx\<rparr>) = Inr idx'"
      by (auto simp: Let_def split: if_splits)
    from Cons.IH [OF r] Cons.prems(2) False show ?thesis by simp
  next
    case True
    let ?idx = "idx\<lparr>JobPhase := (job_id job, job_phase job) # JobPhase idx,
        SynthesisByPhase := (job_phase job, job_id job) # SynthesisByPhase idx\<rparr>"
    from True Cons.prems(1) have free: "lookup_str (SynthesisByPhase idx) (job_phase job) = []"
      and r: "assign_jobs jobs ?idx = Inr idx'"
      by (auto simp: Let_def split: if_splits)
    from Cons.IH [OF r] Cons.prems(2) have IH: "distinct (map job_phase (filter is_synthesis jobs))"
      "\<forall>j \<in> set (filter is_synthesis jobs). lookup_str (SynthesisByPhase ?idx) (job_phase j) = []"
      by auto
    have "job_phase j \<noteq> job_phase job \<and> lookup_str (SynthesisByPhase idx) (job_phase j) = []"
      if "j \<in> set (filter is_synthesis jobs)" for j
      using bspec [OF IH(2) that] Cons.prems(2) by (auto simp: lookup_str_def split: if_splits)
    then have "\<forall>j \<in> set (filter is_synthesis jobs). job_phase j \<noteq> job_phase job \<and>
        lookup_str (SynthesisByPhase idx) (job_phase j) = []" by blast
    with IH(1) True free show ?thesis by fastforce
  qed
qed

text \<open>What the index of a workflow with phases consists of.\<close>

lemma buildPhaseIndex_Inr:
  assumes "buildPhaseIndex workflow jobs sv = Inr idx" and "Declared idx"
  obtains idx0 declared where
    "assign_jobs jobs idx0 = Inr idx" "SynthesisByPhase idx0 = []" "JobPhase idx0 = []"
    "PhasePosition idx = rev (zip (PhaseOrder idx) [0..<length (PhaseOrder idx)])"
    "distinct (PhaseOrder idx)" "\<forall>p \<in> set (PhaseOrder idx). check_phase jobs idx declared p = None"
    "PhaseOrder idx = map (\<lambda>p. stringValue (mget (map_or_empty p) ''id'')) (anySlice (mget workflow ''phases''))"
proof -
  have e: "\<not> Declared emptyPhaseIndex" by (simp add: emptyPhaseIndex_def)
  from assms e obtain idx0 declared where
    r: "read_phases 0 (anySlice (mget workflow ''phases'')) (emptyPhaseIndex\<lparr>Declared := True\<rparr>, []) = Inr (idx0, declared)"
    and a: "assign_jobs jobs idx0 = Inr idx"
    and c: "check_each (check_phase jobs idx declared) (PhaseOrder idx) = None"
    unfolding buildPhaseIndex_def Let_def by (auto split: if_splits option.splits sum.splits)
  let ?start = "emptyPhaseIndex\<lparr>Declared := True\<rparr>"
  have start: "PhasePosition ?start = []" "PhaseOrder ?start = []" "JobPhase ?start = []"
    "SynthesisByPhase ?start = []" by (simp_all add: emptyPhaseIndex_def)
  then have pre: "PhasePosition ?start = rev (zip (PhaseOrder ?start) [0..<0])" "length (PhaseOrder ?start) = 0"
    "distinct (PhaseOrder ?start)" by simp_all
  from read_phases_Inr [OF r pre] have "PhasePosition idx0 = rev (zip (PhaseOrder idx0) [0..<length (PhaseOrder idx0)])"
    "distinct (PhaseOrder idx0)" "JobPhase idx0 = []" "SynthesisByPhase idx0 = []"
    "PhaseOrder idx0 = map (\<lambda>p. stringValue (mget (map_or_empty p) ''id'')) (anySlice (mget workflow ''phases''))"
    unfolding start append_Nil by blast+
  moreover have "PhaseOrder idx = PhaseOrder idx0" "PhasePosition idx = PhasePosition idx0"
    using assign_jobs_Inr [OF a] by simp_all
  ultimately show thesis using a c check_each_None that by metis
qed

lemma map_of_rev_zip_nth:
  assumes "distinct xs" and "i < length xs"
  shows "map_of (rev (zip xs [0..<length xs])) (xs ! i) = Some i"
proof -
  have d: "distinct (map fst (rev (zip xs [0..<length xs])))"
    using assms(1) by (simp add: rev_map [symmetric])
  have "(xs ! i, i) \<in> set (rev (zip xs [0..<length xs]))"
    using assms(2) by (auto simp: set_zip intro!: exI [of _ i])
  with d show ?thesis by simp
qed

lemma phase_position_nth:
  assumes "buildPhaseIndex workflow jobs sv = Inr idx" and "Declared idx" and "i < length (PhaseOrder idx)"
  shows "phase_position idx (PhaseOrder idx ! i) = i"
  using buildPhaseIndex_Inr [OF assms(1,2)] map_of_rev_zip_nth [OF _ assms(3)]
  by (metis option.simps(5) phase_position_def)

lemma PhaseOrder_position:
  assumes "buildPhaseIndex workflow jobs sv = Inr idx" and "Declared idx" and "p \<in> set (PhaseOrder idx)"
  shows "PhaseOrder idx ! phase_position idx p = p"
  using phase_position_nth [OF assms(1,2)] assms(3) by (metis in_set_conv_nth)

lemma length_filter_distinct:
  "distinct (map f (filter P xs)) \<Longrightarrow> x \<in> set xs \<Longrightarrow> P x \<Longrightarrow> length (filter (\<lambda>y. P y \<and> f y = f x) xs) = 1"
proof (induction xs)
  case Nil
  then show ?case by simp
next
  case (Cons a xs)
  have none: "filter (\<lambda>y. P y \<and> f y = f a) xs = []" if "P a"
    using Cons.prems(1) that by (auto simp: filter_empty_conv image_iff)
  show ?case
  proof (cases "x = a")
    case True
    with Cons.prems none show ?thesis by simp
  next
    case False
    with Cons.prems(2) have x: "x \<in> set xs" by simp
    with Cons.prems(1,3) have "P a \<Longrightarrow> f a \<noteq> f x" by (auto simp: image_iff)
    with Cons.IH Cons.prems x show ?thesis by (auto split: if_splits)
  qed
qed

lemma synthesis_lookup:
  assumes "lookup_str (rev (map (\<lambda>j. (job_phase j, job_id j)) js)) p \<noteq> []"
  obtains j where "j \<in> set js" "job_phase j = p"
    "lookup_str (rev (map (\<lambda>j. (job_phase j, job_id j)) js)) p = job_id j"
  using assms by (auto simp: lookup_str_def split: option.splits dest!: map_of_SomeD)

lemma phase_jobs:
  assumes "buildPhaseIndex workflow jobs sv = Inr idx" and "Declared idx" and "\<forall>j \<in> set jobs. job_id j \<noteq> []"
  shows "p \<in> set (PhaseOrder idx) \<Longrightarrow>
      length (filter (\<lambda>j. is_synthesis j \<and> job_phase j = p) jobs) = 1 \<and>
      2 \<le> length (filter (\<lambda>j. job_phase j = p) jobs) \<and>
      (\<exists>j \<in> set jobs. is_synthesis j \<and> job_phase j = p \<and> job_id j = lookup_str (SynthesisByPhase idx) p)"
    and "j \<in> set jobs \<Longrightarrow> job_phase j \<in> set (PhaseOrder idx)"
proof -
  from assms(1,2) obtain idx0 declared where b: "assign_jobs jobs idx0 = Inr idx" "SynthesisByPhase idx0 = []"
    "\<forall>p \<in> set (PhaseOrder idx). check_phase jobs idx declared p = None"
    by (rule buildPhaseIndex_Inr)
  note a = assign_jobs_Inr [OF b(1)] and d = assign_jobs_distinct [OF b(1) assms(3)]
  from a show "j \<in> set jobs \<Longrightarrow> job_phase j \<in> set (PhaseOrder idx)" by simp
  assume "p \<in> set (PhaseOrder idx)"
  with b(3) have c: "check_phase jobs idx declared p = None" by blast
  then have peers: "2 \<le> length (filter (\<lambda>j. job_phase j = p) jobs)"
    and "lookup_str (SynthesisByPhase idx) p \<noteq> []"
    by (simp_all add: check_phase_def Let_def)
  with a b(2) have "lookup_str (rev (map (\<lambda>j. (job_phase j, job_id j)) (filter is_synthesis jobs))) p \<noteq> []"
    by simp
  from synthesis_lookup [OF this] a b(2) obtain j where j: "j \<in> set jobs" "is_synthesis j" "job_phase j = p"
    "job_id j = lookup_str (SynthesisByPhase idx) p"
    by (metis (mono_tags, lifting) append_Nil2 mem_Collect_eq set_filter)
  with length_filter_distinct [OF conjunct1 [OF d] j(1,2)] peers
  show "length (filter (\<lambda>j. is_synthesis j \<and> job_phase j = p) jobs) = 1 \<and>
      2 \<le> length (filter (\<lambda>j. job_phase j = p) jobs) \<and>
      (\<exists>j \<in> set jobs. is_synthesis j \<and> job_phase j = p \<and> job_id j = lookup_str (SynthesisByPhase idx) p)"
    by blast
qed

section \<open>Walking through the phases\<close>

text \<open>The position of a job's phase.\<close>

definition job_position :: "phase_index \<Rightarrow> string \<Rightarrow> nat" where
  "job_position idx u = phase_position idx (lookup_str (JobPhase idx) u)"

text \<open>The synthesis job of the phase at a position.\<close>

definition synthesis_at :: "phase_index \<Rightarrow> nat \<Rightarrow> string" where
  "synthesis_at idx k = lookup_str (SynthesisByPhase idx) (PhaseOrder idx ! k)"

text \<open>All edges join jobs that have a phase.\<close>

definition phased_edges :: "phase_index \<Rightarrow> edge list \<Rightarrow> bool" where
  "phased_edges idx es \<longleftrightarrow>
     list_all (\<lambda>e. lookup_str (JobPhase idx) (fst e) \<noteq> [] \<and> lookup_str (JobPhase idx) (snd e) \<noteq> []) es"

lemma JobPhase_declared:
  assumes "buildPhaseIndex workflow jobs sv = Inr idx" and "Declared idx"
    and "lookup_str (JobPhase idx) u \<noteq> []"
  shows "lookup_str (JobPhase idx) u \<in> set (PhaseOrder idx)"
proof -
  from assms(1,2) obtain idx0 where "assign_jobs jobs idx0 = Inr idx" "JobPhase idx0 = []"
    by (rule buildPhaseIndex_Inr)
  from assign_jobs_Inr [OF this(1)] this(2) assms(3) show ?thesis
    by (auto simp: lookup_str_def split: option.splits dest!: map_of_SomeD)
qed

lemma phase_edge_step:
  assumes "buildPhaseIndex workflow jobs sv = Inr idx" and "Declared idx"
    and "validatePhaseEdges workflow idx = None" and "phased_edges idx (phaseDeclaredEdges workflow)"
    and "(u, v) \<in> set (phaseDeclaredEdges workflow)"
  shows "job_position idx v = job_position idx u \<or>
    job_position idx v = Suc (job_position idx u) \<and> synthesis_at idx (job_position idx u) = u"
proof -
  let ?fp = "lookup_str (JobPhase idx) u" and ?tp = "lookup_str (JobPhase idx) v"
  from assms(4,5) have ne: "?fp \<noteq> []" "?tp \<noteq> []" by (auto simp: phased_edges_def list_all_iff)
  from assms(2,3,5) have c: "check_phase_edge (jobDefinitions workflow) idx (u, v) = None"
    by (simp add: validatePhaseEdges_def)
  show ?thesis
  proof (cases "?fp = ?tp")
    case True
    then show ?thesis by (simp add: job_position_def)
  next
    case False
    with c ne have "phase_position idx ?tp = Suc (phase_position idx ?fp)"
      and "lookup_str (SynthesisByPhase idx) ?fp = u"
      by (simp_all add: check_phase_edge_def Let_def)
    with PhaseOrder_position [OF assms(1,2) JobPhase_declared [OF assms(1,2) ne(1)]]
    show ?thesis by (simp add: job_position_def synthesis_at_def)
  qed
qed

lemma phase_walk:
  assumes "buildPhaseIndex workflow jobs sv = Inr idx" and "Declared idx"
    and "validatePhaseEdges workflow idx = None" and "phased_edges idx (phaseDeclaredEdges workflow)"
    and "(u, v) \<in> (set (phaseDeclaredEdges workflow))\<^sup>*"
  shows "job_position idx u \<le> job_position idx v \<and>
    (\<forall>k. job_position idx u \<le> k \<and> k < job_position idx v \<longrightarrow>
       (u, synthesis_at idx k) \<in> (set (phaseDeclaredEdges workflow))\<^sup>* \<and>
       (synthesis_at idx k, v) \<in> (set (phaseDeclaredEdges workflow))\<^sup>+)"
  using assms(5)
proof (induction rule: rtrancl_induct)
  case base
  then show ?case by (simp add: not_less [symmetric])
next
  case (step y z)
  from phase_edge_step [OF assms(1-4) step.hyps(2)]
  have le: "job_position idx y \<le> job_position idx z" by auto
  have "(u, synthesis_at idx k) \<in> (set (phaseDeclaredEdges workflow))\<^sup>* \<and>
      (synthesis_at idx k, z) \<in> (set (phaseDeclaredEdges workflow))\<^sup>+"
    if k: "job_position idx u \<le> k" "k < job_position idx z" for k
  proof (cases "k < job_position idx y")
    case True
    with step.IH k(1) step.hyps(2) show ?thesis by (meson trancl_into_trancl)
  next
    case False
    with k(2) phase_edge_step [OF assms(1-4) step.hyps(2)]
    have "synthesis_at idx k = y" by (auto simp: less_Suc_eq)
    with step.hyps show ?thesis by auto
  qed
  with step.IH le show ?case by auto
qed

lemma check_withheld_types:
  "check_withheld phaseID g gt jobs seen ts = None \<Longrightarrow> t \<in> set ts \<Longrightarrow> t \<noteq> gt \<and> t \<in> set (map job_type jobs)"
  by (induction ts arbitrary: seen) (auto split: if_splits)

lemma gate_withholds:
  assumes "validatePhaseGateSequencing workflow jobs = None"
    and "VMap phase \<in> set (anySlice (mget workflow ''phases''))" and "mget phase ''gate'' = VMap gate"
    and "map_of gate ''withhold_packet_types'' = Some withheld"
    and "job \<in> set jobs" and "distinct (map job_id jobs)" and "job_type job \<in> set (stringsFromSlice withheld)"
  shows "(stringValue (mget gate ''until_verdict_clears''), job_id job) \<in> set (phaseDeclaredEdges workflow)"
proof -
  let ?g = "stringValue (mget gate ''until_verdict_clears'')"
  from assms(1,2) have "check_gate (phaseDeclaredEdges workflow) jobs (VMap phase) = None"
    by (simp add: validatePhaseGateSequencing_def)
  with assms(3,4) obtain gt where gt: "map_of (default_types jobs) ?g = Some gt"
    and w: "check_withheld (stringValue (mget phase ''id'')) ?g gt jobs [] (stringsFromSlice withheld) = None"
    and e: "\<forall>j \<in> set jobs. job_id j = ?g \<or> lookup_str (default_types jobs) (job_id j) \<notin> set (stringsFromSlice withheld) \<or>
      (?g, job_id j) \<in> set (phaseDeclaredEdges workflow)"
    by (auto simp: check_gate_def when_field_def map_or_empty_def Let_def split: option.splits if_splits)
  have "distinct (map fst (default_types jobs))"
    using assms(6) by (simp add: default_types_def rev_map [symmetric] comp_def)
  moreover have "(job_id job, job_type job) \<in> set (default_types jobs)"
    using assms(5) by (auto simp: default_types_def)
  ultimately have t: "map_of (default_types jobs) (job_id job) = Some (job_type job)" by simp
  have "job_type job \<noteq> gt" using check_withheld_types [OF w assms(7)] by blast
  with gt t have "job_id job \<noteq> ?g" by auto
  with e assms(5,7) t show ?thesis by (auto simp: lookup_str_def)
qed

section \<open>Properties\<close>

text \<open>The shape of phases. When the index of a workflow with phases is built (from jobs with
  non-empty ids), every job belongs to a declared phase and every declared phase has exactly
  one \<open>phase_synthesis\<close> job, the one the index names, and at least one more job.\<close>

theorem buildPhaseIndex_shape:
  assumes "buildPhaseIndex workflow jobs sv = Inr idx" and "Declared idx" and "\<forall>j \<in> set jobs. job_id j \<noteq> []"
  shows "(\<forall>j \<in> set jobs. job_phase j \<in> set (PhaseOrder idx)) \<and>
    (\<forall>p \<in> set (PhaseOrder idx).
       length (filter (\<lambda>j. is_synthesis j \<and> job_phase j = p) jobs) = 1 \<and>
       2 \<le> length (filter (\<lambda>j. job_phase j = p) jobs) \<and>
       (\<exists>j \<in> set jobs. is_synthesis j \<and> job_phase j = p \<and> job_id j = lookup_str (SynthesisByPhase idx) p))"
  using phase_jobs [OF assms] by blast


text \<open>A gate withholds. In a validated workflow with unique job ids, every job whose type a
  phase gate withholds has a declared edge from the gate job, whose verdict must clear first.\<close>

theorem gate_withholds_types:
  assumes "validatePhaseGateSequencing workflow jobs = None"
    and "VMap phase \<in> set (anySlice (mget workflow ''phases''))" and "mget phase ''gate'' = VMap gate"
    and "map_of gate ''withhold_packet_types'' = Some withheld"
    and "job \<in> set jobs" and "distinct (map job_id jobs)" and "job_type job \<in> set (stringsFromSlice withheld)"
  shows "(stringValue (mget gate ''until_verdict_clears''), job_id job) \<in> set (phaseDeclaredEdges workflow)"
  using gate_withholds [OF assms] .

section \<open>A concrete workflow with two phases\<close>

definition ex_phase_job :: "string \<Rightarrow> string \<Rightarrow> string \<Rightarrow> gomap" where
  "ex_phase_job i t p = [(''id'', VStr i), (''type'', VStr t), (''phase_id'', VStr p)]"

definition ex_phase_jobs :: "gomap list" where
  "ex_phase_jobs =
     [ex_phase_job ''a'' ''review'' ''p1'', ex_phase_job ''s1'' ''phase_synthesis'' ''p1'',
      ex_phase_job ''b'' ''proposal'' ''p2'', ex_phase_job ''s2'' ''phase_synthesis'' ''p2'']"

definition ex_edge :: "string \<Rightarrow> string \<Rightarrow> goval" where
  "ex_edge u v = VMap [(''from'', VStr u), (''to'', VStr v), (''on'', VStr ''completed'')]"

definition ex_gate :: gomap where
  "ex_gate = [(''withhold_packet_types'', VList [VStr ''proposal'']), (''until_verdict_clears'', VStr ''s1'')]"

definition ex_phases :: gomap where
  "ex_phases =
     [(''phases'', VList [VMap [(''id'', VStr ''p1'')], VMap [(''id'', VStr ''p2''), (''gate'', VMap ex_gate)]]),
      (''jobs'', VList (map VMap ex_phase_jobs)),
      (''edges'', VList [ex_edge ''a'' ''s1'', ex_edge ''s1'' ''b'', ex_edge ''b'' ''s2''])]"

definition ex_index :: phase_index where
  "ex_index = (case buildPhaseIndex ex_phases ex_phase_jobs SchemaV11 of Inr idx \<Rightarrow> idx | Inl _ \<Rightarrow> emptyPhaseIndex)"

lemma ex_phases_ok:
  "buildPhaseIndex ex_phases ex_phase_jobs SchemaV11 = Inr ex_index" "Declared ex_index"
  "validatePhaseEdges ex_phases ex_index = None" "phased_edges ex_index (phaseDeclaredEdges ex_phases)"
  "validatePhaseGateSequencing ex_phases ex_phase_jobs = None"
  "phaseDeclaredEdges ex_phases = [(''a'', ''s1''), (''s1'', ''b''), (''b'', ''s2'')]"
  "job_position ex_index ''a'' = 0" "job_position ex_index ''s2'' = 1" "synthesis_at ex_index 0 = ''s1''"
  by code_simp+

theorem buildPhaseIndex_shape_witness:
  "''p1'' \<in> set (PhaseOrder ex_index) \<and>
   length (filter (\<lambda>j. is_synthesis j \<and> job_phase j = ''p1'') ex_phase_jobs) = 1"
proof
  show a: "''p1'' \<in> set (PhaseOrder ex_index)" by code_simp
  have "\<forall>j \<in> set ex_phase_jobs. job_id j \<noteq> []" by code_simp
  from buildPhaseIndex_shape [OF ex_phases_ok(1,2) this] a
  show "length (filter (\<lambda>j. is_synthesis j \<and> job_phase j = ''p1'') ex_phase_jobs) = 1" by blast
qed


theorem gate_withholds_types_witness:
  "(''s1'', ''b'') \<in> set (phaseDeclaredEdges ex_phases)"
proof -
  let ?b = "ex_phase_job ''b'' ''proposal'' ''p2''"
  have "VMap [(''id'', VStr ''p2''), (''gate'', VMap ex_gate)] \<in> set (anySlice (mget ex_phases ''phases''))"
    by (simp add: ex_phases_def mget_def)
  moreover have "mget [(''id'', VStr ''p2''), (''gate'', VMap ex_gate)] ''gate'' = VMap ex_gate" by (simp add: mget_def)
  moreover have "map_of ex_gate ''withhold_packet_types'' = Some (VList [VStr ''proposal''])" by (simp add: ex_gate_def)
  moreover have "?b \<in> set ex_phase_jobs" by (simp add: ex_phase_jobs_def)
  moreover have "distinct (map job_id ex_phase_jobs)" by code_simp
  moreover have "job_type ?b \<in> set (stringsFromSlice (VList [VStr ''proposal'']))" by code_simp
  ultimately have "(stringValue (mget ex_gate ''until_verdict_clears''), job_id ?b) \<in> set (phaseDeclaredEdges ex_phases)"
    by (rule gate_withholds_types [OF ex_phases_ok(5)])
  moreover have "stringValue (mget ex_gate ''until_verdict_clears'') = ''s1''" "job_id ?b = ''b''" by code_simp+
  ultimately show ?thesis by simp
qed

end
