(* ===== verification/PlanWaves.thy ===== *)
theory PlanWaves
  imports Digraph "HOL-Library.Multiset"
begin

text \<open>
  The claim order of \<open>Plan\<close> (\<open>go/pkg/workflowauthoring/plan.go\<close>): waves of jobs whose
  dependencies are all in earlier waves, computed by counting in-degrees, with the check that
  every job was released. Jobs are given by their ids, in the order Go iterates over the job
  map; edges are the deduplicated dependency pairs. A claim step is the list of its job ids.
\<close>

section \<open>The code\<close>

type_synonym indegrees = "string \<Rightarrow> int"

definition init_indegree :: "edge list \<Rightarrow> indegrees" where
  "init_indegree es = fold (\<lambda>e d. d(snd e := d (snd e) + 1)) es (\<lambda>_. 0)"

text \<open>The body of the innermost loop: one downstream job loses one unmet dependency.\<close>

fun release :: "string \<Rightarrow> indegrees \<times> string list \<Rightarrow> indegrees \<times> string list" where
  "release d (deg, ready) =
     (let deg' = deg(d := deg d - 1) in (deg', if deg' d = 0 then ready @ [d] else ready))"

text \<open>The loop over one wave.\<close>

definition release_wave :: "edge list \<Rightarrow> string list \<Rightarrow> indegrees \<Rightarrow> indegrees \<times> string list" where
  "release_wave es wave deg =
     fold (\<lambda>job st. fold release (sort_strings (succs es job)) st) wave (deg, [])"

definition wave_targets :: "edge list \<Rightarrow> string list \<Rightarrow> string list" where
  "wave_targets es wave = concat (map (\<lambda>job. sort_strings (succs es job)) wave)"

lemma fold_concat_map: "fold (\<lambda>x st. fold f (g x) st) xs st = fold f (concat (map g xs)) st"
  by (induction xs arbitrary: st) auto

lemma release_wave_eq: "release_wave es wave deg = fold release (wave_targets es wave) (deg, [])"
  unfolding release_wave_def wave_targets_def by (rule fold_concat_map)

lemma fold_release_deg: "fst (fold release ds (deg, ready)) t = deg t - int (count_list ds t)"
  by (induction ds arbitrary: deg ready) (auto simp: Let_def)

lemma fold_release_ready:
  "t \<in> set (snd (fold release ds (deg, ready))) \<longleftrightarrow>
     t \<in> set ready \<or> (1 \<le> deg t \<and> deg t \<le> int (count_list ds t))"
  by (induction ds arbitrary: deg ready) (auto simp: Let_def)

lemma fold_release_distinct:
  "distinct ready \<Longrightarrow> \<forall>t \<in> set ready. deg t \<le> 0 \<Longrightarrow> distinct (snd (fold release ds (deg, ready)))"
proof (induction ds arbitrary: deg ready)
  case Nil
  then show ?case by simp
next
  case (Cons d ds)
  let ?deg = "\<lambda>a. if a = d then deg d - 1 else deg a"
  let ?ready = "if deg d = 1 then ready @ [d] else ready"
  have "distinct ?ready" and "\<forall>t \<in> set ?ready. ?deg t \<le> 0"
    using Cons.prems by (auto split: if_splits)
  from Cons.IH [OF this] show ?case by (auto simp: Let_def fun_upd_def split: if_splits)
qed

lemma wave_targets_sub: "set (wave_targets es wave) \<subseteq> snd ` set es"
  by (auto simp: wave_targets_def set_succs image_iff) force

function plan_loop ::
  "edge list \<Rightarrow> indegrees \<Rightarrow> string list \<Rightarrow> string list \<Rightarrow> string list list \<Rightarrow>
   string list \<times> string list list" where
  "plan_loop es deg ready visited waves =
     (if ready = [] then (visited, waves)
      else (let r = release_wave es ready deg
            in plan_loop es (fst r) (sort_strings (snd r)) (fold List.insert ready visited)
                 (waves @ [ready])))"
  by pat_completeness auto

termination
proof (relation "measure (\<lambda>(es, deg, ready, visited, waves).
    2 * card {t \<in> snd ` set es. 0 < deg t} + (if ready = [] then 0 else 1))", goal_cases)
  case (2 es deg ready visited waves r)
  let ?old = "{t \<in> snd ` set es. 0 < deg t}" and ?new = "{t \<in> snd ` set es. 0 < fst r t}"
  have sub: "?new \<subseteq> ?old"
    unfolding 2(2) release_wave_eq by (auto simp: fold_release_deg)
  show ?case
  proof (cases "snd r = []")
    case True
    have "card ?new \<le> card ?old" by (intro card_mono sub) simp
    with True 2(1) show ?thesis by simp
  next
    case False
    then obtain t where "t \<in> set (snd r)" by (cases "snd r") auto
    then have t: "1 \<le> deg t" "deg t \<le> int (count_list (wave_targets es ready) t)"
      unfolding 2(2) release_wave_eq by (simp_all add: fold_release_ready)
    then have "t \<in> set (wave_targets es ready)" by (cases "t \<in> set (wave_targets es ready)") auto
    then have "t \<in> ?old" using t wave_targets_sub by auto
    moreover have "t \<notin> ?new" using t unfolding 2(2) release_wave_eq by (simp add: fold_release_deg)
    ultimately have "card ?new < card ?old" using sub by (intro psubset_card_mono) auto
    with False 2(1) show ?thesis by simp
  qed
qed simp

declare plan_loop.simps [simp del]

text \<open>\<open>Plan\<close>: the claim order, or the sorted jobs no wave released.\<close>

definition claim_order :: "string list \<Rightarrow> edge list \<Rightarrow> string list + string list list" where
  "claim_order jobs es =
     (let deg = init_indegree es;
          ready = sort_strings (filter (\<lambda>j. deg j = 0) jobs);
          r = plan_loop es deg ready [] []
      in if length (fst r) \<noteq> length jobs
         then Inl (sort_strings (filter (\<lambda>j. j \<notin> set (fst r)) jobs))
         else Inr (snd r))"

section \<open>The invariant of the loop\<close>

definition unmet :: "edge list \<Rightarrow> string set \<Rightarrow> string \<Rightarrow> nat" where
  "unmet es V t = length (filter (\<lambda>e. snd e = t \<and> fst e \<notin> V) es)"

definition layered :: "edge list \<Rightarrow> string list list \<Rightarrow> bool" where
  "layered es waves \<longleftrightarrow> (\<forall>i < length waves. \<forall>v \<in> set (waves ! i). \<forall>u. (u, v) \<in> set es \<longrightarrow>
     u \<in> set (concat (take i waves)))"

definition releasable :: "string list \<Rightarrow> edge list \<Rightarrow> string set \<Rightarrow> string set" where
  "releasable jobs es V = {j \<in> set jobs. j \<notin> V \<and> (\<forall>u. (u, j) \<in> set es \<longrightarrow> u \<in> V)}"

definition plan_inv ::
  "string list \<Rightarrow> edge list \<Rightarrow> indegrees \<Rightarrow> string list \<Rightarrow> string list \<Rightarrow> string list list \<Rightarrow> bool" where
  "plan_inv jobs es deg ready visited waves \<longleftrightarrow>
     (\<forall>t. deg t = int (unmet es (set visited) t)) \<and>
     set ready = releasable jobs es (set visited) \<and> distinct ready \<and>
     distinct visited \<and> set visited \<subseteq> set jobs \<and>
     set visited = set (concat waves) \<and> distinct (concat waves) \<and> layered es waves"

lemma unmet_0: "unmet es V t = 0 \<longleftrightarrow> (\<forall>u. (u, t) \<in> set es \<longrightarrow> u \<in> V)"
  by (auto simp: unmet_def filter_empty_conv)

lemma count_sort [simp]: "count_list (sort_strings xs) t = count_list xs t"
  by (metis count_mset mset_sort)

lemma count_succs: "count_list (succs es u) t = length (filter (\<lambda>e. fst e = u \<and> snd e = t) es)"
  by (induction es) (auto simp: succs_def)

lemma count_wave_targets:
  "distinct wave \<Longrightarrow>
   count_list (wave_targets es wave) t = length (filter (\<lambda>e. snd e = t \<and> fst e \<in> set wave) es)"
proof (induction wave)
  case Nil
  then show ?case by (simp add: wave_targets_def)
next
  case (Cons j wave)
  have "length (filter (\<lambda>e. snd e = t \<and> fst e \<in> set (j # wave)) es) =
      length (filter (\<lambda>e. fst e = j \<and> snd e = t) es) +
      length (filter (\<lambda>e. snd e = t \<and> fst e \<in> set wave) es)"
    using Cons.prems by (induction es) auto
  with Cons show ?case by (simp add: wave_targets_def count_succs)
qed

lemma unmet_split:
  "set wave \<inter> V = {} \<Longrightarrow>
   int (unmet es V t) - int (length (filter (\<lambda>e. snd e = t \<and> fst e \<in> set wave) es)) =
   int (unmet es (V \<union> set wave) t)"
  by (induction es) (auto simp: unmet_def)

lemma set_fold_insert: "set (fold List.insert xs ys) = set ys \<union> set xs"
  by (induction xs arbitrary: ys) auto

lemma distinct_fold_insert: "distinct ys \<Longrightarrow> distinct (fold List.insert xs ys)"
  by (induction xs arbitrary: ys) auto

lemma layered_snoc:
  assumes "layered es waves"
    and "\<And>u v. v \<in> set wave \<Longrightarrow> (u, v) \<in> set es \<Longrightarrow> u \<in> set (concat waves)"
  shows "layered es (waves @ [wave])"
  using assms by (auto simp: layered_def nth_append less_Suc_eq)

lemma in_concat_nth: "v \<in> set (concat ws) \<longleftrightarrow> (\<exists>i < length ws. v \<in> set (ws ! i))"
  unfolding set_concat UN_iff by (metis in_set_conv_nth)

lemma layered_closed:
  "layered es waves \<Longrightarrow> (u, v) \<in> set es \<Longrightarrow> v \<in> set (concat waves) \<Longrightarrow> u \<in> set (concat waves)"
proof -
  assume l: "layered es waves" and e: "(u, v) \<in> set es" and "v \<in> set (concat waves)"
  then obtain i where "i < length waves" "v \<in> set (waves ! i)" unfolding in_concat_nth by blast
  with l e have "u \<in> set (concat (take i waves))" by (auto simp: layered_def)
  then show ?thesis by (auto dest: in_set_takeD)
qed

lemma plan_inv_step:
  assumes inv: "plan_inv jobs es deg ready visited waves"
    and within: "snd ` set es \<subseteq> set jobs"
    and r: "r = release_wave es ready deg"
  shows "plan_inv jobs es (fst r) (sort_strings (snd r)) (fold List.insert ready visited)
           (waves @ [ready])"
proof -
  let ?V = "set visited" and ?V' = "set visited \<union> set ready"
  have deg: "deg t = int (unmet es ?V t)" for t using inv by (simp add: plan_inv_def)
  have rdy: "set ready = releasable jobs es ?V" and dist: "distinct ready"
    and lay: "layered es waves" and vis: "?V = set (concat waves)"
    using inv by (simp_all add: plan_inv_def)
  have disj: "set ready \<inter> ?V = {}" by (auto simp: rdy releasable_def)
  have closed: "u \<in> ?V" if "(u, v) \<in> set es" "v \<in> ?V" for u v
    using layered_closed [OF lay that(1)] that(2) vis by blast
  have deg': "fst r t = int (unmet es ?V' t)" for t
    unfolding r release_wave_eq fold_release_deg count_wave_targets [OF dist] deg
    by (rule unmet_split [OF disj])
  have mem: "t \<in> set (snd r) \<longleftrightarrow> unmet es ?V t \<noteq> 0 \<and> unmet es ?V' t = 0" for t
    using deg' [of t] unfolding r release_wave_eq
    by (auto simp: fold_release_ready fold_release_deg deg)
  have rdy': "set (snd r) = releasable jobs es ?V'"
  proof (intro set_eqI iffI)
    fix t assume "t \<in> set (snd r)"
    then have "unmet es ?V t \<noteq> 0" and all: "\<forall>u. (u, t) \<in> set es \<longrightarrow> u \<in> ?V'"
      unfolding mem unmet_0 by auto
    then obtain u where u: "(u, t) \<in> set es" "u \<notin> ?V" by (auto simp: unmet_0)
    then have "t \<in> set jobs" using within by force
    moreover have "t \<notin> ?V'" using u closed by (auto simp: rdy releasable_def)
    ultimately show "t \<in> releasable jobs es ?V'" using all by (simp add: releasable_def)
  next
    fix t assume "t \<in> releasable jobs es ?V'"
    then show "t \<in> set (snd r)"
      unfolding mem unmet_0 using rdy by (auto simp: releasable_def)
  qed
  have "distinct (snd r)" unfolding r release_wave_eq by (rule fold_release_distinct) simp_all
  moreover have "layered es (waves @ [ready])"
    using lay vis by (intro layered_snoc) (auto simp: rdy releasable_def)
  ultimately show ?thesis
    using inv disj deg' rdy' vis unfolding plan_inv_def
    by (auto simp: set_fold_insert distinct_fold_insert releasable_def Un_ac)
qed

lemma plan_loop_inv:
  assumes "plan_inv jobs es deg ready visited waves" and "snd ` set es \<subseteq> set jobs"
    and "\<forall>w \<in> set waves. w \<noteq> [] \<and> sorted w" and "sorted ready"
  shows "\<exists>deg'. plan_inv jobs es deg' [] (fst (plan_loop es deg ready visited waves))
           (snd (plan_loop es deg ready visited waves)) \<and>
         (\<forall>w \<in> set (snd (plan_loop es deg ready visited waves)). w \<noteq> [] \<and> sorted w)"
  using assms
proof (induction es deg ready visited waves rule: plan_loop.induct)
  case (1 es deg ready visited waves)
  show ?case
  proof (cases "ready = []")
    case True
    with "1.prems" show ?thesis by (auto simp: plan_loop.simps [of es deg "[]"])
  next
    case False
    let ?r = "release_wave es ready deg"
    have "\<exists>deg'. plan_inv jobs es deg' []
        (fst (plan_loop es (fst ?r) (sort_strings (snd ?r)) (fold List.insert ready visited) (waves @ [ready])))
        (snd (plan_loop es (fst ?r) (sort_strings (snd ?r)) (fold List.insert ready visited) (waves @ [ready]))) \<and>
        (\<forall>w \<in> set (snd (plan_loop es (fst ?r) (sort_strings (snd ?r))
          (fold List.insert ready visited) (waves @ [ready]))). w \<noteq> [] \<and> sorted w)"
      by (rule "1.IH" [OF False refl plan_inv_step [OF "1.prems"(1,2) refl] "1.prems"(2)])
         (use False "1.prems" in auto)
    with False show ?thesis by (simp add: plan_loop.simps [of es deg ready] Let_def)
  qed
qed

lemma init_indegree_eq: "init_indegree es t = int (unmet es {} t)"
proof -
  have "fold (\<lambda>e d. d(snd e := d (snd e) + 1)) es d t = d t + int (unmet es {} t)" for d :: indegrees
    by (induction es arbitrary: d) (auto simp: unmet_def)
  then show ?thesis by (simp add: init_indegree_def)
qed

lemma plan_inv_init:
  "distinct jobs \<Longrightarrow>
   plan_inv jobs es (init_indegree es) (sort_strings (filter (\<lambda>j. init_indegree es j = 0) jobs)) [] []"
  by (auto simp: plan_inv_def init_indegree_eq unmet_0 releasable_def layered_def)

text \<open>A loop that stopped with unvisited jobs has met a cycle.\<close>

lemma stuck_cyclic:
  assumes "plan_inv jobs es deg [] visited waves" and "fst ` set es \<subseteq> set jobs"
    and "acyclic (set es)"
  shows "set visited = set jobs"
proof (rule ccontr)
  assume "set visited \<noteq> set jobs"
  moreover have "set visited \<subseteq> set jobs" using assms(1) unfolding plan_inv_def by blast
  ultimately obtain j where j: "j \<in> set jobs - set visited" by blast
  have "wf (set es)" using assms(3) by (intro finite_acyclic_wf) auto
  from wfE_min [OF this j] obtain z where z: "z \<in> set jobs - set visited"
    and min: "\<And>y. (y, z) \<in> set es \<Longrightarrow> y \<notin> set jobs - set visited" by auto
  have "releasable jobs es (set visited) = {}"
    using assms(1) unfolding plan_inv_def by (metis empty_set)
  with z obtain u where "(u, z) \<in> set es" "u \<notin> set visited" by (auto simp: releasable_def)
  with min assms(2) show False by force
qed

lemma layered_acyclic:
  assumes lay: "layered es waves" and dist: "distinct (concat waves)"
    and all: "fst ` set es \<union> snd ` set es \<subseteq> set (concat waves)"
  shows "acyclic (set es)"
proof -
  define rank where "rank v = (LEAST i. i < length waves \<and> v \<in> set (waves ! i))" for v
  have "rank u < rank v" if e: "(u, v) \<in> set es" for u v
  proof -
    have "v \<in> set (concat waves)" using e all by force
    then have "\<exists>i. i < length waves \<and> v \<in> set (waves ! i)" unfolding in_concat_nth .
    then have rv: "rank v < length waves \<and> v \<in> set (waves ! rank v)"
      unfolding rank_def by (rule LeastI_ex)
    with lay e have "u \<in> set (concat (take (rank v) waves))" by (auto simp: layered_def)
    then obtain i where "i < length (take (rank v) waves)" "u \<in> set (take (rank v) waves ! i)"
      unfolding in_concat_nth by blast
    then have "i < rank v" "i < length waves" "u \<in> set (waves ! i)" by auto
    then have "rank u \<le> i" unfolding rank_def [of u] by (intro Least_le) simp
    with \<open>i < rank v\<close> show ?thesis by simp
  qed
  then have "set es \<subseteq> measure rank" by auto
  then show ?thesis by (rule acyclic_subset [OF wf_acyclic [OF wf_measure]])
qed

section \<open>Properties\<close>

definition well_formed_plan_input :: "string list \<Rightarrow> edge list \<Rightarrow> bool" where
  "well_formed_plan_input jobs es \<longleftrightarrow>
     distinct jobs \<and> list_all (\<lambda>e. fst e \<in> set jobs \<and> snd e \<in> set jobs) es"

lemma claim_order_cases:
  assumes wf: "well_formed_plan_input jobs es"
  obtains deg visited waves where "plan_inv jobs es deg [] visited waves"
    and "\<forall>w \<in> set waves. w \<noteq> [] \<and> sorted w"
    and "claim_order jobs es =
      (if set visited = set jobs then Inr waves
       else Inl (sort_strings (filter (\<lambda>j. j \<notin> set visited) jobs)))"
proof -
  let ?r = "plan_loop es (init_indegree es) (sort_strings (filter (\<lambda>j. init_indegree es j = 0) jobs)) [] []"
  have jobs: "distinct jobs" "snd ` set es \<subseteq> set jobs"
    using wf by (auto simp: well_formed_plan_input_def list_all_iff)
  from plan_loop_inv [OF plan_inv_init [OF jobs(1)] jobs(2)] obtain deg
    where inv: "plan_inv jobs es deg [] (fst ?r) (snd ?r)"
      and srt: "\<forall>w \<in> set (snd ?r). w \<noteq> [] \<and> sorted w" by auto
  have "length (fst ?r) = length jobs \<longleftrightarrow> set (fst ?r) = set jobs"
  proof -
    have d: "distinct (fst ?r)" and s: "set (fst ?r) \<subseteq> set jobs" using inv by (auto simp: plan_inv_def)
    have "card (set (fst ?r)) = length (fst ?r)" "card (set jobs) = length jobs"
      using d jobs(1) by (simp_all add: distinct_card)
    with s show ?thesis by (metis List.finite_set card_subset_eq)
  qed
  with inv srt show thesis by (intro that [of deg "fst ?r" "snd ?r"]) (auto simp: claim_order_def Let_def)
qed

lemma claim_order_Inr_iff:
  assumes "well_formed_plan_input jobs es"
  shows "(\<exists>waves. claim_order jobs es = Inr waves) \<longleftrightarrow> acyclic (set es)"
proof -
  have ends: "fst ` set es \<subseteq> set jobs" "snd ` set es \<subseteq> set jobs"
    using assms by (auto simp: well_formed_plan_input_def list_all_iff)
  from claim_order_cases [OF assms] obtain deg visited waves
    where inv: "plan_inv jobs es deg [] visited waves" and res: "claim_order jobs es =
      (if set visited = set jobs then Inr waves
       else Inl (sort_strings (filter (\<lambda>j. j \<notin> set visited) jobs)))" by metis
  have "acyclic (set es)" if "set visited = set jobs"
    by (rule layered_acyclic [of es waves]) (use inv that ends in \<open>auto simp: plan_inv_def\<close>)
  moreover have "set visited = set jobs" if "acyclic (set es)"
    by (rule stuck_cyclic [OF inv ends(1) that])
  ultimately show ?thesis using res by auto
qed

lemma claim_order_layers:
  assumes "well_formed_plan_input jobs es" and "claim_order jobs es = Inr waves"
  shows "distinct (concat waves) \<and> set (concat waves) = set jobs \<and>
    (\<forall>w \<in> set waves. w \<noteq> [] \<and> sorted w) \<and>
    (\<forall>i < length waves. \<forall>v \<in> set (waves ! i). \<forall>u. (u, v) \<in> set es \<longrightarrow>
       u \<in> set (concat (take i waves)))"
proof -
  from claim_order_cases [OF assms(1)] obtain deg visited waves'
    where inv: "plan_inv jobs es deg [] visited waves'" and srt: "\<forall>w \<in> set waves'. w \<noteq> [] \<and> sorted w"
      and res: "claim_order jobs es = (if set visited = set jobs then Inr waves'
       else Inl (sort_strings (filter (\<lambda>j. j \<notin> set visited) jobs)))" by metis
  from res assms(2) have "waves' = waves" and "set visited = set jobs" by (auto split: if_splits)
  with inv srt show ?thesis by (auto simp: plan_inv_def layered_def)
qed

text \<open>The planner accepts a workflow's dependency edges exactly when they have no cycle;
  the wave loop terminates on every input, cyclic ones included.\<close>

theorem claim_order_accepts_acyclic:
  assumes "well_formed_plan_input jobs es"
  shows "(\<exists>waves. claim_order jobs es = Inr waves) \<longleftrightarrow> acyclic (set es)"
  by (rule claim_order_Inr_iff [OF assms])

theorem claim_order_accepts_acyclic_witness:
  "acyclic {(''impl'', ''review''), (''review'', ''ship'')}"
proof -
  have "well_formed_plan_input [''review'', ''ship'', ''impl'']
      [(''impl'', ''review''), (''review'', ''ship'')]" by code_simp
  moreover have "claim_order [''review'', ''ship'', ''impl'']
      [(''impl'', ''review''), (''review'', ''ship'')] = Inr [[''impl''], [''review''], [''ship'']]"
    by code_simp
  ultimately show ?thesis using claim_order_accepts_acyclic
    [of "[''review'', ''ship'', ''impl'']" "[(''impl'', ''review''), (''review'', ''ship'')]"] by simp
qed

text \<open>The claim order lists every job exactly once, in non-empty waves sorted by id, and
  each job's dependencies all lie in strictly earlier waves.\<close>

theorem claim_order_topological:
  assumes "well_formed_plan_input jobs es" and "claim_order jobs es = Inr waves"
  shows "distinct (concat waves) \<and> set (concat waves) = set jobs \<and>
    (\<forall>w \<in> set waves. w \<noteq> [] \<and> sorted w) \<and>
    (\<forall>i < length waves. \<forall>v \<in> set (waves ! i). \<forall>u. (u, v) \<in> set es \<longrightarrow>
       u \<in> set (concat (take i waves)))"
  by (rule claim_order_layers [OF assms])

theorem claim_order_topological_witness:
  "distinct (concat [[''impl''], [''docs'', ''review'']])"
proof -
  have "well_formed_plan_input [''review'', ''docs'', ''impl'']
      [(''impl'', ''review''), (''impl'', ''docs'')]" by code_simp
  moreover have "claim_order [''review'', ''docs'', ''impl'']
      [(''impl'', ''review''), (''impl'', ''docs'')] = Inr [[''impl''], [''docs'', ''review'']]"
    by code_simp
  ultimately show ?thesis by (rule claim_order_topological [THEN conjunct1])
qed

end
