(* ===== verification/WorkflowValidate.thy ===== *)
theory WorkflowValidate
  imports WorkflowPhases PlanWaves
begin

text \<open>
  \<open>Validate\<close> of \<open>go/pkg/workflowauthoring/workflow.go\<close>, composed of the validators in the
  order of the code, and the first half of \<open>Plan\<close> (\<open>plan.go\<close>), which computes the claim order
  of a validated workflow; with what an accepted workflow guarantees.
\<close>

section \<open>The code\<close>

definition missing_fields :: "gomap \<Rightarrow> string list" where
  "missing_fields workflow = filter (\<lambda>key. \<not> mhas workflow key) requiredTopLevel"

definition check_header :: "gomap \<Rightarrow> werror check" where
  "check_header workflow =
     (let missing = missing_fields workflow; schema = stringValue (mget workflow ''schema_version'') in checks
        [fail_if (missing \<noteq> []) (errf (StructureMsg (MissingFields (sort_strings missing)))),
         fail_if (schema \<noteq> SchemaV1 \<and> schema \<noteq> SchemaV11)
           (fieldErr ''schema_version'' (StructureMsg BadSchemaVersion)),
         when_field workflow ''operator_content_neutrality_override_rationale'' (\<lambda>raw.
           fail_if (blank raw)
             (fieldErr ''operator_content_neutrality_override_rationale'' (StructureMsg BadNeutralityRationale)))])"

text \<open>One round of the loop over the jobs: the checks, then the job enters the map.\<close>

definition check_job :: "gomap \<Rightarrow> gomap \<Rightarrow> bool \<Rightarrow> nat \<Rightarrow> string \<Rightarrow> gomap \<Rightarrow> werror check" where
  "check_job roles lanes crossRepo index jobID job =
     with_ok (stringField job ''role_id'') (\<lambda>roleID.
       let laneID = stringValue (mget job ''lane_id'') in checks
         [fail_if (\<not> mhas roles roleID)
            (fieldErr (index_path ''jobs'' index @ ''.role_id'') (StructureMsg (UnknownRole jobID roleID))),
          fail_if (laneID \<noteq> [] \<and> \<not> mhas lanes laneID)
            (fieldErr (index_path ''jobs'' index @ ''.lane_id'') (StructureMsg (UnknownLane jobID laneID))),
          validateJobPaths index jobID job,
          validateReviewerPolicy jobID job crossRepo,
          validateReviewPosture jobID job,
          validatePanelQuorum jobID job,
          validateRequiredReviewPostures jobID job,
          validateSharedResources index jobID job])"

fun read_jobs ::
  "gomap \<Rightarrow> gomap \<Rightarrow> bool \<Rightarrow> nat \<Rightarrow> goval list \<Rightarrow> job_map \<Rightarrow> werror + job_map" where
  "read_jobs roles lanes crossRepo index [] jobMap = Inr jobMap"
| "read_jobs roles lanes crossRepo index (item # items) jobMap =
     (case as_map item of
        None \<Rightarrow> Inl (fieldErr (index_path ''jobs'' index) (StructureMsg JobNotObject))
      | Some job \<Rightarrow> (case stringField job ''id'' of
          Inl err \<Rightarrow> Inl err
        | Inr jobID \<Rightarrow>
            if map_of jobMap jobID \<noteq> None
            then Inl (fieldErr (index_path ''jobs'' index @ ''.id'') (StructureMsg (DuplicateJobId jobID)))
            else (case check_job roles lanes crossRepo index jobID job of
                Some err \<Rightarrow> Inl err
              | None \<Rightarrow> read_jobs roles lanes crossRepo (Suc index) items (jobMap @ [(jobID, job)]))))"

text \<open>The checks across jobs, in the order of the code.\<close>

definition check_relations :: "gomap \<Rightarrow> goval list \<Rightarrow> job_map \<Rightarrow> werror check" where
  "check_relations workflow jobs jobMap = checks
     [validateEdges workflow jobMap,
      validateInterrogationTargets workflow jobMap,
      ValidatePhaseShapes workflow,
      validateCycles workflow jobMap,
      validateArtifactUniqueness jobs,
      validateCycleTargets workflow jobMap,
      validateParallelism jobs,
      validateRequiredPosturesReachable workflow jobMap,
      validateRevisionPolicy workflow jobs]"

definition Validate :: "gomap \<Rightarrow> werror check" where
  "Validate workflow =
     (case check_header workflow of
        Some e \<Rightarrow> Some e
      | None \<Rightarrow>
        with_ok (object workflow ''branch'') (\<lambda>_.
        with_ok (object workflow ''lanes'') (\<lambda>lanes.
        case validateLanes lanes of Some e \<Rightarrow> Some e | None \<Rightarrow>
        with_ok (object workflow ''roles'') (\<lambda>roles.
        with_ok (list_field workflow ''context_docs'') (\<lambda>_.
        with_ok (object workflow ''parallelism'') (\<lambda>_.
        with_ok (list_field workflow ''jobs'') (\<lambda>jobs.
        with_ok (list_field workflow ''edges'') (\<lambda>_.
        with_ok (list_field workflow ''cycles'') (\<lambda>_.
        with_ok (read_jobs roles lanes (mhas workflow ''repositories'') 0 jobs [])
          (\<lambda>jobMap. check_relations workflow jobs jobMap))))))))))"

text \<open>\<open>Plan\<close> up to its cycle check: the claim steps, or the first error.\<close>

definition Plan_order :: "gomap \<Rightarrow> (werror + string list) + string list list" where
  "Plan_order workflow =
     (case Validate workflow of
        Some e \<Rightarrow> Inl (Inl e)
      | None \<Rightarrow> (case WorkflowJobMap workflow of
          Inl e \<Rightarrow> Inl (Inl e)
        | Inr jobs \<Rightarrow> (case EdgeDependencyPairs workflow of
            Inl e \<Rightarrow> Inl (Inl e)
          | Inr edges \<Rightarrow> (case claim_order (map fst jobs) edges of
              Inl remaining \<Rightarrow> Inl (Inr remaining)
            | Inr waves \<Rightarrow> Inr waves))))"

section \<open>What the loop over the jobs establishes\<close>

lemma read_jobs_Inr:
  assumes "read_jobs roles lanes crossRepo index items jobMap = Inr jobMap'" and "distinct (map fst jobMap)"
  shows "(\<exists>js. items = map VMap js \<and> jobMap' = jobMap @ map (\<lambda>j. (job_id j, j)) js \<and>
       (\<forall>j \<in> set js. job_id j \<noteq> [] \<and> mget j ''id'' = VStr (job_id j) \<and>
          (\<exists>i. check_job roles lanes crossRepo i (job_id j) j = None))) \<and>
     distinct (map fst jobMap')"
  using assms
proof (induction items arbitrary: index jobMap)
  case Nil
  then show ?case by simp
next
  case (Cons item items)
  from Cons.prems(1) obtain job jobID where item: "item = VMap job" "mget job ''id'' = VStr jobID" "jobID \<noteq> []"
    and new: "map_of jobMap jobID = None" and ok: "check_job roles lanes crossRepo index jobID job = None"
    and r: "read_jobs roles lanes crossRepo (Suc index) items (jobMap @ [(jobID, job)]) = Inr jobMap'"
    by (auto simp: stringField_Inr split: option.splits sum.splits if_splits)
  have id: "job_id job = jobID" using item(2) by (simp add: job_id_def)
  have "distinct (map fst (jobMap @ [(jobID, job)]))"
    using Cons.prems(2) new by (simp add: map_of_eq_None_iff)
  from Cons.IH [OF r this] obtain js where js: "items = map VMap js"
    "jobMap' = (jobMap @ [(jobID, job)]) @ map (\<lambda>j. (job_id j, j)) js"
    "\<forall>j \<in> set js. job_id j \<noteq> [] \<and> mget j ''id'' = VStr (job_id j) \<and>
       (\<exists>i. check_job roles lanes crossRepo i (job_id j) j = None)"
    and d: "distinct (map fst jobMap')" by blast
  have "item # items = map VMap (job # js)" and "jobMap' = jobMap @ map (\<lambda>j. (job_id j, j)) (job # js)"
    using js(1,2) item(1) id by simp_all
  moreover have "\<forall>j \<in> set (job # js). job_id j \<noteq> [] \<and> mget j ''id'' = VStr (job_id j) \<and>
       (\<exists>i. check_job roles lanes crossRepo i (job_id j) j = None)"
    using js(3) item id ok by auto
  ultimately show ?case using d by (intro conjI exI [of _ "job # js"])
qed

text \<open>The jobs of an accepted workflow, and the facts the checks leave about them.\<close>

definition workflow_jobs :: "gomap \<Rightarrow> gomap list" where
  "workflow_jobs workflow = slice_maps (mget workflow ''jobs'')"

definition job_table :: "gomap \<Rightarrow> job_map" where
  "job_table workflow = map (\<lambda>j. (job_id j, j)) (workflow_jobs workflow)"

lemma map_filter_maps [simp]: "List.map_filter as_map (map VMap js) = js"
  by (induction js) (simp_all add: map_filter_simps)

lemma Validate_parts:
  assumes "Validate workflow = None"
  obtains lanes roles jobs where "mget workflow ''lanes'' = VMap lanes" "validateLanes lanes = None"
    "mget workflow ''roles'' = VMap roles" "anySlice (mget workflow ''jobs'') = jobs"
    "jobs = map VMap (workflow_jobs workflow)"
    "read_jobs roles lanes (mhas workflow ''repositories'') 0 jobs [] = Inr (job_table workflow)"
    "distinct (map job_id (workflow_jobs workflow))"
    "\<forall>j \<in> set (workflow_jobs workflow). job_id j \<noteq> [] \<and> mget j ''id'' = VStr (job_id j) \<and>
       (\<exists>i. check_job roles lanes (mhas workflow ''repositories'') i (job_id j) j = None)"
    "check_relations workflow jobs (job_table workflow) = None"
proof -
  from assms obtain lanes roles jobs jobMap where v: "mget workflow ''lanes'' = VMap lanes"
    "validateLanes lanes = None" "mget workflow ''roles'' = VMap roles" "list_field workflow ''jobs'' = Inr jobs"
    and r: "read_jobs roles lanes (mhas workflow ''repositories'') 0 jobs [] = Inr jobMap"
    and c: "check_relations workflow jobs jobMap = None"
    unfolding Validate_def by (auto simp: with_ok_None object_Inr split: option.splits)
  from read_jobs_Inr [OF r] obtain js where js: "jobs = map VMap js" "jobMap = map (\<lambda>j. (job_id j, j)) js"
    "\<forall>j \<in> set js. job_id j \<noteq> [] \<and> mget j ''id'' = VStr (job_id j) \<and>
       (\<exists>i. check_job roles lanes (mhas workflow ''repositories'') i (job_id j) j = None)"
    and d: "distinct (map fst jobMap)" by auto
  have a: "anySlice (mget workflow ''jobs'') = jobs" by (rule list_field_Inr [OF v(4)])
  then have w: "workflow_jobs workflow = js" by (simp add: workflow_jobs_def slice_maps_def js(1))
  from d have "distinct (map job_id js)" by (simp add: js(2) comp_def)
  with v a r c js w that show thesis by (simp add: job_table_def)
qed

lemma Validate_relations:
  assumes "Validate workflow = None"
  shows "validateEdges workflow (job_table workflow) = None"
    "validateInterrogationTargets workflow (job_table workflow) = None"
    "ValidatePhaseShapes workflow = None"
    "validateCycles workflow (job_table workflow) = None"
    "validateArtifactUniqueness (map VMap (workflow_jobs workflow)) = None"
    "validateCycleTargets workflow (job_table workflow) = None"
    "validateParallelism (map VMap (workflow_jobs workflow)) = None"
    "validateRequiredPosturesReachable workflow (job_table workflow) = None"
    "validateRevisionPolicy workflow (map VMap (workflow_jobs workflow)) = None"
  using Validate_parts [OF assms] unfolding check_relations_def checks_None
  by (metis list.set_intros(1) list.set_intros(2))+

section \<open>What an accepted workflow guarantees\<close>

lemma job_table_map [simp]: "map fst (job_table workflow) = map job_id (workflow_jobs workflow)"
  by (simp add: job_table_def comp_def)

lemma job_table_Some:
  "map_of (job_table workflow) u = Some j \<Longrightarrow> j \<in> set (workflow_jobs workflow) \<and> job_id j = u"
  by (auto simp: job_table_def dest!: map_of_SomeD)

lemma job_table_dom: "map_of (job_table workflow) u \<noteq> None \<longleftrightarrow> u \<in> job_id ` set (workflow_jobs workflow)"
proof -
  have "map_of (job_table workflow) u \<noteq> None \<longleftrightarrow> u \<in> set (map fst (job_table workflow))"
    by (simp only: map_of_eq_None_iff set_map not_not)
  then show ?thesis unfolding job_table_map set_map .
qed

lemma Validate_job_map:
  assumes "Validate workflow = None"
  shows "WorkflowJobMap workflow = Inr (rev (job_table workflow))"
proof -
  from assms have "anySlice (mget workflow ''jobs'') = map VMap (workflow_jobs workflow)"
    by (metis Validate_parts)
  then show ?thesis
    unfolding WorkflowJobMap_def workflow_jobs_def [symmetric]
    by (simp only:) (simp add: job_table_def job_id_def list_all_iff)
qed

lemma Validate_pairs:
  assumes "Validate workflow = None"
  obtains pairs where "EdgeDependencyPairs workflow = Inr pairs"
  using Validate_relations(6) [OF assms] by (auto simp: validateCycleTargets_def with_ok_None)

lemma Validate_distinct: "Validate workflow = None \<Longrightarrow> distinct (map job_id (workflow_jobs workflow))"
  by (metis Validate_parts)

lemma Validate_plan_input:
  assumes "Validate workflow = None" and "nul_free (raw_edges workflow)"
    and "EdgeDependencyPairs workflow = Inr pairs"
  shows "well_formed_plan_input (map fst (rev (job_table workflow))) pairs"
proof -
  have "distinct (map fst (rev (job_table workflow)))"
    using Validate_distinct [OF assms(1)] by (simp add: rev_map [symmetric])
  moreover have "u \<in> set (map fst (rev (job_table workflow))) \<and> v \<in> set (map fst (rev (job_table workflow)))"
    if "(u, v) \<in> set pairs" for u v
  proof -
    from that EdgeDependencyPairs_raw [OF assms(3,2)] have "(u, v) \<in> set (raw_edges workflow)" by simp
    from validateEdges_known [OF Validate_relations(1) [OF assms(1)] this] job_table_dom
    have "u \<in> job_id ` set (workflow_jobs workflow)" "v \<in> job_id ` set (workflow_jobs workflow)" by blast+
    then show ?thesis by (simp add: rev_map [symmetric])
  qed
  ultimately show ?thesis by (auto simp: well_formed_plan_input_def list_all_iff)
qed

lemma Plan_order_eq:
  assumes "Validate workflow = None" and "EdgeDependencyPairs workflow = Inr pairs"
  shows "Plan_order workflow = (case claim_order (map fst (rev (job_table workflow))) pairs of
     Inl remaining \<Rightarrow> Inl (Inr remaining) | Inr waves \<Rightarrow> Inr waves)"
  by (simp add: Plan_order_def assms Validate_job_map [OF assms(1)])

lemma Plan_order_valid: "Plan_order workflow = Inr waves \<Longrightarrow> Validate workflow = None"
  by (auto simp: Plan_order_def split: option.splits)

lemma artifact_claim:
  assumes "a \<in> set js" and "p \<in> set (artifact_paths a)"
  shows "(normalizeRepoPath p, job_id a) \<in> set (artifact_claims (map VMap js))"
  using assms unfolding artifact_claims_def map_filter_maps job_id_def by fastforce

section \<open>Properties\<close>

text \<open>An accepted workflow's jobs have pairwise distinct, non-empty ids, and each names a role
  and, if it names a lane, a lane that the workflow declares.\<close>

theorem Validate_jobs_well_formed:
  assumes "Validate workflow = None"
  shows "distinct (map job_id (workflow_jobs workflow)) \<and>
    (\<forall>j \<in> set (workflow_jobs workflow). job_id j \<noteq> [] \<and>
       mhas (map_or_empty (mget workflow ''roles'')) (stringValue (mget j ''role_id'')) \<and>
       (stringValue (mget j ''lane_id'') \<noteq> [] \<longrightarrow>
          mhas (map_or_empty (mget workflow ''lanes'')) (stringValue (mget j ''lane_id''))))"
proof -
  from assms obtain lanes roles where p: "mget workflow ''lanes'' = VMap lanes" "mget workflow ''roles'' = VMap roles"
    "distinct (map job_id (workflow_jobs workflow))"
    "\<forall>j \<in> set (workflow_jobs workflow). job_id j \<noteq> [] \<and> mget j ''id'' = VStr (job_id j) \<and>
       (\<exists>i. check_job roles lanes (mhas workflow ''repositories'') i (job_id j) j = None)"
    by (metis Validate_parts)
  have "mhas roles (stringValue (mget j ''role_id'')) \<and>
      (stringValue (mget j ''lane_id'') \<noteq> [] \<longrightarrow> mhas lanes (stringValue (mget j ''lane_id'')))"
    if c: "check_job roles lanes r i jobID j = None" for r i jobID j
  proof -
    from c obtain roleID where "mget j ''role_id'' = VStr roleID" "mhas roles roleID"
      "stringValue (mget j ''lane_id'') \<noteq> [] \<longrightarrow> mhas lanes (stringValue (mget j ''lane_id''))"
      unfolding check_job_def with_ok_None stringField_Inr by (auto simp: Let_def)
    then show ?thesis by simp
  qed
  with p show ?thesis by (fastforce simp: map_or_empty_def)
qed

text \<open>Edges and \<open>needs\<close> agree. Every edge of an accepted workflow joins two of its jobs, and,
  for ids without a NUL character, a job that lists \<open>needs\<close> lists exactly the sources of its
  incoming edges.\<close>

theorem Validate_edges_agree:
  assumes "Validate workflow = None"
  shows "(\<forall>(u, v) \<in> set (raw_edges workflow).
       u \<in> job_id ` set (workflow_jobs workflow) \<and> v \<in> job_id ` set (workflow_jobs workflow)) \<and>
    (\<forall>j needs. nul_free (raw_edges workflow) \<and> j \<in> set (workflow_jobs workflow) \<and>
       map_of j ''needs'' = Some needs \<longrightarrow>
       set (stringsFromSlice needs) = {u. (u, job_id j) \<in> set (raw_edges workflow)})"
proof (intro conjI allI impI)
  note ve = Validate_relations(1) [OF assms]
  show "\<forall>(u, v) \<in> set (raw_edges workflow).
      u \<in> job_id ` set (workflow_jobs workflow) \<and> v \<in> job_id ` set (workflow_jobs workflow)"
    using validateEdges_known [OF ve] job_table_dom by blast
  fix j needs
  assume a: "nul_free (raw_edges workflow) \<and> j \<in> set (workflow_jobs workflow) \<and> map_of j ''needs'' = Some needs"
  then have "(job_id j, j) \<in> set (job_table workflow)" by (auto simp: job_table_def)
  with validateEdges_needs [OF ve] a
  show "set (stringsFromSlice needs) = {u. (u, job_id j) \<in> set (raw_edges workflow)}" by blast
qed

text \<open>Revision cycles feed back. Every cycle of an accepted workflow joins two of its jobs, is
  bounded by a positive iteration count, and its target reaches its source along the edges, so
  that the cycle closes a loop.\<close>

theorem Validate_cycles_feed_back:
  assumes "Validate workflow = None" and "nul_free (raw_edges workflow)"
    and "VMap cycle \<in> set (anySlice (mget workflow ''cycles''))"
  shows "stringValue (mget cycle ''from'') \<in> job_id ` set (workflow_jobs workflow) \<and>
    stringValue (mget cycle ''to'') \<in> job_id ` set (workflow_jobs workflow) \<and>
    positiveWholeNumber (mget cycle ''max_iterations'') \<and>
    (stringValue (mget cycle ''to''), stringValue (mget cycle ''to'')) \<in>
      (set ((stringValue (mget cycle ''from''), stringValue (mget cycle ''to'')) # raw_edges workflow))\<^sup>+"
proof -
  note vc = validateCycles_cycle [OF Validate_relations(4) [OF assms(1)] assms(3)]
  from validateCycleTargets_path [OF Validate_relations(4,6) [OF assms(1)] assms(2,3)]
  have "hasPath (raw_edges workflow) (stringValue (mget cycle ''to'')) (stringValue (mget cycle ''from''))"
    by (simp add: hasPath_iff)
  from path_test.feedback_loop [OF this] vc show ?thesis by (simp only: job_table_dom [symmetric]) simp
qed

text \<open>Interrogation goes upstream. Every job an accepted workflow lets another job interrogate
  is a declared, interrogable job strictly upstream of it, listed once; and nobody both
  interrogates and is interrogable.\<close>

theorem Validate_interrogation:
  assumes "Validate workflow = None" and "nul_free (raw_edges workflow)"
    and "j \<in> set (workflow_jobs workflow)" and "mhas j ''interrogation_targets''"
  shows "distinct (target_ids j) \<and> target_ids j \<noteq> [] \<and> mget j ''interrogable'' \<noteq> VBool True \<and>
    (\<forall>t \<in> set (target_ids j). (t, job_id j) \<in> (set (raw_edges workflow))\<^sup>+ \<and>
       (\<exists>tj \<in> set (workflow_jobs workflow). job_id tj = t \<and> mget tj ''interrogable'' = VBool True))"
proof -
  from assms(3) have "(job_id j, j) \<in> set (job_table workflow)" by (auto simp: job_table_def)
  note vi = validateInterrogationTargets_job [OF Validate_relations(2) [OF assms(1)] this assms(4,2)]
  from vi job_table_Some show ?thesis by meson
qed

text \<open>One owner per artifact. Two jobs of an accepted workflow that declare artifacts at the
  same normalised path (other than the repository root) are the same job.\<close>

theorem Validate_artifact_owner:
  assumes "Validate workflow = None"
    and "a \<in> set (workflow_jobs workflow)" and "p \<in> set (artifact_paths a)"
    and "b \<in> set (workflow_jobs workflow)" and "q \<in> set (artifact_paths b)"
    and "normalizeRepoPath p = normalizeRepoPath q" and "normalizeRepoPath p \<noteq> []"
  shows "job_id a = job_id b"
proof -
  let ?claims = "artifact_claims (map VMap (workflow_jobs workflow))"
  have "(normalizeRepoPath p, job_id a) \<in> set ?claims" "(normalizeRepoPath p, job_id b) \<in> set ?claims"
    using artifact_claim [OF assms(2,3)] artifact_claim [OF assms(4,5)] unfolding assms(6) .
  from unique_loop_owner [OF Validate_relations(5) [OF assms(1), unfolded validateArtifactUniqueness_def]
      assms(7) this]
  show ?thesis .
qed

text \<open>C1: parallel writers do not meet. In an accepted workflow the jobs of a parallel group all
  write the repository or all do not, and no path lies inside the write scopes of two of the
  writing jobs, scopes at the repository root excepted.\<close>

theorem Validate_parallel_groups:
  assumes "Validate workflow = None" and "grp \<noteq> []"
    and "grp \<in> set (map job_group (workflow_jobs workflow))"
  shows "sorted_wrt disjoint_scopes
      (filter repo_write (filter (\<lambda>j. job_group j = grp) (workflow_jobs workflow))) \<and>
    (\<exists>v. \<forall>j \<in> set (workflow_jobs workflow). job_group j = grp \<longrightarrow> repo_write j = v)"
proof -
  have "grp \<in> set (map job_group (List.map_filter as_map (map VMap (workflow_jobs workflow))))"
    unfolding map_filter_maps by (rule assms(3))
  from validateParallelism_group [OF Validate_relations(7) [OF assms(1)] assms(2) this]
  obtain v where "\<forall>j. VMap j \<in> set (map VMap (workflow_jobs workflow)) \<and> job_group j = grp \<longrightarrow> repo_write j = v"
    by blast
  then have "\<forall>j \<in> set (workflow_jobs workflow). job_group j = grp \<longrightarrow> repo_write j = v"
    unfolding set_map by blast
  with validateParallelism_group [OF Validate_relations(7) [OF assms(1)] assms(2)] \<open>grp \<in> set (map job_group
      (List.map_filter as_map (map VMap (workflow_jobs workflow))))\<close>
  show ?thesis unfolding map_filter_maps by blast
qed

text \<open>Required reviews can happen. For every posture a build job of an accepted workflow
  requires there is a review job of that posture (\<open>neutral\<close> when it declares none) upstream
  or downstream of it.\<close>

theorem Validate_postures_reachable:
  assumes "Validate workflow = None" and "b \<in> set (workflow_jobs workflow)" and "job_type b = ''build''"
    and "p \<in> set (stringsFromSlice (mget b ''required_review_postures''))"
  shows "\<exists>r \<in> set (workflow_jobs workflow). job_type r = ''review'' \<and>
    defaultString (mget r ''review_posture'') ''neutral'' = p \<and>
    ((job_id b, job_id r) \<in> (set (raw_edges workflow))\<^sup>+ \<or> (job_id r, job_id b) \<in> (set (raw_edges workflow))\<^sup>+)"
proof -
  from assms(2) have "(job_id b, b) \<in> set (job_table workflow)" by (auto simp: job_table_def)
  with Validate_relations(8) [OF assms(1)] assms(3,4)
  have "p \<in> set (available_postures workflow (job_table workflow) (job_id b))"
    by (auto simp: validateRequiredPosturesReachable_def Let_def)
  then obtain u where "u \<in> set (reachableJobs workflow (job_id b))"
    and "(case map_of (job_table workflow) u of None \<Rightarrow> None
       | Some c \<Rightarrow> if job_type c \<noteq> ''review'' then None
          else Some (defaultString (mget c ''review_posture'') ''neutral'')) = Some p"
    unfolding available_postures_def in_map_filter by blast
  then show ?thesis
    using job_table_Some [of workflow u]
    by (auto simp: reachableJobs_def reachable_pairs_iff split: option.splits if_splits)
qed

text \<open>C2: planning an accepted workflow. With ids free of NUL characters, \<open>Plan\<close> gives a claim
  order exactly when the edges have no cycle, and then every job is in exactly one wave and
  every edge leads from an earlier to a later wave.\<close>

theorem Plan_order_correct:
  assumes "Validate workflow = None" and "nul_free (raw_edges workflow)"
  shows "((\<exists>waves. Plan_order workflow = Inr waves) \<longleftrightarrow> acyclic (set (raw_edges workflow))) \<and>
    (\<forall>waves. Plan_order workflow = Inr waves \<longrightarrow>
       distinct (concat waves) \<and> set (concat waves) = job_id ` set (workflow_jobs workflow) \<and>
       (\<forall>i < length waves. \<forall>v \<in> set (waves ! i). \<forall>u. (u, v) \<in> set (raw_edges workflow) \<longrightarrow>
          u \<in> set (concat (take i waves))))"
proof -
  from Validate_pairs [OF assms(1)] obtain pairs where p: "EdgeDependencyPairs workflow = Inr pairs" .
  note raw = EdgeDependencyPairs_raw [OF p assms(2)] and wf = Validate_plan_input [OF assms p]
  have jobs: "set (map fst (rev (job_table workflow))) = job_id ` set (workflow_jobs workflow)"
    by (simp add: rev_map [symmetric])
  have eq: "Plan_order workflow = Inr waves \<longleftrightarrow>
      claim_order (map fst (rev (job_table workflow))) pairs = Inr waves" for waves
    by (simp add: Plan_order_eq [OF assms(1) p] split: sum.split)
  show ?thesis
    unfolding eq using claim_order_Inr_iff [OF wf] claim_order_layers [OF wf] unfolding raw jobs by blast
qed

section \<open>Concrete workflows\<close>

definition wf_job :: "string \<Rightarrow> string \<Rightarrow> gomap \<Rightarrow> goval" where
  "wf_job i t fs = VMap ([(''id'', VStr i), (''type'', VStr t), (''role_id'', VStr ''dev'')] @ fs)"

definition wf_base :: "goval list \<Rightarrow> goval list \<Rightarrow> goval list \<Rightarrow> gomap" where
  "wf_base jobs edges cycles =
     [(''schema_version'', VStr SchemaV1), (''workflow_id'', VStr ''w''), (''workflow_version'', VStr ''1''),
      (''name'', VStr ''w''), (''branch'', VMap []), (''coordinator'', VMap []),
      (''lanes'', VMap [(''l'', VMap [])]), (''roles'', VMap [(''dev'', VMap [])]), (''context_docs'', VList []),
      (''parallelism'', VMap []), (''jobs'', VList jobs), (''edges'', VList edges), (''cycles'', VList cycles)]"

definition wf_writes :: "string \<Rightarrow> string \<Rightarrow> gomap" where
  "wf_writes grp path =
     [(''parallel_group'', VStr grp), (''write_scope'',
        VMap [(''repo_write'', VBool True), (''allowed_paths'', VList [VStr path])])]"

definition ex_wf :: gomap where
  "ex_wf = wf_base
     [wf_job ''build'' ''build'' (wf_writes ''g'' ''src/a'' @
        [(''required_review_postures'', VList [VStr ''security'']), (''interrogable'', VBool True),
         (''expected_artifacts'', VList [VMap [(''path'', VStr ''src/a/x''), (''kind'', VStr ''handoff'')]])]),
      wf_job ''docs'' ''generic'' (wf_writes ''g'' ''docs''),
      wf_job ''review'' ''review'' [(''review_posture'', VStr ''security''), (''needs'', VList [VStr ''build'']),
        (''interrogation_targets'', VList [VMap [(''workflow_job_id'', VStr ''build'')]])]]
     [ex_edge ''build'' ''review'']
     [VMap [(''from'', VStr ''review''), (''to'', VStr ''build''), (''on_verdict'', VStr ''needs_revision''),
        (''max_iterations'', VNumber ''2'')]]"

lemma ex_wf_ok: "Validate ex_wf = None"
  by code_simp

lemma ex_wf_nul: "nul_free (raw_edges ex_wf)"
  by code_simp

theorem Validate_jobs_well_formed_witness:
  "distinct (map job_id (workflow_jobs ex_wf)) \<and> map job_id (workflow_jobs ex_wf) = [''build'', ''docs'', ''review'']"
proof
  show "map job_id (workflow_jobs ex_wf) = [''build'', ''docs'', ''review'']" by code_simp
qed (rule conjunct1 [OF Validate_jobs_well_formed [OF ex_wf_ok]])

definition ex_review :: gomap where "ex_review = workflow_jobs ex_wf ! 2"
definition ex_build :: gomap where "ex_build = workflow_jobs ex_wf ! 0"
definition ex_cycle :: gomap where "ex_cycle = slice_maps (mget ex_wf ''cycles'') ! 0"

lemma ex_members: "ex_review \<in> set (workflow_jobs ex_wf)" "ex_build \<in> set (workflow_jobs ex_wf)"
  "VMap ex_cycle \<in> set (anySlice (mget ex_wf ''cycles''))"
proof -
  have "length (workflow_jobs ex_wf) = 3" "length (slice_maps (mget ex_wf ''cycles'')) = 1" by code_simp+
  then show "ex_review \<in> set (workflow_jobs ex_wf)" "ex_build \<in> set (workflow_jobs ex_wf)"
    "VMap ex_cycle \<in> set (anySlice (mget ex_wf ''cycles''))"
    unfolding ex_review_def ex_build_def ex_cycle_def in_slice_maps [symmetric]
    by (simp_all del: in_slice_maps)
qed

theorem Validate_edges_agree_witness:
  "set (stringsFromSlice (mget ex_review ''needs'')) = {u. (u, ''review'') \<in> set (raw_edges ex_wf)}"
proof -
  have "map_of ex_review ''needs'' = Some (mget ex_review ''needs'')" "job_id ex_review = ''review''" by code_simp+
  with conjunct2 [OF Validate_edges_agree [OF ex_wf_ok]] ex_wf_nul ex_members(1) show ?thesis by metis
qed

theorem Validate_cycles_feed_back_witness:
  "(stringValue (mget ex_cycle ''to''), stringValue (mget ex_cycle ''to'')) \<in>
     (set ((stringValue (mget ex_cycle ''from''), stringValue (mget ex_cycle ''to'')) # raw_edges ex_wf))\<^sup>+"
  using Validate_cycles_feed_back [OF ex_wf_ok ex_wf_nul ex_members(3)] by blast

theorem Validate_interrogation_witness:
  "target_ids ex_review = [''build''] \<and> (''build'', job_id ex_review) \<in> (set (raw_edges ex_wf))\<^sup>+ \<and>
   mget ex_review ''interrogable'' \<noteq> VBool True"
proof -
  have ids: "target_ids ex_review = [''build'']" by code_simp
  have "mhas ex_review ''interrogation_targets''" by code_simp
  from Validate_interrogation [OF ex_wf_ok ex_wf_nul ex_members(1) this] show ?thesis
    by (simp add: ids)
qed

theorem Validate_artifact_owner_witness:
  "job_id ex_build = job_id ex_build \<and> artifact_paths ex_build = [''src/a/x'']"
proof
  have a: "artifact_paths ex_build = [''src/a/x'']" by code_simp
  then show "artifact_paths ex_build = [''src/a/x'']" .
  have "''src/a/x'' \<in> set (artifact_paths ex_build)" by (simp add: a)
  moreover have "normalizeRepoPath ''src/a/x'' \<noteq> []" by code_simp
  ultimately show "job_id ex_build = job_id ex_build"
    using Validate_artifact_owner [OF ex_wf_ok ex_members(2) _ ex_members(2) _ refl] by blast
qed

theorem Validate_parallel_groups_witness:
  "map job_id (filter repo_write (filter (\<lambda>j. job_group j = ''g'') (workflow_jobs ex_wf))) = [''build'', ''docs''] \<and>
   sorted_wrt disjoint_scopes (filter repo_write (filter (\<lambda>j. job_group j = ''g'') (workflow_jobs ex_wf)))"
proof
  show "map job_id (filter repo_write (filter (\<lambda>j. job_group j = ''g'') (workflow_jobs ex_wf))) = [''build'', ''docs'']"
    by code_simp
  have "map job_group (workflow_jobs ex_wf) = [''g'', ''g'', []]" by code_simp
  then have "''g'' \<in> set (map job_group (workflow_jobs ex_wf))" by simp
  from conjunct1 [OF Validate_parallel_groups [OF ex_wf_ok _ this]]
  show "sorted_wrt disjoint_scopes (filter repo_write (filter (\<lambda>j. job_group j = ''g'') (workflow_jobs ex_wf)))"
    by simp
qed

theorem Validate_postures_reachable_witness:
  "\<exists>r \<in> set (workflow_jobs ex_wf). job_type r = ''review'' \<and>
     defaultString (mget r ''review_posture'') ''neutral'' = ''security''"
proof -
  have "job_type ex_build = ''build''" by code_simp
  moreover have "stringsFromSlice (mget ex_build ''required_review_postures'') = [''security'']" by code_simp
  then have "''security'' \<in> set (stringsFromSlice (mget ex_build ''required_review_postures''))" by simp
  ultimately show ?thesis using Validate_postures_reachable [OF ex_wf_ok ex_members(2)] by blast
qed

theorem Plan_order_correct_witness:
  "acyclic (set (raw_edges ex_wf)) \<and> Plan_order ex_wf = Inr [[''build'', ''docs''], [''review'']]"
proof -
  have "Plan_order ex_wf = Inr [[''build'', ''docs''], [''review'']]" by code_simp
  with Plan_order_correct [OF ex_wf_ok ex_wf_nul] show ?thesis by blast
qed

section \<open>Two gaps\<close>

text \<open>\<open>Validate\<close> does not look for dependency cycles among the edges: two jobs that wait for
  each other are accepted, and only \<open>Plan\<close> reports that neither can ever be claimed.\<close>

theorem Validate_accepts_deadlock:
  "let w = wf_base [wf_job ''a'' ''generic'' [], wf_job ''b'' ''generic'' []]
       [ex_edge ''a'' ''b'', ex_edge ''b'' ''a''] [] in
   Validate w = None \<and> Plan_order w = Inl (Inr [''a'', ''b''])"
  by code_simp

text \<open>The overlap check of parallel groups skips write scopes that normalise to the empty path.
  A job that may write the whole repository (\<open>./\<close>, the very prefix the glob error suggests for
  \<open>*\<close>) is accepted in parallel with a job that writes \<open>docs\<close>, although \<open>docs/x\<close> lies in both
  scopes; the same two jobs with \<open>docs\<close> and \<open>docs/sub\<close> are rejected.\<close>

theorem parallel_root_scope_overlaps:
  "Validate (wf_base [wf_job ''a'' ''generic'' (wf_writes ''g'' ''./''), wf_job ''b'' ''generic'' (wf_writes ''g'' ''docs'')] [] [])
     = None \<and>
   repoPathWithin ''docs/x'' ''./'' \<and> repoPathWithin ''docs/x'' ''docs'' \<and> globPrefixSuggestion ''*'' = ''./'' \<and>
   Validate (wf_base [wf_job ''a'' ''generic'' (wf_writes ''g'' ''docs''), wf_job ''b'' ''generic'' (wf_writes ''g'' ''docs/sub'')] [] [])
     = Some (errf (GroupMsg (GroupOverlap ''g'')))"
  by code_simp

end
