(* ===== verification/WorkReviewRows.thy ===== *)
theory WorkReviewRows
  imports WorkReach
begin

text \<open>
  Which calls write the verdicts and the routings of revision cycles: all others leave them alone,
  and no call changes the workflow of a run.
\<close>

named_theorems review_rows "operations that leave the verdicts, the routings and the workflows alone"

definition review_of :: "wq \<Rightarrow> qverdict list \<times> wrouted list \<times> (string \<times> gomap) list" where
  "review_of s = (w_verdicts s, w_routed s, w_workflows s)"

section \<open>Tables\<close>

lemma review_of_tables [simp]:
  "review_of (set_job k f s) = review_of s" "review_of (set_leases p g s) = review_of s" "review_of (set_run k h s) = review_of s"
  "review_of (s\<lparr>w_blockers := bs\<rparr>) = review_of s" "review_of (s\<lparr>w_sessions := xs\<rparr>) = review_of s"
  "review_of (s\<lparr>w_jobs := js\<rparr>) = review_of s" "review_of (s\<lparr>w_dissents := ds\<rparr>) = review_of s"
  "review_of (s\<lparr>w_packets := ps\<rparr>) = review_of s" "review_of (s\<lparr>w_msgs := ms\<rparr>) = review_of s" "review_of (s\<lparr>w_leases := ls\<rparr>) = review_of s"
  by (simp_all add: review_of_def set_job_def set_leases_def set_run_def)

lemma review_of_pure [simp]:
  "review_of (close_remaining_sessions k s) = review_of s" "review_of (resolve_blockers b k s) = review_of s"
  "review_of (release_run_leases k s) = review_of s" "review_of (bumpReviewGeneration e k s) = review_of s"
  "review_of (recordDissent j v s) = review_of s" "review_of (close_blockers p s) = review_of s"
  "review_of (operator_transfer k s) = review_of s"
  by (simp_all add: close_remaining_sessions_def resolve_blockers_def release_run_leases_def bumpReviewGeneration_def
      recordDissent_def close_blockers_def operator_transfer_def)

lemma review_of_escalate [simp]: "review_of (escalate_provenance e k s) = review_of s"
  by (simp add: escalate_provenance_def Let_def)

lemma review_of_guard [simp]: "review_of (openAdvisoryGuardBlocker e run g kind s) = review_of s"
  by (simp add: openAdvisoryGuardBlocker_def)

lemma review_of_session [simp]: "review_of (snd (resolveOverrideSession e s sid k)) = review_of s"
  by (simp add: resolveOverrideSession_def Let_def split: option.splits)

lemma review_of_stores [review_rows]:
  "store_msgs ms s = Inr s' \<Longrightarrow> review_of s' = review_of s" "store_leases ls s = Inr s' \<Longrightarrow> review_of s' = review_of s"
  "set_msgs p f s = Inr s' \<Longrightarrow> review_of s' = review_of s" "store_packet q s = Inr s' \<Longrightarrow> review_of s' = review_of s"
  "record_activity e sid cols s = Inr s' \<Longrightarrow> review_of s' = review_of s"
  by (auto simp: store_msgs_def store_leases_def set_msgs_def store_packet_def record_activity_def Let_def
      split: if_splits sum.splits)

section \<open>Operations\<close>

lemma review_of_enqueue [review_rows]:
  "enqueueJob e k s = Inr s' \<Longrightarrow> review_of s' = review_of s"
  "insertPendingMessageForJob e j s = Inr s' \<Longrightarrow> review_of s' = review_of s"
  by (auto simp: enqueueJob_def insertPendingMessageForJob_def check_simps dest!: review_rows)

lemma review_of_ready: "enqueue_if_ready e k s = Inr s' \<Longrightarrow> review_of s' = review_of s"
  by (auto simp: enqueue_if_ready_def check_simps dest!: review_rows split: if_splits option.splits bool.splits)

lemma review_of_enqueue_each [review_rows]: "enqueue_each e ks s = Inr s' \<Longrightarrow> review_of s' = review_of s"
  by (induction e ks s rule: enqueue_each.induct) (auto simp: check_simps dest!: review_of_ready)

lemma review_of_downstream [review_rows]:
  "enqueueReadyBlockedJobs e run s = Inr s' \<Longrightarrow> review_of s' = review_of s"
  "maybeEnqueueDownstream e k s = Inr s' \<Longrightarrow> review_of s' = review_of s"
  by (auto simp: enqueueReadyBlockedJobs_def maybeEnqueueDownstream_def check_simps dest!: review_rows)

lemma review_of_expire: "expire_lease e l s = Inr s' \<Longrightarrow> review_of s' = review_of s"
  by (auto simp: expire_lease_def Let_def dest!: review_rows split: option.splits)

lemma review_of_expire_each: "expire_each e ls s = Inr s' \<Longrightarrow> review_of s' = review_of s"
  by (induction e ls s rule: expire_each.induct) (auto simp: check_simps dest!: review_of_expire)

lemma review_of_expireLeases [review_rows]: "expireLeases e run s = Inr s' \<Longrightarrow> review_of s' = review_of s"
  by (simp add: expireLeases_def review_of_expire_each)

lemma review_of_requeue [review_rows]: "requeueJobSameAttempt e j s = Inr (b, s') \<Longrightarrow> review_of s' = review_of s"
  by (auto simp: requeueJobSameAttempt_def Let_def check_simps dest!: review_rows split: option.splits if_splits)

lemma review_of_reset [review_rows]: "resetJobToBlocked why k s = Inr s' \<Longrightarrow> review_of s' = review_of s"
  by (auto simp: resetJobToBlocked_def Let_def check_simps dest!: review_rows)

lemma review_of_reset_each [review_rows]: "reset_each ks s = Inr s' \<Longrightarrow> review_of s' = review_of s"
  by (induction ks s rule: reset_each.induct) (auto simp: check_simps dest!: review_of_reset)

lemma review_of_reopen [review_rows]: "reopenJobForAttempt e k why s = Inr s' \<Longrightarrow> review_of s' = review_of s"
  by (auto simp: reopenJobForAttempt_def check_simps dest!: review_rows)

lemma review_of_complete [review_rows]:
  "maybeCompleteRun e run s = Inr s' \<Longrightarrow> review_of s' = review_of s"
  "resolveAutonomousBlockersOnCompletion run k s = Inr s' \<Longrightarrow> review_of s' = review_of s"
  by (auto simp: maybeCompleteRun_def resolveAutonomousBlockersOnCompletion_def check_simps Let_def split: if_splits)

lemma review_of_settle [review_rows]: "settle_rows jst mst why j lid s = Inr s' \<Longrightarrow> review_of s' = review_of s"
  by (auto simp: settle_rows_def Let_def check_simps dest!: review_rows split: option.splits)

lemma review_of_finish [review_rows]: "enqueue_and_finish e j s = Inr s' \<Longrightarrow> review_of s' = review_of s"
  by (auto simp: enqueue_and_finish_def check_simps dest!: review_rows)

lemma review_of_end_waiting [review_rows]: "end_waiting f mst j s = Inr s' \<Longrightarrow> review_of s' = review_of s"
  by (auto simp: end_waiting_def Let_def dest!: review_rows split: option.splits)

lemma review_of_guards [review_rows]: "guard_gates e run gs s = Inr s' \<Longrightarrow> review_of s' = review_of s"
  by (induction e run gs s rule: guard_gates.induct) (auto simp: check_simps Let_def)

lemma review_of_verdict_parts [review_rows]:
  "applyAdvisoryGuards e k s = Inr s' \<Longrightarrow> review_of s' = review_of s" "completeReviewJob e j lid s = Inr s' \<Longrightarrow> review_of s' = review_of s"
  "failReviewJob j lid s = Inr s' \<Longrightarrow> review_of s' = review_of s" "openHumanCheckpoint e sid j lid s = Inr s' \<Longrightarrow> review_of s' = review_of s"
  "ackInline e sid mid lid s = Inr s' \<Longrightarrow> review_of s' = review_of s"
  by (auto simp: applyAdvisoryGuards_def completeReviewJob_def failReviewJob_def openHumanCheckpoint_def ackInline_def
      check_simps dest!: review_rows split: if_splits)

section \<open>Handlers\<close>

lemma review_of_claim: "HandleClaimNext e sid n s = Inr (r, s') \<Longrightarrow> review_of s' = review_of s"
  by (auto simp: HandleClaimNext_def claimChosenJob_def Let_def check_simps dest!: review_rows split: if_splits list.splits)

lemma review_of_work:
  "HandleAckWork e sid mid lid s = Inr s' \<Longrightarrow> review_of s' = review_of s"
  "HandleHeartbeat e sid lid n w s = Inr s' \<Longrightarrow> review_of s' = review_of s"
  "HandleReleaseWork e sid mid lid why q t s = Inr s' \<Longrightarrow> review_of s' = review_of s"
  "HandleBlockWork e b s = Inr s' \<Longrightarrow> review_of s' = review_of s"
  "HandleCompleteWork e sid k lid s = Inr s' \<Longrightarrow> review_of s' = review_of s"
  by (auto simp: HandleAckWork_def HandleHeartbeat_def HandleReleaseWork_def HandleBlockWork_def HandleCompleteWork_def
      complete_rows_def Let_def check_simps dest!: review_rows split: if_splits option.splits)

lemma review_of_admin:
  "HandleCloseSession e sid why q s = Inr s' \<Longrightarrow> review_of s' = review_of s" "cancelRunInTx run s = Inr s' \<Longrightarrow> review_of s' = review_of s"
  "HandleRunRetryJob e run k allow s = Inr s' \<Longrightarrow> review_of s' = review_of s"
  "HandleRecoveryRequeueStale e run k force why s = Inr s' \<Longrightarrow> review_of s' = review_of s"
  "sweep_requeue e k s = Inr s' \<Longrightarrow> review_of s' = review_of s"
  by (auto simp: HandleCloseSession_def cancelRunInTx_def HandleRunRetryJob_def HandleRecoveryRequeueStale_def sweep_requeue_def
      Let_def check_simps dest!: review_rows split: if_splits option.splits)

end
