(* ===== verification/WorkLife.thy ===== *)
theory WorkLife
  imports WorkReach
begin

text \<open>
  The lifecycle of a job as a state machine of its own: the state of the job and who holds it until
  when, and the moves each call may make. The queue refines it: what a handler does to the job,
  lease and message tables is, for every job, a sequence of such moves.
\<close>

section \<open>The abstract job\<close>

type_synonym job_life = "job_state \<times> (string \<times> instant) option"

definition holder_of :: "wq \<Rightarrow> string \<Rightarrow> (string \<times> instant) option" where
  "holder_of s k = (case active_of s k of [] \<Rightarrow> None | l # _ \<Rightarrow> Some (l_owner l, l_expires l))"

definition life_of :: "wq \<Rightarrow> string \<Rightarrow> job_life option" where
  "life_of s k = map_option (\<lambda>j. (j_state j, holder_of s k)) (job_of s k)"

definition working :: "job_state \<Rightarrow> bool" where
  "working st \<longleftrightarrow> st = JClaimed \<or> st = JRunning"

definition finished :: "job_state \<Rightarrow> bool" where
  "finished st \<longleftrightarrow> st \<in> {JCompleted, JFailed, JSkipped, JQuarantined, JCompromised}"

text \<open>The calls that enqueue jobs whose dependencies hold, and those that open finished jobs again.\<close>

fun enqueues :: "wq_call \<Rightarrow> bool" where
  "enqueues (EnqueueReady run) = True"
| "enqueues (Complete sid k lid) = True"
| "enqueues (Verdict sid k lid v dec) = True"
| "enqueues (SubmitReview sid k lid path v dec) = True"
| "enqueues (OverrideVerdict sid k v why auto) = True"
| "enqueues (ResolveCheckpoint bid action dec) = True"
| "enqueues c = False"

fun reopens :: "wq_call \<Rightarrow> bool" where
  "reopens (RetryJob run k allow) = True"
| "reopens (Verdict sid k lid v dec) = True"
| "reopens (SubmitReview sid k lid path v dec) = True"
| "reopens (ResolveCheckpoint bid action dec) = True"
| "reopens (InvalidateJob k dec) = True"
| "reopens c = False"

text \<open>The session that gives the verdict of a call.\<close>

fun reviewer :: "wq_call \<Rightarrow> string option" where
  "reviewer (Verdict sid k lid v dec) = Some sid"
| "reviewer (SubmitReview sid k lid path v dec) = Some sid"
| "reviewer c = None"

inductive life :: "wenv \<Rightarrow> wq_call \<Rightarrow> job_life \<Rightarrow> job_life \<Rightarrow> bool" for e where
  life_claim: "st = JQueued \<or> st = JCanceled \<Longrightarrow> life e (Claim sid n) (st, None) (JClaimed, Some (sid, t))"
| life_ack: "c = Ack sid mid lid \<or> c = SubmitReview sid k lid path v dec \<Longrightarrow> e_now e \<le> t \<Longrightarrow> life e c (JClaimed, Some (sid, t)) (JRunning, Some (sid, t))"
| life_heartbeat: "e_now e \<le> t \<Longrightarrow> working st \<Longrightarrow>
    life e (Heartbeat sid lid n w) (st, Some (sid, t)) (st, Some (sid, expires_after e n))"
| life_release: "e_now e \<le> t \<Longrightarrow> working st \<Longrightarrow> st' = JQueued \<or> st' = JBlocked \<Longrightarrow>
    life e (Release sid mid lid r q tr) (st, Some (sid, t)) (st', None)"
| life_block: "e_now e \<le> t \<Longrightarrow> working st \<Longrightarrow> st' = JBlocked \<or> st' = JWaitingHuman \<Longrightarrow> sid = trim_space (br_session q) \<Longrightarrow>
    life e (Block q) (st, Some (sid, t)) (st', None)"
| life_complete: "e_now e \<le> t \<Longrightarrow> life e (Complete sid k lid) (JRunning, Some (sid, t)) (JCompleted, None)"
| life_verdict: "reviewer c = Some sid \<Longrightarrow> e_now e \<le> t \<Longrightarrow> st' \<in> {JCompleted, JFailed, JWaitingHuman} \<Longrightarrow>
    life e c (JRunning, Some (sid, t)) (st', None)"
| life_override: "c = OverrideVerdict sid k v why auto \<or> c = ResolveCheckpoint bid action dec \<Longrightarrow>
    life e c (JWaitingHuman, None) (JCompleted, None)"
| life_checkpoint: "life e (ResolveCheckpoint bid action dec) (JWaitingHuman, None) (JCanceled, None)"
| life_ready: "enqueues c \<Longrightarrow> life e c (JBlocked, None) (JQueued, None)"
| life_expire: "c = Claim sid n \<or> c = RequeueStale run k force why \<Longrightarrow> working st \<Longrightarrow> t < now_string e \<Longrightarrow>
    st' = JQueued \<or> st' = JStaleLease \<Longrightarrow> life e c (st, Some (sid', t)) (st', None)"
| life_transfer: "working st \<Longrightarrow> life e (RequeueStale run k True why) (st, h) (JStaleLease, None)"
| life_requeue: "c = CloseSession sid r True \<or> c = SweepRequeue k \<Longrightarrow> working st \<or> st = JStaleLease \<or> st = JQueued \<Longrightarrow>
    life e c (st, h) (JQueued, None)"
| life_requeue_stale: "working st \<or> st = JStaleLease \<or> st = JQueued \<or> st = JBlocked \<Longrightarrow>
    life e (RequeueStale run k force why) (st, None) (JQueued, None)"
| life_cancel: "st \<in> {JBlocked, JQueued, JClaimed, JRunning, JStaleLease, JWaitingHuman} \<Longrightarrow>
    life e (CancelRun run) (st, h) (JCanceled, None)"
| life_cancel_again: "life e (CancelRun run) (st, h) (st, None)"
| life_reset: "st \<in> {JBlocked, JCompleted, JFailed, JCanceled, JSkipped, JWaitingHuman} \<Longrightarrow>
    reopens c \<Longrightarrow> life e c (st, None) (JBlocked, None)"
| life_retry: "reopens c \<Longrightarrow> life e c (JBlocked, None) (JQueued, None)"

inductive_cases lifeE: "life e c a b"

text \<open>A step of the queue moves every job along its lifecycle.\<close>

definition lives :: "wenv \<Rightarrow> wq_call \<Rightarrow> wq \<Rightarrow> wq \<Rightarrow> bool" where
  "lives e c s s' \<longleftrightarrow> (\<forall>k. rel_option (life e c)\<^sup>*\<^sup>* (life_of s k) (life_of s' k))"

lemma rel_option_rtranclp_refl [simp]: "rel_option r\<^sup>*\<^sup>* x x"
  by (cases x) auto

lemma lives_same: "life_of s' = life_of s \<Longrightarrow> lives e c s s'"
  by (simp add: lives_def)

lemma lives_trans: "lives e c s s1 \<Longrightarrow> lives e c s1 s2 \<Longrightarrow> lives e c s s2"
proof (unfold lives_def, intro allI)
  fix k
  assume "\<forall>k. rel_option (life e c)\<^sup>*\<^sup>* (life_of s k) (life_of s1 k)" "\<forall>k. rel_option (life e c)\<^sup>*\<^sup>* (life_of s1 k) (life_of s2 k)"
  then have "rel_option (life e c)\<^sup>*\<^sup>* (life_of s k) (life_of s1 k)" "rel_option (life e c)\<^sup>*\<^sup>* (life_of s1 k) (life_of s2 k)"
    by blast+
  then show "rel_option (life e c)\<^sup>*\<^sup>* (life_of s k) (life_of s2 k)"
    by (cases "life_of s k"; cases "life_of s1 k"; cases "life_of s2 k") (auto intro: rtranclp_trans)
qed

lemma lives_one:
  assumes "\<And>i. i \<noteq> k \<Longrightarrow> life_of s' i = life_of s i"
    "\<And>a. life_of s k = Some a \<Longrightarrow> \<exists>b. life_of s' k = Some b \<and> (a = b \<or> life e c a b)" "life_of s k = None \<Longrightarrow> life_of s' k = None"
  shows "lives e c s s'"
  unfolding lives_def
proof
  fix i show "rel_option (life e c)\<^sup>*\<^sup>* (life_of s i) (life_of s' i)"
    using assms by (cases "i = k"; cases "life_of s k") (auto 4 4)
qed

section \<open>Reading the view\<close>

lemma life_of_cong: "w_jobs s' = w_jobs s \<Longrightarrow> w_leases s' = w_leases s \<Longrightarrow> life_of s' = life_of s"
  by (simp add: life_of_def holder_of_def job_of_def active_of_def fun_eq_iff)

lemma life_of_set_job:
  "(\<And>j. j_id (f j) = j_id j) \<Longrightarrow>
   life_of (set_job k f s) i = (if i = k then map_option (\<lambda>j. (j_state (f j), holder_of s k)) (job_of s k) else life_of s i)"
  by (simp add: life_of_def holder_of_def slice_simps option.map_comp comp_def)

lemma life_of_set_state:
  assumes "\<And>j. j_id (f j) = j_id j \<and> j_state (f j) = st"
  shows "life_of (set_job k f s) i = (if i = k then map_option (\<lambda>a. (st, snd a)) (life_of s k) else life_of s i)"
  using assms by (simp add: life_of_set_job) (simp add: life_of_def option.map_comp comp_def)

lemma life_of_set_msgs: "set_msgs p f s = Inr s' \<Longrightarrow> life_of s' = life_of s"
  by (rule life_of_cong) (auto dest: set_msgs_tables)

lemma life_of_message:
  "(case mid of None \<Rightarrow> Inr s | Some k \<Rightarrow> set_msgs (p k) f s) = Inr s' \<Longrightarrow> life_of s' = life_of s"
  by (auto split: option.splits dest: life_of_set_msgs)

lemma life_of_store_msgs: "store_msgs ms s = Inr s' \<Longrightarrow> life_of s' = life_of s"
  by (rule life_of_cong) (auto dest: store_msgsD)

lemma life_of_record: "record_activity e sid cols s = Inr s' \<Longrightarrow> life_of s' = life_of s"
  by (rule life_of_cong) (auto dest: record_activityD)

lemma life_of_drop_job:
  "(\<And>l. l_state (g l) \<noteq> LActive) \<Longrightarrow>
   life_of (set_leases (\<lambda>l. l_job l = k \<and> l_state l = LActive) g s) i =
     (if i = k then map_option (\<lambda>j. (j_state j, None)) (job_of s k) else life_of s i)"
  by (simp add: life_of_def holder_of_def slice_simps)

lemma life_of_held:
  assumes "wq_ok s" "l \<in> set (w_leases s)" "l_state l = LActive"
  shows "\<exists>j. job_of s (l_job l) = Some j \<and> working (j_state j) \<and> life_of s (l_job l) = Some (j_state j, Some (l_owner l, l_expires l))"
  by (rule held[OF assms]) (auto simp: life_of_def holder_of_def working_def)

lemma life_of_give_up:
  assumes "wq_ok s" "l \<in> set (w_leases s)" "l_state l = LActive" "\<And>l. l_state (g l) \<noteq> LActive"
  shows "life_of (set_leases (\<lambda>r. l_id r = l_id l) g s) i =
    (if i = l_job l then map_option (\<lambda>j. (j_state j, None)) (job_of s (l_job l)) else life_of s i)"
  by (simp add: life_of_def holder_of_def active_of_give_up[OF assms] tables_set_leases)

section \<open>Moves\<close>

text \<open>A lease is given up by its holder, or runs out.\<close>

lemma lives_give_up:
  assumes ok: "wq_ok s" and l: "l \<in> set (w_leases s)" "l_state l = LActive" and g: "\<And>l. l_state (g l) \<noteq> LActive"
    and s': "life_of s' = life_of (set_job (l_job l) (\<lambda>r. r\<lparr>j_state := st, j_lease := None\<rparr>) (set_leases (\<lambda>r. l_id r = l_id l) g s))"
    and move: "\<And>j. job_of s (l_job l) = Some j \<Longrightarrow> working (j_state j) \<Longrightarrow>
      life e c (j_state j, Some (l_owner l, l_expires l)) (st, None)"
  shows "lives e c s s'"
proof (rule lives_one[where k = "l_job l"])
  obtain j where j: "job_of s (l_job l) = Some j" "working (j_state j)"
      "life_of s (l_job l) = Some (j_state j, Some (l_owner l, l_expires l))"
    using life_of_held[OF ok l] by blast
  have gu: "holder_of (set_leases (\<lambda>r. l_id r = l_id l) g s) (l_job l) = None"
    by (simp add: holder_of_def active_of_give_up[OF ok l g])
  have "life_of s' (l_job l) = Some (st, None)"
    using j(1) gu by (simp add: s' life_of_set_job tables_set_leases)
  then show "\<exists>b. life_of s' (l_job l) = Some b \<and> (a = b \<or> life e c a b)" if "life_of s (l_job l) = Some a" for a
    using that j(3) move[OF j(1,2)] by auto
  show "life_of s' (l_job l) = None" if "life_of s (l_job l) = None" using that j(3) by simp
  show "life_of s' i = life_of s i" if "i \<noteq> l_job l" for i
    using that by (simp add: s' life_of_set_job life_of_give_up[OF ok l g])
qed

text \<open>The job gives up its lease, if it has one, and changes its state.\<close>

lemma lives_drop:
  assumes g: "\<And>l. l_state (g l) \<noteq> LActive" and f: "\<And>j. j_id (f j) = j_id j"
    and s': "life_of s' = life_of (set_job k f (set_leases (\<lambda>l. l_job l = k \<and> l_state l = LActive) g s))"
    and move: "\<And>j. job_of s k = Some j \<Longrightarrow> (j_state j, holder_of s k) = (j_state (f j), None) \<or>
      life e c (j_state j, holder_of s k) (j_state (f j), None)"
  shows "lives e c s s'"
proof (rule lives_one[where k = k])
  have h: "holder_of (set_leases (\<lambda>l. l_job l = k \<and> l_state l = LActive) g s) k = None"
    by (simp add: holder_of_def active_of_drop_job[OF g])
  show "life_of s' i = life_of s i" if "i \<noteq> k" for i
    using that by (simp add: s' life_of_set_job[OF f] life_of_drop_job[OF g])
  have "life_of s' k = map_option (\<lambda>j. (j_state (f j), None)) (job_of s k)"
    by (simp add: s' life_of_set_job[OF f] h tables_set_leases)
  then show "\<exists>b. life_of s' k = Some b \<and> (a = b \<or> life e c a b)" if "life_of s k = Some a" for a
    using that move by (auto simp: life_of_def)
  show "life_of s' k = None" if "life_of s k = None"
    using that \<open>life_of s' k = _\<close> by (simp add: life_of_def)
qed

lemma free_holder:
  "wq_ok s \<Longrightarrow> job_of s k = Some j \<Longrightarrow> \<not> working (j_state j) \<Longrightarrow> holder_of s k = None"
  using no_lease_unless_working[of s k j] by (simp add: holder_of_def working_def)

lemma enqueue_life:
  assumes ok: "wq_ok s" and st: "enqueueJob e k s = Inr s'"
  shows "life_of s k = Some (JBlocked, None) \<or> life_of s k = Some (JQueued, None)"
    "life_of s' i = (if i = k then Some (JQueued, None) else life_of s i)"
proof -
  obtain j s1 where j: "job_of s k = Some j" "j_state j = JBlocked \<or> j_state j = JQueued"
      and s1: "store_msgs (w_msgs s @ [new_message e (message_id e s) j]) s = Inr s1"
        "s' = set_job k (\<lambda>j. j\<lparr>j_state := JQueued, j_message := Some (message_id e s)\<rparr>) s1"
    using st by (auto simp: enqueueJob_def check_simps)
  have e1: "life_of s1 = life_of s" "job_of s1 = job_of s" "holder_of s1 = holder_of s"
    using life_of_store_msgs[OF s1(1)] store_msgsD[OF s1(1)]
    by (auto simp: slice_simps holder_of_def fun_eq_iff)
  have "holder_of s k = None" by (rule free_holder[OF ok j(1)]) (use j(2) in \<open>auto simp: working_def\<close>)
  then show "life_of s k = Some (JBlocked, None) \<or> life_of s k = Some (JQueued, None)"
    "life_of s' i = (if i = k then Some (JQueued, None) else life_of s i)"
    using j e1 by (auto simp: s1(2) life_of_set_job) (auto simp: life_of_def)
qed

lemma lives_enqueue:
  assumes "wq_ok s" "enqueueJob e k s = Inr s'" "life e c (JBlocked, None) (JQueued, None)"
  shows "lives e c s s'"
  using enqueue_life[OF assms(1,2)] assms(3) by (intro lives_one[where k = k]) auto

lemma lives_ready:
  "wq_ok s \<Longrightarrow> enqueue_each e ks s = Inr s' \<Longrightarrow> life e c (JBlocked, None) (JQueued, None) \<Longrightarrow> lives e c s s'"
proof (induction ks arbitrary: s)
  case (Cons k ks)
  obtain s1 where s1: "enqueue_if_ready e k s = Inr s1" "enqueue_each e ks s1 = Inr s'"
    using Cons.prems(2) by (auto simp: check_simps)
  have "wq_ok s1 \<and> lives e c s s1"
    using s1(1) Cons.prems(1,3) unfolding enqueue_if_ready_def
    by (auto simp: check_simps split: if_splits option.splits bool.splits intro: enqueueJob_ok lives_enqueue lives_same)
  then show ?case using Cons.IH[OF _ s1(2) Cons.prems(3)] lives_trans by blast
qed (simp add: lives_same)

lemma lives_expire:
  assumes ok: "wq_ok s" and l: "l \<in> set (w_leases s)" "l_state l = LActive" and late: "l_expires l < now_string e"
    and st: "expire_lease e l s = Inr s'" and c: "c = Claim sid n \<or> c = RequeueStale run k force why"
  shows "lives e c s s'"
proof (rule held[OF ok l])
  fix j assume j: "job_of s (l_job l) = Some j" "j_id j = l_job l"
  let ?st = "if job_repo_write j then JStaleLease else JQueued"
  have s': "life_of s' = life_of (set_job (l_job l) (\<lambda>r. r\<lparr>j_state := ?st, j_lease := None\<rparr>)
      (set_leases (\<lambda>r. l_id r = l_id l) (\<lambda>r. r\<lparr>l_state := LExpired, l_reason := ''expired''\<rparr>) s))"
    using st j by (auto simp: expire_lease_def Let_def dest!: life_of_set_msgs split: option.splits)
  show ?thesis
    by (rule lives_give_up[OF ok l _ s']) (auto intro: life_expire[OF c _ late])
qed

lemma lives_expire_each:
  "wq_ok s \<Longrightarrow> expire_each e ls s = Inr s' \<Longrightarrow> distinct (map l_id ls) \<Longrightarrow>
   \<forall>l \<in> set ls. l \<in> set (w_leases s) \<and> l_state l = LActive \<and> l_expires l < now_string e \<Longrightarrow>
   c = Claim sid n \<or> c = RequeueStale run k force why \<Longrightarrow> lives e c s s'"
proof (induction ls arbitrary: s)
  case (Cons l ls)
  obtain s1 where s1: "expire_lease e l s = Inr s1" "expire_each e ls s1 = Inr s'"
    using Cons.prems(2) by (auto simp: check_simps)
  have one: "wq_ok s1" "w_leases s1 = upd (\<lambda>r. l_id r = l_id l) (\<lambda>r. r\<lparr>l_state := LExpired, l_reason := ''expired''\<rparr>) (w_leases s)"
    using expire_lease_ok[OF Cons.prems(1) _ _ s1(1)] Cons.prems(4) by auto
  have "r \<in> set (w_leases s1) \<and> l_state r = LActive \<and> l_expires r < now_string e" if "r \<in> set ls" for r
    using that Cons.prems(3,4) unfolding one(2) set_upd by (auto intro!: image_eqI[of _ _ r])
  then have "lives e c s1 s'" using Cons.IH[OF one(1) s1(2)] Cons.prems(3,5) by auto
  moreover have "lives e c s s1" using lives_expire[OF Cons.prems(1) _ _ _ s1(1) Cons.prems(5)] Cons.prems(4) by auto
  ultimately show ?case using lives_trans by blast
qed (simp add: lives_same)

lemma lives_expireLeases:
  assumes ok: "wq_ok s" and st: "expireLeases e run s = Inr s'" and c: "c = Claim sid n \<or> c = RequeueStale run' k force why"
  shows "lives e c s s'"
  using wq_ok_keys[OF ok] unfolding keys_ok_def
  by (intro lives_expire_each[OF ok st[unfolded expireLeases_def] _ _ c]) (auto intro: distinct_map_filter)

lemma requeue_life:
  assumes st: "requeueJobSameAttempt e j s = Inr (b, s')" and j: "job_of s (j_id j) = Some j"
  shows "life_of s' = life_of (set_job (j_id j) (\<lambda>j. j\<lparr>j_state := JQueued\<rparr>)
    (set_leases (\<lambda>l. l_job l = j_id j \<and> l_state l = LActive) (\<lambda>l. l\<lparr>l_state := LExpired, l_reason := ''recovery_requeue''\<rparr>) s))"
proof -
  let ?s1 = "set_leases (\<lambda>l. l_job l = j_id j \<and> l_state l = LActive)
    (\<lambda>l. l\<lparr>l_state := LExpired, l_reason := ''recovery_requeue''\<rparr>) s"
  have job: "life_of (set_job (j_id j) f u) = life_of (set_job (j_id j) (\<lambda>j. j\<lparr>j_state := JQueued\<rparr>) ?s1)"
    if "life_of u = life_of ?s1" "\<And>j. j_id (f j) = j_id j \<and> j_state (f j) = JQueued" for f u
    using that by (simp add: fun_eq_iff life_of_set_state[of f JQueued] life_of_set_state[of _ JQueued])
  have same: "life_of ?s1 = life_of (set_job (j_id j) (\<lambda>j. j\<lparr>j_state := JQueued\<rparr>) ?s1)" if "j_state j = JQueued"
    using that j by (auto simp: life_of_set_job fun_eq_iff tables_set_leases) (auto simp: life_of_def tables_set_leases)
  show ?thesis using st same
    by (auto simp: requeueJobSameAttempt_def insertPendingMessageForJob_def check_simps Let_def
        dest!: life_of_store_msgs life_of_set_msgs intro!: job split: option.splits if_splits)
qed

lemma lives_requeue:
  assumes st: "requeueJobSameAttempt e j s = Inr (b, s')" and j: "job_of s (j_id j) = Some j"
    and move: "life e c (j_state j, holder_of s (j_id j)) (JQueued, None)"
  shows "lives e c s s'"
  by (rule lives_drop[OF _ _ requeue_life[OF st j]]) (use move j in auto)

section \<open>Handlers\<close>

lemma lives_release:
  assumes ok: "wq_ok s" and st: "HandleReleaseWork e sid mid lid reason requeue transfer s = Inr s'"
  shows "lives e (Release sid mid lid reason requeue transfer) s s'"
proof -
  obtain m :: wmsg and j l s1 st where h: "job_of s (m_job m) = Some j" "active_lease_for e s lid sid (j_id j) = Inr l"
      "record_activity e sid [''last_work_release_at''] s1 = Inr s'"
      "st = JQueued \<or> st = JBlocked"
    and st1: "life_of s1 = life_of (set_job (j_id j) (\<lambda>r. r\<lparr>j_state := st, j_lease := None\<rparr>)
         (set_leases (\<lambda>l. l_id l = lid) (\<lambda>l. l\<lparr>l_state := LReleased, l_reason := (if reason = [] then ''released'' else reason)\<rparr>) s))"
  proof -
    obtain m j l s1 where r: "release_message s mid lid = Some m" "job_of s (m_job m) = Some j" "active_lease_for e s lid sid (j_id j) = Inr l"
        "record_activity e sid [''last_work_release_at''] s1 = Inr s'"
        "set_msgs (\<lambda>r. m_id r = m_id m)
           (\<lambda>r. r\<lparr>m_state := (if requeue \<and> \<not> job_repo_write j \<or> transfer then MPending else MBlocked), m_lease := None\<rparr>)
           (set_job (j_id j) (\<lambda>r. r\<lparr>j_state := (if requeue \<and> \<not> job_repo_write j \<or> transfer then JQueued else JBlocked), j_lease := None\<rparr>)
             (set_leases (\<lambda>l. l_id l = lid)
               (\<lambda>l. l\<lparr>l_state := LReleased, l_reason := (if reason = [] then ''released'' else reason)\<rparr>) s)) = Inr s1"
      using st unfolding HandleReleaseWork_def check_simps Let_def
      by - (elim conjE exE, rule that; assumption)
    show ?thesis
      by (rule that[of m j l s1 "if requeue \<and> \<not> job_repo_write j \<or> transfer then JQueued else JBlocked", OF r(2-4)])
        (simp, rule life_of_set_msgs[OF r(5)])
  qed
  have j: "j_id j = m_job m" using job_ofD[OF h(1)] by simp
  have l: "l_job l = m_job m" "l \<in> set (w_leases s)" "l_state l = LActive" "l_id l = lid" "l_owner l = sid" "e_now e \<le> l_expires l"
    using active_lease_forD[OF h(2)] j job_id_nonempty[OF ok h(1)] by auto
  show ?thesis using st1[folded life_of_record[OF h(3)], folded l(4), unfolded j, folded l(1)]
    by (intro lives_give_up[OF ok l(2,3)]) (use l h(4) in \<open>auto intro: life_release\<close>)
qed

lemma lives_block:
  assumes ok: "wq_ok s" and st: "HandleBlockWork e q0 s = Inr s'"
  shows "lives e (Block q0) s s'"
proof -
  obtain q j l s1 where q: "normalizeBlockWork q0 = Inr q" and j: "job_of s (br_job q) = Some j"
    and al: "active_lease_for e s (br_lease q) (br_session q) (br_job q) = Inr l"
    and st1: "life_of s1 = life_of (set_leases (\<lambda>l. l_id l = br_lease q) (\<lambda>l. l\<lparr>l_state := LReleased, l_reason := ''blocked''\<rparr>)
      (set_job (br_job q) (\<lambda>r. r\<lparr>j_state := (if br_severity q = ''human_checkpoint'' then JWaitingHuman else JBlocked), j_lease := None\<rparr>) s))"
    and r: "record_activity e (br_session q) [''last_work_block_at''] s1 = Inr s'"
  proof -
    have "life_of (set_leases p g (set_job k f (s\<lparr>w_blockers := bs\<rparr>))) = life_of (set_leases p g (set_job k f s))" for p g k f bs
      by (rule life_of_cong) (simp_all add: set_leases_def set_job_def)
    moreover obtain q j l s1 bs where "normalizeBlockWork q0 = Inr q" "job_of s (br_job q) = Some j"
        "active_lease_for e s (br_lease q) (br_session q) (br_job q) = Inr l"
        "record_activity e (br_session q) [''last_work_block_at''] s1 = Inr s'"
      and stored: "(case j_message j of
            None \<Rightarrow> Inr (set_leases (\<lambda>l. l_id l = br_lease q) (\<lambda>l. l\<lparr>l_state := LReleased, l_reason := ''blocked''\<rparr>)
              (set_job (br_job q) (\<lambda>r. r\<lparr>j_state := (if br_severity q = ''human_checkpoint'' then JWaitingHuman else JBlocked), j_lease := None\<rparr>)
                (s\<lparr>w_blockers := bs\<rparr>)))
          | Some mid \<Rightarrow> set_msgs (\<lambda>m. m_id m = mid) (\<lambda>m. m\<lparr>m_state := MBlocked, m_lease := None\<rparr>)
             (set_leases (\<lambda>l. l_id l = br_lease q) (\<lambda>l. l\<lparr>l_state := LReleased, l_reason := ''blocked''\<rparr>)
              (set_job (br_job q) (\<lambda>r. r\<lparr>j_state := (if br_severity q = ''human_checkpoint'' then JWaitingHuman else JBlocked), j_lease := None\<rparr>)
                (s\<lparr>w_blockers := bs\<rparr>)))) = Inr s1"
      using st unfolding HandleBlockWork_def Let_def check_simps
      by - (elim conjE exE, rule that; assumption)
    ultimately show ?thesis by (intro that) (use life_of_message[OF stored] in \<open>auto split: option.splits\<close>)
  qed
  have "br_session q = trim_space (br_session q0)"
    using q by (auto simp: normalizeBlockWork_def Let_def split: if_splits)
  note l = active_lease_of_job[OF ok j al] and life = active_lease_forD[OF al]
  show ?thesis using st1[folded life_of_record[OF r], unfolded set_job_leases, folded l(3) l(4)]
    by (intro lives_give_up[OF ok l(1,2)]) (use l life \<open>br_session q = _\<close> in \<open>auto intro: life_block\<close>)
qed

lemma life_tables: "life_of (set_run k f s) = life_of s" "life_of (close_remaining_sessions k s) = life_of s"
    "life_of (escalate_provenance e k s) = life_of s" "life_of (resolve_blockers b k s) = life_of s"
  by (rule life_of_cong; simp add: set_run_def close_remaining_sessions_def escalate_provenance_def resolve_blockers_def Let_def)+

lemma lives_maybeComplete: "maybeCompleteRun e run s = Inr s' \<Longrightarrow> life_of s' = life_of s"
  by (auto simp: maybeCompleteRun_def check_simps Let_def life_tables split: if_splits)

lemma lives_resolve: "resolveAutonomousBlockersOnCompletion run k s = Inr s' \<Longrightarrow> life_of s' = life_of s"
  by (auto simp: resolveAutonomousBlockersOnCompletion_def check_simps Let_def life_tables split: if_splits)

lemma settle_life:
  assumes ok: "wq_ok s" and j: "job_of s k = Some j" and al: "active_lease_for e s lid sid k = Inr l"
    and st: "settle_rows jst mst why j lid s = Inr s'"
  shows "life_of s' i = (if i = k then Some (jst, None) else life_of s i)"
proof -
  note l = active_lease_of_job[OF ok j al]
  have jk: "j_id j = k" using job_ofD[OF j] by simp
  let ?g = "\<lambda>l. l\<lparr>l_state := LReleased, l_reason := why\<rparr>" and ?f = "\<lambda>r. r\<lparr>j_state := jst, j_lease := None\<rparr>"
  have later: "life_of (set_leases p g u) = life_of (set_leases p g v)" if "w_jobs u = w_jobs v" "w_leases u = w_leases v" for p g u v
    using that by (intro life_of_cong) (simp_all add: set_leases_def)
  have "life_of s' = life_of (set_leases (\<lambda>l. l_id l = lid) ?g (set_job k ?f s))"
    using st jk unfolding settle_rows_def Let_def bind_ok_Inr
    by (auto split: option.splits dest: set_msgs_tables intro!: later)
  then have s': "life_of s' = life_of (set_job k ?f (set_leases (\<lambda>r. l_id r = l_id l) ?g s))"
    unfolding set_job_leases using l(3) by simp
  have "holder_of (set_leases (\<lambda>r. l_id r = l_id l) ?g s) k = None"
    using active_of_give_up[OF ok l(1,2), of ?g k] l(4) by (simp add: holder_of_def)
  then show ?thesis
    using j l(4) by (simp add: s' life_of_set_job life_of_give_up[OF ok l(1,2)] tables_set_leases)
qed

lemma lives_settle:
  assumes ok: "wq_ok s" and j: "job_of s k = Some j" and al: "active_lease_for e s lid sid k = Inr l"
    and st: "settle_rows jst mst why j lid s = Inr s'"
    and move: "\<And>t. working (j_state j) \<Longrightarrow> e_now e \<le> t \<Longrightarrow> life e c (j_state j, Some (sid, t)) (jst, None)"
  shows "lives e c s s'"
proof (rule lives_one[where k = k])
  note l = active_lease_of_job[OF ok j al] and t = active_lease_forD[OF al]
  have k: "life_of s k = Some (j_state j, Some (sid, l_expires l))" "working (j_state j)"
    using life_of_held[OF ok l(1,2)] l(4) j t by auto
  show "\<exists>b. life_of s' k = Some b \<and> (a = b \<or> life e c a b)" if "life_of s k = Some a" for a
    using that k(1) move[OF k(2), of "l_expires l"] t by (auto simp: settle_life[OF ok j al st])
  show "life_of s' k = None" if "life_of s k = None" using that k by simp
  show "life_of s' i = life_of s i" if "i \<noteq> k" for i using that by (simp add: settle_life[OF ok j al st])
qed

lemma lives_complete_rows:
  assumes ok: "wq_ok s" and j: "job_of s k = Some j" and al: "active_lease_for e s lid sid k = Inr l"
    and run: "j_state j = JRunning" and st: "complete_rows e sid j lid s = Inr s'"
  shows "lives e (Complete sid k' lid') s s'"
proof -
  obtain s1 where s1: "settle_rows JCompleted MCompleted ''completed'' j lid s = Inr s1"
      "record_activity e sid [''last_work_complete_at''] s1 = Inr s'"
    using st by (auto simp: complete_rows_def check_simps)
  have "lives e (Complete sid k' lid') s s1"
    by (rule lives_settle[OF ok j al s1(1)]) (simp add: run life_complete)
  then show ?thesis using lives_trans[OF _ lives_same[OF life_of_record[OF s1(2)]]] by blast
qed

lemma lives_enqueues:
  assumes ok: "wq_ok s" and st: "maybeEnqueueDownstream e k s = Inr s'" and c: "enqueues c"
  shows "lives e c s s'"
proof -
  obtain ks ks' u where "enqueue_each e ks s = Inr u" "enqueue_each e ks' u = Inr s'"
    using st by (auto simp: maybeEnqueueDownstream_def enqueueReadyBlockedJobs_def check_simps)
  then show ?thesis
    using lives_ready[OF ok _ life_ready[OF c]] fold_ok_enqueue[OF ok] lives_ready[OF _ _ life_ready[OF c]] lives_trans by blast
qed

lemma lives_complete:
  assumes ok: "wq_ok s" and st: "HandleCompleteWork e sid k lid s = Inr s'"
  shows "lives e (Complete sid k lid) s s'"
proof -
  obtain j where j: "job_of s k = Some j" using st by (auto simp: HandleCompleteWork_def Let_def check_simps)
  show ?thesis
  proof (cases "verdict_capable j \<and> j_state j = JCompleted")
    case True
    then show ?thesis using st j by (auto simp: HandleCompleteWork_def Let_def check_simps intro: lives_same)
  next
    case False
    then obtain l s1 s2 s3 where h: "active_lease_for e s lid sid k = Inr l" "j_state j = JRunning" "complete_rows e sid j lid s = Inr s1"
        "resolveAutonomousBlockersOnCompletion (j_run j) k s1 = Inr s2"
        "maybeEnqueueDownstream e k s2 = Inr s3" "maybeCompleteRun e (j_run j) s3 = Inr s'"
      using st j by (auto simp: HandleCompleteWork_def Let_def check_simps)
    have ok2: "wq_ok s2" using complete_rows_ok[OF ok j h(1,3)] resolve_ok h(4) by blast
    have "lives e (Complete sid k lid) s2 s3" by (rule lives_enqueues[OF ok2 h(5)]) simp
    moreover have "lives e (Complete sid k lid) s s2"
      using lives_complete_rows[OF ok j h(1-3)] lives_same[OF lives_resolve[OF h(4)]] lives_trans by blast
    ultimately show ?thesis using lives_same[OF lives_maybeComplete[OF h(6)]] lives_trans by blast
  qed
qed

text \<open>The rows of an acknowledgement.\<close>

lemma lives_ack_rows:
  assumes ok: "wq_ok s" and j: "job_of s k = Some j" "j_state j = JClaimed" and al: "active_lease_for e s lid sid k = Inr l"
    and s1: "set_msgs p f s = Inr s1" and s': "life_of s' = life_of (set_job k (\<lambda>r. r\<lparr>j_state := JRunning\<rparr>) s1)"
    and c: "\<And>t. e_now e \<le> t \<Longrightarrow> life e c (JClaimed, Some (sid, t)) (JRunning, Some (sid, t))"
  shows "lives e c s s'"
proof -
  note l = active_lease_of_job[OF ok j(1) al] and t = active_lease_forD[OF al]
  have k: "life_of s k = Some (JClaimed, Some (sid, l_expires l))"
    using life_of_held[OF ok l(1,2)] l(3,4) t j by auto
  have "life_of s' i = (if i = k then map_option (\<lambda>a. (JRunning, snd a)) (life_of s i) else life_of s i)" for i
    using s' life_of_set_msgs[OF s1] by (simp add: life_of_set_state[of _ JRunning])
  then show ?thesis by (intro lives_one[where k = k]) (use k t c in auto)
qed

lemma lives_ack:
  assumes ok: "wq_ok s" and st: "HandleAckWork e sid mid lid s = Inr s'"
  shows "lives e (Ack sid mid lid) s s'"
proof -
  obtain m j l where m: "msg_of s mid = Some m" and j: "job_of s (m_job m) = Some j"
      and al: "active_lease_for e s lid sid (m_job m) = Inr l"
    using st by (auto simp: HandleAckWork_def check_simps) (metis job_ofD)
  show ?thesis
  proof (cases "m_state m = MAcked")
    case True
    then show ?thesis using st m by (auto simp: HandleAckWork_def check_simps intro: lives_same)
  next
    case False
    then obtain s1 where s1: "set_msgs (\<lambda>r. m_id r = mid) (\<lambda>r. r\<lparr>m_state := MAcked\<rparr>) s = Inr s1" "j_state j = JClaimed"
        "record_activity e sid [''last_ack_at''] (set_job (m_job m) (\<lambda>r. r\<lparr>j_state := JRunning\<rparr>) s1) = Inr s'"
      using st m j job_ofD[OF j] by (auto simp: HandleAckWork_def check_simps)
    show ?thesis
      by (rule lives_ack_rows[OF ok j s1(2) al s1(1) life_of_record[OF s1(3)]]) (rule life_ack, simp)
  qed
qed

lemma lives_ack_inline:
  assumes ok: "wq_ok s" and st: "ackInline e sid mid lid s = Inr s'"
  shows "lives e (SubmitReview sid k lid' path verdict dec) s s'"
proof (rule ackInlineD[OF st])
  fix m j l
  assume h: "msg_of s mid = Some m" "job_of s (m_job m) = Some j" "active_lease_for e s lid sid (m_job m) = Inr l"
    and b: "m_state m = MAcked \<and> s' = s \<or> m_state m = MClaimed \<and> j_state j = JClaimed \<and>
      (\<exists>s1. set_msgs (\<lambda>r. m_id r = mid) (\<lambda>r. r\<lparr>m_state := MAcked\<rparr>) s = Inr s1 \<and>
        s' = set_job (m_job m) (\<lambda>r. r\<lparr>j_state := JRunning\<rparr>) s1)"
  show ?thesis using b
  proof (elim disjE conjE exE)
    fix s1 assume r: "j_state j = JClaimed" "set_msgs (\<lambda>r. m_id r = mid) (\<lambda>r. r\<lparr>m_state := MAcked\<rparr>) s = Inr s1"
      "s' = set_job (m_job m) (\<lambda>r. r\<lparr>j_state := JRunning\<rparr>) s1"
    show ?thesis
      by (rule lives_ack_rows[OF ok h(2) r(1) h(3) r(2)]) (use r(3) in \<open>auto intro: life_ack\<close>)
  qed (simp add: lives_same)
qed

lemma lives_heartbeat:
  assumes ok: "wq_ok s" and st: "HandleHeartbeat e sid lid n w s = Inr s'"
  shows "lives e (Heartbeat sid lid n w) s s'"
proof -
  let ?f = "\<lambda>l. l\<lparr>l_heartbeat := now_string e, l_expires := expires_after e n\<rparr>"
  obtain l cols where al: "active_lease_for e s lid sid [] = Inr l"
      and s': "record_activity e sid cols (set_leases (\<lambda>l. l_id l = lid) ?f s) = Inr s'"
    using st by (auto simp: HandleHeartbeat_def check_simps)
  have l: "l \<in> set (w_leases s)" "l_state l = LActive" "l_id l = lid" "l_owner l = sid" "e_now e \<le> l_expires l"
    using active_lease_forD[OF al] by auto
  have uniq: "r = l" if "r \<in> set (w_leases s)" "l_id r = lid" for r
    using that l(1,3) wq_ok_keys[OF ok] by (metis keys_ok_def distinct_map inj_onD)
  have act: "active_of (set_leases (\<lambda>l. l_id l = lid) ?f s) k = upd (\<lambda>l. l_id l = lid) ?f (active_of s k)" for k
    by (simp add: active_of_def set_leases_def filter_upd_keep)
  obtain j where j: "job_of s (l_job l) = Some j" "active_of s (l_job l) = [l]" "working (j_state j)"
    using held[OF ok l(1,2)] by (metis working_def)
  have other: "upd (\<lambda>l. l_id l = lid) ?f (active_of s k) = active_of s k" if "k \<noteq> l_job l" for k
    unfolding upd_def by (rule map_idI) (use that uniq in \<open>auto simp: active_of_def\<close>)
  show ?thesis
  proof (rule lives_trans[OF _ lives_same[OF life_of_record[OF s']]], rule lives_one[where k = "l_job l"])
    fix a assume "life_of s (l_job l) = Some a"
    then show "\<exists>b. life_of (set_leases (\<lambda>l. l_id l = lid) ?f s) (l_job l) = Some b \<and>
        (a = b \<or> life e (Heartbeat sid lid n w) a b)"
      using j l by (auto simp: life_of_def holder_of_def act tables_set_leases upd_def intro: life_heartbeat)
  qed (auto simp: life_of_def holder_of_def act other tables_set_leases)
qed

text \<open>The rows a claim adds.\<close>

definition claim_lease :: "wenv \<Rightarrow> wsession \<Rightarrow> wmsg \<Rightarrow> int \<Rightarrow> wq \<Rightarrow> wlease" where
  "claim_lease e x m secs s =
     \<lparr>l_id = e_newID e ''lease'' (length (w_leases s)), l_run = s_run x, l_job = m_job m, l_owner = s_id x,
      l_state = LActive, l_acquired = now_string e, l_expires = expires_after e secs, l_heartbeat = now_string e,
      l_reason = []\<rparr>"

definition claim_packet :: "wenv \<Rightarrow> wsession \<Rightarrow> wmsg \<Rightarrow> wq \<Rightarrow> wpacket" where
  "claim_packet e x m s =
     \<lparr>p_id = e_newID e ''wp'' (length (w_packets s)), p_run = s_run x, p_job = m_job m, p_message = m_id m,
      p_lease = e_newID e ''lease'' (length (w_leases s)), p_session = s_id x\<rparr>"

lemma claimChosenJobD:
  assumes st: "claimChosenJob e x j m secs s = Inr (r, s')" and j: "j_id j = m_job m"
  shows "r = Some (p_id (claim_packet e x m s))"
    "w_leases s' = w_leases s @ [claim_lease e x m secs s]"
    "distinct (map l_job (filter (\<lambda>l. l_state l = LActive) (w_leases s @ [claim_lease e x m secs s])))"
    "w_msgs s' = upd (\<lambda>r. m_id r = m_id m)
       (\<lambda>r. r\<lparr>m_state := MClaimed, m_lease := Some (l_id (claim_lease e x m secs s)), m_claims := m_claims r + 1\<rparr>) (w_msgs s)"
    "w_jobs s' = w_jobs (set_job (m_job m) (\<lambda>r. r\<lparr>j_state := JClaimed, j_lease := Some (l_id (claim_lease e x m secs s))\<rparr>) s)"
    "w_packets s' = w_packets s @ [claim_packet e x m s]" "w_runs s' = w_runs s"
proof -
  let ?l = "claim_lease e x m secs s"
  obtain s1 s2 s3 where s1: "store_leases (w_leases s @ [?l]) s = Inr s1"
    and s2: "set_msgs (\<lambda>r. m_id r = m_id m) (\<lambda>r. r\<lparr>m_state := MClaimed, m_lease := Some (l_id ?l), m_claims := m_claims r + 1\<rparr>) s1 = Inr s2"
    and s3: "store_packet (claim_packet e x m s) (set_job (m_job m) (\<lambda>r. r\<lparr>j_state := JClaimed, j_lease := Some (l_id ?l)\<rparr>) s2) = Inr s3"
      "record_activity e (s_id x) [''last_packet_delivered_at''] s3 = Inr s'"
    and r: "r = Some (p_id (claim_packet e x m s))"
    using st unfolding claimChosenJob_def Let_def j claim_lease_def claim_packet_def by (auto simp: check_simps)
  have e1: "s1 = s\<lparr>w_leases := w_leases s @ [?l]\<rparr>" using store_leasesD[OF s1] by simp
  have e2: "s2 = s1\<lparr>w_msgs := upd (\<lambda>r. m_id r = m_id m) (\<lambda>r. r\<lparr>m_state := MClaimed, m_lease := Some (l_id ?l), m_claims := m_claims r + 1\<rparr>) (w_msgs s1)\<rparr>"
    using store_msgsD[OF s2[unfolded set_msgs_def]] by simp
  have e3: "s3 = (set_job (m_job m) (\<lambda>r. r\<lparr>j_state := JClaimed, j_lease := Some (l_id ?l)\<rparr>) s2)\<lparr>w_packets := w_packets s @ [claim_packet e x m s]\<rparr>"
    using s3(1) by (auto simp: store_packet_def e2 e1 tables_set_job split: if_splits)
  show "r = Some (p_id (claim_packet e x m s))" by (fact r)
  show "distinct (map l_job (filter (\<lambda>l. l_state l = LActive) (w_leases s @ [?l])))" using store_leasesD[OF s1] by blast
  show "w_leases s' = w_leases s @ [?l]" "w_packets s' = w_packets s @ [claim_packet e x m s]" "w_runs s' = w_runs s"
    "w_msgs s' = upd (\<lambda>r. m_id r = m_id m) (\<lambda>r. r\<lparr>m_state := MClaimed, m_lease := Some (l_id ?l), m_claims := m_claims r + 1\<rparr>) (w_msgs s)"
    "w_jobs s' = w_jobs (set_job (m_job m) (\<lambda>r. r\<lparr>j_state := JClaimed, j_lease := Some (l_id ?l)\<rparr>) s)"
    using record_activityD[OF s3(2)] by (auto simp: e1 e2 e3 set_job_def)
qed

lemma lives_claimChosenJob:
  assumes ok: "wq_ok s" and m: "m \<in> set (w_msgs s)" "claimable s x m" and j: "job_of s (m_job m) = Some j"
    and st: "claimChosenJob e x j m secs s = Inr (r, s')" and x: "s_id x = sid"
  shows "lives e (Claim sid n) s s'"
proof -
  let ?l = "claim_lease e x m secs s"
  have jm: "j_id j = m_job m" using job_ofD[OF j] by simp
  note rows = claimChosenJobD[OF st jm]
  have l: "l_job ?l = m_job m" "l_state ?l = LActive" "l_owner ?l = sid" by (simp_all add: claim_lease_def x)
  have act: "active_of s' i = (if i = m_job m then [?l] else active_of s i)" for i
    using single_active[OF rows(3), of ?l s] l by (auto simp: active_of_def rows(2))
  have job: "job_of s' i = (if i = m_job m then Some (j\<lparr>j_state := JClaimed, j_lease := Some (l_id ?l)\<rparr>) else job_of s i)" for i
    using job_of_set_job[of "\<lambda>r. r\<lparr>j_state := JClaimed, j_lease := Some (l_id ?l)\<rparr>" "m_job m" s i] j
    by (auto simp: job_of_def rows(5))
  have "m \<in> set (live_of s (m_job m))" using m by (auto simp: live_of_def live_state_def claimable_def)
  then have st: "j_state j = JQueued \<or> j_state j = JCanceled"
    using wq_ok_slice[OF ok, of "m_job m"] j m(2) by (auto simp: list_all_iff message_ok_def claimable_def)
  have "holder_of s (m_job m) = None" by (rule free_holder[OF ok j]) (use st in \<open>auto simp: working_def\<close>)
  then show ?thesis using st
    by (intro lives_one[where k = "m_job m"]) (auto simp: life_of_def job j holder_of_def act l intro: life_claim)
qed

lemma lives_claim:
  assumes ok: "wq_ok s" and st: "HandleClaimNext e sid secs s = Inr (r, s')"
  shows "lives e (Claim sid secs) s s'"
proof -
  obtain x s1 where x: "session_of s sid = Some x" "expireLeases e (s_run x) s = Inr s1"
    using st by (auto simp: HandleClaimNext_def check_simps)
  have ok1: "wq_ok s1" by (rule expireLeases_ok[OF ok x(2)])
  have sx: "s_id x = sid" using x(1) unfolding session_of_def by (drule_tac find_SomeD) simp
  have one: "lives e (Claim sid secs) s s1" by (rule lives_expireLeases[OF ok x(2), of _ sid secs]) simp
  show ?thesis
  proof (cases "s' = s1")
    case False
    then obtain m ms j secs' where h: "claim_candidates s1 x = m # ms" "job_of s1 (m_job m) = Some j"
        "claimChosenJob e x j m secs' s1 = Inr (r, s')"
      using st x by (auto simp: HandleClaimNext_def check_simps split: if_splits list.splits)
    then have "lives e (Claim sid secs) s1 s'"
      using lives_claimChosenJob[OF ok1 _ _ h(2,3) sx] claim_candidate[of m s1 x] by auto
    with one show ?thesis by (rule lives_trans)
  qed (simp add: one)
qed

lemma inflight_jobD:
  assumes "inflight_job s sid = Some j"
  shows "\<exists>l \<in> set (w_leases s). l_owner l = sid \<and> job_of s (l_job l) = Some j \<and> j_state j \<in> {JClaimed, JRunning, JStaleLease}"
proof -
  let ?ls = "rev (sort_key l_acquired (filter (\<lambda>l. l_owner l = sid \<and>
    (case job_of s (l_job l) of None \<Rightarrow> False | Some j \<Rightarrow> j_state j \<in> {JClaimed, JRunning, JStaleLease})) (w_leases s)))"
  obtain l ls where ls: "?ls = l # ls" and j: "job_of s (l_job l) = Some j"
    using assms by (auto simp: inflight_job_def split: list.splits)
  have "l \<in> set ?ls" using ls by (metis list.set_intros(1))
  then show ?thesis using j by auto
qed

lemma lives_close_session:
  assumes ok: "wq_ok s" and st: "HandleCloseSession e sid r q s = Inr s'"
  shows "lives e (CloseSession sid r q) s s'"
proof -
  define s1 where "s1 = s\<lparr>w_sessions := upd (\<lambda>y. s_id y = sid) (\<lambda>y. y\<lparr>s_state := ''closed''\<rparr>) (w_sessions s)\<rparr>"
  have v1: "life_of s1 = life_of s" by (rule life_of_cong) (simp_all add: s1_def)
  consider "s' = s" | "s' = s1" | j b where "q" "inflight_job s1 sid = Some j" "requeueJobSameAttempt e j s1 = Inr (b, s')"
    using st by (auto simp: HandleCloseSession_def check_simps Let_def simp flip: s1_def split: if_splits option.splits)
  then show ?thesis
  proof cases
    case 3
    obtain l :: wlease where "job_of s1 (l_job l) = Some j" "j_state j \<in> {JClaimed, JRunning, JStaleLease}"
      using inflight_jobD[OF 3(2)] by blast
    then have "job_of s1 (j_id j) = Some j" "working (j_state j) \<or> j_state j = JStaleLease"
      using job_ofD by (fastforce simp: working_def)+
    then have "lives e (CloseSession sid r True) s1 s'"
      by (intro lives_requeue[OF 3(3)]) (auto intro: life_requeue)
    then show ?thesis using 3(1) lives_trans[OF lives_same[OF v1]] by simp
  qed (simp_all add: lives_same v1)
qed

lemma lives_cancel:
  assumes ok: "wq_ok s" and st: "cancelRunInTx run s = Inr s'"
  shows "lives e (CancelRun run) s s'"
proof -
  define c where "c = (\<lambda>j :: wjob. j_run j = run \<and> j_state j \<in> {JBlocked, JQueued, JClaimed, JRunning, JStaleLease, JWaitingHuman})"
  let ?f = "\<lambda>j :: wjob. j\<lparr>j_state := JCanceled\<rparr>"
  let ?t = "release_run_leases run (s\<lparr>w_jobs := upd c ?f (w_jobs s)\<rparr>)"
  have act: "active_of (release_run_leases run u) k = filter (\<lambda>l. l_run l \<noteq> run) (active_of u k)" for u k
    by (auto simp: release_run_leases_def active_of_def set_leases_def filter_upd_drop intro!: filter_cong)
  have act_t: "active_of ?t k = filter (\<lambda>l. l_run l \<noteq> run) (active_of s k)" for k
    unfolding act by (simp add: active_of_def)
  have job: "job_of ?t k = map_option (\<lambda>j. if c j then ?f j else j) (job_of s k)" for k
    by (simp add: release_run_leases_def slice_simps) (simp add: job_of_def find_upd)
  have job1: "job_of (release_run_leases run s) = job_of s" by (simp add: release_run_leases_def slice_simps)
  have stay: "filter (\<lambda>l. l_run l \<noteq> run) (active_of s k) = (if j_run j = run then [] else active_of s k)"
    if "job_of s k = Some j" for k j
    using wq_ok_slice[OF ok, of k] that by (auto simp: list_all_iff lease_ok_def filter_empty_conv filter_id_conv)
  have rel: "lives e (CancelRun run) s (release_run_leases run s)"
    unfolding lives_def
  proof
    fix k show "rel_option (life e (CancelRun run))\<^sup>*\<^sup>* (life_of s k) (life_of (release_run_leases run s) k)"
      using stay[of k] by (cases "job_of s k") (auto simp: life_of_def job1 holder_of_def act intro!: r_into_rtranclp life_cancel_again)
  qed
  have "lives e (CancelRun run) s ?t"
    unfolding lives_def
  proof
    fix k show "rel_option (life e (CancelRun run))\<^sup>*\<^sup>* (life_of s k) (life_of ?t k)"
    proof (cases "job_of s k")
      case (Some j)
      show ?thesis
      proof (cases "c j")
        case True
        then have "j_run j = run" "life e (CancelRun run) (j_state j, h) (JCanceled, None)" for h
          by (auto simp: c_def intro: life_cancel)
        then show ?thesis using Some True stay[OF Some]
          by (auto simp: life_of_def job holder_of_def act_t intro!: r_into_rtranclp)
      next
        case False
        then show ?thesis using Some stay[OF Some]
          by (auto simp: life_of_def job holder_of_def act_t intro!: r_into_rtranclp life_cancel_again)
      qed
    qed (simp add: life_of_def job)
  qed
  then have "lives e (CancelRun run) s (set_run run g ?t)" for g
    using lives_trans[OF _ lives_same[OF life_tables(1)]] by blast
  then show ?thesis using st rel lives_trans[OF _ lives_same[OF life_tables(2)]]
    unfolding cancelRunInTx_def c_def by (auto simp: check_simps split: if_splits)
qed

lemma resetD:
  assumes "resetJobToBlocked why k s = Inr s'"
  shows "w_jobs s' = w_jobs (set_job k
      (\<lambda>j. j\<lparr>j_state := JBlocked, j_lease := None, j_message := None, j_attempt := j_attempt j + 1\<rparr>) s)"
    "w_leases s' = w_leases (set_leases (\<lambda>l. l_job l = k \<and> l_state l = LActive)
      (\<lambda>l. l\<lparr>l_state := LReleased, l_reason := (if why = [] then ''revision_cycle'' else why)\<rparr>) s)"
proof -
  obtain u where "set_msgs (\<lambda>m. m_job m = k \<and> (live_state (m_state m) \<or> m_state m = MBlocked))
        (\<lambda>m. m\<lparr>m_state := MCanceled, m_lease := None\<rparr>) (set_leases (\<lambda>l. l_job l = k \<and> l_state l = LActive)
          (\<lambda>l. l\<lparr>l_state := LReleased, l_reason := (if why = [] then ''revision_cycle'' else why)\<rparr>) s) = Inr u"
      "s' = set_job k (\<lambda>j. j\<lparr>j_state := JBlocked, j_lease := None, j_message := None, j_attempt := j_attempt j + 1\<rparr>)
          (u\<lparr>w_blockers := upd (\<lambda>b. b_job b = Some k \<and> b_open b) (\<lambda>b. b\<lparr>b_open := False\<rparr>) (w_blockers u)\<rparr>)"
    using assms unfolding resetJobToBlocked_def Let_def bind_ok_Inr by auto
  then show "w_jobs s' = w_jobs (set_job k
      (\<lambda>j. j\<lparr>j_state := JBlocked, j_lease := None, j_message := None, j_attempt := j_attempt j + 1\<rparr>) s)"
    "w_leases s' = w_leases (set_leases (\<lambda>l. l_job l = k \<and> l_state l = LActive)
      (\<lambda>l. l\<lparr>l_state := LReleased, l_reason := (if why = [] then ''revision_cycle'' else why)\<rparr>) s)"
    using set_msgs_tables(3,4) by (simp_all add: set_job_def tables_set_leases)
qed

lemma lives_reset:
  assumes ok: "wq_ok s" and st: "resetJobToBlocked why k s = Inr s'"
    and j: "\<And>j. job_of s k = Some j \<Longrightarrow> j_state j \<in> {JBlocked, JCompleted, JFailed, JCanceled, JSkipped, JWaitingHuman}"
    and c: "reopens c"
  shows "lives e c s s'"
proof -
  let ?g = "\<lambda>l. l\<lparr>l_state := LReleased, l_reason := (if why = [] then ''revision_cycle'' else why)\<rparr>"
  let ?f = "\<lambda>j. j\<lparr>j_state := JBlocked, j_lease := None, j_message := None, j_attempt := j_attempt j + 1\<rparr>"
  have "life_of s' = life_of (set_job k ?f (set_leases (\<lambda>l. l_job l = k \<and> l_state l = LActive) ?g s))"
    using resetD[OF st] by (intro life_of_cong) (simp_all add: set_job_def tables_set_leases set_leases_def)
  then show ?thesis
  proof (rule lives_drop[rotated 2])
    fix j assume "job_of s k = Some j"
    moreover from this have "holder_of s k = None" using free_holder[OF ok] j[of j] by (auto simp: working_def)
    ultimately show "(j_state j, holder_of s k) = (j_state (?f j), None) \<or>
        life e c (j_state j, holder_of s k) (j_state (?f j), None)"
      using life_reset[of "j_state j" c] j c by simp
  qed simp_all
qed

lemma reset_job_state:
  "resetJobToBlocked why k s = Inr s' \<Longrightarrow>
   job_of s' i = (if i = k then map_option (\<lambda>j. j\<lparr>j_state := JBlocked, j_lease := None, j_message := None, j_attempt := j_attempt j + 1\<rparr>) (job_of s k) else job_of s i)"
  by (subst job_of_set_job[symmetric]) (simp_all add: job_of_def resetD(1))

definition resettable :: "job_state \<Rightarrow> bool" where
  "resettable st \<longleftrightarrow> st \<in> {JBlocked, JCompleted, JFailed, JCanceled, JSkipped, JWaitingHuman}"

lemma lives_reset_each:
  "wq_ok s \<Longrightarrow> reset_each ks s = Inr s' \<Longrightarrow> \<forall>k \<in> set ks. pred_option (\<lambda>j. resettable (j_state j)) (job_of s k) \<Longrightarrow>
   reopens c \<Longrightarrow> lives e c s s' \<and> wq_ok s' \<and>
   (\<forall>i. pred_option (\<lambda>j. resettable (j_state j)) (job_of s i) \<longrightarrow> pred_option (\<lambda>j. resettable (j_state j)) (job_of s' i))"
proof (induction ks arbitrary: s)
  case (Cons k ks)
  obtain s1 where s1: "resetJobToBlocked ''revision_cycle'' k s = Inr s1" "reset_each ks s1 = Inr s'"
    using Cons.prems(2) by (auto simp: check_simps)
  have ok1: "wq_ok s1" by (rule reset_ok[OF Cons.prems(1) s1(1)])
  have keep: "pred_option (\<lambda>j. resettable (j_state j)) (job_of s1 i)"
    if "pred_option (\<lambda>j. resettable (j_state j)) (job_of s i)" for i
    using that by (cases "job_of s i") (auto simp: reset_job_state[OF s1(1)] resettable_def)
  have "lives e c s s1"
    by (rule lives_reset[OF Cons.prems(1) s1(1)]) (use Cons.prems(3,4) in \<open>auto simp: resettable_def\<close>)
  then show ?case using Cons.IH[OF ok1 s1(2)] Cons.prems(3,4) keep lives_trans by (meson list.set_intros(2))
qed (simp add: lives_same)

lemma downstream_resettable:
  assumes "wq_ok s" "i \<in> set (downstream_jobs s k)"
  shows "pred_option (\<lambda>j. resettable (j_state j)) (job_of s i)"
proof -
  obtain i' where i': "i' \<in> set (w_jobs s)" "j_id i' = i" "resettable (j_state i')"
    using assms(2) by (auto simp: downstream_jobs_def resettable_def)
  then have "job_of s i = Some i'"
    using find_key[of j_id "w_jobs s" i'] wq_ok_keys[OF assms(1)] by (auto simp: job_of_def keys_ok_def)
  then show ?thesis using i'(3) by simp
qed

lemma life_of_bump [simp]: "life_of (bumpReviewGeneration e k s) = life_of s"
proof -
  have "life_of (set_job k (\<lambda>j. j\<lparr>j_generation := j_generation j + 1\<rparr>) s) i = life_of s i" for i
    by (simp add: life_of_set_job) (simp add: life_of_def)
  then show ?thesis by (auto simp: bumpReviewGeneration_def)
qed

text \<open>A job and what finished downstream of it are reset, and the job is enqueued.\<close>

lemma lives_reset_and_enqueue:
  assumes ok: "wq_ok s" and j: "pred_option (\<lambda>j. resettable (j_state j)) (job_of s k)" and c: "reopens c"
    and st: "reset_each (downstream_jobs s k) s = Inr s1" "resetJobToBlocked why k s1 = Inr s2"
    "wq_ok s2 \<Longrightarrow> wq_ok s3" "life_of s3 = life_of s2" "enqueueJob e k s3 = Inr s'"
  shows "lives e c s s'"
proof -
  have l1: "lives e c s s1" "wq_ok s1" "pred_option (\<lambda>j. resettable (j_state j)) (job_of s1 k)"
    using lives_reset_each[OF ok st(1) _ c] downstream_resettable[OF ok] j by auto
  have ok2: "wq_ok s2" by (rule reset_ok[OF l1(2) st(2)])
  have l2: "lives e c s1 s2" by (rule lives_reset[OF l1(2) st(2) _ c]) (use l1(3) in \<open>auto simp: resettable_def\<close>)
  have l3: "lives e c s3 s'" by (rule lives_enqueue[OF st(3)[OF ok2] st(5) life_retry[OF c]])
  show ?thesis by (rule lives_trans[OF l1(1) lives_trans[OF l2 lives_trans[OF lives_same[OF st(4)] l3]]])
qed

lemma lives_reopen:
  assumes ok: "wq_ok s" and j: "pred_option (\<lambda>j. resettable (j_state j)) (job_of s k)" and c: "reopens c"
    and st: "reopenJobForAttempt e k why s = Inr s'"
  shows "lives e c s s'"
proof -
  obtain s1 s2 where "reset_each (downstream_jobs s k) s = Inr s1"
      "resetJobToBlocked (if why = [] then ''reopened'' else why) k s1 = Inr s2"
      "enqueueJob e k (bumpReviewGeneration e k s2) = Inr s'"
    using st unfolding reopenJobForAttempt_def bind_ok_Inr by blast
  then show ?thesis using bump_ok by (intro lives_reset_and_enqueue[OF ok j c]) auto
qed

lemma lives_retry:
  assumes ok: "wq_ok s" and st: "HandleRunRetryJob e run k allow s = Inr s'"
  shows "lives e (RetryJob run k allow) s s'"
  using st
proof (rule retryD)
  fix j s1
  assume "job_of s k = Some j" "j_state j \<in> {JFailed, JCanceled, JBlocked, JCompleted}"
    and s1: "reopenJobForAttempt e k ''retry_job'' s = Inr s1" "s' = s1 \<or> s' = set_run run (\<lambda>r. r\<lparr>r_state := RRunning\<rparr>) s1"
  then have "lives e (RetryJob run k allow) s s1" by (intro lives_reopen[OF ok _ _ s1(1)]) (auto simp: resettable_def)
  then show ?thesis using s1(2) lives_trans[OF _ lives_same[OF life_tables(1)]] by blast
qed

lemma lives_transfer:
  assumes ok: "wq_ok s"
  shows "lives e (RequeueStale run k True why) s (operator_transfer k s)"
proof (rule lives_drop)
  show "life_of (operator_transfer k s) = life_of (set_job k (\<lambda>j. if j_state j \<in> {JClaimed, JRunning} then j\<lparr>j_state := JStaleLease\<rparr> else j)
      (set_leases (\<lambda>l. l_job l = k \<and> l_state l = LActive) (\<lambda>l. l\<lparr>l_state := LExpired, l_reason := ''operator_transfer''\<rparr>) s))"
    by (simp add: operator_transfer_def)
  fix j assume "job_of s k = Some j"
  then show "(j_state j, holder_of s k) = (j_state (if j_state j \<in> {JClaimed, JRunning} then j\<lparr>j_state := JStaleLease\<rparr> else j), None) \<or>
      life e (RequeueStale run k True why) (j_state j, holder_of s k)
        (j_state (if j_state j \<in> {JClaimed, JRunning} then j\<lparr>j_state := JStaleLease\<rparr> else j), None)"
    using free_holder[OF ok, of k j] by (auto simp: working_def intro: life_transfer)
qed simp_all

lemma stale_rowD:
  assumes "stale_row s run k = Inr j"
  shows "j \<in> set (w_jobs s)" "j_id j = k" "working (j_state j) \<or> j_state j = JStaleLease \<or> j_state j = JQueued \<or> j_state j = JBlocked"
  using assms by (auto simp: stale_row_def Let_def working_def split: if_splits dest: find_SomeD)

lemma stale_row_free:
  assumes ok: "wq_ok s" and st: "stale_row s run k = Inr j"
  shows "job_of s k = Some j" "holder_of s k = None"
proof -
  show j: "job_of s k = Some j"
    using find_key[of j_id "w_jobs s" j] stale_rowD[OF st] wq_ok_keys[OF ok] by (auto simp: job_of_def keys_ok_def)
  show "holder_of s k = None"
  proof (cases "list_ex (\<lambda>l. l_job l = k \<and> l_state l = LActive) (w_leases s)")
    case True
    then have "j_state j \<in> {JQueued, JBlocked, JStaleLease}"
      using st by (auto simp: stale_row_def Let_def split: if_splits)
    then show ?thesis by (intro free_holder[OF ok j]) (auto simp: working_def)
  next
    case False
    then have "active_of s k = []" by (auto simp: active_of_def filter_empty_conv list_ex_iff)
    then show ?thesis by (simp add: holder_of_def)
  qed
qed

lemma lives_requeue_stale:
  assumes ok: "wq_ok s" and st: "HandleRecoveryRequeueStale e run k force why s = Inr s'"
  shows "lives e (RequeueStale run k force why) s s'"
proof -
  let ?c = "RequeueStale run k force why"
  define t where "t = (\<lambda>s1. if force then operator_transfer k s1 else s1)"
  obtain s1 j b where s1: "expireLeases e run s = Inr s1" "stale_row (t s1) run k = Inr j"
      "requeueJobSameAttempt e j (t s1) = Inr (b, s')"
    using st unfolding t_def by (auto simp: HandleRecoveryRequeueStale_def Let_def bind_ok_Inr guard_ok_Inr fetch_Inr)
  have ok1: "wq_ok s1" by (rule expireLeases_ok[OF ok s1(1)])
  have okt: "wq_ok (t s1)" using ok1 by (simp add: t_def force_ok)
  note row = stale_rowD[OF s1(2)] and free = stale_row_free[OF okt s1(2)]
  have "lives e ?c s s1" by (rule lives_expireLeases[OF ok s1(1), where run' = run and k = k and force = force and why = why]) simp
  moreover have "lives e ?c s1 (t s1)" using lives_transfer[OF ok1] by (auto simp: t_def lives_same)
  moreover have "lives e ?c (t s1) s'"
    by (rule lives_requeue[OF s1(3)]) (use row free in \<open>auto intro: life_requeue_stale\<close>)
  ultimately show ?thesis using lives_trans by blast
qed

lemma lives_sweep:
  assumes ok: "wq_ok s" and st: "sweep_requeue e k s = Inr s'"
  shows "lives e (SweepRequeue k) s s'"
proof -
  obtain j where j: "job_of s k = Some j" using st by (auto simp: sweep_requeue_def check_simps)
  show ?thesis
  proof (cases "j_state j \<in> {JClaimed, JRunning, JStaleLease, JQueued}")
    case True
    then obtain b where "requeueJobSameAttempt e j s = Inr (b, s')"
      using st j by (auto simp: sweep_requeue_def check_simps)
    then show ?thesis using True j job_ofD[OF j]
      by (intro lives_requeue) (auto simp: working_def intro: life_requeue)
  next
    case False
    then show ?thesis using st j by (auto simp: sweep_requeue_def check_simps intro: lives_same)
  qed
qed

text \<open>What does not write a job or a lease moves no job.\<close>

lemma life_of_same_work: "same_work s s' \<Longrightarrow> life_of s' = life_of s"
  by (rule life_of_cong) (simp_all add: same_work_def)

lemma lives_finish:
  assumes ok: "wq_ok s" and st: "enqueue_and_finish e j s = Inr s'" and c: "enqueues c"
  shows "lives e c s s'"
proof -
  obtain s1 where "maybeEnqueueDownstream e (j_id j) s = Inr s1" "maybeCompleteRun e (j_run j) s1 = Inr s'"
    using st by (auto simp: enqueue_and_finish_def check_simps)
  then show ?thesis using lives_enqueues[OF ok _ c] lives_same[OF lives_maybeComplete] lives_trans by blast
qed

lemma settle_other_jobs: "settle_rows jst mst why j lid s = Inr s' \<Longrightarrow> i \<noteq> j_id j \<Longrightarrow> job_of s' i = job_of s i"
  unfolding settle_rows_def Let_def bind_ok_Inr
  by (auto simp: slice_simps dest!: set_msgs_tables(1) split: option.splits)

lemma latest_job_row:
  assumes "latestJobForWorkflowID s run seat = Some t"
  shows "t \<in> set (w_jobs s) \<and> j_run t = run \<and> j_workflow_job t = seat"
proof -
  obtain ts where "sort_key (\<lambda>j. - j_attempt j) (sort_key (\<lambda>j. - j_created j)
      (filter (\<lambda>j. j_run j = run \<and> j_workflow_job j = seat) (w_jobs s))) = t # ts"
    using assms by (auto simp: latestJobForWorkflowID_def split: list.splits)
  then have "t \<in> set (sort_key (\<lambda>j. - j_attempt j) (sort_key (\<lambda>j. - j_created j)
      (filter (\<lambda>j. j_run j = run \<and> j_workflow_job j = seat) (w_jobs s))))"
    by (metis list.set_intros(1))
  then show ?thesis by simp
qed

text \<open>The verdict of a running review.\<close>

lemma lives_review:
  assumes "wq_ok s" "job_of s k = Some j" "j_state j = JRunning" "active_lease_for e s lid sid k = Inr l"
    "settle_rows jst mst why j lid s = Inr s'" "reviewer c = Some sid" "jst \<in> {JCompleted, JFailed, JWaitingHuman}"
  shows "lives e c s s'"
  by (rule lives_settle[OF assms(1,2,4,5)]) (use assms in \<open>simp add: life_verdict\<close>)

lemma lives_complete_review:
  assumes "wq_ok s" "job_of s k = Some j" "j_state j = JRunning" "active_lease_for e s lid sid k = Inr l"
    "completeReviewJob e j lid s = Inr s'" "reviewer c = Some sid"
  shows "lives e c s s'"
  using assms by (auto simp: completeReviewJob_def check_simps intro: lives_review)

lemma lives_checkpoint:
  assumes ok: "wq_ok s" and j: "job_of s k = Some j" "j_state j = JRunning" and al: "active_lease_for e s lid sid k = Inr l"
    and st: "openHumanCheckpoint e' sid' j lid s = Inr s'" and c: "reviewer c = Some sid"
  shows "lives e c s s'"
proof -
  obtain t where t: "same_work s t" "settle_rows JWaitingHuman MBlocked ''needs_revision'' j lid t = Inr s'"
    by (rule that[OF _ st[unfolded openHumanCheckpoint_def]]) (simp add: same_work_def)
  have "wq_ok t" "job_of t k = Some j" "active_lease_for e t lid sid k = Inr l"
    using ok j al same_work_ok[OF t(1)] same_work_job[OF t(1)] same_work_lease[OF t(1)] by simp_all
  then have "lives e c t s'" using t(2) j(2) c by (auto intro: lives_review)
  then show ?thesis using lives_trans[OF lives_same[OF life_of_same_work[OF t(1)]]] by blast
qed

lemma lives_route:
  assumes ok: "wq_ok s" and j: "job_of s k = Some j" "j_state j = JRunning" and al: "active_lease_for e s lid sid k = Inr l"
    and st: "routeRevisionCycle e j lid cy s = Inr (Some s')" and c: "reviewer c = Some sid" "reopens c"
  shows "lives e c s s'"
proof (rule routeRevisionCycleD[OF st])
  fix target s1 n s2 s3
  assume t: "latestJobForWorkflowID s (j_run j) (rc_to cy) = Some target" and s1: "completeReviewJob e j lid s = Inr s1"
    and s2: "s2 = s1\<lparr>w_routed := w_routed s1 @ [\<lparr>rt_run = j_run j, rt_from = rc_from cy, rt_to = rc_to cy,
       rt_iteration = countRevisionRoutings s (j_run j) cy + 1, rt_in_flight = n\<rparr>]\<rparr>"
    and s3: "(if \<not> isTerminalJobState (j_state target) then Inr s2
      else reopenJobForAttempt e (j_id target) ''revision_cycle'' s2) = Inr s3"
    and fin: "maybeCompleteRun e (j_run j) s3 = Inr s'"
  have same: "same_work s1 s2" by (simp add: s2 same_work_def)
  have ok1: "wq_ok s1" by (rule completeReviewJob_ok[OF ok j(1) al s1])
  have ok2: "wq_ok s2" using ok1 same_work_ok[OF same] by simp
  have l1: "lives e c s s2"
    using lives_complete_review[OF ok j al s1 c(1)] lives_same[OF life_of_same_work[OF same]] lives_trans by blast
  have "lives e c s2 s3"
  proof (cases "isTerminalJobState (j_state target)")
    case True
    have "target \<in> set (w_jobs s)" using latest_job_row[OF t] by simp
    then have tj: "job_of s (j_id target) = Some target"
      using find_key[of j_id "w_jobs s" target] wq_ok_keys[OF ok] by (auto simp: job_of_def keys_ok_def)
    have "j_id target \<noteq> j_id j"
    proof
      assume "j_id target = j_id j"
      then have "target = j" using tj j(1) job_ofD[OF j(1)] by simp
      then show False using True j(2) by (simp add: isTerminalJobState_def)
    qed
    then have "job_of s2 (j_id target) = Some target"
      using s1 tj settle_other_jobs same_work_job[OF same] by (auto simp: completeReviewJob_def check_simps)
    then show ?thesis using s3 True
      by (intro lives_reopen[OF ok2 _ c(2)]) (auto simp: isTerminalJobState_def resettable_def)
  qed (use s3 in \<open>simp add: lives_same\<close>)
  then show ?thesis using l1 lives_same[OF lives_maybeComplete[OF fin]] lives_trans by blast
qed

lemma lives_verdict:
  assumes ok: "wq_ok s" and st: "recordVerdict e nb sid k lid verdict dec s = Inr (w, s')"
    and c: "reviewer c = Some sid" "reopens c" "enqueues c"
  shows "lives e c s s'"
proof (rule recordVerdictD[OF st])
  fix j l ov
  assume j: "job_of s k = Some j" "j_state j = JRunning" and al: "active_lease_for e s lid sid k = Inr l"
    and av: "applyVerdict e sid lid verdict (ov \<or> e_overridden e k sid) j s = Inr (w, s')"
  show ?thesis
  proof (rule applyVerdictD[OF av])
    fix u assume same: "same_work s u"
      and b: "isAcceptingVerdict verdict \<and> apply_accept e j lid u = Inr (w, s') \<or>
       verdict = ''needs_revision'' \<and> apply_needs_revision e sid j lid u = Inr (w, s') \<or>
       verdict = ''reject'' \<and> apply_reject e j lid u = Inr (w, s')"
    have h: "wq_ok u" "job_of u k = Some j" "active_lease_for e u lid sid k = Inr l"
      using ok j al same_work_ok[OF same] same_work_job[OF same] same_work_lease[OF same] by simp_all
    have ended: "lives e c u v" if "completeReviewJob e j lid u = Inr t" "enqueue_and_finish e j t = Inr v \<or> maybeCompleteRun e r t = Inr v" for t v r
      using that lives_complete_review[OF h(1,2) j(2) h(3) that(1) c(1)] completeReviewJob_ok[OF h that(1)]
        lives_finish[OF _ _ c(3)] lives_same[OF lives_maybeComplete] lives_trans by blast
    consider t where "completeReviewJob e j lid u = Inr t" "enqueue_and_finish e j t = Inr s' \<or> maybeCompleteRun e (j_run j) t = Inr s'"
      | cy where "routeRevisionCycle e j lid cy u = Inr (Some s')" | "openHumanCheckpoint e sid j lid u = Inr s'"
      | t where "settle_rows JFailed MCompleted ''reject'' j lid u = Inr t" "maybeCompleteRun e (j_run j) t = Inr s'"
      using b unfolding apply_accept_def apply_needs_revision_def apply_reject_def failReviewJob_def
      by (auto simp: check_simps split: option.splits if_splits)
    then have "lives e c u s'"
    proof cases
      case 1 then show ?thesis by (rule ended)
    next
      case 2 then show ?thesis by (rule lives_route[OF h(1,2) j(2) h(3) _ c(1,2)])
    next
      case 3 then show ?thesis by (rule lives_checkpoint[OF h(1,2) j(2) h(3) _ c(1)])
    next
      case 4
      then have "lives e c u t" by (intro lives_review[OF h(1,2) j(2) h(3) _ c(1)]) auto
      then show ?thesis using lives_same[OF lives_maybeComplete[OF 4(2)]] lives_trans by blast
    qed
    then show ?thesis using lives_trans[OF lives_same[OF life_of_same_work[OF same]]] by blast
  qed
qed

lemma lives_submit:
  assumes ok: "wq_ok s" and st: "HandleSubmitReview e sid k lid path verdict dec s = Inr (w, s')"
  shows "lives e (SubmitReview sid k lid path verdict dec) s s'"
proof (rule HandleSubmitReviewD[OF st])
  fix j s1
  assume one: "(j_state j = JClaimed \<and> (\<exists>mid. j_message j = Some mid \<and> ackInline e sid mid lid s = Inr s1)) \<or> s1 = s"
    and rv: "recordVerdict e False sid k lid (normalizeVerdict verdict) dec s1 = Inr (w, s')"
  have "wq_ok s1 \<and> lives e (SubmitReview sid k lid path verdict dec) s s1"
    using one lives_ack_inline[OF ok] ackInline_ok[OF ok] by (auto intro: lives_same ok)
  then show ?thesis using lives_verdict[OF _ rv] lives_trans by auto
qed

section \<open>The operator\<close>

lemma lives_end_waiting:
  assumes ok: "wq_ok s" and j: "job_of s k = Some j" "j_state j = JWaitingHuman" and st: "end_waiting f mst j s = Inr s'"
    and f: "\<And>j. j_id (f j) = j_id j \<and> j_state (f j) = st'" and move: "life e c (JWaitingHuman, None) (st', None)"
  shows "lives e c s s'"
proof (rule lives_one[where k = k])
  have "life_of s' = life_of (set_job k f s)"
    using st job_ofD[OF j(1)] by (auto simp: end_waiting_def Let_def split: option.splits dest: life_of_set_msgs)
  then have s': "life_of s' i = (if i = k then map_option (\<lambda>a. (st', snd a)) (life_of s k) else life_of s i)" for i
    using life_of_set_state[of f st', OF f] by simp
  have "holder_of s k = None" by (rule free_holder[OF ok j(1)]) (simp add: j(2) working_def)
  then have "life_of s k = Some (JWaitingHuman, None)" using j by (simp add: life_of_def)
  then show "\<exists>b. life_of s' k = Some b \<and> (a = b \<or> life e c a b)" if "life_of s k = Some a" for a
    using that s' move by auto
  show "life_of s' k = None" if "life_of s k = None" using that s' by simp
  show "life_of s' i = life_of s i" if "i \<noteq> k" for i using that s' by simp
qed

lemma lives_override:
  assumes ok: "wq_ok s" and st: "HandleOverrideVerdict e sid k verdict why auto s = Inr s'"
  shows "lives e (OverrideVerdict sid k verdict why auto) s s'" (is "lives e ?c s s'")
proof (rule HandleOverrideVerdictD[OF st])
  fix j sid' t
  assume j: "job_of s k = Some j" and same: "same_work s t" and b: "s' = t \<or> apply_override e sid' j verdict t = Inr s'"
  have "lives e ?c t s'" if ao: "apply_override e sid' j verdict t = Inr s'"
  proof -
    obtain s1 s2 where sv: "store_verdict (override_verdict e sid' j verdict (now_string e) t) t = Inr s1"
      and s2: "(if j_state j = JWaitingHuman
         then bind_ok (end_waiting (\<lambda>r. r\<lparr>j_state := JCompleted, j_lease := None\<rparr>) MCompleted j s1) (\<lambda>s2.
                 Inr (close_blockers (\<lambda>b. b_job b = Some (j_id j) \<and> b_open b \<and> b_severity b = ''human_checkpoint'' \<and>
                   b_kind b = ''revision_routing'') s2))
         else Inr s1) = Inr s2" and fin: "enqueue_and_finish e j s2 = Inr s'"
      using ao unfolding apply_override_def bind_ok_Inr by blast
    note s1 = same_work_rows(1)[OF sv]
    have h: "wq_ok s1" "job_of s1 k = Some j"
      using ok j same_work_ok[OF same] same_work_ok[OF s1] same_work_job[OF same] same_work_job[OF s1] by simp_all
    have "lives e ?c s1 s2 \<and> wq_ok s2"
    proof (cases "j_state j = JWaitingHuman")
      case True
      then obtain u where u: "end_waiting (\<lambda>r. r\<lparr>j_state := JCompleted, j_lease := None\<rparr>) MCompleted j s1 = Inr u"
          "same_work u s2"
        using s2 same_work_rows(4) by (auto simp: check_simps)
      have "wq_ok u" by (rule end_waiting_ok[OF h _ _ u(1)]) (use True in \<open>auto simp: live_state_def\<close>)
      moreover have "lives e ?c s1 u"
        by (rule lives_end_waiting[OF h True u(1)]) (auto intro: life_override)
      ultimately show ?thesis
        using same_work_ok[OF u(2)] lives_trans[OF _ lives_same[OF life_of_same_work[OF u(2)]]] by blast
    qed (use s2 h in \<open>simp add: lives_same\<close>)
    then have "lives e ?c s1 s'" using lives_finish[OF _ fin, of ?c] lives_trans by auto
    then show ?thesis using lives_trans[OF lives_same[OF life_of_same_work[OF s1]]] by blast
  qed
  then show ?thesis using b lives_trans[OF lives_same[OF life_of_same_work[OF same]]] lives_same by blast
qed

lemma lives_resolve_checkpoint:
  assumes ok: "wq_ok s" and st: "HandleCheckpointResolve e bid action dec s = Inr s'"
  shows "lives e (ResolveCheckpoint bid action dec) s s'" (is "lives e ?c s s'")
proof (rule HandleCheckpointResolveD[OF st])
  fix b outcome
  assume h: "action = ''continue'' \<and> checkpoint_continue e b s = Inr s' \<or>
    action = ''override'' \<and> checkpoint_override e b outcome s = Inr s' \<or> action = ''cancel'' \<and> checkpoint_cancel e b s = Inr s'"
  let ?u = "close_blockers (\<lambda>r. b_id r = b_id b) s"
  have u: "wq_ok ?u" "job_of ?u = job_of s" "lives e ?c s ?u"
    using same_work_close ok lives_same[OF life_of_same_work[OF same_work_rows(4)]] by auto
  have "lives e ?c ?u s'" if "checkpoint_continue e b s = Inr s'"
    using that u(1,2) unfolding checkpoint_continue_def Let_def
    by (auto simp: check_simps lives_same resettable_def split: option.splits intro!: lives_reopen)
  moreover have "lives e ?c ?u s'" if co: "checkpoint_override e b outcome s = Inr s'"
  proof (rule checkpoint_overrideD[OF co])
    fix k j s1 s2 v s3
    assume j: "job_of s k = Some j" "j_state j = JWaitingHuman"
      and s1: "end_waiting (\<lambda>r. r\<lparr>j_state := JCompleted, j_lease := None, j_message := None\<rparr>) MCompleted j ?u = Inr s1"
      and r: "same_work s1 s2" "store_verdict v s2 = Inr s3" "enqueue_and_finish e (j\<lparr>j_run := b_run b\<rparr>) s3 = Inr s'"
    have j': "job_of ?u k = Some j" using j(1) u(2) by simp
    have ok1: "wq_ok s1" by (rule end_waiting_ok[OF u(1) j' _ _ s1]) (auto simp: j(2) live_state_def)
    have same: "same_work s1 s3" using r(1) same_work_rows(1)[OF r(2)] same_work_trans by blast
    have "lives e ?c ?u s1" by (rule lives_end_waiting[OF u(1) j' j(2) s1]) (auto intro: life_override)
    moreover have "lives e ?c s3 s'" using lives_finish[OF _ r(3), of ?c] ok1 same_work_ok[OF same] by simp
    ultimately show ?thesis using lives_same[OF life_of_same_work[OF same]] lives_trans by blast
  qed
  moreover have "lives e ?c ?u s'" if cc: "checkpoint_cancel e b s = Inr s'"
  proof -
    obtain t where t: "t = ?u \<or> (\<exists>k j. job_of s k = Some j \<and> j_state j = JWaitingHuman \<and>
        end_waiting (\<lambda>r. r\<lparr>j_state := JCanceled, j_lease := None, j_message := None\<rparr>) MCanceled j ?u = Inr t)"
      and fin: "maybeCompleteRun e (b_run b) t = Inr s'"
      using cc by (auto simp: checkpoint_cancel_def Let_def check_simps split: option.splits)
    have "lives e ?c ?u t" using t
    proof (elim disjE exE conjE)
      fix k j assume j: "job_of s k = Some j" "j_state j = JWaitingHuman"
        and e: "end_waiting (\<lambda>r. r\<lparr>j_state := JCanceled, j_lease := None, j_message := None\<rparr>) MCanceled j ?u = Inr t"
      show ?thesis by (rule lives_end_waiting[OF u(1) _ j(2) e]) (use j(1) u(2) in \<open>auto intro: life_checkpoint\<close>)
    qed (simp add: lives_same)
    then show ?thesis using lives_same[OF lives_maybeComplete[OF fin]] lives_trans by blast
  qed
  ultimately show ?thesis using h u(3) lives_trans by blast
qed

lemma lives_invalidate:
  assumes ok: "wq_ok s" and st: "HandleRecoveryInvalidateJob e k dec s = Inr s'"
  shows "lives e (InvalidateJob k dec) s s'"
proof (rule HandleRecoveryInvalidateJobD[OF st])
  fix j s1 s2 s3
  assume j: "job_of s k = Some j" "j_state j = JCompleted" and s1: "s1 = supersede (\<lambda>v. v_job_id v = k \<and> \<not> v_superseded v) s"
    and r: "reset_each (downstream_jobs s1 k) s1 = Inr s2" "resetJobToBlocked ''job_invalidated'' k s2 = Inr s3" "enqueueJob e k s3 = Inr s'"
  have same: "same_work s s1" using s1 same_work_rows(5) by simp
  have "lives e (InvalidateJob k dec) s1 s'"
    by (rule lives_reset_and_enqueue[OF _ _ _ r(1,2) _ _ r(3)])
      (use ok j same_work_ok[OF same] same_work_job[OF same] in \<open>auto simp: resettable_def\<close>)
  then show ?thesis using lives_trans[OF lives_same[OF life_of_same_work[OF same]]] by blast
qed

lemma lives_call:
  assumes ok: "wq_ok s" and st: "call e c s = Inr s'"
  shows "lives e c s s'"
proof (cases c)
  case (EnqueueReady run)
  then show ?thesis using st lives_ready[OF ok _ life_ready] by (auto simp: enqueueReadyBlockedJobs_def)
qed (use assms in \<open>auto simp: check_simps intro: lives_claim lives_ack lives_heartbeat lives_release lives_block
    lives_complete lives_close_session lives_cancel lives_retry lives_requeue_stale lives_sweep
    lives_verdict lives_submit lives_override lives_resolve_checkpoint lives_invalidate dest: HandleRecordVerdictD(2)\<close>)

section \<open>Simulation\<close>

text \<open>
  A store whose steps move every abstract object along its moves: what the moves of a call keep of
  an object, the call keeps of it.
\<close>

locale simulation =
  fixes step :: "'c \<Rightarrow> 's \<Rightarrow> 's \<Rightarrow> bool"
    and ok :: "'s \<Rightarrow> bool"
    and view :: "'s \<Rightarrow> 'k \<Rightarrow> 'a option"
    and move :: "'c \<Rightarrow> 'a \<Rightarrow> 'a \<Rightarrow> bool"
  assumes step_ok: "ok s \<Longrightarrow> step c s s' \<Longrightarrow> ok s'"
    and step_moves: "ok s \<Longrightarrow> step c s s' \<Longrightarrow> rel_option (move c)\<^sup>*\<^sup>* (view s k) (view s' k)"
begin

lemma kept:
  assumes "ok s" "step c s s'" "view s k = Some a" "P a" "\<And>a b. move c a b \<Longrightarrow> P a \<Longrightarrow> P b"
  shows "\<exists>b. view s' k = Some b \<and> P b"
proof -
  obtain b where b: "view s' k = Some b" "(move c)\<^sup>*\<^sup>* a b"
    using step_moves[OF assms(1,2), of k] assms(3) by (auto simp: option_rel_Some1)
  from b(2) assms(4) have "P b" by induction (auto intro: assms(5))
  with b(1) show ?thesis by blast
qed

lemma kept_along:
  assumes "(\<lambda>s s'. \<exists>c. allowed c \<and> step c s s')\<^sup>*\<^sup>* s s'" "ok s" "view s k = Some a" "P a"
    "\<And>c a b. allowed c \<Longrightarrow> move c a b \<Longrightarrow> P a \<Longrightarrow> P b"
  shows "ok s' \<and> (\<exists>b. view s' k = Some b \<and> P b)"
  using assms(1)
proof induction
  case (step s1 s2)
  then obtain c b where "allowed c" "step c s1 s2" "ok s1" "view s1 k = Some b" "P b" by blast
  then show ?case using kept[of s1 c s2 k b P] assms(5) step_ok by blast
qed (use assms in blast)

end

interpretation queue: simulation "\<lambda>c s s'. call (fst c) (snd c) s = Inr s'" wq_ok life_of "\<lambda>c. life (fst c) (snd c)"
  by unfold_locales (use call_ok lives_call in \<open>auto simp: lives_def\<close>)

section \<open>What the lifecycle says\<close>

text \<open>The calls that end the lease of a session: its own, and those that may take it away.\<close>

fun ends_lease :: "wenv \<Rightarrow> wq_call \<Rightarrow> string \<Rightarrow> instant \<Rightarrow> bool" where
  "ends_lease e (Release sid' mid lid r q tr) sid t \<longleftrightarrow> sid' = sid \<and> e_now e \<le> t"
| "ends_lease e (Block q) sid t \<longleftrightarrow> trim_space (br_session q) = sid \<and> e_now e \<le> t"
| "ends_lease e (Complete sid' k lid) sid t \<longleftrightarrow> sid' = sid \<and> e_now e \<le> t"
| "ends_lease e (Claim sid' n) sid t \<longleftrightarrow> t < now_string e"
| "ends_lease e (RequeueStale run k force why) sid t \<longleftrightarrow> force \<or> t < now_string e"
| "ends_lease e (CloseSession sid' r requeue) sid t \<longleftrightarrow> requeue"
| "ends_lease e (CancelRun run) sid t \<longleftrightarrow> True"
| "ends_lease e (SweepRequeue k) sid t \<longleftrightarrow> True"
| "ends_lease e (Ack sid' mid lid) sid t \<longleftrightarrow> False"
| "ends_lease e (Heartbeat sid' lid n w) sid t \<longleftrightarrow> False"
| "ends_lease e (Verdict sid' k lid v dec) sid t \<longleftrightarrow> sid' = sid \<and> e_now e \<le> t"
| "ends_lease e (SubmitReview sid' k lid path v dec) sid t \<longleftrightarrow> sid' = sid \<and> e_now e \<le> t"
| "ends_lease e (RetryJob run k allow) sid t \<longleftrightarrow> False"
| "ends_lease e (OverrideVerdict sid' k v why auto) sid t \<longleftrightarrow> False"
| "ends_lease e (ResolveCheckpoint bid action dec) sid t \<longleftrightarrow> False"
| "ends_lease e (InvalidateJob k dec) sid t \<longleftrightarrow> False"
| "ends_lease e (EnqueueReady run) sid t \<longleftrightarrow> False"

lemma calls_star:
  "calls cs s = Inr s' \<Longrightarrow> list_all (\<lambda>c. p (snd c)) cs \<Longrightarrow>
   (\<lambda>s s'. \<exists>c. p (snd c) \<and> call (fst c) (snd c) s = Inr s')\<^sup>*\<^sup>* s s'"
proof (induction cs arbitrary: s)
  case (Cons c cs)
  obtain s1 where s1: "call (fst c) (snd c) s = Inr s1" "calls cs s1 = Inr s'"
    using Cons.prems(1) by (auto simp: check_simps)
  have "\<exists>c. p (snd c) \<and> call (fst c) (snd c) s = Inr s1" using s1(1) Cons.prems(2) by auto
  then show ?case using Cons.IH[OF s1(2)] Cons.prems(2) by (auto intro: converse_rtranclp_into_rtranclp)
qed simp

text \<open>C18: The queue refines the lifecycle of a job. Whatever call succeeds in a reachable state, what it
  does to the rows of any job, its state and its active lease, is a sequence of moves of the
  lifecycle that the call may make, and no job disappears.\<close>

theorem queue_refines_lifecycle:
  assumes "wq_reach s" "call e c s = Inr s'"
  shows "rel_option (life e c)\<^sup>*\<^sup>* (life_of s k) (life_of s' k)"
  using queue.step_moves[OF reach_ok[OF assms(1)], of "(e, c)"] assms(2) by simp

theorem queue_refines_lifecycle_witness:
  "\<exists>s s'. call (ex_env 3) (Complete ''S'' ''A'' ''lease0'') s = Inr s' \<and>
     life_of s ''A'' = Some (JRunning, Some (''S'', seconds 61)) \<and> life_of s' ''A'' = Some (JCompleted, None) \<and>
     rel_option (life (ex_env 3) (Complete ''S'' ''A'' ''lease0''))\<^sup>*\<^sup>* (life_of s ''A'') (life_of s' ''A'')"
proof -
  have "ex_step ex_running (ex_env 3) (Complete ''S'' ''A'' ''lease0'') (\<lambda>s s'.
      life_of s ''A'' = Some (JRunning, Some (''S'', seconds 61)) \<and> life_of s' ''A'' = Some (JCompleted, None))"
    by code_simp
  then show ?thesis by (rule ex_stepD) (use queue_refines_lifecycle in blast)
qed



lemma reviewer_ends [dest]: "reviewer c = Some sid \<Longrightarrow> e_now e \<le> t \<Longrightarrow> ends_lease e c sid t"
  by (cases c) auto



end
