(* ===== verification/WorkClaims.thy ===== *)
theory WorkClaims
  imports WorkLife
begin

text \<open>
  What the queue promises: a job is worked on by one session at a time, queued work is never lost
  and is handed to the next session that fits, and a claim respects the gates of the code.
\<close>

section \<open>Claims go through\<close>

lemma filter_upd_keep_set:
  "(\<And>x. x \<in> set xs \<Longrightarrow> p x \<Longrightarrow> q (f x) \<longleftrightarrow> q x) \<Longrightarrow> filter q (upd p f xs) = upd p f (filter q xs)"
  by (induction xs) (auto simp: upd_def)

lemma filter_upd_drop_set:
  "(\<And>x. x \<in> set xs \<Longrightarrow> p x \<Longrightarrow> \<not> q (f x)) \<Longrightarrow> filter q (upd p f xs) = filter (\<lambda>x. \<not> p x) (filter q xs)"
  by (induction xs) (auto simp: upd_def)

text \<open>An update of a live message to any state stays within the index.\<close>

definition msgs_ok :: "wq \<Rightarrow> bool" where
  "msgs_ok s \<longleftrightarrow>
     distinct (map m_id (w_msgs s)) \<and> distinct (map m_job (filter (\<lambda>m. live_state (m_state m)) (w_msgs s)))"

lemma wq_ok_msgs:
  assumes "wq_ok s"
  shows "msgs_ok s"
proof -
  let ?L = "filter (\<lambda>m. live_state (m_state m)) (w_msgs s)"
  have "distinct ?L" using wq_ok_keys[OF assms] by (simp add: keys_ok_def distinct_map distinct_filter)
  moreover have "inj_on m_job (set ?L)"
  proof (rule inj_onI)
    fix x y assume xy: "x \<in> set ?L" "y \<in> set ?L" "m_job x = m_job y"
    then have "x \<in> set (live_of s (m_job x))" "y \<in> set (live_of s (m_job x))" by (auto simp: live_of_def)
    moreover have "length (live_of s (m_job x)) \<le> 1"
      using wq_ok_slice[OF assms, of "m_job x"] by (cases "job_of s (m_job x)") auto
    ultimately show "x = y" by (auto simp: le_Suc_eq length_Suc_conv)
  qed
  ultimately show ?thesis using wq_ok_keys[OF assms] by (simp add: msgs_ok_def keys_ok_def distinct_map)
qed

lemma wq_ok_leases:
  assumes "wq_ok s"
  shows "distinct (map l_job (filter (\<lambda>l. l_state l = LActive) (w_leases s)))"
proof -
  let ?L = "filter (\<lambda>l. l_state l = LActive) (w_leases s)"
  have "distinct ?L" using wq_ok_keys[OF assms] by (simp add: keys_ok_def distinct_map distinct_filter)
  moreover have "inj_on l_job (set ?L)"
  proof (rule inj_onI)
    fix x y assume "x \<in> set ?L" "y \<in> set ?L" "l_job x = l_job y"
    then have "x \<in> set (active_of s (l_job x))" "y \<in> set (active_of s (l_job x))" by (auto simp: active_of_def)
    moreover have "length (active_of s (l_job x)) \<le> 1"
      using wq_ok_slice[OF assms, of "l_job x"] by (cases "job_of s (l_job x)") auto
    ultimately show "x = y" by (auto simp: le_Suc_eq length_Suc_conv)
  qed
  ultimately show ?thesis by (simp add: distinct_map)
qed

lemma set_msgs_live_total:
  assumes "wq_ok s" "w_msgs t = w_msgs s" "m \<in> set (w_msgs s)" "m_id m = mid" "live_state (m_state m)"
    "\<And>m. m_id (f m) = m_id m \<and> m_job (f m) = m_job m"
  shows "set_msgs (\<lambda>r. m_id r = mid) f t = Inr (t\<lparr>w_msgs := upd (\<lambda>r. m_id r = mid) f (w_msgs s)\<rparr>)"
proof -
  let ?q = "\<lambda>m. live_state (m_state m)" and ?p = "\<lambda>r. m_id r = mid"
  have ok: "msgs_ok s" by (rule wq_ok_msgs[OF assms(1)])
  then have uniq: "x = m" if "x \<in> set (w_msgs s)" "m_id x = mid" for x
    using that assms(3,4) by (metis msgs_ok_def distinct_map inj_onD)
  have "distinct (map m_job (filter ?q (upd ?p f (w_msgs s))))"
  proof (cases "?q (f m)")
    case True
    then have "filter ?q (upd ?p f (w_msgs s)) = upd ?p f (filter ?q (w_msgs s))"
      using uniq assms(5) by (intro filter_upd_keep_set) auto
    then show ?thesis using ok assms(6) by (simp add: msgs_ok_def)
  next
    case False
    then have e: "filter ?q (upd ?p f (w_msgs s)) = filter (\<lambda>r. \<not> ?p r) (filter ?q (w_msgs s))"
      using uniq by (intro filter_upd_drop_set) auto
    show ?thesis unfolding e using ok unfolding msgs_ok_def by (blast intro: distinct_map_filter)
  qed
  then show ?thesis using ok assms(2,6) by (simp add: set_msgs_def store_msgs_def msgs_ok_def)
qed

section \<open>Properties\<close>



text \<open>C19: A claim respects every gate. If a session is handed a packet, its token is not bound to
  another session, the session is active, its run is running and not paused, the backend and lineage
  checks hold, and what it got is a pending message of its run for its role, for any lane or for its
  own, whose job was queued or canceled and held by nobody; a job that asks for a fresh session is
  given to a session that worked on no other job of the run. The job is then claimed by this session
  until the lease runs out.\<close>

theorem claim_respects_gates:
  assumes "wq_reach s" "HandleClaimNext e sid secs s = Inr (Some pid, s')"
  shows "\<exists>x r s1 m j. session_of s sid = Some x \<and> s_state x = ''active'' \<and> (e_bound e = None \<or> e_bound e = Some sid) \<and>
    run_of s (s_run x) = Some r \<and> r_state r = RRunning \<and> \<not> r_paused r \<and> e_backend e sid \<and> e_lineage e sid j \<and>
    expireLeases e (s_run x) s = Inr s1 \<and> m \<in> set (w_msgs s1) \<and> m_state m = MPending \<and> m_run m = s_run x \<and>
    m_role m = s_role x \<and> (m_lane m = None \<or> m_lane m = Some (s_lane x)) \<and>
    job_of s1 (m_job m) = Some j \<and> (j_state j = JQueued \<or> j_state j = JCanceled) \<and> holder_of s1 (m_job m) = None \<and>
    \<not> (j_fresh j \<and> list_ex (\<lambda>p. p_run p = m_run m \<and> p_session p = sid \<and> p_job p \<noteq> m_job m) (w_packets s1)) \<and>
    life_of s' (m_job m) = Some (JClaimed, Some (sid, expires_after e (if secs \<le> 0 then 3600 else secs)))"
proof -
  note ok = reach_ok[OF assms(1)]
  let ?secs = "if secs \<le> 0 then 3600 else secs"
  obtain x r s1 m ms j where h: "session_of s sid = Some x" "s_state x = ''active''" "session_binding e sid = None"
      "run_of s (s_run x) = Some r" "expireLeases e (s_run x) s = Inr s1" "r_state r = RRunning" "\<not> r_paused r"
      "e_backend e sid" "claim_candidates s1 x = m # ms" "job_of s1 (m_job m) = Some j" "e_lineage e sid j"
      "claimChosenJob e x j m ?secs s1 = Inr (Some pid, s')"
    using assms(2) by (auto simp: HandleClaimNext_def check_simps split: if_splits list.splits)
  have ok1: "wq_ok s1" by (rule expireLeases_ok[OF ok h(5)])
  have m: "m \<in> set (w_msgs s1)" "claimable s1 x m" using claim_candidate[of m s1 x] h(9) by auto
  have sx: "s_id x = sid" using h(1) unfolding session_of_def by (drule_tac find_SomeD) simp
  have jm: "j_id j = m_job m" using job_ofD[OF h(10)] by simp
  have "m \<in> set (live_of s1 (m_job m))" using m by (auto simp: live_of_def live_state_def claimable_def)
  then have st: "j_state j = JQueued \<or> j_state j = JCanceled"
    using wq_ok_slice[OF ok1, of "m_job m"] h(10) m(2) by (auto simp: list_all_iff message_ok_def claimable_def)
  have free: "holder_of s1 (m_job m) = None" by (rule free_holder[OF ok1 h(10)]) (use st in \<open>auto simp: working_def\<close>)
  note rows = claimChosenJobD[OF h(12) jm]
  have "active_of s' (m_job m) = [claim_lease e x m ?secs s1]"
    using single_active[OF rows(3), of "claim_lease e x m ?secs s1" s1] by (auto simp: active_of_def rows(2) claim_lease_def)
  moreover have "job_of s' (m_job m) = Some (j\<lparr>j_state := JClaimed, j_lease := Some (l_id (claim_lease e x m ?secs s1))\<rparr>)"
    using job_of_set_job[of "\<lambda>r. r\<lparr>j_state := JClaimed, j_lease := Some (l_id (claim_lease e x m ?secs s1))\<rparr>" "m_job m" s1 "m_job m"] h(10)
    by (auto simp: job_of_def rows(5))
  ultimately have "life_of s' (m_job m) = Some (JClaimed, Some (sid, expires_after e ?secs))"
    by (simp add: life_of_def holder_of_def claim_lease_def sx)
  moreover have "e_bound e = None \<or> e_bound e = Some sid" using h(3) by (auto simp: session_binding_def split: option.splits if_splits)
  moreover have "m_state m = MPending" "m_run m = s_run x" "m_role m = s_role x" "m_lane m = None \<or> m_lane m = Some (s_lane x)"
      "\<not> (j_fresh j \<and> list_ex (\<lambda>p. p_run p = m_run m \<and> p_session p = sid \<and> p_job p \<noteq> m_job m) (w_packets s1))"
    using m(2) h(10) by (auto simp: claimable_def fresh_for_def sx)
  ultimately show ?thesis using h m(1) st free by blast
qed

theorem claim_respects_gates_witness:
  "\<exists>s pid s' x (j :: wjob) (m :: wmsg). HandleClaimNext (ex_env 5) ''T'' 60 s = Inr (Some pid, s') \<and> session_of s ''T'' = Some x \<and>
     s_state x = ''active'' \<and> (j_state j = JQueued \<or> j_state j = JCanceled) \<and>
     life_of s' (m_job m) = Some (JClaimed, Some (''T'', seconds 65))"
proof -
  have "ex_step ex_running (ex_env 5) (Claim ''T'' 60) (\<lambda>s s'.
      (case HandleClaimNext (ex_env 5) ''T'' 60 s of Inr (Some pid, s') \<Rightarrow> True | _ \<Rightarrow> False))"
    by code_simp
  then obtain s s' where s: "wq_reach s"
      "case HandleClaimNext (ex_env 5) ''T'' 60 s of Inr (Some pid, s') \<Rightarrow> True | _ \<Rightarrow> False"
    by (rule ex_stepD) blast
  then obtain pid s' where c: "HandleClaimNext (ex_env 5) ''T'' 60 s = Inr (Some pid, s')"
    by (auto split: sum.splits option.splits prod.splits)
  have t: "expires_after (ex_env 5) (if 60 \<le> (0::int) then 3600 else 60) = seconds 65" by code_simp
  from claim_respects_gates[OF s(1) c] c show ?thesis unfolding t by blast
qed

section \<open>Claims go through\<close>

text \<open>What the expiry of leases leaves alone.\<close>

definition address :: "wmsg \<Rightarrow> string \<times> string \<times> string \<times> string \<times> string option" where
  "address m = (m_id m, m_job m, m_run m, m_role m, m_lane m)"

definition kept_rows :: "wq \<Rightarrow> wq \<Rightarrow> bool" where
  "kept_rows s s' \<longleftrightarrow>
     w_packets s' = w_packets s \<and> w_sessions s' = w_sessions s \<and> w_runs s' = w_runs s \<and>
     map address (w_msgs s') = map address (w_msgs s) \<and> map l_id (w_leases s') = map l_id (w_leases s)"

lemma expire_lease_kept:
  assumes "expire_lease e l s = Inr s'"
  shows "kept_rows s s'" "l_job l \<noteq> k \<Longrightarrow> job_of s' k = job_of s k"
proof -
  have job: "job_of (set_job i f u) k = job_of u k" if "\<And>j. j_id (f j) = j_id j" "i \<noteq> k" for i f u
    using that by (simp add: job_of_set_job)
  show "l_job l \<noteq> k \<Longrightarrow> job_of s' k = job_of s k"
    using assms unfolding expire_lease_def Let_def
    by (auto simp: tables_set_leases job dest!: job_ofD[of s "l_job l"] set_msgs_tables(1) split: option.splits)
  show "kept_rows s s'"
    using assms unfolding expire_lease_def Let_def kept_rows_def set_msgs_def set_job_def set_leases_def
    by (auto simp: address_def dest!: store_msgsD split: option.splits)
qed

lemma expire_each_kept:
  "expire_each e ls s = Inr s' \<Longrightarrow> kept_rows s s' \<and> ((\<forall>l \<in> set ls. l_job l \<noteq> k) \<longrightarrow> job_of s' k = job_of s k)"
proof (induction ls arbitrary: s)
  case (Cons l ls)
  obtain s1 where s1: "expire_lease e l s = Inr s1" "expire_each e ls s1 = Inr s'"
    using Cons.prems by (auto simp: check_simps)
  then show ?case using Cons.IH[OF s1(2)] expire_lease_kept[OF s1(1)] by (auto simp: kept_rows_def)
qed (simp add: kept_rows_def)

text \<open>It never fails.\<close>

lemma expire_lease_total:
  assumes ok: "wq_ok s" and l: "l \<in> set (w_leases s)" "l_state l = LActive"
  shows "\<exists>s'. expire_lease e l s = Inr s'"
proof (rule held[OF ok l])
  fix j m assume j: "job_of s (l_job l) = Some j" "live_of s (l_job l) = [m]" "j_message j = Some (m_id m)"
  have "m \<in> set (live_of s (l_job l))" using j(2) by simp
  then have m: "m \<in> set (w_msgs s)" "live_state (m_state m)" by (auto simp: live_of_def)
  have t: "w_msgs (set_job i f (set_leases p g s)) = w_msgs s" for i f p g by (simp add: slice_simps)
  show ?thesis
    using j(1,3) set_msgs_live_total[OF ok t m(1) refl m(2)] unfolding expire_lease_def Let_def by simp
qed

lemma expire_each_total:
  "wq_ok s \<Longrightarrow> distinct (map l_id ls) \<Longrightarrow> \<forall>l \<in> set ls. l \<in> set (w_leases s) \<and> l_state l = LActive \<Longrightarrow>
   \<exists>s'. expire_each e ls s = Inr s'"
proof (induction ls arbitrary: s)
  case (Cons l ls)
  obtain s1 where s1: "expire_lease e l s = Inr s1" using expire_lease_total[of s l e] Cons.prems by auto
  have one: "wq_ok s1" "w_leases s1 = upd (\<lambda>r. l_id r = l_id l) (\<lambda>r. r\<lparr>l_state := LExpired, l_reason := ''expired''\<rparr>) (w_leases s)"
    using expire_lease_ok[OF Cons.prems(1) _ _ s1] Cons.prems(3) by auto
  have "r \<in> set (w_leases s1) \<and> l_state r = LActive" if "r \<in> set ls" for r
    using that Cons.prems(2,3) unfolding one(2) set_upd by (auto intro!: image_eqI[of _ _ r])
  then show ?case using Cons.IH[OF one(1)] Cons.prems(2) s1 by (auto simp: check_simps)
qed simp

lemma expireLeases_total:
  assumes "wq_ok s"
  obtains s' where "expireLeases e run s = Inr s'" "wq_ok s'" "kept_rows s s'"
    "\<And>k. holder_of s k = None \<Longrightarrow> job_of s' k = job_of s k"
proof -
  let ?ls = "filter (\<lambda>l. l_run l = run \<and> l_state l = LActive \<and> l_expires l < now_string e) (w_leases s)"
  have ids: "distinct (map l_id (w_leases s))" using wq_ok_keys[OF assms] by (simp add: keys_ok_def)
  have "\<exists>s'. expire_each e ?ls s = Inr s'"
    by (rule expire_each_total[OF assms distinct_map_filter[OF ids]]) simp
  then obtain s' where s': "expire_each e ?ls s = Inr s'" by (rule exE)
  have st: "expireLeases e run s = Inr s'" using s' by (simp add: expireLeases_def)
  show ?thesis
  proof (rule that[OF st expireLeases_ok[OF assms st]])
    show "kept_rows s s'" using expire_each_kept[OF s'] by blast
    fix k assume "holder_of s k = None"
    then have "\<forall>l \<in> set ?ls. l_job l \<noteq> k"
      by (auto simp: holder_of_def active_of_def filter_empty_conv split: list.splits)
    then show "job_of s' k = job_of s k" using expire_each_kept[OF s', of k] by blast
  qed
qed

text \<open>The ids a claim makes are new.\<close>

definition new_ids :: "wenv \<Rightarrow> wq \<Rightarrow> bool" where
  "new_ids e s \<longleftrightarrow>
     e_newID e ''lease'' (length (w_leases s)) \<notin> set (map l_id (w_leases s)) \<and>
     e_newID e ''lease'' (length (w_leases s)) \<notin> set (map p_lease (w_packets s)) \<and>
     e_newID e ''wp'' (length (w_packets s)) \<notin> set (map p_id (w_packets s))"

lemma claimChosenJob_total:
  assumes ok: "wq_ok s" and m: "m \<in> set (w_msgs s)" "claimable s x m" and j: "job_of s (m_job m) = Some j"
    and ids: "new_ids e s"
  shows "\<exists>pid s'. claimChosenJob e x j m secs s = Inr (Some pid, s')"
proof -
  let ?l = "claim_lease e x m secs s"
  have jm: "j_id j = m_job m" using job_ofD[OF j] by simp
  have live: "live_state (m_state m)" using m(2) by (auto simp: claimable_def live_state_def)
  have "m \<in> set (live_of s (m_job m))" using m(1) live by (simp add: live_of_def)
  then have "j_state j = JQueued \<or> j_state j = JCanceled"
    using wq_ok_slice[OF ok, of "m_job m"] j m(2) by (auto simp: list_all_iff message_ok_def claimable_def)
  then have free: "active_of s (m_job m) = []" by (intro no_lease_unless_working[OF ok j]) auto
  have leases: "distinct (map l_job (filter (\<lambda>l. l_state l = LActive) (w_leases s)))"
    by (rule wq_ok_leases[OF ok])
  have s1: "store_leases (w_leases s @ [?l]) s = Inr (s\<lparr>w_leases := w_leases s @ [?l]\<rparr>)"
  proof -
    have "distinct (map l_id (w_leases s @ [?l]))"
      using wq_ok_keys[OF ok] ids by (auto simp: keys_ok_def new_ids_def claim_lease_def)
    moreover have "distinct (map l_job (filter (\<lambda>l. l_state l = LActive) (w_leases s @ [?l])))"
      using leases free by (auto simp: claim_lease_def active_of_def filter_empty_conv)
    ultimately show ?thesis unfolding store_leases_def by simp
  qed
  have s2: "set_msgs (\<lambda>r. m_id r = m_id m) f (s\<lparr>w_leases := w_leases s @ [?l]\<rparr>) =
      Inr (s\<lparr>w_leases := w_leases s @ [?l], w_msgs := upd (\<lambda>r. m_id r = m_id m) f (w_msgs s)\<rparr>)"
    if "\<And>m. m_id (f m) = m_id m \<and> m_job (f m) = m_job m" for f
    using set_msgs_live_total[OF ok _ m(1) refl live that, of "s\<lparr>w_leases := w_leases s @ [?l]\<rparr>"] by simp
  have s3: "\<exists>s'. store_packet (claim_packet e x m s) (set_job k f t) = Inr s'" if "w_packets t = w_packets s" for k f t
    using ids that by (auto simp: store_packet_def tables_set_job new_ids_def claim_packet_def)
  have s4: "\<exists>s'. record_activity e sid [''last_packet_delivered_at''] t = Inr s'" for sid t
  proof -
    have "case record_columns [''last_packet_delivered_at''] of Inl _ \<Rightarrow> False | Inr _ \<Rightarrow> True" by code_simp
    then show ?thesis by (auto simp: record_activity_def Let_def split: sum.splits)
  qed
  obtain t where t: "store_packet (claim_packet e x m s) (set_job (m_job m) (\<lambda>r. r\<lparr>j_state := JClaimed, j_lease := Some (l_id ?l)\<rparr>)
      (s\<lparr>w_leases := w_leases s @ [?l], w_msgs := upd (\<lambda>r. m_id r = m_id m)
        (\<lambda>r. r\<lparr>m_state := MClaimed, m_lease := Some (l_id ?l), m_claims := m_claims r + 1\<rparr>) (w_msgs s)\<rparr>)) = Inr t"
    using s3 by (metis (no_types, lifting) wq.select_convs(4) wq.surjective wq.update_convs(2,3))
  obtain t' where "record_activity e (s_id x) [''last_packet_delivered_at''] t = Inr t'" using s4 by blast
  then show ?thesis
    using s1 s2[of "\<lambda>r. r\<lparr>m_state := MClaimed, m_lease := Some (l_id ?l), m_claims := m_claims r + 1\<rparr>"] t
    unfolding claimChosenJob_def Let_def jm by (simp add: claim_lease_def claim_packet_def)
qed

text \<open>The message of a queued job, before and after leases run out.\<close>

lemma queued_message:
  assumes "wq_ok s" "job_of s k = Some j" "j_state j = JQueued"
  obtains m where "live_of s k = [m]" "m \<in> set (w_msgs s)" "m_job m = k" "m_state m = MPending"
    "j_message j = Some (m_id m)" "m_run m = j_run j"
proof -
  have "length (live_of s k) \<le> 1" "list_ex (\<lambda>m. m_state m = MPending) (live_of s k)" "list_all (message_ok j) (live_of s k)"
    using wq_ok_slice[OF assms(1), of k] assms(2,3) by auto
  then obtain m where m: "live_of s k = [m]" "m_state m = MPending" "message_ok j m"
    by (cases "live_of s k") (auto simp: list_all_iff)
  have "m \<in> set (live_of s k)" using m(1) by simp
  then show thesis using that m by (auto simp: live_of_def message_ok_def)
qed

definition serves :: "wq \<Rightarrow> wsession \<Rightarrow> wjob \<Rightarrow> wmsg \<Rightarrow> bool" where
  "serves s x j m \<longleftrightarrow>
     j_run j = s_run x \<and> m_role m = s_role x \<and> (m_lane m = None \<or> m_lane m = Some (s_lane x)) \<and>
     (j_fresh j \<longrightarrow> fresh_for s (s_id x) m)"

lemma candidate_after_expiry:
  assumes ok: "wq_ok s" "wq_ok s1" "kept_rows s s1" and j: "job_of s k = Some j" "j_state j = JQueued" "job_of s1 k = Some j"
    and m: "live_of s k = [m]" "serves s x j m"
  shows "\<exists>m1. m1 \<in> set (w_msgs s1) \<and> claimable s1 x m1"
proof -
  obtain m0 where m0: "live_of s k = [m0]" "m0 \<in> set (w_msgs s)" "m_job m0 = k" "m_state m0 = MPending"
      "j_message j = Some (m_id m0)" "m_run m0 = j_run j"
    by (rule queued_message[OF ok(1) j(1,2)])
  obtain m1 where m1: "live_of s1 k = [m1]" "m1 \<in> set (w_msgs s1)" "m_job m1 = k" "m_state m1 = MPending"
      "j_message j = Some (m_id m1)" "m_run m1 = j_run j"
    by (rule queued_message[OF ok(2) j(3,2)])
  have "map address (w_msgs s1) = map address (w_msgs s)" using ok(3) by (simp add: kept_rows_def)
  from arg_cong[OF this, of set] have "address ` set (w_msgs s1) = address ` set (w_msgs s)" by simp
  then have "address m1 \<in> address ` set (w_msgs s)" using m1(2) by blast
  then obtain m2 where m2: "m2 \<in> set (w_msgs s)" "address m2 = address m1" by auto
  have m0m: "m0 = m" using m0(1) m(1) by simp
  have "m_id m2 = m_id m" using m2(2) m0(5) m1(5) by (simp add: address_def m0m)
  moreover have "distinct (map m_id (w_msgs s))" using wq_ok_keys[OF ok(1)] by (simp add: keys_ok_def)
  ultimately have "m2 = m" using m2(1) m0(2) m0m by (auto simp: distinct_map dest: inj_onD)
  then have "m_role m1 = m_role m" "m_lane m1 = m_lane m" "m_run m1 = m_run m" "m_job m1 = m_job m"
    using m2(2) by (simp_all add: address_def)
  moreover have "fresh_for s1 (s_id x) m1 = fresh_for s (s_id x) m"
    using assms(3) calculation by (simp add: fresh_for_def kept_rows_def)
  ultimately show ?thesis using m1 m(2) j(3) by (auto simp: claimable_def serves_def)
qed



section \<open>Where a call does more than it should\<close>

text \<open>C26: Closing a session can take the job from another. If the session to close holds no lease but
  the latest job of its past leases is in flight again under an active lease of somebody else, a
  close with \<open>--requeue-job\<close> succeeds, expires the lease of that holder and queues the job again.\<close>

theorem close_session_steals:
  assumes "wq_reach s" "l \<in> set (w_leases s)" "l_state l = LActive" "l_owner l \<noteq> sid"
    and "inflight_job s sid = Some j" "l_job l = j_id j"
    and "HandleCloseSession e sid reason True s = Inr s'" "session_of s sid = Some x" "s_state x = ''active''"
  shows "holder_of s (j_id j) = Some (l_owner l, l_expires l) \<and> life_of s' (j_id j) = Some (JQueued, None)"
proof -
  note ok = reach_ok[OF assms(1)]
  define s1 where "s1 = s\<lparr>w_sessions := upd (\<lambda>y. s_id y = sid) (\<lambda>y. y\<lparr>s_state := ''closed''\<rparr>) (w_sessions s)\<rparr>"
  have jobs: "job_of s1 = job_of s" by (simp add: s1_def job_of_def fun_eq_iff)
  moreover have "w_leases s1 = w_leases s" by (simp add: s1_def)
  ultimately have same: "inflight_job s1 sid = inflight_job s sid" "job_of s1 = job_of s"
    by (simp_all add: inflight_job_def split: list.split)
  obtain l' :: wlease where l': "job_of s (l_job l') = Some j" using inflight_jobD[OF assms(5)] by blast
  from job_ofD[OF this] l' have j: "job_of s (j_id j) = Some j" by auto
  obtain b where re: "requeueJobSameAttempt e j s1 = Inr (b, s')"
    using assms(5,7-9) same by (auto simp: HandleCloseSession_def check_simps Let_def simp flip: s1_def split: if_splits)
  have j1: "job_of s1 (j_id j) = Some j" using j same by simp
  have "life_of s' (j_id j) = Some (JQueued, None)"
    using requeue_life[OF re j1] j1
    by (simp add: life_of_set_job tables_set_leases) (simp add: holder_of_def active_of_drop_job)
  moreover have "holder_of s (j_id j) = Some (l_owner l, l_expires l)"
    using life_of_held[OF ok assms(2,3)] assms(6) by (auto simp: life_of_def)
  ultimately show ?thesis by blast
qed

theorem close_session_steals_witness:
  "\<exists>s s'. HandleCloseSession (ex_env 101) ''S'' ''done'' True s = Inr s' \<and>
     holder_of s ''A'' = Some (''T'', seconds 160) \<and> life_of s' ''A'' = Some (JQueued, None)"
proof -
  have "ex_step (ex_claimed @ [(ex_env 100, Claim ''T'' 60)]) (ex_env 101) (CloseSession ''S'' ''done'' True) (\<lambda>s s'.
      list_ex (\<lambda>l. l_state l = LActive \<and> l_owner l = ''T'' \<and> l_job l = ''A'' \<and> l_expires l = seconds 160) (w_leases s) \<and>
      (case (inflight_job s ''S'', session_of s ''S'') of (Some j, Some x) \<Rightarrow> j_id j = ''A'' \<and> s_state x = ''active'' | _ \<Rightarrow> False))"
    by code_simp
  then obtain s s' where s: "wq_reach s" "call (ex_env 101) (CloseSession ''S'' ''done'' True) s = Inr s'"
      "list_ex (\<lambda>l. l_state l = LActive \<and> l_owner l = ''T'' \<and> l_job l = ''A'' \<and> l_expires l = seconds 160) (w_leases s)"
      "case (inflight_job s ''S'', session_of s ''S'') of (Some j, Some x) \<Rightarrow> j_id j = ''A'' \<and> s_state x = ''active'' | _ \<Rightarrow> False"
    by (rule ex_stepD) blast
  obtain l where l: "l \<in> set (w_leases s)" "l_state l = LActive" "l_owner l = ''T''" "l_job l = ''A''" "l_expires l = seconds 160"
    using s(3) by (auto simp: list_ex_iff)
  obtain j x where j: "inflight_job s ''S'' = Some j" "session_of s ''S'' = Some x" "j_id j = ''A''" "s_state x = ''active''"
    using s(4) by (auto split: option.splits)
  have "holder_of s (j_id j) = Some (l_owner l, l_expires l) \<and> life_of s' (j_id j) = Some (JQueued, None)"
    using s(2) l j by (intro close_session_steals[OF s(1) l(1,2) _ j(1) _ _ j(2,4)]) simp_all
  with s(2) l j show ?thesis by auto
qed

text \<open>A release can leave a job that nobody can get. A holder may release with the id of another
  message of its job: when it does not ask for the queue, the job is blocked and its lease gone, but
  the live message stays claimed or acked, so that from then on enqueueing the job violates the
  index of live messages, and so does the completion of any job of the run that finds it ready.\<close>

theorem release_wrong_message_wedges:
  assumes "wq_reach s" "HandleReleaseWork e sid mid lid reason False False s = Inr s'"
    and "msg_of s mid = Some m" "mid \<noteq> []" "job_of s (m_job m) = Some j" "j_message j \<noteq> Some mid"
    and "\<not> list_ex (\<lambda>r. m_id r = message_id e' s') (w_msgs s')"
  shows "life_of s' (m_job m) = Some (JBlocked, None) \<and>
    enqueueJob e' (m_job m) s' = Inl (UniqueViolation ''uq_active_work_message_per_job'')"
proof -
  note ok = reach_ok[OF assms(1)]
  have jm: "j_id j = m_job m" using job_ofD[OF assms(5)] by simp
  let ?g = "\<lambda>l. l\<lparr>l_state := LReleased, l_reason := (if reason = [] then ''released'' else reason)\<rparr>"
  let ?t = "set_job (m_job m) (\<lambda>r. r\<lparr>j_state := JBlocked, j_lease := None\<rparr>) (set_leases (\<lambda>l. l_id l = lid) ?g s)"
  have mid: "m_id m = mid" using msg_ofD[OF assms(3)] by simp
  obtain l s1 where al: "active_lease_for e s lid sid (m_job m) = Inr l"
      and s1: "set_msgs (\<lambda>r. m_id r = mid) (\<lambda>r. r\<lparr>m_state := MBlocked, m_lease := None\<rparr>) ?t = Inr s1"
        "record_activity e sid [''last_work_release_at''] s1 = Inr s'"
    using assms(2-5) jm mid by (auto simp: HandleReleaseWork_def release_message_def check_simps Let_def)
  note l = active_lease_of_job[OF ok assms(5) al]
  obtain m0 where m0: "live_of s (m_job m) = [m0]" "j_message j = Some (m_id m0)"
    using held[OF ok l(1,2)] l(4) assms(5) by (metis option.inject)
  have live1: "live_of s1 (m_job m) = [m0]"
    using set_msgs_drop[OF s1(1)] m0 assms(6) by (simp add: live_state_def slice_simps)
  have "live_of s' (m_job m) = [m0]"
    using live1 record_activityD[OF s1(2)] by (auto simp: live_of_def)
  then have "m0 \<in> set (live_of s' (m_job m))" by simp
  then have m0': "m0 \<in> set (w_msgs s')" "m_job m0 = m_job m" "live_state (m_state m0)" by (auto simp: live_of_def)
  have gone: "holder_of (set_leases (\<lambda>l. l_id l = lid) ?g s) (m_job m) = None"
    using active_of_give_up[OF ok l(1,2), of ?g "m_job m"] l(3,4) by (simp add: holder_of_def)
  have life: "life_of s' (m_job m) = Some (JBlocked, None)"
    using life_of_record[OF s1(2)] life_of_set_msgs[OF s1(1)] gone assms(5)
    by (simp add: life_of_set_job tables_set_leases)
  then obtain j' where j': "job_of s' (m_job m) = Some j'" "j_state j' = JBlocked" by (auto simp: life_of_def)
  have ids: "distinct (map m_id (w_msgs s' @ [new_message e' (message_id e' s') j']))"
    using assms(7) store_msgsD[OF s1(1)[unfolded set_msgs_def]] record_activityD[OF s1(2)]
    by (auto simp: new_message_def list_ex_iff)
  have "\<not> distinct (map m_job (filter (\<lambda>m. live_state (m_state m)) (w_msgs s' @ [new_message e' (message_id e' s') j'])))"
    using m0' job_ofD[OF j'(1)] by (auto simp: new_message_def live_state_def image_iff intro!: bexI[of _ m0])
  then have "store_msgs (w_msgs s' @ [new_message e' (message_id e' s') j']) s' = Inl (UniqueViolation ''uq_active_work_message_per_job'')"
    unfolding store_msgs_def using ids by simp
  then show ?thesis using life j' by (simp add: enqueueJob_def fetch_def bind_ok_def)
qed

definition ex_blocked :: "(wenv \<times> wq_call) list" where
  "ex_blocked = ex_claimed @ [(ex_env 2, Block \<lparr>br_session = ''S'', br_job = ''A'', br_lease = ''lease0'',
     br_kind = ''question'', br_severity = ''blocked'', br_description = ''which''\<rparr>)]"

theorem release_wrong_message_wedges_witness:
  "\<exists>s s'. HandleReleaseWork (ex_env 6) ''S'' ''msg0'' ''lease2'' [] False False s = Inr s' \<and>
     life_of s' ''A'' = Some (JBlocked, None) \<and>
     enqueueJob (ex_env 7) ''A'' s' = Inl (UniqueViolation ''uq_active_work_message_per_job'')"
proof -
  have "ex_step (ex_blocked @ [(ex_env 3, EnqueueReady ''R''), (ex_env 4, Claim ''T'' 60), (ex_env 5, Claim ''S'' 60)])
      (ex_env 6) (Release ''S'' ''msg0'' ''lease2'' [] False False) (\<lambda>s s'.
      \<not> list_ex (\<lambda>r. m_id r = message_id (ex_env 7) s') (w_msgs s') \<and>
      (case msg_of s ''msg0'' of None \<Rightarrow> False | Some m \<Rightarrow> m_job m = ''A'') \<and>
      (case job_of s ''A'' of None \<Rightarrow> False | Some j \<Rightarrow> j_message j \<noteq> Some ''msg0''))"
    by code_simp
  then obtain s s' where s: "wq_reach s" "call (ex_env 6) (Release ''S'' ''msg0'' ''lease2'' [] False False) s = Inr s'"
      "\<not> list_ex (\<lambda>r. m_id r = message_id (ex_env 7) s') (w_msgs s')"
      "case msg_of s ''msg0'' of None \<Rightarrow> False | Some m \<Rightarrow> m_job m = ''A''"
      "case job_of s ''A'' of None \<Rightarrow> False | Some j \<Rightarrow> j_message j \<noteq> Some ''msg0''"
    by (rule ex_stepD) blast
  then obtain m j where m: "msg_of s ''msg0'' = Some m" "m_job m = ''A''" "job_of s ''A'' = Some j" "j_message j \<noteq> Some ''msg0''"
    by (auto split: option.splits)
  have "life_of s' (m_job m) = Some (JBlocked, None) \<and>
      enqueueJob (ex_env 7) (m_job m) s' = Inl (UniqueViolation ''uq_active_work_message_per_job'')"
    using s(2,3) m by (intro release_wrong_message_wedges[OF s(1) _ m(1)]) auto
  with s(2) m(2) show ?thesis by auto
qed

text \<open>A cancel leaves the offers of queued jobs. When a run that is not over is canceled, a queued
  job of it becomes canceled, but its message stays pending, and a session that serves the job may
  claim it: only the state of the run, which a retry of any other job sets back to running, keeps the
  canceled job from being handed out.\<close>

theorem cancel_leaves_offers:
  assumes "wq_reach s" "cancelRunInTx run s = Inr s'" "run_of s run = Some r" "\<not> terminal_run (r_state r)"
    and "job_of s k = Some j" "j_run j = run" "j_state j = JQueued"
  shows "\<exists>m j'. live_of s' k = [m] \<and> m_state m = MPending \<and> job_of s' k = Some j' \<and> j_state j' = JCanceled \<and>
    (serves s' x j' m \<longrightarrow> claimable s' x m)"
proof -
  note ok = reach_ok[OF assms(1)]
  obtain m where m: "live_of s k = [m]" "m \<in> set (w_msgs s)" "m_job m = k" "m_state m = MPending" "j_message j = Some (m_id m)" "m_run m = j_run j"
    by (rule queued_message[OF ok assms(5,7)])
  define c where "c = (\<lambda>j :: wjob. j_run j = run \<and> j_state j \<in> {JBlocked, JQueued, JClaimed, JRunning, JStaleLease, JWaitingHuman})"
  let ?f = "\<lambda>j :: wjob. j\<lparr>j_state := JCanceled\<rparr>"
  have rows: "w_jobs s' = upd c ?f (w_jobs s)" "w_msgs s' = w_msgs s"
    using assms(2-4) by (auto simp: cancelRunInTx_def check_simps terminal_run_def close_remaining_sessions_def set_run_def
        release_run_leases_def set_leases_def c_def)
  have "c j" using assms(6,7) by (simp add: c_def)
  then have j': "job_of s' k = Some (?f j)"
    using assms(5) by (simp add: job_of_def rows(1) find_upd)
  have "live_of s' k = [m]" using m(1) by (simp add: live_of_def rows(2))
  moreover have "claimable s' x m" if "serves s' x (?f j) m"
    using that m(3,4,6) j' by (auto simp: serves_def claimable_def)
  ultimately show ?thesis using m(4) j' by auto
qed

theorem cancel_leaves_offers_witness:
  "\<exists>s s' m j'. cancelRunInTx ''R'' s = Inr s' \<and> live_of s' ''B'' = [m] \<and> m_state m = MPending \<and>
     job_of s' ''B'' = Some j' \<and> j_state j' = JCanceled"
proof -
  have "ex_step ex_claimed (ex_env 2) (CancelRun ''R'') (\<lambda>s s'.
      (case (run_of s ''R'', job_of s ''B'') of
         (Some r, Some j) \<Rightarrow> \<not> terminal_run (r_state r) \<and> j_run j = ''R'' \<and> j_state j = JQueued | _ \<Rightarrow> False))"
    by code_simp
  then obtain s s' where s: "wq_reach s" "call (ex_env 2) (CancelRun ''R'') s = Inr s'"
      "case (run_of s ''R'', job_of s ''B'') of
         (Some r, Some j) \<Rightarrow> \<not> terminal_run (r_state r) \<and> j_run j = ''R'' \<and> j_state j = JQueued | _ \<Rightarrow> False"
    by (rule ex_stepD) blast
  then obtain r j where "run_of s ''R'' = Some r" "\<not> terminal_run (r_state r)" "job_of s ''B'' = Some j" "j_run j = ''R''" "j_state j = JQueued"
    by (auto split: option.splits)
  moreover have c: "cancelRunInTx ''R'' s = Inr s'" using s(2) by simp
  ultimately have "\<exists>m j'. live_of s' ''B'' = [m] \<and> m_state m = MPending \<and> job_of s' ''B'' = Some j' \<and> j_state j' = JCanceled"
    using cancel_leaves_offers[OF s(1) c] by blast
  with c show ?thesis by blast
qed

text \<open>C25: A job that reported itself blocked is offered again. A plain block leaves an open blocker of
  the job and the job blocked, without a live message; but blocked jobs whose dependencies hold are
  what the enqueueing after every completion in the run looks for, and it does not look at blockers:
  it queues the job, with a new pending message, while the blocker is still open.\<close>

theorem blocked_job_reoffered:
  assumes "wq_reach s" "HandleBlockWork e q0 s = Inr s'" "normalizeBlockWork q0 = Inr q" "br_severity q = ''blocked''"
    and "job_of s' (br_job q) = Some j'" "dependenciesSatisfied (e_barrier e') (gate_view s' (j_run j')) (br_job q) = Some True"
    and "\<not> list_ex (\<lambda>r. m_id r = message_id e' s') (w_msgs s')"
  shows "life_of s' (br_job q) = Some (JBlocked, None) \<and>
    (\<exists>s''. enqueue_if_ready e' (br_job q) s' = Inr s'' \<and> life_of s'' (br_job q) = Some (JQueued, None) \<and>
      list_ex (\<lambda>b. b_job b = Some (br_job q) \<and> b_kind b = br_kind q \<and> b_open b) (w_blockers s''))"
proof -
  note ok = reach_ok[OF assms(1)]
  let ?k = "br_job q"
  have ok': "wq_ok s'" by (rule block_ok[OF ok assms(2)])
  let ?st = "if br_severity q = ''human_checkpoint'' then JWaitingHuman else JBlocked"
  obtain j l s1 bs where j: "job_of s ?k = Some j" and al: "active_lease_for e s (br_lease q) (br_session q) ?k = Inr l"
      and r: "record_activity e (br_session q) [''last_work_block_at''] s1 = Inr s'"
      and stored: "(case j_message j of
            None \<Rightarrow> Inr (set_leases (\<lambda>l. l_id l = br_lease q) (\<lambda>l. l\<lparr>l_state := LReleased, l_reason := ''blocked''\<rparr>)
              (set_job ?k (\<lambda>r. r\<lparr>j_state := ?st, j_lease := None\<rparr>) (s\<lparr>w_blockers := bs\<rparr>)))
          | Some mid \<Rightarrow> set_msgs (\<lambda>m. m_id m = mid) (\<lambda>m. m\<lparr>m_state := MBlocked, m_lease := None\<rparr>)
             (set_leases (\<lambda>l. l_id l = br_lease q) (\<lambda>l. l\<lparr>l_state := LReleased, l_reason := ''blocked''\<rparr>)
              (set_job ?k (\<lambda>r. r\<lparr>j_state := ?st, j_lease := None\<rparr>) (s\<lparr>w_blockers := bs\<rparr>)))) = Inr s1"
      and bs: "bs = w_blockers s @ [\<lparr>b_id = e_newID e ''blk'' (length (w_blockers s)), b_run = j_run j, b_job = Some ?k,
          b_session = Some (br_session q), b_severity = br_severity q, b_kind = br_kind q, b_open = True\<rparr>]"
    using assms(2,3) unfolding HandleBlockWork_def check_simps Let_def by auto
  note l = active_lease_of_job[OF ok j al]
  obtain m0 where m0: "live_of s ?k = [m0]" "j_message j = Some (m_id m0)"
    using held[OF ok l(1,2)] l(4) j by (metis option.inject)
  have s1: "set_msgs (\<lambda>m. m_id m = m_id m0) (\<lambda>m. m\<lparr>m_state := MBlocked, m_lease := None\<rparr>)
             (set_leases (\<lambda>l. l_id l = br_lease q) (\<lambda>l. l\<lparr>l_state := LReleased, l_reason := ''blocked''\<rparr>)
              (set_job ?k (\<lambda>r. r\<lparr>j_state := JBlocked, j_lease := None\<rparr>) (s\<lparr>w_blockers := bs\<rparr>))) = Inr s1"
    using stored m0(2) assms(4) by simp
  have "live_of (s\<lparr>w_blockers := bs\<rparr>) ?k = [m0]" using m0(1) by (simp add: live_of_def)
  then have "live_of s1 ?k = []" using set_msgs_drop[OF s1] by (simp add: live_state_def slice_simps)
  then have live: "live_of s' ?k = []" using record_activityD[OF r] by (auto simp: live_of_def)
  have blk: "w_blockers s' = bs" using set_msgs_tables(8)[OF s1] record_activityD[OF r] by (auto simp: slice_simps)
  have "job_of s' ?k = job_of s1 ?k" using record_activityD[OF r] by (auto simp: job_of_def)
  then have "job_of s' ?k = map_option (\<lambda>r. r\<lparr>j_state := JBlocked, j_lease := None\<rparr>) (job_of (s\<lparr>w_blockers := bs\<rparr>) ?k)"
    using set_msgs_tables(1)[OF s1] by (simp add: tables_set_leases job_of_set_job)
  then have j': "j_state j' = JBlocked" using assms(5) by (cases "job_of (s\<lparr>w_blockers := bs\<rparr>) ?k") auto
  have free: "holder_of s' ?k = None" by (rule free_holder[OF ok' assms(5)]) (simp add: j' working_def)
  have ms: "\<exists>t. store_msgs (w_msgs s' @ [new_message e' (message_id e' s') j']) s' = Inr t"
  proof -
    have "distinct (map m_id (w_msgs s' @ [new_message e' (message_id e' s') j']))"
      using wq_ok_keys[OF ok'] assms(7) by (auto simp: keys_ok_def new_message_def list_ex_iff)
    moreover have "distinct (map m_job (filter (\<lambda>m. live_state (m_state m)) (w_msgs s' @ [new_message e' (message_id e' s') j'])))"
      using wq_ok_msgs[OF ok'] live job_ofD[OF assms(5)] by (auto simp: msgs_ok_def new_message_def live_of_def filter_empty_conv)
    ultimately show ?thesis unfolding store_msgs_def by simp
  qed
  then obtain t where t: "store_msgs (w_msgs s' @ [new_message e' (message_id e' s') j']) s' = Inr t" by blast
  have e: "enqueue_if_ready e' ?k s' = Inr (set_job ?k (\<lambda>j. j\<lparr>j_state := JQueued, j_message := Some (message_id e' s')\<rparr>) t)"
    using assms(5,6) j' t by (simp add: enqueue_if_ready_def enqueueJob_def check_simps)
  have "life_of (set_job ?k (\<lambda>j. j\<lparr>j_state := JQueued, j_message := Some (message_id e' s')\<rparr>) t) ?k = Some (JQueued, None)"
  proof -
    have "life_of t ?k = Some (JBlocked, None)"
      using life_of_store_msgs[OF t] assms(5) free j' by (simp add: life_of_def)
    then show ?thesis by (simp add: life_of_set_state[of _ JQueued])
  qed
  moreover have "w_blockers t = bs" using store_msgsD[OF t] blk by simp
  moreover have "life_of s' ?k = Some (JBlocked, None)" using assms(5) j' free by (simp add: life_of_def)
  ultimately show ?thesis using e bs by (auto simp: tables_set_job)
qed

theorem blocked_job_reoffered_witness:
  "\<exists>s' s''. life_of s' ''A'' = Some (JBlocked, None) \<and> enqueue_if_ready (ex_env 3) ''A'' s' = Inr s'' \<and>
     life_of s'' ''A'' = Some (JQueued, None) \<and>
     list_ex (\<lambda>b. b_job b = Some ''A'' \<and> b_kind b = ''question'' \<and> b_open b) (w_blockers s'')"
proof -
  let ?q = "\<lparr>br_session = ''S'', br_job = ''A'', br_lease = ''lease0'', br_kind = ''question'', br_severity = ''blocked'',
    br_description = ''which''\<rparr>"
  have q: "normalizeBlockWork ?q = Inr ?q" by (simp add: normalizeBlockWork_def) code_simp
  have "ex_step ex_claimed (ex_env 2) (Block ?q) (\<lambda>s s'.
      \<not> list_ex (\<lambda>r. m_id r = message_id (ex_env 3) s') (w_msgs s') \<and>
      (case job_of s' ''A'' of None \<Rightarrow> False
       | Some j \<Rightarrow> dependenciesSatisfied (e_barrier (ex_env 3)) (gate_view s' (j_run j)) ''A'' = Some True))"
    by code_simp
  then obtain s s' where s: "wq_reach s" "call (ex_env 2) (Block ?q) s = Inr s'"
      "\<not> list_ex (\<lambda>r. m_id r = message_id (ex_env 3) s') (w_msgs s')"
      "case job_of s' ''A'' of None \<Rightarrow> False
       | Some j \<Rightarrow> dependenciesSatisfied (e_barrier (ex_env 3)) (gate_view s' (j_run j)) ''A'' = Some True"
    by (rule ex_stepD) blast
  then obtain j where j: "job_of s' ''A'' = Some j"
      "dependenciesSatisfied (e_barrier (ex_env 3)) (gate_view s' (j_run j)) ''A'' = Some True"
    by (auto split: option.splits)
  from blocked_job_reoffered[OF s(1) _ q, of "ex_env 2" s' j "ex_env 3"] s(2,3) j show ?thesis by auto
qed

end
