(* ===== verification/WorkReviewLaws.thy ===== *)
theory WorkReviewLaws
  imports WorkReviewRows WorkClaims
begin

text \<open>
  What the verdicts of a run say in every reachable state: the table of verdicts is a history, a
  revision cycle is routed no more often than it declares, and what a verdict does to the review and
  to the job it sends back.
\<close>

section \<open>Routings\<close>

text \<open>The cycle a needs_revision verdict of a seat takes, as the workflow of the run declares it.\<close>

definition revision_cycle :: "wq \<Rightarrow> string \<Rightarrow> string \<Rightarrow> revisionCycle option" where
  "revision_cycle s run seat =
     (case map_of (w_workflows s) run of None \<Rightarrow> None
      | Some w \<Rightarrow> matchRevisionCycle (cycles_from seat (map map_or_empty (asList (mget w ''cycles'')))) ''needs_revision'')"

lemma cycles_revision_cycle:
  "workflowCyclesForJob s j = Inr cs \<Longrightarrow> matchRevisionCycle cs ''needs_revision'' = revision_cycle s (j_run j) (j_workflow_job j)"
  by (auto simp: workflowCyclesForJob_def workflow_cycles_def revision_cycle_def check_simps)

lemma revision_cycle_cong: "w_workflows s' = w_workflows s \<Longrightarrow> revision_cycle s' = revision_cycle s"
  by (simp add: revision_cycle_def fun_eq_iff)

lemma revision_cycle_from: "revision_cycle s run seat = Some c \<Longrightarrow> rc_from c = seat"
  by (auto simp: revision_cycle_def matchRevisionCycle_def cycles_from_def split: option.splits dest!: find_SomeD)

text \<open>What a routing adds, and what a verdict does to the histories.\<close>

definition over_budget :: "wq \<Rightarrow> string \<Rightarrow> revisionCycle \<Rightarrow> bool" where
  "over_budget s run c \<longleftrightarrow> rc_maxIterations c > 0 \<and> countRevisionRoutings s run c \<ge> rc_maxIterations c"

definition routes :: "wjob \<Rightarrow> wq \<Rightarrow> wq \<Rightarrow> bool" where
  "routes j s s' \<longleftrightarrow>
     (\<exists>c n. revision_cycle s (j_run j) (j_workflow_job j) = Some c \<and> \<not> over_budget s (j_run j) c \<and>
        w_routed s' = w_routed s @ [\<lparr>rt_run = j_run j, rt_from = rc_from c, rt_to = rc_to c,
          rt_iteration = countRevisionRoutings s (j_run j) c + 1, rt_in_flight = n\<rparr>])"

lemma review_of_eq:
  "review_of s' = review_of s \<Longrightarrow> w_verdicts s' = w_verdicts s \<and> w_routed s' = w_routed s \<and> w_workflows s' = w_workflows s"
  by (simp add: review_of_def)

lemma route_rows:
  assumes "routeRevisionCycle e j lid c s = Inr (Some s')" "revision_cycle s (j_run j) (j_workflow_job j) = Some c"
  shows "routes j s s'" "w_verdicts s' = w_verdicts s" "w_workflows s' = w_workflows s"
proof -
  have "routes j s s' \<and> w_verdicts s' = w_verdicts s \<and> w_workflows s' = w_workflows s"
  proof (rule routeRevisionCycleD[OF assms(1)])
    fix target s1 n s2 s3
    assume s1: "completeReviewJob e j lid s = Inr s1"
      and s2: "s2 = s1\<lparr>w_routed := w_routed s1 @ [\<lparr>rt_run = j_run j, rt_from = rc_from c, rt_to = rc_to c,
        rt_iteration = countRevisionRoutings s (j_run j) c + 1, rt_in_flight = n\<rparr>]\<rparr>"
      and s3: "(if \<not> isTerminalJobState (j_state target) then Inr s2
        else reopenJobForAttempt e (j_id target) ''revision_cycle'' s2) = Inr s3"
      and s4: "maybeCompleteRun e (j_run j) s3 = Inr s'"
      and n: "\<not> (rc_maxIterations c > 0 \<and> countRevisionRoutings s (j_run j) c \<ge> rc_maxIterations c)"
    have "review_of s1 = review_of s" "review_of s3 = review_of s2" "review_of s' = review_of s3"
      using s1 s3 s4 by (auto dest: review_rows split: if_splits)
    then have "w_routed s' = w_routed s @ [\<lparr>rt_run = j_run j, rt_from = rc_from c, rt_to = rc_to c,
        rt_iteration = countRevisionRoutings s (j_run j) c + 1, rt_in_flight = n\<rparr>] \<and>
        w_verdicts s' = w_verdicts s \<and> w_workflows s' = w_workflows s"
      by (simp add: review_of_def s2)
    then show ?thesis using assms(2) n unfolding routes_def over_budget_def by blast
  qed
  then show "routes j s s'" "w_verdicts s' = w_verdicts s" "w_workflows s' = w_workflows s" by auto
qed

lemma needs_revision_rows:
  assumes "apply_needs_revision e sid j lid s = Inr (w, s')"
  shows "w_verdicts s' = w_verdicts s" "w_workflows s' = w_workflows s" "w = VRouted \<Longrightarrow> routes j s s'"
    "w \<noteq> VRouted \<Longrightarrow> w_routed s' = w_routed s"
proof -
  consider (routed) c where "w = VRouted" "routeRevisionCycle e j lid c s = Inr (Some s')"
      "revision_cycle s (j_run j) (j_workflow_job j) = Some c"
    | (other) "w \<noteq> VRouted" "review_of s' = review_of s"
    using assms unfolding apply_needs_revision_def
    by (auto simp: check_simps cycles_revision_cycle dest!: review_rows split: option.splits if_splits)
  then have "w_verdicts s' = w_verdicts s \<and> w_workflows s' = w_workflows s \<and>
      (if w = VRouted then routes j s s' else w_routed s' = w_routed s)"
    by cases (auto simp: route_rows review_of_def)
  then show "w_verdicts s' = w_verdicts s" "w_workflows s' = w_workflows s" "w = VRouted \<Longrightarrow> routes j s s'"
    "w \<noteq> VRouted \<Longrightarrow> w_routed s' = w_routed s" by auto
qed

text \<open>A recorded verdict: one row more, and a routing exactly where it says so.\<close>

definition records :: "string \<Rightarrow> string \<Rightarrow> string \<Rightarrow> wenv \<Rightarrow> wq \<Rightarrow> wq \<Rightarrow> bool" where
  "records sid k verdict e s s' \<longleftrightarrow>
     (\<exists>v s1. store_verdict v s = Inr s1 \<and> w_verdicts s' = w_verdicts s1 \<and> v_job_id v = k \<and> v_session v = sid \<and>
        v_verdict v = verdict \<and> v_created v = now_string e \<and> \<not> v_superseded v)"

lemma apply_end_rows:
  "apply_accept e j lid s = Inr (w, s') \<Longrightarrow> w = VCompleted \<and> review_of s' = review_of s"
  "apply_reject e j lid s = Inr (w, s') \<Longrightarrow> w = VFailed \<and> review_of s' = review_of s"
  by (auto simp: apply_accept_def apply_reject_def check_simps dest!: review_rows)

lemma applyVerdict_rows:
  assumes "applyVerdict e sid lid verdict ov j s = Inr (w, s')"
  shows "records sid (j_id j) verdict e s s' \<and> w_workflows s' = w_workflows s \<and>
    (if w = VRouted then routes j s s' else w_routed s' = w_routed s)"
proof (rule applyVerdictD[OF assms])
  fix gen s1 s2
  let ?v = "new_verdict e sid j verdict gen ov s"
  assume s1: "store_verdict ?v s = Inr s1" and s2: "applyAdvisoryGuards e (j_id j) (recordDissent j verdict s1) = Inr s2"
    and b: "isAcceptingVerdict verdict \<and> apply_accept e j lid s2 = Inr (w, s') \<or>
     verdict = ''needs_revision'' \<and> apply_needs_revision e sid j lid s2 = Inr (w, s') \<or>
     verdict = ''reject'' \<and> apply_reject e j lid s2 = Inr (w, s')"
  have r2: "review_of s2 = review_of s1" using s2 by (auto dest: review_rows)
  have r1: "w_routed s1 = w_routed s" "w_workflows s1 = w_workflows s" using store_verdictD[OF s1] by auto
  note eq = review_of_eq[OF r2]
  have end_rows: "w_verdicts s' = w_verdicts s2 \<and> w_workflows s' = w_workflows s2 \<and> w_routed s' = w_routed s2" if n: "w \<noteq> VRouted"
    using b
  proof (elim disjE conjE)
    assume "apply_needs_revision e sid j lid s2 = Inr (w, s')"
    from needs_revision_rows(1,2)[OF this] needs_revision_rows(4)[OF this n] show ?thesis by blast
  qed (auto dest!: apply_end_rows review_of_eq)
  have route: "w = VRouted \<Longrightarrow> apply_needs_revision e sid j lid s2 = Inr (w, s')"
    using b apply_end_rows by blast
  have "routes j s2 s' \<Longrightarrow> routes j s s'"
    using eq r1 revision_cycle_cong[of s2 s]
    by (simp add: routes_def over_budget_def countRevisionRoutings_def routings_def)
  moreover have "records sid (j_id j) verdict e s s'" if "w_verdicts s' = w_verdicts s2"
    unfolding records_def using s1 eq that by (intro exI[of _ ?v] exI[of _ s1]) (simp add: new_verdict_def)
  ultimately show ?thesis
    using end_rows eq r1 needs_revision_rows[OF route] by (cases "w = VRouted") auto
qed

lemma recordVerdict_rows:
  assumes "recordVerdict e nb sid k lid verdict dec s = Inr (w, s')"
  shows "records sid k verdict e s s' \<and> w_workflows s' = w_workflows s \<and>
    (if w = VRouted then \<exists>j. job_of s k = Some j \<and> routes j s s' else w_routed s' = w_routed s)"
proof (rule recordVerdictD[OF assms])
  fix j l ov
  assume "job_of s k = Some j" "applyVerdict e sid lid verdict (ov \<or> e_overridden e k sid) j s = Inr (w, s')"
  then show ?thesis using applyVerdict_rows job_ofD by fastforce
qed

lemma submit_rows:
  assumes "HandleSubmitReview e sid k lid path verdict dec s = Inr (w, s')"
  shows "records sid k (normalizeVerdict verdict) e s s' \<and> w_workflows s' = w_workflows s \<and>
    (if w = VRouted then \<exists>j j'. job_of s k = Some j' \<and> j_run j = j_run j' \<and> j_workflow_job j = j_workflow_job j' \<and> routes j s s'
     else w_routed s' = w_routed s)"
proof (rule HandleSubmitReviewD[OF assms])
  fix j s1
  assume j: "job_of s k = Some j"
    and a: "(j_state j = JClaimed \<and> (\<exists>mid. j_message j = Some mid \<and> ackInline e sid mid lid s = Inr s1)) \<or> s1 = s"
    and r: "recordVerdict e False sid k lid (normalizeVerdict verdict) dec s1 = Inr (w, s')"
  have rev: "review_of s1 = review_of s" using a by (auto dest: review_rows)
  note eq = review_of_eq[OF rev]
  have row: "\<exists>j'. job_of s k = Some j' \<and> j_run i = j_run j' \<and> j_workflow_job i = j_workflow_job j'" if "job_of s1 k = Some i" for i
  proof (cases "s1 = s")
    case False
    then obtain mid where "ackInline e sid mid lid s = Inr s1" using a by blast
    then show ?thesis
      by (rule ackInlineD) (use that j in \<open>auto simp: slice_simps dest!: set_msgs_tables(1) split: if_splits\<close>)
  qed (use that in simp)
  have "w_sessions s1 = w_sessions s"
    using a by (auto simp: slice_simps elim!: ackInlineD dest!: set_msgs_tables(6))
  then have "session_of s1 = session_of s" by (simp add: session_of_def fun_eq_iff)
  then have st: "store_verdict v s1 = Inr u \<Longrightarrow> \<exists>u'. store_verdict v s = Inr u' \<and> w_verdicts u' = w_verdicts u" for v u
    using eq by (auto simp: store_verdict_def split: if_splits)
  have ro: "routes i s1 s' \<Longrightarrow> routes i s s'" for i
    using eq revision_cycle_cong[of s1 s] by (simp add: routes_def over_budget_def countRevisionRoutings_def routings_def)
  show ?thesis using recordVerdict_rows[OF r] eq row ro st unfolding records_def by (auto split: if_splits) metis+
qed

section \<open>The history of verdicts\<close>

definition verdict_order :: "qverdict \<Rightarrow> instant \<times> string" where
  "verdict_order v = (v_created v, v_id v)"

inductive vmove :: "qverdict list \<Rightarrow> qverdict list \<Rightarrow> bool" where
  vmove_add: "v_verdict v \<in> set verdict_values \<Longrightarrow> v_id v \<notin> set (map v_id vs) \<Longrightarrow>
    (v_job_id v, v_session v) \<notin> set (map (\<lambda>w. (v_job_id w, v_session w)) vs) \<Longrightarrow> vmove vs (insort_key verdict_order v vs)"
| vmove_supersede: "vmove vs (upd p (\<lambda>v. v\<lparr>v_superseded := True\<rparr>) vs)"

definition history :: "wq \<Rightarrow> wq \<Rightarrow> bool" where
  "history s s' \<longleftrightarrow>
     vmove\<^sup>*\<^sup>* (w_verdicts s) (w_verdicts s') \<and> w_routed s' = w_routed s \<and> w_workflows s' = w_workflows s"

lemma history_same: "review_of s' = review_of s \<Longrightarrow> history s s'"
  by (simp add: history_def review_of_def)

lemma history_trans: "history s t \<Longrightarrow> history t u \<Longrightarrow> history s u"
  by (auto simp: history_def)

lemma store_vmove:
  assumes "store_verdict v s = Inr s'"
  shows "vmove (w_verdicts s) (w_verdicts s')"
proof -
  have "w_verdicts s' = insort_key verdict_order v (w_verdicts s)"
    using store_verdictD[OF assms] by (simp add: verdict_order_def[abs_def])
  moreover have "vmove (w_verdicts s) (insort_key verdict_order v (w_verdicts s))"
    using assms by (intro vmove_add) (auto simp: store_verdict_def list_ex_iff split: if_splits)
  ultimately show ?thesis by simp
qed

lemma history_store: "store_verdict v s = Inr s' \<Longrightarrow> history s s'"
  using store_vmove[of v s s'] store_verdictD[of v s s'] by (auto simp: history_def)

lemma history_supersede: "history s (supersede p s)"
  using vmove_supersede[of "w_verdicts s" p] by (auto simp: history_def supersede_def)

lemma history_apply_override:
  assumes "apply_override e sid j verdict s = Inr s'"
  shows "history s s'"
proof -
  obtain s1 where "store_verdict (override_verdict e sid j verdict (now_string e) s) s = Inr s1" "review_of s' = review_of s1"
    using assms unfolding apply_override_def by (auto simp: check_simps dest!: review_rows split: if_splits)
  then show ?thesis using history_store history_same history_trans by blast
qed

lemma history_override:
  assumes "HandleOverrideVerdict e sid0 k verdict why auto s = Inr s'"
  shows "history s s'"
proof (rule HandleOverrideVerdictD[OF assms])
  fix j sid t
  assume r: "(sid, t) = (if auto then resolveOverrideSession e s sid0 k else (sid0, s))"
    and b: "s' = t \<or> apply_override e sid j verdict t = Inr s'"
  have "t = snd (if auto then resolveOverrideSession e s sid0 k else (sid0, s))" using r by (metis snd_conv)
  then have "history s t" by (auto intro: history_same)
  then show ?thesis using b history_apply_override history_trans by blast
qed

lemma history_checkpoint:
  assumes "HandleCheckpointResolve e bid action dec s = Inr s'"
  shows "history s s'"
proof (rule HandleCheckpointResolveD[OF assms])
  fix b outcome
  assume h: "action = ''continue'' \<and> checkpoint_continue e b s = Inr s' \<or>
    action = ''override'' \<and> checkpoint_override e b outcome s = Inr s' \<or> action = ''cancel'' \<and> checkpoint_cancel e b s = Inr s'"
  have "review_of s' = review_of s" if "checkpoint_continue e b s = Inr s' \<or> checkpoint_cancel e b s = Inr s'"
    using that by (auto simp: checkpoint_continue_def checkpoint_cancel_def Let_def check_simps dest!: review_rows split: option.splits)
  moreover have "history s s'" if o: "checkpoint_override e b outcome s = Inr s'"
  proof -
    obtain k j where j: "b_job b = Some k" "job_of s k = Some j"
      using o by (cases "b_job b") (auto simp: checkpoint_override_def check_simps waiting_job_def)
    obtain s1 s3 where s1: "end_waiting (\<lambda>r. r\<lparr>j_state := JCompleted, j_lease := None, j_message := None\<rparr>) MCompleted j
          (close_blockers (\<lambda>r. b_id r = b_id b) s) = Inr s1"
      and s3: "(let r = resolveOverrideSession e s1 (case b_session b of None \<Rightarrow> ''<nil>'' | Some x \<Rightarrow> x) k;
               s2 = supersede (\<lambda>v. v_job_id v = k \<and> v_verdict v = ''needs_revision'' \<and> \<not> v_superseded v) (snd r) in
           store_verdict (override_verdict e (fst r) j ''accept_with_findings'' (clearing_time e s2 k) s2) s2) = Inr s3"
        "bind_ok (maybeEnqueueDownstream e k s3) (maybeCompleteRun e (b_run b)) = Inr s'"
      using o j unfolding checkpoint_override_def by (auto simp: check_simps Let_def)
    define u where "u = snd (resolveOverrideSession e s1 (case b_session b of None \<Rightarrow> ''<nil>'' | Some x \<Rightarrow> x) k)"
    have "history s s1" using s1 by (auto intro: history_same dest!: review_rows)
    moreover have "history s1 u" by (simp add: u_def history_same)
    moreover have "history u s3" using s3(1) history_supersede history_store history_trans unfolding Let_def u_def[symmetric] by blast
    moreover have "history s3 s'" using s3(2) by (auto simp: bind_ok_Inr intro!: history_same dest!: review_rows)
    ultimately show ?thesis using history_trans by blast
  qed
  ultimately show ?thesis using h history_same by blast
qed

lemma history_invalidate:
  assumes "HandleRecoveryInvalidateJob e k dec s = Inr s'"
  shows "history s s'"
proof (rule HandleRecoveryInvalidateJobD[OF assms])
  fix j s1 s2 s3
  assume s1: "s1 = supersede (\<lambda>v. v_job_id v = k \<and> \<not> v_superseded v) s"
    and r: "reset_each (downstream_jobs s1 k) s1 = Inr s2" "resetJobToBlocked ''job_invalidated'' k s2 = Inr s3" "enqueueJob e k s3 = Inr s'"
  have "history s1 s'" using r by (auto intro: history_same dest!: review_rows)
  then show ?thesis using history_supersede history_trans unfolding s1 by blast
qed

text \<open>What a call does to the histories, and the review it sends back for a revision.\<close>

fun verdict_outcome :: "wenv \<Rightarrow> wq_call \<Rightarrow> wq \<Rightarrow> (string \<times> verdict_status) option" where
  "verdict_outcome e (Verdict sid k lid v dec) s =
     (case HandleRecordVerdict e sid k lid v dec s of Inl _ \<Rightarrow> None | Inr r \<Rightarrow> Some (k, fst r))"
| "verdict_outcome e (SubmitReview sid k lid path v dec) s =
     (case HandleSubmitReview e sid k lid path v dec s of Inl _ \<Rightarrow> None | Inr r \<Rightarrow> Some (k, fst r))"
| "verdict_outcome e c s = None"

definition sent_back :: "wenv \<Rightarrow> wq_call \<Rightarrow> wq \<Rightarrow> wjob option" where
  "sent_back e c s =
     (case verdict_outcome e c s of None \<Rightarrow> None | Some r \<Rightarrow> if snd r = VRouted then job_of s (fst r) else None)"

definition same_seat :: "wjob \<Rightarrow> wjob \<Rightarrow> bool" where
  "same_seat i j \<longleftrightarrow> j_run i = j_run j \<and> j_workflow_job i = j_workflow_job j"

lemma routes_seat: "same_seat i j \<Longrightarrow> routes i s s' = routes j s s'"
  by (simp add: same_seat_def routes_def)

lemma records_vmove: "records sid k verdict e s s' \<Longrightarrow> vmove\<^sup>*\<^sup>* (w_verdicts s) (w_verdicts s')"
  using store_vmove by (fastforce simp: records_def)

lemma call_history:
  assumes "call e c s = Inr s'" "reviewer c = None"
  shows "history s s'"
  using assms
  by (cases c) (auto simp: check_simps
      intro: history_override history_checkpoint history_invalidate
        history_same[OF review_of_claim] history_same[OF review_of_work(1)] history_same[OF review_of_work(2)]
        history_same[OF review_of_work(3)] history_same[OF review_of_work(4)] history_same[OF review_of_work(5)]
        history_same[OF review_of_admin(1)] history_same[OF review_of_admin(2)] history_same[OF review_of_admin(3)]
        history_same[OF review_of_admin(4)] history_same[OF review_of_admin(5)] history_same[OF review_of_downstream(1)])

lemma call_histories:
  assumes "call e c s = Inr s'"
  shows "vmove\<^sup>*\<^sup>* (w_verdicts s) (w_verdicts s') \<and> w_workflows s' = w_workflows s \<and>
    (case sent_back e c s of Some j \<Rightarrow> routes j s s' | None \<Rightarrow> w_routed s' = w_routed s)"
proof (cases c)
  case (Verdict sid k lid v dec)
  then obtain w where w: "HandleRecordVerdict e sid k lid v dec s = Inr (w, s')"
    using assms by (auto simp: check_simps)
  have "sent_back e c s = (if w = VRouted then job_of s k else None)" using w Verdict by (simp add: sent_back_def)
  then show ?thesis
    using recordVerdict_rows[OF HandleRecordVerdictD(2)[OF w]] records_vmove by (auto split: if_splits)
next
  case (SubmitReview sid k lid path v dec)
  then obtain w where w: "HandleSubmitReview e sid k lid path v dec s = Inr (w, s')"
    using assms by (auto simp: check_simps)
  have sb: "sent_back e c s = (if w = VRouted then job_of s k else None)" using w SubmitReview by (simp add: sent_back_def)
  note rows = submit_rows[OF w]
  show ?thesis
  proof (cases "w = VRouted")
    case True
    then obtain j j' where j: "job_of s k = Some j'" "same_seat j j'" "routes j s s'"
      using rows by (auto simp: same_seat_def)
    then have "routes j' s s'" using routes_seat by blast
    then show ?thesis using rows records_vmove sb True j(1) by auto
  qed (use rows records_vmove sb in auto)
qed (use call_history[OF assms] in \<open>auto simp: history_def sent_back_def\<close>)

lemma calls_verdicts: "calls cs s = Inr s' \<Longrightarrow> vmove\<^sup>*\<^sup>* (w_verdicts s) (w_verdicts s')"
proof (induction cs arbitrary: s)
  case (Cons c cs)
  then obtain t where "call (fst c) (snd c) s = Inr t" "calls cs t = Inr s'" by (auto simp: check_simps)
  then show ?case using Cons.IH call_histories rtranclp_trans[of vmove] by blast
qed simp

section \<open>The table of verdicts\<close>

definition verdicts_ok :: "qverdict list \<Rightarrow> bool" where
  "verdicts_ok vs \<longleftrightarrow>
     sorted (map verdict_order vs) \<and> distinct (map v_id vs) \<and> distinct (map (\<lambda>v. (v_job_id v, v_session v)) vs) \<and>
     (\<forall>v \<in> set vs. v_verdict v \<in> set verdict_values)"

lemma distinct_insort_key: "distinct (map f (insort_key g x xs)) \<longleftrightarrow> f x \<notin> f ` set xs \<and> distinct (map f xs)"
  by (induction xs) (auto simp: set_insort_key)

lemma vmove_ok: "vmove vs vs' \<Longrightarrow> verdicts_ok vs \<Longrightarrow> verdicts_ok vs'"
proof (induction rule: vmove.induct)
  case (vmove_add v vs)
  then show ?case
    by (auto simp: verdicts_ok_def sorted_insort_key distinct_insort_key set_insort_key image_iff)
next
  case (vmove_supersede vs p)
  then show ?case by (auto simp: verdicts_ok_def verdict_order_def[abs_def] set_upd)
qed

lemma vmoves_ok: "vmove\<^sup>*\<^sup>* vs vs' \<Longrightarrow> verdicts_ok vs \<Longrightarrow> verdicts_ok vs'"
  by (induction rule: rtranclp_induct) (auto intro: vmove_ok)

lemma reach_verdicts: "wq_reach s \<Longrightarrow> verdicts_ok (w_verdicts s)"
proof (induction rule: wq_reach.induct)
  case (wq_call s e c s')
  then show ?case using vmoves_ok call_histories by blast
qed (simp_all add: verdicts_ok_def)

text \<open>A verdict stays in the table, at most superseded.\<close>

lemma vmove_keeps: "vmove vs vs' \<Longrightarrow> v \<in> set vs \<Longrightarrow> \<exists>v' \<in> set vs'. v'\<lparr>v_superseded := v_superseded v\<rparr> = v"
proof (induction rule: vmove.induct)
  case (vmove_supersede vs p)
  then show ?case unfolding set_upd by (intro bexI[of _ "if p v then v\<lparr>v_superseded := True\<rparr> else v"]) auto
qed (auto simp: set_insort_key intro!: bexI[of _ v])

lemma vmoves_keep:
  assumes "vmove\<^sup>*\<^sup>* vs vs'" "v \<in> set vs"
  shows "\<exists>v' \<in> set vs'. v'\<lparr>v_superseded := v_superseded v\<rparr> = v"
  using assms(1)
proof induction
  case (step us ws)
  then obtain u where u: "u \<in> set us" "u\<lparr>v_superseded := v_superseded v\<rparr> = v" by blast
  obtain w where "w \<in> set ws" "w\<lparr>v_superseded := v_superseded u\<rparr> = u" using vmove_keeps[OF step(2) u(1)] by blast
  then show ?case using u(2) by (intro bexI[of _ w]) (metis qverdict.surjective qverdict.update_convs(6))
qed (use assms(2) in \<open>auto intro!: bexI[of _ v]\<close>)

section \<open>Revisions are bounded\<close>

text \<open>How often a series of calls sends the review of a seat back, over all its jobs.\<close>

definition sends_back :: "string \<Rightarrow> string \<Rightarrow> wenv \<Rightarrow> wq_call \<Rightarrow> wq \<Rightarrow> int" where
  "sends_back run seat e c s =
     (case sent_back e c s of None \<Rightarrow> 0 | Some j \<Rightarrow> if j_run j = run \<and> j_workflow_job j = seat then 1 else 0)"

fun revisions :: "string \<Rightarrow> string \<Rightarrow> (wenv \<times> wq_call) list \<Rightarrow> wq \<Rightarrow> int" where
  "revisions run seat [] s = 0"
| "revisions run seat (c # cs) s =
     sends_back run seat (fst c) (snd c) s +
     (case call (fst c) (snd c) s of Inl _ \<Rightarrow> 0 | Inr t \<Rightarrow> revisions run seat cs t)"

definition numbered :: "wrouted list \<Rightarrow> bool" where
  "numbered rs \<longleftrightarrow> map rt_iteration rs = [1..int (length rs)]"

lemma numbered_append: "numbered rs \<Longrightarrow> rt_iteration r = int (length rs) + 1 \<Longrightarrow> numbered (rs @ [r])"
  using upto_split2[of 1 "int (length rs) + 1" "int (length rs) + 1"] by (simp add: numbered_def upto_rec2 add.commute)

definition routings_ok :: "wq \<Rightarrow> bool" where
  "routings_ok s \<longleftrightarrow>
     (\<forall>run seat c. revision_cycle s run seat = Some c \<longrightarrow> 0 < rc_maxIterations c \<longrightarrow>
        countRevisionRoutings s run c \<le> rc_maxIterations c) \<and>
     (\<forall>run from to. numbered (routings s run from to))"

lemma routings_routes:
  assumes "routes j s s'" "revision_cycle s (j_run j) (j_workflow_job j) = Some c"
  obtains n where "\<not> over_budget s (j_run j) c"
    "\<And>run from to. routings s' run from to = (if run = j_run j \<and> from = j_workflow_job j \<and> to = rc_to c
       then routings s run from to @ [\<lparr>rt_run = run, rt_from = from, rt_to = to,
         rt_iteration = int (length (routings s run from to)) + 1, rt_in_flight = n\<rparr>]
       else routings s run from to)"
proof -
  note from_c = revision_cycle_from[OF assms(2)]
  obtain n where n: "\<not> over_budget s (j_run j) c" "w_routed s' = w_routed s @ [\<lparr>rt_run = j_run j, rt_from = rc_from c,
      rt_to = rc_to c, rt_iteration = countRevisionRoutings s (j_run j) c + 1, rt_in_flight = n\<rparr>]"
    using assms by (auto simp: routes_def)
  show thesis
    by (rule that[OF n(1)]) (auto simp: routings_def n(2) countRevisionRoutings_def from_c)
qed

lemma call_routings:
  assumes st: "call e c s = Inr s'" and ok: "routings_ok s"
  shows "routings_ok s' \<and> (\<forall>run seat cy. revision_cycle s run seat = Some cy \<longrightarrow>
    revision_cycle s' run seat = Some cy \<and> countRevisionRoutings s' run cy = countRevisionRoutings s run cy + sends_back run seat e c s)"
proof -
  note h = call_histories[OF st]
  have cyc: "revision_cycle s' = revision_cycle s" using h revision_cycle_cong by blast
  show ?thesis
  proof (cases "sent_back e c s")
    case None
    then have "routings s' = routings s" using h by (simp add: routings_def fun_eq_iff)
    then show ?thesis using ok None cyc by (simp add: routings_ok_def countRevisionRoutings_def sends_back_def)
  next
    case (Some j)
    then have r: "routes j s s'" using h by simp
    then obtain cj where cj: "revision_cycle s (j_run j) (j_workflow_job j) = Some cj" by (auto simp: routes_def)
    show ?thesis
    proof (rule routings_routes[OF r cj])
      fix n assume n: "\<not> over_budget s (j_run j) cj"
        and eq: "\<And>run from to. routings s' run from to = (if run = j_run j \<and> from = j_workflow_job j \<and> to = rc_to cj
           then routings s run from to @ [\<lparr>rt_run = run, rt_from = from, rt_to = to,
             rt_iteration = int (length (routings s run from to)) + 1, rt_in_flight = n\<rparr>]
           else routings s run from to)"
      have count: "countRevisionRoutings s' run cy = countRevisionRoutings s run cy + sends_back run seat e c s"
        if "revision_cycle s run seat = Some cy" for run seat cy
        using that cj revision_cycle_from[OF that] Some by (auto simp: countRevisionRoutings_def eq sends_back_def)
      have "countRevisionRoutings s' run cy \<le> rc_maxIterations cy"
        if "revision_cycle s run seat = Some cy" "0 < rc_maxIterations cy" for run seat cy
        using that ok n cj count[OF that(1)] Some
        by (auto simp: routings_ok_def over_budget_def sends_back_def split: if_splits)
      moreover have "numbered (routings s' run f g)" for run f g
        using ok by (auto simp: routings_ok_def eq intro: numbered_append)
      ultimately show ?thesis using count cyc by (simp add: routings_ok_def)
    qed
  qed
qed

lemma reach_routings: "wq_reach s \<Longrightarrow> routings_ok s"
proof (induction rule: wq_reach.induct)
  case (wq_call s e c s')
  then show ?case using call_routings by blast
qed (auto simp: routings_ok_def routings_def revision_cycle_def countRevisionRoutings_def numbered_def)

lemma calls_routings:
  "calls cs s = Inr s' \<Longrightarrow> routings_ok s \<Longrightarrow> revision_cycle s run seat = Some cy \<Longrightarrow>
   routings_ok s' \<and> revision_cycle s' run seat = Some cy \<and>
   countRevisionRoutings s' run cy = countRevisionRoutings s run cy + revisions run seat cs s"
proof (induction cs arbitrary: s)
  case (Cons c cs)
  then obtain t where t: "call (fst c) (snd c) s = Inr t" "calls cs t = Inr s'" by (auto simp: check_simps)
  then show ?case using Cons.IH[OF t(2)] call_routings[OF t(1) Cons.prems(2)] Cons.prems(3) by auto
qed simp

text \<open>Revision cycles end. However long a series of calls is, and whatever else it does, the reviews
  of one seat send the work back at most as often as the cycle of the workflow allows, counted over
  the whole run; the routings of the cycle carry the numbers one, two and so on.\<close>

theorem revisions_bounded:
  assumes "wq_reach s" "calls cs s = Inr s'" "revision_cycle s run seat = Some c" "0 < rc_maxIterations c"
  shows "countRevisionRoutings s run c + revisions run seat cs s \<le> rc_maxIterations c \<and>
    countRevisionRoutings s' run c = countRevisionRoutings s run c + revisions run seat cs s \<and>
    map rt_iteration (routings s' run seat (rc_to c)) = [1..countRevisionRoutings s' run c]"
proof -
  note r = calls_routings[OF assms(2) reach_routings[OF assms(1)] assms(3)]
  then have "countRevisionRoutings s' run c \<le> rc_maxIterations c" "numbered (routings s' run seat (rc_to c))"
    using assms(4) unfolding routings_ok_def by blast+
  then show ?thesis using r revision_cycle_from[OF assms(3)] by (simp add: numbered_def countRevisionRoutings_def)
qed

section \<open>A panel to run\<close>

text \<open>
  A build \<open>T\<close>, two gating reviews \<open>A\<close> and \<open>B\<close> of it, and a job \<open>G\<close> behind both that needs accepting
  verdicts. Each review may send \<open>T\<close> back twice, under a declared cohort.
\<close>

definition ex_seat_cycle :: "goval \<Rightarrow> string \<Rightarrow> goval" where
  "ex_seat_cycle cohort seat = VMap [(''from'', VStr seat), (''to'', VStr ''T''), (''on_verdict'', VStr ''needs_revision''),
     (''max_iterations'', VInt 2), (''debounce_cohort'', cohort)]"

definition ex_clearing_gate :: gomap where
  "ex_clearing_gate = [(''requires_verdict'', VList [VStr ''accept'', VStr ''accept_with_findings''])]"

definition ex_two_seats :: "goval \<Rightarrow> wq" where
  "ex_two_seats cohort = (ex_queue [ex_job ''T'', (ex_job ''A'')\<lparr>j_type := ''review''\<rparr>, (ex_job ''B'')\<lparr>j_type := ''review''\<rparr>, ex_job ''G''])
     \<lparr>w_workflows := [(''R'', [(''cycles'', VList [ex_seat_cycle cohort ''A'', ex_seat_cycle cohort ''B''])])],
      w_dependencies := [(''A'', ''T'', []), (''B'', ''T'', []), (''G'', ''A'', ex_clearing_gate), (''G'', ''B'', ex_clearing_gate)]\<rparr>"

lemma ex_two_seats_reach: "wq_reach (ex_two_seats cohort)"
proof -
  let ?js = "[ex_job ''T'', (ex_job ''A'')\<lparr>j_type := ''review''\<rparr>, (ex_job ''B'')\<lparr>j_type := ''review''\<rparr>, ex_job ''G'']"
  let ?s = "(ex_queue [])\<lparr>w_workflows := w_workflows (ex_two_seats cohort)\<rparr>"
  have "wq_reach (?s\<lparr>w_jobs := w_jobs ?s @ ?js\<rparr>)"
    by (intro wq_prepare wq_start) (simp_all add: ex_queue_def new_job_def ex_job_def)
  from wq_other[OF this, where xs = "w_sessions ?s" and rs = "w_runs ?s" and bs = "w_blockers ?s" and ds = "w_dependencies (ex_two_seats cohort)"
      and d = "w_dead ?s" and a = "w_assembled ?s"]
  show ?thesis by (simp add: ex_two_seats_def ex_queue_def)
qed

text \<open>The build is done, and both reviews are under way.\<close>

definition ex_reviewing :: "(wenv \<times> wq_call) list" where
  "ex_reviewing =
     [(ex_env 0, EnqueueReady ''R''), (ex_env 1, Claim ''S'' 60), (ex_env 2, Ack ''S'' ''msg0'' ''lease0''),
      (ex_env 3, Complete ''S'' ''T'' ''lease0''), (ex_env 4, Claim ''S'' 60), (ex_env 5, Claim ''T'' 60),
      (ex_env 6, Ack ''S'' ''msg1'' ''lease1''), (ex_env 7, Ack ''T'' ''msg2'' ''lease2'')]"

definition panel_run :: "goval \<Rightarrow> (wenv \<times> wq_call) list \<Rightarrow> (wq \<Rightarrow> bool) \<Rightarrow> bool" where
  "panel_run cohort cs P \<longleftrightarrow> (case calls (ex_reviewing @ cs) (ex_two_seats cohort) of Inl _ \<Rightarrow> False | Inr s \<Rightarrow> P s)"

lemma panel_runD:
  assumes "panel_run cohort cs P"
  obtains s where "wq_reach s" "P s"
proof -
  obtain s where "calls (ex_reviewing @ cs) (ex_two_seats cohort) = Inr s" "P s"
    using assms by (auto simp: panel_run_def split: sum.splits)
  then show thesis using that calls_reach[OF ex_two_seats_reach] by blast
qed

theorem revisions_bounded_witness:
  "\<exists>s s'. wq_reach s \<and> calls [(ex_env 8, Verdict ''S'' ''A'' ''lease1'' ''revise'' [])] s = Inr s' \<and>
     revisions ''R'' ''A'' [(ex_env 8, Verdict ''S'' ''A'' ''lease1'' ''revise'' [])] s = 1 \<and>
     map rt_iteration (routings s' ''R'' ''A'' ''T'') = [1]"
proof -
  let ?cs = "[(ex_env 8, Verdict ''S'' ''A'' ''lease1'' ''revise'' [])]"
  have "panel_run VNil [] (\<lambda>s. (case calls ?cs s of Inl _ \<Rightarrow> False | Inr s' \<Rightarrow> True) \<and>
      (case revision_cycle s ''R'' ''A'' of None \<Rightarrow> False
       | Some c \<Rightarrow> rc_maxIterations c = 2 \<and> rc_to c = ''T'' \<and> countRevisionRoutings s ''R'' c = 0) \<and>
      revisions ''R'' ''A'' ?cs s = 1)"
    by code_simp
  then obtain s where s: "wq_reach s" "case calls ?cs s of Inl _ \<Rightarrow> False | Inr s' \<Rightarrow> True"
      "case revision_cycle s ''R'' ''A'' of None \<Rightarrow> False
       | Some c \<Rightarrow> rc_maxIterations c = 2 \<and> rc_to c = ''T'' \<and> countRevisionRoutings s ''R'' c = 0"
      "revisions ''R'' ''A'' ?cs s = 1"
    by (rule panel_runD) blast
  obtain s' c where c: "calls ?cs s = Inr s'" "revision_cycle s ''R'' ''A'' = Some c" "rc_maxIterations c = 2"
      "rc_to c = ''T''" "countRevisionRoutings s ''R'' c = 0"
    using s(2,3) by (auto split: sum.splits option.splits)
  have "[1..1 :: int] = [1]" by (simp add: upto_rec1)
  then show ?thesis using revisions_bounded[OF s(1) c(1,2)] c s(1,4) by auto
qed



text \<open>A session gives one verdict on a job, for good. A verdict stays in the table through any
  series of calls, at most superseded, and the session that gave it can neither record nor submit
  another one for the job, also not after a revision has sent the job through a new attempt and the
  same session has claimed it again.\<close>

theorem verdict_given_once:
  assumes "v \<in> set (w_verdicts s)" "calls cs s = Inr s'"
  shows "(\<exists>v' \<in> set (w_verdicts s'). v'\<lparr>v_superseded := v_superseded v\<rparr> = v) \<and>
    isl (HandleRecordVerdict e (v_session v) (v_job_id v) lid verdict dec s') \<and>
    isl (HandleSubmitReview e (v_session v) (v_job_id v) lid path verdict dec s')"
proof -
  obtain v' where v': "v' \<in> set (w_verdicts s')" "v'\<lparr>v_superseded := v_superseded v\<rparr> = v"
    using vmoves_keep[OF calls_verdicts[OF assms(2)] assms(1)] by blast
  have key: "v_job_id v' = v_job_id v" "v_session v' = v_session v"
    using arg_cong[OF v'(2), of v_job_id] arg_cong[OF v'(2), of v_session] by simp_all
  have no: "\<not> records (v_session v) (v_job_id v) w e s' t" for w t
    using v'(1) key by (fastforce simp: records_def list_ex_iff dest!: store_verdictD)
  have "isl (HandleRecordVerdict e (v_session v) (v_job_id v) lid verdict dec s')"
  proof (cases "HandleRecordVerdict e (v_session v) (v_job_id v) lid verdict dec s'")
    case (Inr r)
    then show ?thesis using recordVerdict_rows[OF HandleRecordVerdictD(2)] no by (cases r) blast
  qed simp
  moreover have "isl (HandleSubmitReview e (v_session v) (v_job_id v) lid path verdict dec s')"
  proof (cases "HandleSubmitReview e (v_session v) (v_job_id v) lid path verdict dec s'")
    case (Inr r)
    then show ?thesis using submit_rows no by (cases r) blast
  qed simp
  ultimately show ?thesis using v' by blast
qed

text \<open>The reviewer of the first round claims the review of the second and cannot end it.\<close>

definition ex_second_round :: "(wenv \<times> wq_call) list" where
  "ex_second_round =
     [(ex_env 9, Verdict ''T'' ''B'' ''lease2'' ''approve'' []), (ex_env 10, Claim ''S'' 60),
      (ex_env 11, Ack ''S'' ''msg3'' ''lease3''), (ex_env 12, Complete ''S'' ''T'' ''lease3''),
      (ex_env 13, Claim ''S'' 60), (ex_env 14, Ack ''S'' ''msg4'' ''lease4'')]"

theorem verdict_given_once_witness:
  "\<exists>s s'. calls ex_second_round s = Inr s' \<and> life_of s' ''A'' = Some (JRunning, Some (''S'', seconds 73)) \<and>
     isl (HandleRecordVerdict (ex_env 15) ''S'' ''A'' ''lease4'' ''accept'' [] s')"
proof -
  have "panel_run VNil [(ex_env 8, Verdict ''S'' ''A'' ''lease1'' ''revise'' [])]
      (\<lambda>s. list_ex (\<lambda>v. v_session v = ''S'' \<and> v_job_id v = ''A'') (w_verdicts s) \<and>
       (case calls ex_second_round s of Inl _ \<Rightarrow> False
        | Inr s' \<Rightarrow> life_of s' ''A'' = Some (JRunning, Some (''S'', seconds 73))))"
    by code_simp
  then obtain s where s: "list_ex (\<lambda>v. v_session v = ''S'' \<and> v_job_id v = ''A'') (w_verdicts s)"
      "case calls ex_second_round s of Inl _ \<Rightarrow> False
        | Inr s' \<Rightarrow> life_of s' ''A'' = Some (JRunning, Some (''S'', seconds 73))"
    by (rule panel_runD) blast
  obtain v where v: "v \<in> set (w_verdicts s)" "v_session v = ''S''" "v_job_id v = ''A''" using s(1) by (auto simp: list_ex_iff)
  obtain s' where s': "calls ex_second_round s = Inr s'" "life_of s' ''A'' = Some (JRunning, Some (''S'', seconds 73))"
    using s(2) by (auto split: sum.splits)
  show ?thesis using verdict_given_once[OF v(1) s'(1), of "ex_env 15" "''lease4''" "''accept''" "[]"] v s' by auto
qed

end
