(* ===== verification/WorkVerdicts.thy ===== *)
theory WorkVerdicts
  imports WorkReviewLaws
begin

text \<open>
  What a verdict does: where it leaves the review, which job it sends back, what it leaves alone, and
  where a revision that was asked for is lost.
\<close>

section \<open>What stays\<close>

lemma lives_keep:
  assumes "lives e c s s'" "life_of s k = Some a" "\<And>b. \<not> life e c a b"
  shows "life_of s' k = Some a"
proof -
  obtain b where b: "life_of s' k = Some b" "(life e c)\<^sup>*\<^sup>* a b"
    using assms(1,2) by (auto simp: lives_def option_rel_Some1 dest!: spec[of _ k])
  from b(2) have "b = a" using assms(3) by (cases rule: converse_rtranclpE) auto
  with b show ?thesis by simp
qed

lemma finish_keeps:
  assumes "wq_ok s" "enqueue_and_finish e j s = Inr s'" "life_of s k = Some (st, h)" "st \<noteq> JBlocked"
  shows "life_of s' k = Some (st, h)"
  by (rule lives_keep[OF lives_finish[OF assms(1,2), of "EnqueueReady []"] assms(3)]) (use assms(4) in \<open>auto elim: lifeE\<close>)

lemma reopen_keeps:
  assumes "wq_ok s" "reopenJobForAttempt e k why s = Inr s'" "pred_option (\<lambda>j. resettable (j_state j)) (job_of s k)"
    "life_of s i = Some (st, h)" "\<not> resettable st"
  shows "life_of s' i = Some (st, h)"
  by (rule lives_keep[OF lives_reopen[OF assms(1,3) _ assms(2), of "RetryJob [] [] False"] assms(4)])
    (use assms(5) in \<open>auto simp: resettable_def elim: lifeE\<close>)

lemma reopen_queues:
  assumes ok: "wq_ok s" and st: "reopenJobForAttempt e k why s = Inr s'"
  shows "life_of s' k = Some (JQueued, None)"
proof -
  obtain s1 s2 where s: "reset_each (downstream_jobs s k) s = Inr s1" "resetJobToBlocked (if why = [] then ''reopened'' else why) k s1 = Inr s2"
      "enqueueJob e k (bumpReviewGeneration e k s2) = Inr s'"
    using st unfolding reopenJobForAttempt_def bind_ok_Inr by blast
  have "wq_ok (bumpReviewGeneration e k s2)" by (rule bump_ok[OF reset_ok[OF reset_each_ok[OF ok s(1)] s(2)]])
  then show ?thesis using enqueue_life(2)[OF _ s(3)] by simp
qed

section \<open>The outcome of a verdict\<close>

text \<open>
  Where each outcome leaves the review \<open>k\<close>, in terms of the state before and after. A routed
  revision finds the latest job of the target seat open, or queues it again.
\<close>

definition seat_cycle :: "wq \<Rightarrow> string \<Rightarrow> revisionCycle option" where
  "seat_cycle s k = (case job_of s k of None \<Rightarrow> None | Some j \<Rightarrow> revision_cycle s (j_run j) (j_workflow_job j))"

definition checkpoint_for :: "string \<Rightarrow> wblocker \<Rightarrow> bool" where
  "checkpoint_for k b \<longleftrightarrow>
     b_job b = Some k \<and> b_open b \<and> b_severity b = ''human_checkpoint'' \<and> b_kind b = ''revision_routing''"

definition target_open :: "wq \<Rightarrow> wq \<Rightarrow> string \<Rightarrow> revisionCycle \<Rightarrow> bool" where
  "target_open s s' k c \<longleftrightarrow>
     (\<exists>t j i st h. job_of s t = Some j \<and> job_of s k = Some i \<and> j_run j = j_run i \<and> j_workflow_job j = rc_to c \<and>
        (rc_to c \<noteq> rc_from c \<longrightarrow> life_of s' t = Some (st, h) \<and> \<not> isTerminalJobState st \<and>
          (isTerminalJobState (j_state j) \<longrightarrow> (st, h) = (JQueued, None))))"

definition outcome_ok :: "string \<Rightarrow> string \<Rightarrow> verdict_status \<Rightarrow> wq \<Rightarrow> wq \<Rightarrow> bool" where
  "outcome_ok verdict k w s s' \<longleftrightarrow>
     (case w of
        VCompleted \<Rightarrow> isAcceptingVerdict verdict \<and> life_of s' k = Some (JCompleted, None)
      | VFailed \<Rightarrow> verdict = ''reject'' \<and> seat_cycle s k = None \<and> life_of s' k = Some (JFailed, None)
      | VAbsorbed \<Rightarrow> verdict = ''needs_revision'' \<and> seat_cycle s k = None \<and> life_of s' k = Some (JCompleted, None)
      | VWaitingHuman \<Rightarrow> verdict = ''needs_revision'' \<and> life_of s' k = Some (JWaitingHuman, None) \<and>
          list_ex (checkpoint_for k) (w_blockers s')
      | VDebounced \<Rightarrow> verdict = ''needs_revision'' \<and> life_of s' k = Some (JCompleted, None) \<and>
          (\<exists>c. seat_cycle s k = Some c \<and> rc_debounceCohort c \<noteq> [])
      | VRouted \<Rightarrow> verdict = ''needs_revision'' \<and> (\<exists>c. seat_cycle s k = Some c \<and> target_open s s' k c))"

text \<open>A running review under the lease of its session.\<close>

definition reviewing :: "wenv \<Rightarrow> wq \<Rightarrow> string \<Rightarrow> string \<Rightarrow> string \<Rightarrow> wjob \<Rightarrow> bool" where
  "reviewing e s k lid sid j \<longleftrightarrow>
     wq_ok s \<and> job_of s k = Some j \<and> j_state j = JRunning \<and> (\<exists>l. active_lease_for e s lid sid k = Inr l)"

lemma reviewingD:
  assumes "reviewing e s k lid sid j"
  shows "wq_ok s" "job_of s k = Some j" "j_state j = JRunning" "\<exists>l. active_lease_for e s lid sid k = Inr l"
  using assms by (auto simp: reviewing_def)

lemma reviewing_settle:
  assumes "reviewing e s k lid sid j" "settle_rows jst mst why j lid s = Inr s'"
  shows "life_of s' i = (if i = k then Some (jst, None) else life_of s i)"
  using assms settle_life by (auto simp: reviewing_def)

lemma reviewing_same: "same_work s t \<Longrightarrow> reviewing e s k lid sid j \<Longrightarrow> reviewing e t k lid sid j"
  by (simp add: reviewing_def same_work_ok same_work_job same_work_lease)

lemma seat_cycle_job: "job_of s k = Some j \<Longrightarrow> seat_cycle s k = revision_cycle s (j_run j) (j_workflow_job j)"
  by (simp add: seat_cycle_def)

lemma review_completed:
  assumes rv: "reviewing e s k lid sid j" and st: "completeReviewJob e j lid s = Inr s'"
  shows "wq_ok s'" "life_of s' i = (if i = k then Some (JCompleted, None) else life_of s i)"
  using rv st completeReviewJob_ok reviewing_settle[OF rv]
  by (auto simp: completeReviewJob_def check_simps reviewing_def)

lemma review_finished:
  assumes "reviewing e s k lid sid j" "bind_ok (completeReviewJob e j lid s) (enqueue_and_finish e j) = Inr s'"
  shows "life_of s' k = Some (JCompleted, None)"
  using assms review_completed[OF assms(1)] finish_keeps[of _ e j s' k JCompleted None] by (auto simp: check_simps)

lemma review_accepted:
  "reviewing e s k lid sid j \<Longrightarrow> apply_accept e j lid s = Inr (w, s') \<Longrightarrow>
   w = VCompleted \<and> life_of s' k = Some (JCompleted, None)"
  by (auto simp: apply_accept_def check_simps intro: review_finished)

lemma review_rejected:
  assumes rv: "reviewing e s k lid sid j" and st: "apply_reject e j lid s = Inr (w, s')"
  shows "w = VFailed \<and> seat_cycle s k = None \<and> life_of s' k = Some (JFailed, None)"
proof -
  obtain s1 where "settle_rows JFailed MCompleted ''reject'' j lid s = Inr s1" "maybeCompleteRun e (j_run j) s1 = Inr s'"
      "w = VFailed" "revision_cycle s (j_run j) (j_workflow_job j) = None"
    using st by (auto simp: apply_reject_def failReviewJob_def check_simps cycles_revision_cycle)
  then show ?thesis using reviewing_settle[OF rv] lives_maybeComplete by (simp add: seat_cycle_job[OF reviewingD(2)[OF rv]])
qed

lemma review_waiting:
  assumes rv: "reviewing e s k lid sid j" and st: "openHumanCheckpoint e sid' j lid s = Inr s'"
  shows "life_of s' k = Some (JWaitingHuman, None) \<and> list_ex (checkpoint_for k) (w_blockers s')"
proof -
  obtain t where t: "t = s\<lparr>w_blockers := w_blockers s @ [\<lparr>b_id = e_newID e ''blk'' (length (w_blockers s)), b_run = j_run j,
          b_job = Some (j_id j), b_session = Some sid', b_severity = ''human_checkpoint'', b_kind = ''revision_routing'',
          b_open = True\<rparr>]\<rparr>" "settle_rows JWaitingHuman MBlocked ''needs_revision'' j lid t = Inr s'"
    using st by (simp add: openHumanCheckpoint_def)
  have "reviewing e t k lid sid j" by (rule reviewing_same[OF _ rv]) (simp add: t(1) same_work_def)
  then have "life_of s' k = Some (JWaitingHuman, None)" using reviewing_settle t(2) by fastforce
  moreover have "w_blockers s' = w_blockers t"
    using t(2) unfolding settle_rows_def Let_def by (auto simp: check_simps slice_simps dest!: set_msgs_tables(8) split: option.splits)
  ultimately show ?thesis using job_ofD[OF reviewingD(2)[OF rv]] by (simp add: t(1) checkpoint_for_def)
qed

lemma review_routed:
  assumes rv: "reviewing e s k lid sid j" and st: "routeRevisionCycle e j lid c s = Inr (Some s')" and c: "revision_cycle s (j_run j) (j_workflow_job j) = Some c"
  shows "target_open s s' k c" "i \<noteq> k \<Longrightarrow> life_of s i = Some (st', h) \<Longrightarrow> \<not> resettable st' \<Longrightarrow> life_of s' i = Some (st', h)"
proof -
  note ok = reviewingD(1)[OF rv] and job = reviewingD(2)[OF rv] and running = reviewingD(3)[OF rv]
  obtain target s1 n s2 s3 where t: "latestJobForWorkflowID s (j_run j) (rc_to c) = Some target"
    and s1: "completeReviewJob e j lid s = Inr s1"
    and s2: "s2 = s1\<lparr>w_routed := w_routed s1 @ [\<lparr>rt_run = j_run j, rt_from = rc_from c, rt_to = rc_to c,
       rt_iteration = countRevisionRoutings s (j_run j) c + 1, rt_in_flight = n\<rparr>]\<rparr>"
    and s3: "(if \<not> isTerminalJobState (j_state target) then Inr s2
      else reopenJobForAttempt e (j_id target) ''revision_cycle'' s2) = Inr s3"
    and fin: "maybeCompleteRun e (j_run j) s3 = Inr s'"
    by (rule routeRevisionCycleD[OF st])
  have same: "same_work s1 s2" by (simp add: s2 same_work_def)
  have ok2: "wq_ok s2" using review_completed(1)[OF rv s1] same_work_ok[OF same] by simp
  have life2: "life_of s2 i = (if i = k then Some (JCompleted, None) else life_of s i)" for i
    using review_completed(2)[OF rv s1] life_of_same_work[OF same] by simp
  have row: "target \<in> set (w_jobs s)" "j_run target = j_run j" "j_workflow_job target = rc_to c" using latest_job_row[OF t] by auto
  then have tj: "job_of s (j_id target) = Some target"
    using find_key[of j_id "w_jobs s" target] wq_ok_keys[OF ok] by (auto simp: job_of_def keys_ok_def)
  have other: "j_id target \<noteq> k" if "isTerminalJobState (j_state target) \<or> rc_to c \<noteq> rc_from c"
    using that tj job running row revision_cycle_from[OF c] by (auto simp: isTerminalJobState_def)
  have tgt: "pred_option (\<lambda>j. resettable (j_state j)) (job_of s2 (j_id target))" if tm: "isTerminalJobState (j_state target)"
  proof -
    have "life_of s2 (j_id target) = life_of s (j_id target)" using life2 other tm by simp
    then show ?thesis using tj tm by (auto simp: life_of_def isTerminalJobState_def resettable_def)
  qed
  have end3: "life_of s' = life_of s3" by (rule lives_maybeComplete[OF fin])
  show "life_of s' i = Some (st', h)" if "i \<noteq> k" "life_of s i = Some (st', h)" "\<not> resettable st'"
  proof (cases "isTerminalJobState (j_state target)")
    case True
    then show ?thesis using reopen_keeps[OF ok2 _ tgt[OF True]] s3 that end3 life2 by simp
  qed (use s3 that end3 life2 in simp)
  have "life_of s' (j_id target) = Some (JQueued, None)" if "isTerminalJobState (j_state target)"
    using reopen_queues[OF ok2] s3 that end3 by simp
  moreover have "life_of s' (j_id target) = Some (j_state target, holder_of s (j_id target))"
    if "\<not> isTerminalJobState (j_state target)" "rc_to c \<noteq> rc_from c"
    using that other s3 end3 life2 tj by (simp add: life_of_def)
  ultimately show "target_open s s' k c"
    using tj job row unfolding target_open_def
    by (cases "isTerminalJobState (j_state target)") (auto simp: isTerminalJobState_def intro!: exI[of _ "j_id target"])
qed

lemma review_revision:
  assumes rv: "reviewing e s k lid sid j" and st: "apply_needs_revision e sid' j lid s = Inr (w, s')"
  shows "outcome_ok ''needs_revision'' k w s s'"
proof -
  let ?cycle = "revision_cycle s (j_run j) (j_workflow_job j)"
  note cycle = seat_cycle_job[OF reviewingD(2)[OF rv]]
  have body: "(case ?cycle of
         Some c \<Rightarrow>
           bind_ok (fetch (gatingCohortDebounceSatisfied s j (rc_debounceCohort c))) (\<lambda>ready.
            if \<not> ready
            then then_status VDebounced (bind_ok (completeReviewJob e j lid s) (maybeCompleteRun e (j_run j)))
            else bind_ok (routeRevisionCycle e j lid c s) (\<lambda>r. case r of
                Some s' \<Rightarrow> Inr (VRouted, s')
              | None \<Rightarrow> then_status VWaitingHuman (openHumanCheckpoint e sid' j lid s)))
       | None \<Rightarrow>
           if reviewFeedsAbsorbingAdjudicator s (j_id j) ''needs_revision''
           then then_status VAbsorbed (bind_ok (completeReviewJob e j lid s) (enqueue_and_finish e j))
           else then_status VWaitingHuman (openHumanCheckpoint e sid' j lid s)) = Inr (w, s')"
    using st unfolding apply_needs_revision_def bind_ok_Inr[of "workflowCyclesForJob s j"] by (auto simp only: cycles_revision_cycle)
  have hold: "outcome_ok ''needs_revision'' k VWaitingHuman s s'" if "openHumanCheckpoint e sid' j lid s = Inr s'"
    using review_waiting[OF rv that] by (simp add: outcome_ok_def)
  show ?thesis
  proof (cases ?cycle)
    case None
    then show ?thesis using body hold review_finished[OF rv]
      by (auto simp: then_status_Inr outcome_ok_def cycle split: if_splits)
  next
    case (Some c)
    then obtain ready where r: "gatingCohortDebounceSatisfied s j (rc_debounceCohort c) = Some ready"
      using body by (auto simp: check_simps)
    show ?thesis
    proof (cases ready)
      case True
      then show ?thesis using body Some r hold review_routed(1)[OF rv _ Some]
        by (auto simp: check_simps outcome_ok_def cycle split: option.splits)
    next
      case False
      then have "rc_debounceCohort c \<noteq> []" using r by (auto simp: gatingCohortDebounceSatisfied_def)
      then show ?thesis using body Some r False review_completed(2)[OF rv] lives_maybeComplete
        by (auto simp: check_simps outcome_ok_def cycle)
    qed
  qed
qed

text \<open>The states of other jobs do not matter to the cycle, nor does an acknowledgement.\<close>

lemma outcome_same:
  assumes "outcome_ok verdict k w t s'" "w_workflows t = w_workflows s"
    "\<And>i j. job_of t i = Some j \<Longrightarrow> \<exists>j'. job_of s i = Some j' \<and> same_seat j j' \<and> isTerminalJobState (j_state j') = isTerminalJobState (j_state j)"
    "job_of t k \<noteq> None"
  shows "outcome_ok verdict k w s s'"
proof -
  obtain j where j: "job_of t k = Some j" using assms(4) by blast
  then obtain j' where j': "job_of s k = Some j'" "same_seat j j'" using assms(3) by blast
  have cyc: "seat_cycle t k = seat_cycle s k"
    using j j' revision_cycle_cong[OF assms(2)] by (simp add: seat_cycle_def same_seat_def)
  have "target_open s s' k c" if tt: "target_open t s' k c" for c
  proof -
    obtain i a st h where i: "job_of t i = Some a" "j_run a = j_run j" "j_workflow_job a = rc_to c"
        "rc_to c \<noteq> rc_from c \<longrightarrow> life_of s' i = Some (st, h) \<and> \<not> isTerminalJobState st \<and>
          (isTerminalJobState (j_state a) \<longrightarrow> (st, h) = (JQueued, None))"
      using tt j unfolding target_open_def by auto
    obtain a' where a': "job_of s i = Some a'" "same_seat a a'" "isTerminalJobState (j_state a') = isTerminalJobState (j_state a)"
      using assms(3)[OF i(1)] by blast
    show ?thesis unfolding target_open_def
      by (rule exI[of _ i], rule exI[of _ a'], rule exI[of _ j'], rule exI[of _ st], rule exI[of _ h])
        (use i a' j' in \<open>simp add: same_seat_def\<close>)
  qed
  then show ?thesis using assms(1) by (auto simp: outcome_ok_def cyc split: verdict_status.splits)
qed

lemma recordVerdict_outcome:
  assumes ok: "wq_ok s" and st: "recordVerdict e nb sid k lid verdict dec s = Inr (w, s')"
  shows "outcome_ok verdict k w s s'"
proof (rule recordVerdictD[OF st])
  fix j l ov
  assume j: "job_of s k = Some j" "j_state j = JRunning" and al: "active_lease_for e s lid sid k = Inr l"
    and av: "applyVerdict e sid lid verdict (ov \<or> e_overridden e k sid) j s = Inr (w, s')"
  show ?thesis
  proof (rule applyVerdictD[OF av])
    fix gen s1 t
    assume s1: "store_verdict (new_verdict e sid j verdict gen (ov \<or> e_overridden e k sid) s) s = Inr s1"
      and t: "applyAdvisoryGuards e (j_id j) (recordDissent j verdict s1) = Inr t" and same: "same_work s t"
      and b: "isAcceptingVerdict verdict \<and> apply_accept e j lid t = Inr (w, s') \<or>
       verdict = ''needs_revision'' \<and> apply_needs_revision e sid j lid t = Inr (w, s') \<or>
       verdict = ''reject'' \<and> apply_reject e j lid t = Inr (w, s')"
    have rv: "reviewing e t k lid sid j" by (rule reviewing_same[OF same]) (use ok j al in \<open>simp add: reviewing_def\<close>)
    have "review_of t = review_of s1" using t by (auto dest: review_rows)
    then have wf: "w_workflows t = w_workflows s" using store_verdictD[OF s1] by (auto simp: review_of_def)
    have oc: "outcome_ok verdict k w t s'" using b
    proof (elim disjE conjE)
      assume "verdict = ''needs_revision''" "apply_needs_revision e sid j lid t = Inr (w, s')"
      then show ?thesis using review_revision[OF rv] by simp
    next
      assume "isAcceptingVerdict verdict" "apply_accept e j lid t = Inr (w, s')"
      then show ?thesis using review_accepted[OF rv] by (simp add: outcome_ok_def)
    next
      assume "verdict = ''reject''" "apply_reject e j lid t = Inr (w, s')"
      then show ?thesis using review_rejected[OF rv] by (simp add: outcome_ok_def)
    qed
    show ?thesis
      by (rule outcome_same[OF oc wf]) (simp_all add: same_work_job[OF same] j(1) same_seat_def)
  qed
qed

lemma submit_outcome:
  assumes ok: "wq_ok s" and st: "HandleSubmitReview e sid k lid path verdict dec s = Inr (w, s')"
  shows "outcome_ok (normalizeVerdict verdict) k w s s'"
proof (rule HandleSubmitReviewD[OF st])
  fix j t
  assume a: "(j_state j = JClaimed \<and> (\<exists>mid. j_message j = Some mid \<and> ackInline e sid mid lid s = Inr t)) \<or> t = s"
    and r: "recordVerdict e False sid k lid (normalizeVerdict verdict) dec t = Inr (w, s')"
  have okt: "wq_ok t" using a ok ackInline_ok by blast
  have "review_of t = review_of s" using a by (auto dest: review_rows)
  then have wf: "w_workflows t = w_workflows s" by (simp add: review_of_def)
  have row: "\<exists>j'. job_of s i = Some j' \<and> same_seat j j' \<and> isTerminalJobState (j_state j') = isTerminalJobState (j_state j)"
    if i: "job_of t i = Some j" for i j
  proof (cases "t = s")
    case False
    then obtain mid where "ackInline e sid mid lid s = Inr t" using a by blast
    then show ?thesis
    proof (rule ackInlineD)
      fix m a l assume m: "job_of s (m_job m) = Some a"
        and b: "m_state m = MAcked \<and> t = s \<or> m_state m = MClaimed \<and> j_state a = JClaimed \<and>
          (\<exists>s1. set_msgs (\<lambda>r. m_id r = mid) (\<lambda>r. r\<lparr>m_state := MAcked\<rparr>) s = Inr s1 \<and>
            t = set_job (m_job m) (\<lambda>r. r\<lparr>j_state := JRunning\<rparr>) s1)"
      then obtain s1 where s1: "job_of s1 = job_of s" "j_state a = JClaimed" "t = set_job (m_job m) (\<lambda>r. r\<lparr>j_state := JRunning\<rparr>) s1"
        using False set_msgs_tables(1) by blast
      then have "job_of t i = (if i = m_job m then Some (a\<lparr>j_state := JRunning\<rparr>) else job_of s i)"
        using m by (simp add: job_of_set_job)
      then consider "i = m_job m" "j = a\<lparr>j_state := JRunning\<rparr>" | "job_of s i = Some j" using i by (auto split: if_splits)
      then show ?thesis by cases (use m s1(2) in \<open>auto simp: same_seat_def isTerminalJobState_def\<close>)
    qed
  qed (use i in \<open>simp add: same_seat_def\<close>)
  have "job_of t k \<noteq> None" by (rule recordVerdictD[OF r]) simp
  then show ?thesis using outcome_same[OF recordVerdict_outcome[OF okt r] wf row] by blast
qed

section \<open>Properties of verdicts\<close>

fun given_verdict :: "wq_call \<Rightarrow> string" where
  "given_verdict (Verdict sid k lid v dec) = normalizeVerdict v"
| "given_verdict (SubmitReview sid k lid path v dec) = normalizeVerdict v"
| "given_verdict c = []"

lemma outcome_call:
  assumes ok: "wq_ok s" and st: "call e c s = Inr s'" and w: "verdict_outcome e c s = Some (k, w)"
  shows "outcome_ok (given_verdict c) k w s s'"
proof (cases c)
  case (Verdict sid k' lid v dec)
  then have "HandleRecordVerdict e sid k lid v dec s = Inr (w, s')"
    using st w by (auto simp: check_simps split: sum.splits)
  then show ?thesis using recordVerdict_outcome[OF ok HandleRecordVerdictD(2)] Verdict by simp
next
  case (SubmitReview sid k' lid path v dec)
  then have "HandleSubmitReview e sid k lid path v dec s = Inr (w, s')"
    using st w by (auto simp: check_simps split: sum.splits)
  then show ?thesis using submit_outcome[OF ok] SubmitReview by simp
qed (use w in simp_all)





section \<open>Where revisions are lost\<close>

lemma recordedD:
  assumes ok: "wq_ok s" and st: "HandleRecordVerdict e sid k lid verdict dec s = Inr (w, s')"
  obtains j t where "reviewing e t k lid sid j" "same_work s t"
    "isAcceptingVerdict (normalizeVerdict verdict) \<and> apply_accept e j lid t = Inr (w, s') \<or>
     normalizeVerdict verdict = ''needs_revision'' \<and> apply_needs_revision e sid j lid t = Inr (w, s') \<or>
     normalizeVerdict verdict = ''reject'' \<and> apply_reject e j lid t = Inr (w, s')"
proof (rule recordVerdictD[OF HandleRecordVerdictD(2)[OF st]])
  fix j l ov
  assume j: "job_of s k = Some j" "j_state j = JRunning" and al: "active_lease_for e s lid sid k = Inr l"
    and av: "applyVerdict e sid lid (normalizeVerdict verdict) (ov \<or> e_overridden e k sid) j s = Inr (w, s')"
  show thesis
  proof (rule applyVerdictD[OF av])
    fix gen s1 t
    assume same: "same_work s t"
      and b: "isAcceptingVerdict (normalizeVerdict verdict) \<and> apply_accept e j lid t = Inr (w, s') \<or>
       normalizeVerdict verdict = ''needs_revision'' \<and> apply_needs_revision e sid j lid t = Inr (w, s') \<or>
       normalizeVerdict verdict = ''reject'' \<and> apply_reject e j lid t = Inr (w, s')"
    have "reviewing e t k lid sid j" by (rule reviewing_same[OF same]) (use ok j al in \<open>simp add: reviewing_def\<close>)
    then show thesis using that same b by blast
  qed
qed

lemma recorded_routings:
  assumes "HandleRecordVerdict e sid k lid verdict dec s = Inr (w, s')" "w \<noteq> VRouted"
  shows "w_routed s' = w_routed s"
  using recordVerdict_rows[OF HandleRecordVerdictD(2)[OF assms(1)]] assms(2) by simp

text \<open>A deferred revision is lost when the last reviewer accepts. An accepting verdict routes nothing
  and leaves every other job that is not waiting for its dependencies as it was; so where a cohort is
  awaited and its last seat accepts, the target of the revision that another seat asked for stays
  completed, although the cohort has then reported.\<close>

theorem deferred_revision_is_lost:
  assumes "wq_reach s" "HandleRecordVerdict e sid k lid verdict dec s = Inr (w, s')"
    and "isAcceptingVerdict (normalizeVerdict verdict)" "i \<noteq> k" "life_of s i = Some (st, h)" "st \<noteq> JBlocked"
  shows "w = VCompleted \<and> w_routed s' = w_routed s \<and> life_of s' i = Some (st, h)"
proof (rule recordedD[OF reach_ok[OF assms(1)] assms(2)])
  fix j t
  assume rv: "reviewing e t k lid sid j" and same: "same_work s t"
    and b: "isAcceptingVerdict (normalizeVerdict verdict) \<and> apply_accept e j lid t = Inr (w, s') \<or>
     normalizeVerdict verdict = ''needs_revision'' \<and> apply_needs_revision e sid j lid t = Inr (w, s') \<or>
     normalizeVerdict verdict = ''reject'' \<and> apply_reject e j lid t = Inr (w, s')"
  have acc: "apply_accept e j lid t = Inr (w, s')" using b assms(3) by (auto simp: isAcceptingVerdict_def)
  then have w: "w = VCompleted" using review_accepted[OF rv] by blast
  obtain u where u: "completeReviewJob e j lid t = Inr u" "enqueue_and_finish e j u = Inr s'"
    using acc by (auto simp: apply_accept_def check_simps)
  have "life_of u i = Some (st, h)"
    using review_completed(2)[OF rv u(1)] assms(4,5) life_of_same_work[OF same] by simp
  then have "life_of s' i = Some (st, h)" using finish_keeps[OF review_completed(1)[OF rv u(1)] u(2) _ assms(6)] by blast
  then show ?thesis using w recorded_routings[OF assms(2)] by simp
qed

text \<open>\<open>A\<close> asks for a revision and is deferred, \<open>B\<close> accepts: the cohort has reported, nothing was routed, and
  the job behind the panel is not ready.\<close>

theorem deferred_revision_is_lost_witness:
  "\<exists>s s' j. HandleRecordVerdict (ex_env 9) ''T'' ''B'' ''lease2'' ''approve'' [] s = Inr (VCompleted, s') \<and>
     life_of s' ''T'' = Some (JCompleted, None) \<and> w_routed s' = w_routed s \<and> w_routed s = [] \<and>
     job_of s' ''A'' = Some j \<and> gatingCohortDebounceSatisfied s' j ''all'' = Some True \<and>
     dependenciesSatisfied False (gate_view s' ''R'') ''G'' = Some False"
proof -
  let ?r = "\<lambda>s. HandleRecordVerdict (ex_env 9) ''T'' ''B'' ''lease2'' ''approve'' [] s"
  have "panel_run (VStr ''all'') [(ex_env 8, Verdict ''S'' ''A'' ''lease1'' ''revise'' [])]
      (\<lambda>s. w_routed s = [] \<and> life_of s ''T'' = Some (JCompleted, None) \<and>
       (case ?r s of Inl _ \<Rightarrow> False | Inr r \<Rightarrow> dependenciesSatisfied False (gate_view (snd r) ''R'') ''G'' = Some False \<and>
         (case job_of (snd r) ''A'' of None \<Rightarrow> False | Some j \<Rightarrow> gatingCohortDebounceSatisfied (snd r) j ''all'' = Some True)))"
    by code_simp
  then obtain s where s: "wq_reach s" "w_routed s = []" "life_of s ''T'' = Some (JCompleted, None)"
      "case ?r s of Inl _ \<Rightarrow> False | Inr r \<Rightarrow> dependenciesSatisfied False (gate_view (snd r) ''R'') ''G'' = Some False \<and>
         (case job_of (snd r) ''A'' of None \<Rightarrow> False | Some j \<Rightarrow> gatingCohortDebounceSatisfied (snd r) j ''all'' = Some True)"
    by (rule panel_runD) blast
  have v: "isAcceptingVerdict (normalizeVerdict ''approve'')" by code_simp
  show ?thesis
  proof (cases "?r s")
    case (Inr r)
    obtain w s' where r: "r = (w, s')" by fastforce
    have "w = VCompleted \<and> w_routed s' = w_routed s \<and> life_of s' ''T'' = Some (JCompleted, None)"
      using deferred_revision_is_lost[OF s(1) Inr[unfolded r] v _ s(3)] by simp
    moreover obtain j where "job_of s' ''A'' = Some j" "gatingCohortDebounceSatisfied s' j ''all'' = Some True"
        "dependenciesSatisfied False (gate_view s' ''R'') ''G'' = Some False"
      using s(4) Inr r by (auto split: option.splits)
    ultimately show ?thesis using Inr r s(2) by blast
  qed (use s(4) in simp)
qed

text \<open>A declared cohort size is ignored. Whatever number a workflow declares, the routing waits for the
  whole panel, as it would for ''all''.\<close>

theorem debounce_count_is_all:
  assumes "1 \<le> intValue v"
  shows "gatingCohortDebounceSatisfied s j (debounceCohortValue v) = gatingCohortDebounceSatisfied s j ''all''"
proof -
  have "debounceCohortValue v = show_int (intValue v)" using assms by (cases v) auto
  moreover have "show_int (intValue v) \<noteq> []" by (rule show_int_nonempty)
  ultimately show ?thesis by (simp add: gatingCohortDebounceSatisfied_def Let_def)
qed

text \<open>Both seats of the panel may count alone, by the number the workflow declares: it still waits.\<close>

theorem debounce_count_is_all_witness:
  "\<exists>s s'. call (ex_env 8) (Verdict ''S'' ''A'' ''lease1'' ''revise'' []) s = Inr s' \<and> w_routed s' = [] \<and>
     (\<forall>j. gatingCohortDebounceSatisfied s j (debounceCohortValue (VInt 1)) = gatingCohortDebounceSatisfied s j ''all'')"
proof -
  have "panel_run (VInt 1) [] (\<lambda>s. case call (ex_env 8) (Verdict ''S'' ''A'' ''lease1'' ''revise'' []) s of
      Inl _ \<Rightarrow> False | Inr s' \<Rightarrow> w_routed s' = [])"
    by code_simp
  then obtain s where s: "case call (ex_env 8) (Verdict ''S'' ''A'' ''lease1'' ''revise'' []) s of
      Inl _ \<Rightarrow> False | Inr s' \<Rightarrow> w_routed s' = []"
    by (rule panel_runD) blast
  moreover have "gatingCohortDebounceSatisfied s j (debounceCohortValue (VInt 1)) = gatingCohortDebounceSatisfied s j ''all''" for j
    by (rule debounce_count_is_all) simp
  ultimately show ?thesis by (auto split: sum.splits)
qed


text \<open>\<open>B\<close> reviews the first build while the second is made, accepts, and \<open>G\<close> opens on it.\<close>

definition ex_stale_accept :: "(wenv \<times> wq_call) list" where
  "ex_stale_accept =
     [(ex_env 9, Verdict ''T'' ''B'' ''lease2'' ''approve'' []), (ex_env 10, Claim ''S'' 60),
      (ex_env 11, Ack ''S'' ''msg3'' ''lease3''), (ex_env 12, Complete ''S'' ''T'' ''lease3''),
      (ex_env 13, Claim ''T'' 60), (ex_env 14, Ack ''T'' ''msg4'' ''lease4''),
      (ex_env 15, Verdict ''T'' ''A'' ''lease4'' ''approve'' [])]"


section \<open>Advisory guards\<close>

text \<open>The tally of a gate does not depend on the guards that hold it.\<close>

lemma tally_held: "resolveAdvisoryTally (db\<lparr>db_held := h\<rparr>) g = resolveAdvisoryTally db g"
proof -
  let ?d = "db\<lparr>db_held := h\<rparr>"
  have job: "job_by_id ?d = job_by_id db" by (simp add: job_by_id_def fun_eq_iff)
  have dep: "dependencies_of ?d = dependencies_of db" by (simp add: dependencies_of_def fun_eq_iff)
  have gs: "gating_seats ?d ds seen = gating_seats db ds seen" for ds seen
    by (induction ds arbitrary: seen) (auto simp: job split: option.splits)
  have as: "advisory_seats ?d ds seen = advisory_seats db ds seen" for ds seen
    by (induction ds arbitrary: seen) (auto simp: job split: option.splits)
  have seat: "resolvePanelSeat ?d = resolvePanelSeat db" "seat_verdict ?d = seat_verdict db"
    by (simp_all add: resolvePanelSeat_def seat_verdict_def seatCurrentSealVerdict_def seat_attempts_def accepting_attempts_def
        seatHasLiveDissent_def Let_def fun_eq_iff)
  have decl: "resolveQuorumDeclaration ?d g = resolveQuorumDeclaration db g" "advisoryDeclaredSeats ?d g = advisoryDeclaredSeats db g"
    by (cases "job_by_id db g"; simp add: resolveQuorumDeclaration_def advisoryDeclaredSeats_def job dep gs as)+
  show ?thesis
    by (cases "resolveQuorumDeclaration db g") (simp_all add: resolveAdvisoryTally_def decl resolvePanelSeats_def seat)
qed

text \<open>The guards of some gates: the blockers grow, and each gate whose tally fires has an open one.\<close>

lemma guard_blockers:
  "guard_gates e run gs s = Inr s' \<Longrightarrow>
   (\<exists>bs. s' = s\<lparr>w_blockers := w_blockers s @ bs\<rparr> \<and> (\<forall>b \<in> set bs. b_severity b = ''blocked'')) \<and>
   (\<forall>g gate t. g \<in> set gs \<longrightarrow> job_of s g = Some gate \<longrightarrow> resolveAdvisoryTally (gate_view s (j_run gate)) g = Some t \<longrightarrow>
      evaluateAdvisoryGuards t \<noteq> [] \<longrightarrow>
      list_ex (\<lambda>b. b_job b = Some g \<and> b_open b \<and> b_kind b = evaluateAdvisoryGuards t) (w_blockers s'))"
proof (induction gs arbitrary: s)
  case (Cons g gs)
  obtain gate t where g: "job_of s g = Some gate" "resolveAdvisoryTally (gate_view s (j_run gate)) g = Some t"
    and rest: "guard_gates e run gs (if evaluateAdvisoryGuards t = [] then s
      else openAdvisoryGuardBlocker e run g (evaluateAdvisoryGuards t) s) = Inr s'"
    using Cons.prems by (auto simp: check_simps Let_def)
  define u where "u = (if evaluateAdvisoryGuards t = [] then s else openAdvisoryGuardBlocker e run g (evaluateAdvisoryGuards t) s)"
  obtain bs where bs: "u = s\<lparr>w_blockers := w_blockers s @ bs\<rparr>" "\<forall>b \<in> set bs. b_severity b = ''blocked''"
  proof -
    have "u = s\<lparr>w_blockers := w_blockers s @ []\<rparr> \<or> u = openAdvisoryGuardBlocker e run g (evaluateAdvisoryGuards t) s"
      by (simp add: u_def)
    then show thesis
      by (rule disjE) (auto simp: openAdvisoryGuardBlocker_def split: if_splits intro: that[of "[]"] that)
  qed
  have here: "evaluateAdvisoryGuards t \<noteq> [] \<Longrightarrow>
      list_ex (\<lambda>b. b_job b = Some g \<and> b_open b \<and> b_kind b = evaluateAdvisoryGuards t) (w_blockers u)"
    by (auto simp: u_def openAdvisoryGuardBlocker_def list_ex_iff)
  have view: "resolveAdvisoryTally (gate_view u run') i = resolveAdvisoryTally (gate_view s run') i" for run' i
    using tally_held[where db = "gate_view s run'" and h = "gateHeld u" and g = i] by (simp add: gate_view_def bs(1))
  have job: "job_of u = job_of s" by (simp add: bs(1) job_of_def fun_eq_iff)
  note ih = Cons.IH[OF rest[folded u_def], unfolded view job]
  obtain bs' where bs': "s' = u\<lparr>w_blockers := w_blockers u @ bs'\<rparr>" "\<forall>b \<in> set bs'. b_severity b = ''blocked''" using ih by blast
  have "s' = s\<lparr>w_blockers := w_blockers s @ (bs @ bs')\<rparr>" using bs' bs(1) by simp
  moreover have "\<forall>b \<in> set (bs @ bs'). b_severity b = ''blocked''" using bs bs' by auto
  moreover have "evaluateAdvisoryGuards t \<noteq> [] \<Longrightarrow>
      list_ex (\<lambda>b. b_job b = Some g \<and> b_open b \<and> b_kind b = evaluateAdvisoryGuards t) (w_blockers s')"
    using here bs'(1) by simp
  ultimately show ?case using ih g by auto
qed (auto intro: exI[of _ "[]"])

text \<open>C27: A guard that fires holds its gate. After the guards are applied for a review, every gate behind
  it whose tally fires has an open blocker of the kind of that guard, and its dependencies do not
  hold, whatever the verdicts say. A blocker that is new is one that resolving a checkpoint refuses.\<close>

theorem fired_guard_holds_gate:
  assumes "applyAdvisoryGuards e k s = Inr s'" "g \<in> set (gates_of s k)" "job_of s g = Some gate"
    and "resolveAdvisoryTally (gate_view s (j_run gate)) g = Some t" "evaluateAdvisoryGuards t \<noteq> []"
  shows "dependenciesSatisfied barrier (gate_view s' run) g = Some False \<and>
    list_ex (\<lambda>b. b_job b = Some g \<and> b_open b \<and> b_kind b = evaluateAdvisoryGuards t) (w_blockers s') \<and>
    (\<forall>bid. blocker_of s bid = None \<longrightarrow> isl (HandleCheckpointResolve e' bid action dec s'))"
proof -
  obtain j :: wjob where "guard_gates e (j_run j) (gates_of s k) s = Inr s'"
    using assms(1) unfolding applyAdvisoryGuards_def bind_ok_Inr by blast
  note g = guard_blockers[OF this]
  have open_one: "list_ex (\<lambda>b. b_job b = Some g \<and> b_open b \<and> b_kind b = evaluateAdvisoryGuards t) (w_blockers s')"
    using g assms(2-5) by blast
  then have "gateHeld s' g" using guard_kind[OF assms(5)] by (auto simp: gateHeld_def list_ex_iff)
  then have held: "dependenciesSatisfied barrier (gate_view s' run) g = Some False"
    by (simp add: dependenciesSatisfied_def gate_view_def)
  obtain bs where bs: "s' = s\<lparr>w_blockers := w_blockers s @ bs\<rparr>" "\<forall>b \<in> set bs. b_severity b = ''blocked''" using g by blast
  have "isl (HandleCheckpointResolve e' bid action dec s')" if new: "blocker_of s bid = None" for bid
  proof (cases "HandleCheckpointResolve e' bid action dec s'")
    case (Inr u)
    then show ?thesis
    proof (rule HandleCheckpointResolveD)
      fix b assume b: "blocker_of s' bid = Some b" "b_severity b = ''human_checkpoint''"
      have "find (\<lambda>b. b_id b = bid) bs = Some b" using b(1) new by (simp add: blocker_of_def bs(1) find_append)
      then have "b \<in> set bs" by (auto dest: find_SomeD)
      then show ?thesis using bs(2) b(2) by auto
    qed
  qed simp
  then show ?thesis using held open_one by blast
qed

text \<open>A panel whose reviews are advisory, where one of them has rejected.\<close>

definition ex_advisory :: wq where
  "ex_advisory = (ex_two_seats VNil)
     \<lparr>w_jobs := map (\<lambda>j. j\<lparr>j_definition := [(''panel_role'', VStr ''advisory'')]\<rparr>) (w_jobs (ex_two_seats VNil)),
      w_verdicts := [\<lparr>v_id = ''v'', v_created = 0, v_job_id = ''A'', v_session = ''S'', v_verdict = ''reject'', v_superseded = False,
        v_generation = None, v_attested = True, v_override = False\<rparr>]\<rparr>"

theorem fired_guard_holds_gate_witness:
  "\<exists>s'. applyAdvisoryGuards (ex_env 1) ''A'' ex_advisory = Inr s' \<and>
     dependenciesSatisfied True (gate_view s' ''R'') ''G'' = Some False \<and>
     list_ex (\<lambda>b. b_job b = Some ''G'' \<and> b_open b \<and> b_kind b = ''advisory_only_panel_ungrounded'') (w_blockers s')"
proof -
  have "(case applyAdvisoryGuards (ex_env 1) ''A'' ex_advisory of Inl _ \<Rightarrow> False | Inr s' \<Rightarrow> True) \<and>
      ''G'' \<in> set (gates_of ex_advisory ''A'') \<and>
      (case job_of ex_advisory ''G'' of None \<Rightarrow> False | Some g \<Rightarrow>
        (case resolveAdvisoryTally (gate_view ex_advisory (j_run g)) ''G'' of None \<Rightarrow> False
         | Some t \<Rightarrow> evaluateAdvisoryGuards t = ''advisory_only_panel_ungrounded''))"
    by code_simp
  then obtain s' g t where h: "applyAdvisoryGuards (ex_env 1) ''A'' ex_advisory = Inr s'" "''G'' \<in> set (gates_of ex_advisory ''A'')"
      "job_of ex_advisory ''G'' = Some g" "resolveAdvisoryTally (gate_view ex_advisory (j_run g)) ''G'' = Some t"
      "evaluateAdvisoryGuards t = ''advisory_only_panel_ungrounded''"
    by (auto split: sum.splits option.splits)
  show ?thesis using fired_guard_holds_gate[OF h(1-4)] h(1,5) by auto
qed

end
