(* ===== verification/RunRevisions.thy ===== *)
theory RunRevisions
  imports WorkflowValidate WorkVerdicts
begin

text \<open>
  Where the validation of a workflow meets the routing of revisions: \<open>Validate\<close> accepts only cycles
  with a positive budget (\<open>workflow.go\<close>), and the routing never exceeds the budget of a cycle
  (\<open>revision_routing.go\<close>), so that a run of an accepted workflow stops revising.
\<close>

section \<open>The budget of a workflow\<close>

lemma float_eq_unique: "float_eq_int f k \<Longrightarrow> float_ge f n \<Longrightarrow> n \<le> k"
  by (cases "f_value f"; cases "0 \<le> snd (the (f_value f))") (auto simp: float_eq_int_def float_ge_def)

lemma parse_int64_atoi: "parse_int64 s = Some i \<Longrightarrow> atoi_value s = i"
  by (auto simp: parse_int64_def atoi_value_def Let_def split: option.splits if_splits)

lemma positive_intValue: "positiveWholeNumber v \<Longrightarrow> 1 \<le> intValue v"
  by (cases v) (auto simp: positiveWholeNumber_def float_eq_unique dest: parse_int64_atoi split: option.splits)

text \<open>The cycles as the routing reads them, and what they allow together.\<close>

definition declared_cycles :: "gomap \<Rightarrow> gomap list" where
  "declared_cycles w = map map_or_empty (asList (mget w ''cycles''))"

definition revision_budget :: "gomap \<Rightarrow> int" where
  "revision_budget w = sum_list (map (\<lambda>d. intValue (mget d ''max_iterations'')) (declared_cycles w))"

lemma declared_cycle_positive:
  assumes "Validate w = None" "d \<in> set (declared_cycles w)"
  shows "1 \<le> intValue (mget d ''max_iterations'')"
proof -
  have v: "validateCycles w (job_table w) = None" by (rule Validate_relations(4)[OF assms(1)])
  obtain x where x: "x \<in> set (asList (mget w ''cycles''))" "d = map_or_empty x"
    using assms(2) by (auto simp: declared_cycles_def)
  then have "x \<in> set (anySlice (mget w ''cycles''))" by (cases "mget w ''cycles''") auto
  moreover from this obtain i where "check_cycle (job_table w) i x = None"
    using check_idx_NoneD[OF v[unfolded validateCycles_def]] by blast
  then obtain m where "x = VMap m" by (cases x) (auto simp: check_cycle_def)
  ultimately have "positiveWholeNumber (mget m ''max_iterations'')" using validateCycles_cycle(4)[OF v] by simp
  then show ?thesis using positive_intValue x(2) \<open>x = VMap m\<close> by (simp add: map_or_empty_def)
qed

lemma revision_cycle_declared:
  assumes "map_of (w_workflows s) run = Some w" "revision_cycle s run seat = Some c"
  obtains d where "d \<in> set (declared_cycles w)" "go_sprint (mget d ''from'') = seat"
    "rc_maxIterations c = intValue (mget d ''max_iterations'')"
proof -
  have "matchRevisionCycle (cycles_from seat (declared_cycles w)) ''needs_revision'' = Some c"
    using assms by (simp add: revision_cycle_def declared_cycles_def)
  then have "c \<in> set (cycles_from seat (declared_cycles w))" unfolding matchRevisionCycle_def by (auto dest: find_SomeD)
  then obtain d where "d \<in> set (declared_cycles w)" "go_sprint (mget d ''from'') = seat"
      "rc_maxIterations c = intValue (mget d ''max_iterations'')"
    by (auto simp: cycles_from_def)
  then show thesis by (rule that)
qed

section \<open>The routings of a run\<close>

definition run_routings :: "wq \<Rightarrow> string \<Rightarrow> wrouted list" where
  "run_routings s run = filter (\<lambda>r. rt_run r = run) (w_routed s)"

text \<open>Every routing is along the cycle of its seat.\<close>

definition routed_by_cycles :: "wq \<Rightarrow> bool" where
  "routed_by_cycles s \<longleftrightarrow>
     (\<forall>r \<in> set (w_routed s). \<exists>c. revision_cycle s (rt_run r) (rt_from r) = Some c \<and> rc_to c = rt_to r)"

lemma reach_routed_by_cycles: "wq_reach s \<Longrightarrow> routed_by_cycles s"
proof (induction rule: wq_reach.induct)
  case (wq_call s e c s')
  note h = call_histories[OF wq_call(2)]
  have cyc: "revision_cycle s' = revision_cycle s" using h revision_cycle_cong by blast
  show ?case
  proof (cases "sent_back e c s")
    case (Some j)
    then have "routes j s s'" using h by simp
    then show ?thesis using wq_call.IH cyc revision_cycle_from by (fastforce simp: routed_by_cycles_def routes_def)
  qed (use wq_call.IH h cyc in \<open>simp add: routed_by_cycles_def\<close>)
qed (auto simp: routed_by_cycles_def revision_cycle_def)

text \<open>How often a series of calls sends a review of the run back, over all its seats.\<close>

fun run_revisions :: "string \<Rightarrow> (wenv \<times> wq_call) list \<Rightarrow> wq \<Rightarrow> int" where
  "run_revisions run [] s = 0"
| "run_revisions run (c # cs) s =
     (case sent_back (fst c) (snd c) s of None \<Rightarrow> 0 | Some j \<Rightarrow> if j_run j = run then 1 else 0) +
     (case call (fst c) (snd c) s of Inl _ \<Rightarrow> 0 | Inr t \<Rightarrow> run_revisions run cs t)"

lemma calls_run_routings:
  "calls cs s = Inr s' \<Longrightarrow>
   int (length (run_routings s' run)) = int (length (run_routings s run)) + run_revisions run cs s \<and> w_workflows s' = w_workflows s"
proof (induction cs arbitrary: s)
  case (Cons c cs)
  then obtain t where t: "call (fst c) (snd c) s = Inr t" "calls cs t = Inr s'" by (auto simp: check_simps)
  have "int (length (run_routings t run)) = int (length (run_routings s run)) +
      (case sent_back (fst c) (snd c) s of None \<Rightarrow> 0 | Some j \<Rightarrow> if j_run j = run then 1 else 0) \<and> w_workflows t = w_workflows s"
    using call_histories[OF t(1)] by (auto simp: run_routings_def routes_def split: option.splits)
  with Cons.IH[OF t(2)] t(1) show ?case by simp
qed simp

lemma member_le_sum:
  fixes g :: "'a \<Rightarrow> int"
  shows "x \<in> set xs \<Longrightarrow> (\<And>y. y \<in> set xs \<Longrightarrow> 0 \<le> g y) \<Longrightarrow> g x \<le> sum_list (map g xs)"
proof (induction xs)
  case (Cons y ys)
  then have "0 \<le> sum_list (map g ys)" by (intro sum_list_nonneg) auto
  with Cons show ?case by fastforce
qed simp

text \<open>Rows counted by their seats, and a bound for each seat.\<close>

lemma length_by_key: "length xs = (\<Sum>k \<in> f ` set xs. length (filter (\<lambda>x. f x = k) xs))"
proof -
  have "length xs = (\<Sum>k \<in> S. length (filter (\<lambda>x. f x = k) xs))" if "finite S" "f ` set xs \<subseteq> S" for S
    using that(2)
  proof (induction xs)
    case (Cons x xs)
    then have "(\<Sum>k \<in> S. length (filter (\<lambda>x. f x = k) (x # xs))) = (\<Sum>k \<in> S. (if f x = k then 1 else 0) + length (filter (\<lambda>x. f x = k) xs))"
      by (intro sum.cong) auto
    then show ?case using Cons that(1) by (simp add: sum.distrib)
  qed simp
  then show ?thesis by simp
qed

lemma sum_by_key:
  fixes g :: "'a \<Rightarrow> int"
  assumes "finite S" "\<And>x. x \<in> set xs \<Longrightarrow> 0 \<le> g x"
  shows "(\<Sum>k \<in> S. sum_list (map g (filter (\<lambda>x. f x = k) xs))) \<le> sum_list (map g xs)"
  using assms(2)
proof (induction xs)
  case (Cons x xs)
  have "(\<Sum>k \<in> S. sum_list (map g (filter (\<lambda>x. f x = k) (x # xs)))) =
      (\<Sum>k \<in> S. (if f x = k then g x else 0) + sum_list (map g (filter (\<lambda>x. f x = k) xs)))"
    by (intro sum.cong) auto
  also have "\<dots> = (if f x \<in> S then g x else 0) + (\<Sum>k \<in> S. sum_list (map g (filter (\<lambda>x. f x = k) xs)))"
    using assms(1) by (simp add: sum.distrib)
  also have "\<dots> \<le> g x + sum_list (map g xs)" using Cons by (simp add: add_increasing)
  finally show ?case by simp
qed simp

lemma run_routings_within_budget:
  assumes "wq_reach s" "map_of (w_workflows s) run = Some w" "Validate w = None"
  shows "int (length (run_routings s run)) \<le> revision_budget w"
proof -
  let ?rs = "run_routings s run" and ?b = "\<lambda>d. intValue (mget d ''max_iterations'')" and ?from = "\<lambda>d. go_sprint (mget d ''from'')"
  have pos: "0 \<le> ?b d" if "d \<in> set (declared_cycles w)" for d using declared_cycle_positive[OF assms(3) that] by simp
  have seat: "int (length (filter (\<lambda>r. rt_from r = k) ?rs)) \<le> sum_list (map ?b (filter (\<lambda>d. ?from d = k) (declared_cycles w)))"
    if k: "k \<in> rt_from ` set ?rs" for k
  proof -
    note rc = reach_routed_by_cycles[OF assms(1), unfolded routed_by_cycles_def]
    obtain c where c: "revision_cycle s run k = Some c" using k rc by (fastforce simp: run_routings_def)
    obtain d where d: "d \<in> set (declared_cycles w)" "?from d = k" "rc_maxIterations c = ?b d"
      by (rule revision_cycle_declared[OF assms(2) c])
    have "filter (\<lambda>r. rt_from r = k) ?rs = routings s run k (rc_to c)"
      unfolding run_routings_def routings_def filter_filter using rc c by (intro filter_cong) fastforce+
    then have "int (length (filter (\<lambda>r. rt_from r = k) ?rs)) = countRevisionRoutings s run c"
      using revision_cycle_from[OF c] by (simp add: countRevisionRoutings_def)
    also have "\<dots> \<le> ?b d"
      using reach_routings[OF assms(1)] c d(3) declared_cycle_positive[OF assms(3) d(1)] unfolding routings_ok_def by force
    also have "\<dots> \<le> sum_list (map ?b (filter (\<lambda>d. ?from d = k) (declared_cycles w)))"
      using d(1,2) pos by (intro member_le_sum) auto
    finally show ?thesis .
  qed
  have "int (length ?rs) = (\<Sum>k \<in> rt_from ` set ?rs. int (length (filter (\<lambda>r. rt_from r = k) ?rs)))"
    by (subst length_by_key[of ?rs rt_from]) simp
  also have "\<dots> \<le> (\<Sum>k \<in> rt_from ` set ?rs. sum_list (map ?b (filter (\<lambda>d. ?from d = k) (declared_cycles w))))"
    by (rule sum_mono) (rule seat)
  also have "\<dots> \<le> revision_budget w" unfolding revision_budget_def by (rule sum_by_key) (use pos in auto)
  finally show ?thesis .
qed

text \<open>C4: A run of an accepted workflow stops revising. If \<open>Validate\<close> accepts the workflow of a run, then
  however long a series of calls is, all its reviews together send work back at most as often as
  the cycles of the workflow declare, counted over the whole run.\<close>

theorem validated_run_stops_revising:
  assumes "wq_reach s" "calls cs s = Inr s'" "map_of (w_workflows s) run = Some w" "Validate w = None"
  shows "int (length (run_routings s run)) + run_revisions run cs s \<le> revision_budget w \<and>
    int (length (run_routings s' run)) = int (length (run_routings s run)) + run_revisions run cs s"
  using run_routings_within_budget[OF calls_reach[OF assms(1,2)], of run w] calls_run_routings[OF assms(2), of run] assms(3,4)
  by simp

text \<open>The example workflow of the validator, run until its review sends the build back.\<close>

definition ex_accepted :: wq where
  "ex_accepted = (ex_queue [ex_job ''build'', (ex_job ''review'')\<lparr>j_type := ''review''\<rparr>])
     \<lparr>w_workflows := [(''R'', ex_wf)], w_dependencies := [(''review'', ''build'', [])]\<rparr>"

definition ex_until_verdict :: "(wenv \<times> wq_call) list" where
  "ex_until_verdict =
     [(ex_env 0, EnqueueReady ''R''), (ex_env 1, Claim ''S'' 60), (ex_env 2, Ack ''S'' ''msg0'' ''lease0''),
      (ex_env 3, Complete ''S'' ''build'' ''lease0''), (ex_env 4, Claim ''S'' 60), (ex_env 5, Ack ''S'' ''msg1'' ''lease1''),
      (ex_env 6, Verdict ''S'' ''review'' ''lease1'' ''revise'' [])]"

lemma ex_accepted_reach: "wq_reach ex_accepted"
proof -
  let ?js = "[ex_job ''build'', (ex_job ''review'')\<lparr>j_type := ''review''\<rparr>]"
  let ?s = "(ex_queue [])\<lparr>w_workflows := [(''R'', ex_wf)]\<rparr>"
  have "wq_reach (?s\<lparr>w_jobs := w_jobs ?s @ ?js\<rparr>)"
    by (intro wq_prepare wq_start) (simp_all add: ex_queue_def new_job_def ex_job_def)
  from wq_other[OF this, where xs = "w_sessions ?s" and rs = "w_runs ?s" and bs = "w_blockers ?s"
      and ds = "w_dependencies ex_accepted" and d = "w_dead ?s" and a = "w_assembled ?s"]
  show ?thesis by (simp add: ex_accepted_def ex_queue_def)
qed

theorem validated_run_stops_revising_witness:
  "\<exists>s'. calls ex_until_verdict ex_accepted = Inr s' \<and> run_revisions ''R'' ex_until_verdict ex_accepted = 1 \<and>
     length (run_routings s' ''R'') = 1 \<and> revision_budget ex_wf = 2"
proof -
  have w: "map_of (w_workflows ex_accepted) ''R'' = Some ex_wf" "run_routings ex_accepted ''R'' = []"
    by (simp_all add: ex_accepted_def ex_queue_def run_routings_def)
  have one: "run_revisions ''R'' ex_until_verdict ex_accepted = 1" "revision_budget ex_wf = 2"
    "\<not> isl (calls ex_until_verdict ex_accepted)"
    by code_simp+
  then obtain s' where "calls ex_until_verdict ex_accepted = Inr s'" by (cases "calls ex_until_verdict ex_accepted") auto
  then show ?thesis using validated_run_stops_revising[OF ex_accepted_reach _ w(1) ex_wf_ok, of ex_until_verdict s'] w(2) one(1,2) by simp
qed

end
