(* ===== verification/GoStrings.thy ===== *)
theory GoStrings
  imports RepoPath
begin

text \<open>
  More of the Go packages \<open>strings\<close> and \<open>path/filepath\<close>, as the guard of write scopes, the artifact
  contracts and the verifier use them: searching and replacing substrings, the trimming of a
  prefix or suffix, the case folding of ASCII, and \<open>filepath.Clean\<close>.
\<close>

section \<open>Substrings\<close>

text \<open>\<open>strings.Contains(s, t)\<close> and \<open>strings.HasSuffix(s, t)\<close>.\<close>

fun contains_str :: "string \<Rightarrow> string \<Rightarrow> bool" where
  "contains_str [] t \<longleftrightarrow> t = []"
| "contains_str (x # s) t \<longleftrightarrow> prefix t (x # s) \<or> contains_str s t"

definition has_suffix :: "string \<Rightarrow> string \<Rightarrow> bool" where
  "has_suffix s t \<longleftrightarrow> prefix (rev t) (rev s)"

text \<open>What follows the first occurrence of \<open>t\<close>, if there is one.\<close>

fun after_first :: "string \<Rightarrow> string \<Rightarrow> string option" where
  "after_first [] t = (if t = [] then Some [] else None)"
| "after_first (x # s) t =
     (if prefix t (x # s) then Some (drop (length t) (x # s)) else after_first s t)"

text \<open>\<open>strings.ReplaceAll(s, old, new)\<close> for a non-empty \<open>old\<close>.\<close>

function replace_all :: "string \<Rightarrow> string \<Rightarrow> string \<Rightarrow> string" where
  "replace_all old new s =
     (case s of [] \<Rightarrow> []
      | x # t \<Rightarrow>
          if old \<noteq> [] \<and> prefix old s then new @ replace_all old new (drop (length old) s)
          else x # replace_all old new t)"
  by pat_completeness auto
termination
proof (relation "measure (\<lambda>(old, new, s). length s)")
  fix old s x and t :: string
  assume "s = x # t" and "old \<noteq> [] \<and> prefix old s"
  then show "((old, new, drop (length old) s), (old, new, s)) \<in> measure (\<lambda>(old, new, s). length s)"
    for new :: string by (cases old) auto
qed auto

declare replace_all.simps [simp del]

definition trim_prefix :: "string \<Rightarrow> string \<Rightarrow> string" where
  "trim_prefix p s = (if prefix p s then drop (length p) s else s)"

definition trim_suffix :: "string \<Rightarrow> string \<Rightarrow> string" where
  "trim_suffix t s = (if has_suffix s t then take (length s - length t) s else s)"

text \<open>\<open>strings.ToLower\<close> of an ASCII string; other bytes are left as they are.\<close>

definition lower_byte :: "char \<Rightarrow> char" where
  "lower_byte c = (let n = (of_char c :: nat) in if 65 \<le> n \<and> n \<le> 90 then char_of (n + 32) else c)"

definition to_lower :: "string \<Rightarrow> string" where
  "to_lower s = map lower_byte s"

lemma contains_str_iff: "contains_str s t \<longleftrightarrow> (\<exists>u v. s = u @ t @ v)"
proof (induction s)
  case Nil
  then show ?case by auto
next
  case (Cons x s)
  have "(\<exists>u v. x # s = u @ t @ v) \<longleftrightarrow> prefix t (x # s) \<or> (\<exists>u v. s = u @ t @ v)"
    unfolding prefix_def by (metis append_Cons append_Nil list.exhaust list.inject)
  with Cons.IH show ?case by simp
qed

lemma contains_strI: "contains_str (u @ t @ v) t"
  by (auto simp: contains_str_iff)

lemma after_first_None: "after_first s t = None \<longleftrightarrow> \<not> contains_str s t"
  by (induction s) auto

lemma after_first_skip:
  "t \<noteq> [] \<Longrightarrow> hd t \<notin> set u \<Longrightarrow> after_first (u @ t @ v) t = Some v"
proof (induction u)
  case Nil
  then obtain c t' where "t = c # t'" by (cases t) auto
  then show ?case by simp
next
  case (Cons x u)
  then have "\<not> prefix t (x # u @ t @ v)" by (cases t) auto
  with Cons show ?case by simp
qed

lemma replace_all_none: "old \<noteq> [] \<Longrightarrow> \<not> contains_str s old \<Longrightarrow> replace_all old new s = s"
proof (induction s)
  case Nil
  then show ?case by (simp add: replace_all.simps [of old new "[]"])
next
  case (Cons x s)
  then show ?case by (subst replace_all.simps) auto
qed

lemma has_suffix_iff: "has_suffix s t \<longleftrightarrow> (\<exists>u. s = u @ t)"
proof
  assume "has_suffix s t"
  then obtain w where "rev s = rev t @ w" by (auto simp: has_suffix_def prefix_def)
  then have "s = rev w @ t" by (metis rev_append rev_rev_ident)
  then show "\<exists>u. s = u @ t" ..
next
  assume "\<exists>u. s = u @ t"
  then show "has_suffix s t" by (auto simp: has_suffix_def)
qed

lemma trim_suffix_none: "(\<And>u. s \<noteq> u @ t) \<Longrightarrow> trim_suffix t s = s"
  by (auto simp: trim_suffix_def has_suffix_iff)

lemma trim_prefix_none: "\<not> prefix p s \<Longrightarrow> trim_prefix p s = s"
  by (simp add: trim_prefix_def)

section \<open>filepath.Clean\<close>

text \<open>
  The components of a path from the left: empty ones and dots are dropped, a double dot removes the
  component before it, and one that has none stays, unless the path is rooted.
\<close>

fun clean_parts :: "bool \<Rightarrow> string list \<Rightarrow> string list \<Rightarrow> string list" where
  "clean_parts rooted acc [] = rev acc"
| "clean_parts rooted acc (w # ws) =
     (if w = [] \<or> w = ''.'' then clean_parts rooted acc ws
      else if w = ''..'' then
        (case acc of
           a # as \<Rightarrow> if a = ''..'' then clean_parts rooted (w # acc) ws else clean_parts rooted as ws
         | [] \<Rightarrow> if rooted then clean_parts rooted [] ws else clean_parts rooted [w] ws)
      else clean_parts rooted (w # acc) ws)"

definition filepath_clean :: "string \<Rightarrow> string" where
  "filepath_clean p =
     (let rooted = prefix ''/'' p; ws = clean_parts rooted [] (split_on CHR ''/'' p) in
      if p = [] then ''.''
      else if rooted then CHR ''/'' # join ''/'' ws
      else if ws = [] then ''.'' else join ''/'' ws)"

text \<open>A component of a cleaned path below its root.\<close>

definition proper_part :: "string \<Rightarrow> bool" where
  "proper_part w \<longleftrightarrow> w \<noteq> [] \<and> w \<noteq> ''.'' \<and> w \<noteq> ''..'' \<and> CHR ''/'' \<notin> set w"

lemma clean_parts_form:
  assumes "acc = rev vs @ replicate k ''..''" and "list_all proper_part vs"
    and "\<forall>w \<in> set ws. CHR ''/'' \<notin> set w"
  shows "\<exists>n us. clean_parts rooted acc ws = replicate n ''..'' @ us \<and> list_all proper_part us"
  using assms
proof (induction ws arbitrary: acc vs k)
  case Nil
  then have "clean_parts rooted acc [] = replicate k ''..'' @ vs" by simp
  with Nil.prems(2) show ?case by blast
next
  case (Cons w ws)
  have slash: "\<forall>w \<in> set ws. CHR ''/'' \<notin> set w" using Cons.prems(3) by simp
  consider "w = [] \<or> w = ''.''" | "w = ''..''" | "proper_part w"
    using Cons.prems(3) by (auto simp: proper_part_def)
  then show ?case
  proof cases
    case 1
    then show ?thesis using Cons.IH [OF Cons.prems(1,2) slash] by auto
  next
    case 3
    have "w # acc = rev (vs @ [w]) @ replicate k ''..''" using Cons.prems(1) by simp
    moreover have "list_all proper_part (vs @ [w])" using 3 Cons.prems(2) by simp
    ultimately have "\<exists>n us. clean_parts rooted (w # acc) ws = replicate n ''..'' @ us \<and> list_all proper_part us"
      using Cons.IH slash by blast
    moreover have "clean_parts rooted acc (w # ws) = clean_parts rooted (w # acc) ws"
      using 3 by (simp add: proper_part_def)
    ultimately show ?thesis by simp
  next
    case 2
    show ?thesis
    proof (cases vs rule: rev_cases)
      case Nil
      have more: "''..'' # acc = rev [] @ replicate (Suc k) ''..''" using Cons.prems(1) Nil by simp
      have "\<exists>n us. clean_parts rooted (''..'' # acc) ws = replicate n ''..'' @ us \<and> list_all proper_part us"
        using Cons.IH [OF more _ slash] by simp
      moreover have "\<exists>n us. clean_parts rooted [] ws = replicate n ''..'' @ us \<and> list_all proper_part us"
        using Cons.IH [of "[]" "[]" 0, OF _ _ slash] by simp
      moreover have "acc = replicate k ''..''" using Cons.prems(1) Nil by simp
      then have "clean_parts rooted acc (w # ws) = clean_parts rooted (''..'' # acc) ws \<or>
          clean_parts rooted acc (w # ws) = clean_parts rooted [] ws"
        using 2 by (cases k) auto
      ultimately show ?thesis by fastforce
    next
      case (snoc us v)
      then have v: "proper_part v" and acc: "acc = v # rev us @ replicate k ''..''"
        using Cons.prems(1,2) by simp_all
      have "\<exists>n xs. clean_parts rooted (rev us @ replicate k ''..'') ws = replicate n ''..'' @ xs \<and> list_all proper_part xs"
        using Cons.IH [OF refl _ slash] Cons.prems(2) snoc by simp
      moreover have "clean_parts rooted acc (w # ws) = clean_parts rooted (rev us @ replicate k ''..'') ws"
        using 2 v acc by (simp add: proper_part_def)
      ultimately show ?thesis by simp
    qed
  qed
qed

lemma clean_parts_split:
  "\<exists>n us. clean_parts rooted [] (split_on CHR ''/'' p) = replicate n ''..'' @ us \<and> list_all proper_part us"
  using clean_parts_form [of "[]" "[]" 0] split_on_parts by fastforce

lemma clean_parts_plain:
  "''..'' \<notin> set ws \<Longrightarrow>
   clean_parts rooted acc ws = rev acc @ filter (\<lambda>part. \<not> (part = [] \<or> part = ''.'')) ws"
  by (induction ws arbitrary: acc) auto

end
