(* ===== verification/ArtifactFields.thy ===== *)
theory ArtifactFields
  imports GoStrings
begin

text \<open>
  The fields of an artifact's front matter (\<open>go/pkg/artifactcontracts/contracts.go\<close>): the predicates
  on decoded values, the block between the markers of a Markdown file, and the conversion of the YAML
  node tree into dynamic values. The YAML parser itself is an input.
\<close>

section \<open>Predicates on values\<close>

definition nonEmptyString :: "goval \<Rightarrow> string option" where
  "nonEmptyString v = (case v of VStr s \<Rightarrow> if trim_space s = [] then None else Some s | _ \<Rightarrow> None)"

definition equalsValue :: "string \<Rightarrow> goval \<Rightarrow> bool" where
  "equalsValue expected v \<longleftrightarrow> go_sprint v = expected"

definition oneOfValue :: "string list \<Rightarrow> goval \<Rightarrow> bool" where
  "oneOfValue options v \<longleftrightarrow> go_sprint v \<in> set options"

definition isStringValue :: "goval \<Rightarrow> bool" where
  "isStringValue v \<longleftrightarrow> as_str v \<noteq> None"

definition isNonEmptyStringValue :: "goval \<Rightarrow> bool" where
  "isNonEmptyStringValue v \<longleftrightarrow> nonEmptyString v \<noteq> None"

definition isNullableNonEmptyStringValue :: "goval \<Rightarrow> bool" where
  "isNullableNonEmptyStringValue v \<longleftrightarrow> v = VNil \<or> isNonEmptyStringValue v"

definition isBoolValue :: "goval \<Rightarrow> bool" where
  "isBoolValue v \<longleftrightarrow> as_bool v \<noteq> None"

text \<open>\<open>intValue\<close>: an integer of any width, a float with an integral value, or a number literal.\<close>

fun intValue_ok :: "goval \<Rightarrow> int option" where
  "intValue_ok (VInt i) = Some i"
| "intValue_ok (VInt32 i) = Some i"
| "intValue_ok (VInt64 i) = Some i"
| "intValue_ok (VFloat f) = (if float_eq_int f (float_trunc f) then Some (float_trunc f) else None)"
| "intValue_ok (VNumber s) = parse_int64 s"
| "intValue_ok _ = None"

definition isNonNegativeIntValue :: "goval \<Rightarrow> bool" where
  "isNonNegativeIntValue v \<longleftrightarrow> (case intValue_ok v of None \<Rightarrow> False | Some i \<Rightarrow> 0 \<le> i)"

text \<open>Lists whose items must all be of one type.\<close>

fun all_some :: "'a option list \<Rightarrow> 'a list option" where
  "all_some [] = Some []"
| "all_some (None # xs) = None"
| "all_some (Some x # xs) = map_option (Cons x) (all_some xs)"

fun stringList :: "goval \<Rightarrow> string list option" where
  "stringList (VStrs ss) = Some ss"
| "stringList (VList vs) = all_some (map as_str vs)"
| "stringList _ = None"

fun mapList :: "goval \<Rightarrow> gomap list option" where
  "mapList (VMaps ms) = Some ms"
| "mapList (VStrs ss) = (if ss = [] then Some [] else None)"
| "mapList (VList vs) = all_some (map as_map vs)"
| "mapList _ = None"

definition isStringListValue :: "goval \<Rightarrow> bool" where
  "isStringListValue v \<longleftrightarrow> stringList v \<noteq> None"

definition isNonEmptyStringListValue :: "goval \<Rightarrow> bool" where
  "isNonEmptyStringListValue v \<longleftrightarrow>
     (case stringList v of None \<Rightarrow> False | Some ss \<Rightarrow> ss \<noteq> [] \<and> list_all (\<lambda>s. trim_space s \<noteq> []) ss)"

definition isMapListValue :: "goval \<Rightarrow> bool" where
  "isMapListValue v \<longleftrightarrow> mapList v \<noteq> None"

definition isStringAnyMapValue :: "goval \<Rightarrow> bool" where
  "isStringAnyMapValue v \<longleftrightarrow> as_map v \<noteq> None"

definition isScopeLinksValue :: "goval \<Rightarrow> bool" where
  "isScopeLinksValue v \<longleftrightarrow>
     (case stringList v of None \<Rightarrow> False
      | Some ss \<Rightarrow> length ss \<le> 5 \<and> list_all (\<lambda>s. trim_space s \<noteq> []) ss)"

text \<open>The keys of a row that are not allowed, as \<open>rejectUnknownKeys\<close> and its copies look for them.\<close>

definition unknown_keys :: "string list \<Rightarrow> gomap \<Rightarrow> string list" where
  "unknown_keys allowed row = sort_strings (filter (\<lambda>k. k \<notin> set allowed) (map fst row))"

section \<open>The block of the front matter\<close>

text \<open>The lines before the closing marker.\<close>

fun until_marker :: "string list \<Rightarrow> string list option" where
  "until_marker [] = None"
| "until_marker (l # ls) =
     (if trim_space l = ''---'' then Some [] else map_option (Cons l) (until_marker ls))"

definition text_lines :: "string \<Rightarrow> string list" where
  "text_lines text = split_on (CHR 0x0A) (replace_all [CHR 0x0D, CHR 0x0A] [CHR 0x0A] text)"

definition FrontMatterBlock :: "string \<Rightarrow> string option" where
  "FrontMatterBlock text =
     (case text_lines text of
        [] \<Rightarrow> None
      | l # ls \<Rightarrow> if trim_space l \<noteq> ''---'' then None else map_option (join [CHR 0x0A]) (until_marker ls))"

definition IsMarkdownPath :: "string \<Rightarrow> bool" where
  "IsMarkdownPath path \<longleftrightarrow>
     (let l = replace_all [CHR 0xE2, CHR 0x84, CHR 0xAA] ''k'' (to_lower path) in
      has_suffix l ''.md'' \<or> has_suffix l ''.markdown'')"

section \<open>From YAML nodes to values\<close>

text \<open>
  A node of the parsed document: the zero node of an empty text, a document, a mapping with the texts
  of its keys, a sequence, a scalar with the value it decodes to, or another kind (an alias).
\<close>

datatype ynode =
    YZero
  | YDocument "ynode list"
  | YMapping "(string \<times> ynode) list"
  | YSequence "ynode list"
  | YScalar "string + goval"
  | YOther

datatype yaml_error = YamlSyntax string | YamlDecode string | YamlDuplicate string | YamlNotMapping

definition sequence_value :: "goval list \<Rightarrow> goval" where
  "sequence_value vs = (case all_some (map as_str vs) of Some ss \<Rightarrow> VStrs ss | None \<Rightarrow> VList vs)"

fun parseYAMLNode :: "ynode \<Rightarrow> yaml_error + goval"
  and parse_pairs :: "gomap \<Rightarrow> (string \<times> ynode) list \<Rightarrow> yaml_error + gomap"
  and parse_items :: "ynode list \<Rightarrow> yaml_error + goval list" where
  "parseYAMLNode (YDocument ns) = (case ns of [] \<Rightarrow> Inr VNil | n # _ \<Rightarrow> parseYAMLNode n)"
| "parseYAMLNode (YMapping ps) = bind_ok (parse_pairs [] ps) (\<lambda>m. Inr (VMap m))"
| "parseYAMLNode (YSequence ns) = bind_ok (parse_items ns) (\<lambda>vs. Inr (sequence_value vs))"
| "parseYAMLNode (YScalar r) = (case r of Inl e \<Rightarrow> Inl (YamlDecode e) | Inr v \<Rightarrow> Inr v)"
| "parseYAMLNode YZero = Inr VNil"
| "parseYAMLNode YOther = Inr VNil"
| "parse_pairs result [] = Inr result"
| "parse_pairs result ((key, n) # ps) =
     (if mhas result key then Inl (YamlDuplicate key)
      else bind_ok (parseYAMLNode n) (\<lambda>v. parse_pairs (result @ [(key, v)]) ps))"
| "parse_items [] = Inr []"
| "parse_items (n # ns) = bind_ok (parseYAMLNode n) (\<lambda>v. bind_ok (parse_items ns) (\<lambda>vs. Inr (v # vs)))"

definition ParseFrontMatterBlock :: "(string \<Rightarrow> string + ynode) \<Rightarrow> string \<Rightarrow> yaml_error + gomap" where
  "ParseFrontMatterBlock unmarshal block =
     (case unmarshal block of
        Inl e \<Rightarrow> Inl (YamlSyntax e)
      | Inr node \<Rightarrow>
          if node = YZero \<or> node = YDocument [] then Inr []
          else bind_ok (parseYAMLNode node) (\<lambda>v. case as_map v of None \<Rightarrow> Inl YamlNotMapping | Some m \<Rightarrow> Inr m))"

section \<open>Laws\<close>

named_theorems field_simps_defs "definitions of the field predicates"

lemmas field_defs [field_simps_defs] =
  isStringValue_def isNonEmptyStringValue_def isNullableNonEmptyStringValue_def isBoolValue_def
  isNonNegativeIntValue_def isStringListValue_def isNonEmptyStringListValue_def isMapListValue_def
  isStringAnyMapValue_def isScopeLinksValue_def equalsValue_def oneOfValue_def

lemma nonEmptyString_Some: "nonEmptyString v = Some s \<longleftrightarrow> v = VStr s \<and> trim_space s \<noteq> []"
  by (cases v) (auto simp: nonEmptyString_def)

lemma nonEmptyString_VNil [simp]: "nonEmptyString VNil = None"
  by (simp add: nonEmptyString_def)

lemma nonEmptyString_text: "nonEmptyString v = Some s \<Longrightarrow> go_sprint v = s"
  by (auto simp: nonEmptyString_Some)

lemma all_some_Some: "all_some xs = Some ys \<longleftrightarrow> xs = map Some ys"
  by (induction xs arbitrary: ys rule: all_some.induct) auto

lemma unknown_keys_Nil: "unknown_keys allowed row = [] \<longleftrightarrow> set (map fst row) \<subseteq> set allowed"
proof -
  have "unknown_keys allowed row = [] \<longleftrightarrow> filter (\<lambda>k. k \<notin> set allowed) (map fst row) = []"
    unfolding unknown_keys_def by (metis set_empty set_sort)
  then show ?thesis by (auto simp: filter_empty_conv)
qed

text \<open>The map a document is read as has unique keys at its top.\<close>

lemma parse_pairs_distinct:
  "parse_pairs result ps = Inr m \<Longrightarrow> distinct (map fst result) \<Longrightarrow> distinct (map fst m)"
proof (induction ps arbitrary: result)
  case (Cons p ps)
  then show ?case
    by (cases p) (auto simp: check_simps mhas_def map_of_eq_None_iff split: if_splits)
qed simp


end
