(* ===== verification/LedgerContract.thy ===== *)
theory LedgerContract
  imports ArtifactFields
begin

text \<open>
  The contract of the collaboration ledger and of the discharge table of a final review
  (\<open>go/pkg/artifactcontracts/collaboration_ledger.go\<close>): the entries of a dialogue and their
  references, what a clearing verdict needs, the findings and the constraints that bind to them, and
  the rows that report how a constraint was discharged.
\<close>

section \<open>Errors\<close>

text \<open>What a contract refuses: the message is kept as its parts.\<close>

datatype contract_error =
    FrontMatterRequired string
  | FrontMatterYaml yaml_error
  | NotMarkdown string
  | MissingRequiredField string string        \<comment> \<open>kind, field\<close>
  | InvalidField string string                \<comment> \<open>kind, field\<close>
  | UnknownFields string "string list"        \<comment> \<open>of a document or a row\<close>
  | RowRule string nat string                 \<comment> \<open>list, index, rule\<close>
  | DocumentRule string string                \<comment> \<open>kind, rule\<close>

definition row_unknown :: "string \<Rightarrow> nat \<Rightarrow> string list \<Rightarrow> gomap \<Rightarrow> contract_error check" where
  "row_unknown label idx allowed row =
     fail_if (unknown_keys allowed row \<noteq> [])
       (UnknownFields (label @ ''['' @ show_nat idx @ '']'') (unknown_keys allowed row))"

text \<open>A key that must be a non-empty string, and one that is checked only where it is given.\<close>

definition need_text :: "string \<Rightarrow> nat \<Rightarrow> string \<Rightarrow> gomap \<Rightarrow> contract_error check" where
  "need_text label idx key row = fail_if (nonEmptyString (mget row key) = None) (RowRule label idx key)"

definition if_given :: "string \<Rightarrow> nat \<Rightarrow> string \<Rightarrow> (goval \<Rightarrow> bool) \<Rightarrow> gomap \<Rightarrow> contract_error check" where
  "if_given label idx key p row = fail_if (mhas row key \<and> \<not> p (mget row key)) (RowRule label idx key)"

section \<open>Entries of the dialogue\<close>

definition isDialogueRef :: "string \<Rightarrow> bool" where
  "isDialogueRef value \<longleftrightarrow>
     prefix ''dialogue:'' value \<and> drop 9 value \<noteq> [] \<and> list_all is_digit (drop 9 value)"

fun collaborationLedgerEntryList :: "goval \<Rightarrow> gomap list" where
  "collaborationLedgerEntryList (VMaps ms) = ms"
| "collaborationLedgerEntryList (VList vs) = (case all_some (map as_map vs) of None \<Rightarrow> [] | Some ms \<Rightarrow> ms)"
| "collaborationLedgerEntryList _ = []"

definition entry_keys :: "string list" where
  "entry_keys = [''kind'', ''by'', ''refs'', ''text'', ''correspondence'', ''coverage'']"

definition entry_shape :: "gomap \<Rightarrow> bool" where
  "entry_shape entry \<longleftrightarrow>
     unknown_keys entry_keys entry = [] \<and>
     list_all (mhas entry) [''kind'', ''by'', ''refs'', ''text''] \<and>
     oneOfValue [''claim'', ''challenge'', ''rebuttal'', ''constraint'', ''nomination''] (mget entry ''kind'') \<and>
     isNonEmptyStringValue (mget entry ''by'') \<and>
     (case stringList (mget entry ''refs'') of None \<Rightarrow> False | Some refs \<Rightarrow> refs \<noteq> [] \<and> list_all isDialogueRef refs) \<and>
     isNonEmptyStringValue (mget entry ''text'')"

definition isCollaborationLedgerEntriesValue :: "goval \<Rightarrow> bool" where
  "isCollaborationLedgerEntriesValue v \<longleftrightarrow>
     collaborationLedgerEntryList v \<noteq> [] \<and> list_all entry_shape (collaborationLedgerEntryList v)"

definition list_or_nil :: "'a list option \<Rightarrow> 'a list" where
  "list_or_nil r = (case r of None \<Rightarrow> [] | Some xs \<Rightarrow> xs)"

definition entry_kind :: "gomap \<Rightarrow> string" where
  "entry_kind entry = go_sprint (mget entry ''kind'')"

definition entry_refs :: "gomap \<Rightarrow> string list" where
  "entry_refs entry = list_or_nil (stringList (mget entry ''refs''))"

definition correspondences :: "string list" where
  "correspondences = [''landed_and_rebutted'', ''landed_unrebutted'', ''not_material'']"

definition check_entry :: "string list \<Rightarrow> nat \<Rightarrow> gomap \<Rightarrow> contract_error check" where
  "check_entry participants idx entry = checks
     [fail_if (go_sprint (mget entry ''by'') \<notin> set participants) (RowRule ''entries'' idx ''by''),
      fail_if (entry_refs entry = []) (RowRule ''entries'' idx ''refs''),
      check_each (\<lambda>ref. fail_if (\<not> isDialogueRef ref) (RowRule ''entries'' idx ''refs'')) (entry_refs entry),
      if_given ''entries'' idx ''correspondence''
        (\<lambda>v. nonEmptyString v \<noteq> None \<and> oneOfValue correspondences v \<and> entry_kind entry = ''challenge'') entry,
      if_given ''entries'' idx ''coverage''
        (\<lambda>v. nonEmptyString v \<noteq> None \<and> oneOfValue [''reconstructed'', ''hallucinated'', ''missed''] v) entry]"

section \<open>Clearing verdicts\<close>

definition clearing_verdict :: "string \<Rightarrow> bool" where
  "clearing_verdict v \<longleftrightarrow> v = ''accept'' \<or> v = ''accept_with_findings''"

definition correspondence_tally :: "string \<Rightarrow> gomap list \<Rightarrow> nat" where
  "correspondence_tally value entries =
     length (filter (\<lambda>e. mhas e ''correspondence'' \<and> mget e ''correspondence'' = VStr value) entries)"

definition validateSecondAdjudicatorGate :: "gomap \<Rightarrow> contract_error check" where
  "validateSecondAdjudicatorGate parsed =
     (let adjudicators = list_or_nil (stringList (mget parsed ''adjudicators''));
          named = remdups (filter (\<lambda>a. trim_space a \<noteq> []) adjudicators) in
      fail_if (go_sprint (mget parsed ''adjudication_mode'') = ''second_on_disagreement'' \<and> length named < 2)
        (DocumentRule ''collaboration_ledger'' ''adjudicators''))"

definition check_clearing :: "gomap \<Rightarrow> gomap list \<Rightarrow> contract_error check" where
  "check_clearing parsed entries = checks
     [check_each (\<lambda>kind. fail_if (kind \<notin> set (map entry_kind entries)) (DocumentRule ''collaboration_ledger'' kind))
        [''claim'', ''challenge'', ''rebuttal''],
      fail_if (list_ex (\<lambda>e. mhas e ''correspondence'') entries \<and> correspondence_tally ''landed_unrebutted'' entries > 0)
        (DocumentRule ''collaboration_ledger'' ''landed_unrebutted''),
      fail_if (list_ex (\<lambda>e. mhas e ''correspondence'') entries \<and> correspondence_tally ''landed_and_rebutted'' entries = 0)
        (DocumentRule ''collaboration_ledger'' ''landed_and_rebutted''),
      validateSecondAdjudicatorGate parsed]"

section \<open>Findings\<close>

definition validateDialogueRefs :: "string \<Rightarrow> nat \<Rightarrow> goval \<Rightarrow> contract_error check" where
  "validateDialogueRefs label idx v =
     (case stringList v of
        None \<Rightarrow> Some (RowRule label idx ''source_refs'')
      | Some refs \<Rightarrow> check_each (\<lambda>ref. fail_if (\<not> isDialogueRef ref) (RowRule label idx ''source_refs'')) refs)"

definition severities :: "string list" where
  "severities = [''low'', ''medium'', ''high'', ''critical'']"

definition finding_keys :: "string list" where
  "finding_keys =
     [''id'', ''severity'', ''posture'', ''status'', ''challenge'', ''closest_acceptable_answer'',
      ''affected_invariants'', ''requested_constraint_shape'', ''requires_convener_rebuttal'', ''source_refs'']"

definition check_finding :: "(string \<times> gomap) list \<Rightarrow> nat \<Rightarrow> gomap \<Rightarrow> contract_error check" where
  "check_finding seen idx row = checks
     [row_unknown ''findings'' idx finding_keys row,
      need_text ''findings'' idx ''id'' row,
      fail_if (stringValue (mget row ''id'') \<in> set (map fst seen)) (RowRule ''findings'' idx ''duplicate''),
      fail_if (\<not> oneOfValue severities (mget row ''severity'')) (RowRule ''findings'' idx ''severity''),
      need_text ''findings'' idx ''posture'' row,
      fail_if (\<not> oneOfValue [''open'', ''answered'', ''accepted'', ''rejected'', ''converted_to_constraint'',
          ''deferred_with_owner''] (mget row ''status'')) (RowRule ''findings'' idx ''status''),
      need_text ''findings'' idx ''challenge'' row,
      if_given ''findings'' idx ''closest_acceptable_answer'' isStringValue row,
      if_given ''findings'' idx ''affected_invariants'' isStringListValue row,
      if_given ''findings'' idx ''requested_constraint_shape'' isStringAnyMapValue row,
      if_given ''findings'' idx ''requires_convener_rebuttal'' isBoolValue row,
      (if mhas row ''source_refs'' then validateDialogueRefs ''findings'' idx (mget row ''source_refs'') else None)]"

fun collect_findings ::
  "nat \<Rightarrow> gomap list \<Rightarrow> (string \<times> gomap) list \<Rightarrow> contract_error + (string \<times> gomap) list" where
  "collect_findings idx [] seen = Inr seen"
| "collect_findings idx (row # rows) seen =
     (case check_finding seen idx row of Some err \<Rightarrow> Inl err
      | None \<Rightarrow> collect_findings (Suc idx) rows (seen @ [(stringValue (mget row ''id''), row)]))"

definition validateCollaborationLedgerFindings :: "goval \<Rightarrow> contract_error + (string \<times> gomap) list" where
  "validateCollaborationLedgerFindings v =
     (if v = VNil then Inr []
      else (case mapList v of None \<Rightarrow> Inl (DocumentRule ''collaboration_ledger'' ''findings'')
            | Some rows \<Rightarrow> collect_findings 0 rows []))"

section \<open>Constraints\<close>

definition constraint_keys :: "string list" where
  "constraint_keys =
     [''id'', ''posture'', ''severity'', ''kind'', ''binding'', ''text'', ''source_finding'', ''source_refs'',
      ''verification'', ''final_review_required'']"

definition constraintVerification :: "nat \<Rightarrow> goval \<Rightarrow> contract_error + gomap option" where
  "constraintVerification idx v =
     (if v = VNil then Inr None
      else (case as_map v of
          None \<Rightarrow> Inl (RowRule ''constraints'' idx ''verification'')
        | Some m \<Rightarrow>
            (case row_unknown ''constraints'' idx [''expected_stage'', ''gate''] m of Some err \<Rightarrow> Inl err
             | None \<Rightarrow>
                 if list_all (\<lambda>(k, raw). nonEmptyString raw \<noteq> None) m then Inr (Some m)
                 else Inl (RowRule ''constraints'' idx ''verification''))))"

definition verificationHasSignal :: "gomap option \<Rightarrow> bool" where
  "verificationHasSignal verification =
     (case verification of None \<Rightarrow> False
      | Some m \<Rightarrow> list_ex (\<lambda>k. nonEmptyString (mget m k) \<noteq> None) [''gate'', ''expected_stage''])"

text \<open>What a binding constraint owes: a finding of high severity and a way to verify it.\<close>

definition check_binding ::
  "(string \<times> gomap) list \<Rightarrow> nat \<Rightarrow> gomap \<Rightarrow> gomap option \<Rightarrow> contract_error check" where
  "check_binding findings idx row verification =
     (let source = (if mhas row ''source_finding'' then stringValue (mget row ''source_finding'') else []) in
      if source = [] then Some (RowRule ''constraints'' idx ''source_finding'')
      else (case map_of findings source of
          None \<Rightarrow> Some (RowRule ''constraints'' idx ''source_finding'')
        | Some finding \<Rightarrow> checks
            [fail_if (\<not> oneOfValue [''high'', ''critical''] (mget finding ''severity'')) (RowRule ''constraints'' idx ''source_finding''),
             fail_if (\<not> verificationHasSignal verification) (RowRule ''constraints'' idx ''verification'')]))"

definition check_ledger_constraint :: "(string \<times> gomap) list \<Rightarrow> nat \<Rightarrow> gomap \<Rightarrow> contract_error check" where
  "check_ledger_constraint findings idx row = checks
     [row_unknown ''constraints'' idx constraint_keys row,
      need_text ''constraints'' idx ''id'' row,
      need_text ''constraints'' idx ''posture'' row,
      fail_if (\<not> oneOfValue severities (mget row ''severity'')) (RowRule ''constraints'' idx ''severity''),
      fail_if (\<not> oneOfValue [''invariant'', ''gate'', ''schema'', ''policy'', ''non_goal'', ''accepted_risk'',
          ''unresolved_question''] (mget row ''kind'')) (RowRule ''constraints'' idx ''kind''),
      fail_if (\<not> isBoolValue (mget row ''binding'')) (RowRule ''constraints'' idx ''binding''),
      need_text ''constraints'' idx ''text'' row,
      if_given ''constraints'' idx ''source_finding'' isNonEmptyStringValue row,
      (if mhas row ''source_refs'' then validateDialogueRefs ''constraints'' idx (mget row ''source_refs'') else None),
      if_given ''constraints'' idx ''final_review_required'' isBoolValue row,
      (case constraintVerification idx (mget row ''verification'') of
         Inl err \<Rightarrow> Some err
       | Inr verification \<Rightarrow>
           if mget row ''binding'' = VBool True then check_binding findings idx row verification else None)]"

definition validateCollaborationLedgerConstraints ::
  "goval \<Rightarrow> (string \<times> gomap) list \<Rightarrow> contract_error + gomap list" where
  "validateCollaborationLedgerConstraints v findings =
     (if v = VNil then Inr []
      else (case mapList v of None \<Rightarrow> Inl (DocumentRule ''collaboration_ledger'' ''constraints'')
            | Some rows \<Rightarrow>
                (case check_idx (check_ledger_constraint findings) 0 rows of Some err \<Rightarrow> Inl err | None \<Rightarrow> Inr rows)))"

definition productiveConstraintRows :: "gomap list \<Rightarrow> nat" where
  "productiveConstraintRows rows =
     length (filter (\<lambda>row. mget row ''binding'' = VBool True \<or> go_sprint (mget row ''kind'') = ''unresolved_question'') rows)"

definition validateCollaborationLedgerBranches :: "goval \<Rightarrow> contract_error check" where
  "validateCollaborationLedgerBranches v =
     (if v = VNil then None
      else (case as_map v of None \<Rightarrow> Some (DocumentRule ''collaboration_ledger'' ''branches'')
        | Some branches \<Rightarrow> check_each (\<lambda>(posture, raw). checks
            [fail_if (trim_space posture = []) (DocumentRule ''collaboration_ledger'' ''branches''),
             fail_if (as_str raw = None \<or> \<not> oneOfValue [''cleared'', ''cleared_with_constraints'', ''blocked'',
                 ''blocked_pending_answer'', ''defer_with_successor''] raw)
               (DocumentRule ''collaboration_ledger'' ''branches'')]) branches))"

section \<open>The ledger\<close>

definition validateCollaborationLedger :: "gomap \<Rightarrow> contract_error check" where
  "validateCollaborationLedger parsed =
     (let participants = list_or_nil (stringList (mget parsed ''participants''));
          entries = collaborationLedgerEntryList (mget parsed ''entries'');
          verdict = go_sprint (mget parsed ''verdict'');
          extraction = (go_sprint (mget parsed ''shape'') = ''adjudicated_constraint_extraction'') in
      checks
        [check_idx (check_entry participants) 0 entries,
         (if clearing_verdict verdict then check_clearing parsed entries else None),
         fail_if (extraction \<and> go_sprint (mget parsed ''schema_version'') \<noteq> ''striatum.collaboration_ledger.v1.1'')
           (DocumentRule ''collaboration_ledger'' ''schema_version''),
         with_ok (validateCollaborationLedgerFindings (mget parsed ''findings'')) (\<lambda>findings.
         with_ok (validateCollaborationLedgerConstraints (mget parsed ''constraints'') findings) (\<lambda>constraints.
           checks
             [validateCollaborationLedgerBranches (mget parsed ''branches''),
              fail_if (extraction \<and> verdict = ''needs_revision'' \<and> productiveConstraintRows constraints = 0)
                (DocumentRule ''collaboration_ledger'' ''constraints'')]))])"

section \<open>The discharge table\<close>

record discharge_row =
  dr_constraint :: string
  dr_status :: string
  dr_evidence :: string
  dr_owner :: string
  dr_stage :: string

definition discharge_keys :: "string list" where
  "discharge_keys = [''constraint_id'', ''status'', ''evidence'', ''owner'', ''stage'']"

definition given_text :: "gomap \<Rightarrow> string \<Rightarrow> string" where
  "given_text row key = (if mhas row key then stringValue (mget row key) else [])"

definition check_discharge :: "string list \<Rightarrow> nat \<Rightarrow> gomap \<Rightarrow> contract_error check" where
  "check_discharge seen idx row = checks
     [row_unknown ''constraint_discharge'' idx discharge_keys row,
      need_text ''constraint_discharge'' idx ''constraint_id'' row,
      fail_if (stringValue (mget row ''constraint_id'') \<in> set seen) (RowRule ''constraint_discharge'' idx ''duplicate''),
      fail_if (\<not> oneOfValue [''discharged'', ''missing'', ''partial'', ''accepted_risk''] (mget row ''status''))
        (RowRule ''constraint_discharge'' idx ''status''),
      if_given ''constraint_discharge'' idx ''evidence'' isStringValue row,
      if_given ''constraint_discharge'' idx ''owner'' isNonEmptyStringValue row,
      if_given ''constraint_discharge'' idx ''stage'' isNonEmptyStringValue row,
      fail_if (go_sprint (mget row ''status'') = ''accepted_risk'' \<and>
          (given_text row ''owner'' = [] \<or> given_text row ''stage'' = []))
        (RowRule ''constraint_discharge'' idx ''accepted_risk'')]"

definition discharge_of :: "gomap \<Rightarrow> discharge_row" where
  "discharge_of row =
     \<lparr>dr_constraint = stringValue (mget row ''constraint_id''), dr_status = go_sprint (mget row ''status''),
      dr_evidence = given_text row ''evidence'', dr_owner = given_text row ''owner'', dr_stage = given_text row ''stage''\<rparr>"

fun collect_discharge ::
  "nat \<Rightarrow> gomap list \<Rightarrow> discharge_row list \<Rightarrow> contract_error + discharge_row list" where
  "collect_discharge idx [] acc = Inr acc"
| "collect_discharge idx (row # rows) acc =
     (case check_discharge (map dr_constraint acc) idx row of Some err \<Rightarrow> Inl err
      | None \<Rightarrow> collect_discharge (Suc idx) rows (acc @ [discharge_of row]))"

definition ParseConstraintDischarge :: "goval \<Rightarrow> contract_error + discharge_row list" where
  "ParseConstraintDischarge v =
     (if v = VNil then Inr []
      else (case mapList v of None \<Rightarrow> Inl (DocumentRule ''finding'' ''constraint_discharge'')
            | Some rows \<Rightarrow> collect_discharge 0 rows []))"

record binding_constraint =
  bc_id :: string
  bc_final_review :: bool

definition binding_of :: "gomap \<Rightarrow> binding_constraint option" where
  "binding_of row =
     (if mget row ''binding'' \<noteq> VBool True then None
      else (case nonEmptyString (mget row ''id'') of None \<Rightarrow> None
        | Some k \<Rightarrow> Some \<lparr>bc_id = k, bc_final_review = (mget row ''final_review_required'' \<noteq> VBool False)\<rparr>))"

definition BindingConstraintsFromLedger :: "gomap \<Rightarrow> binding_constraint list" where
  "BindingConstraintsFromLedger parsed =
     (case mapList (mget parsed ''constraints'') of None \<Rightarrow> [] | Some rows \<Rightarrow> List.map_filter binding_of rows)"

end
