(* ===== verification/ClaimContract.thy ===== *)
theory ClaimContract
  imports LedgerContract
begin

text \<open>
  The contract of the claim ledger (\<open>go/pkg/artifactcontracts/claim_ledger.go\<close>): claims with a
  status of the lattice DESIGNED, ASSERTED, VERIFIED, the shape of their rows, the provenance lint
  that refuses a status above its evidence, and the status a claim earns when it is read.
\<close>

section \<open>The lattice\<close>

abbreviation DESIGNED :: string where "DESIGNED \<equiv> ''DESIGNED''"
abbreviation ASSERTED :: string where "ASSERTED \<equiv> ''ASSERTED''"
abbreviation VERIFIED :: string where "VERIFIED \<equiv> ''VERIFIED''"

definition claimStatusRank :: "string \<Rightarrow> int" where
  "claimStatusRank status =
     (if status = DESIGNED then 0 else if status = ASSERTED then 1 else if status = VERIFIED then 2 else - 1)"

definition ClaimStatusDominates :: "string \<Rightarrow> string \<Rightarrow> bool" where
  "ClaimStatusDominates a b \<longleftrightarrow> claimStatusRank a \<ge> 0 \<and> claimStatusRank a \<ge> claimStatusRank b"

record claim =
  cl_id :: string
  cl_status :: string
  cl_text :: string
  cl_bound :: string
  cl_receipt :: string
  cl_evidence :: string

section \<open>Rows\<close>

definition claimRowKeys :: "string list" where
  "claimRowKeys = [''id'', ''status'', ''text'', ''bound_input_digest'', ''receipt_ref'', ''evidence_digest'']"

definition check_claim :: "string list \<Rightarrow> nat \<Rightarrow> gomap \<Rightarrow> contract_error check" where
  "check_claim seen idx row = checks
     [row_unknown ''claims'' idx claimRowKeys row,
      need_text ''claims'' idx ''id'' row,
      fail_if (stringValue (mget row ''id'') \<in> set seen) (RowRule ''claims'' idx ''duplicate''),
      (case nonEmptyString (mget row ''status'') of None \<Rightarrow> Some (RowRule ''claims'' idx ''status'')
       | Some status \<Rightarrow> fail_if (claimStatusRank status < 0) (RowRule ''claims'' idx ''status'')),
      need_text ''claims'' idx ''text'' row,
      if_given ''claims'' idx ''bound_input_digest'' isNonEmptyStringValue row,
      if_given ''claims'' idx ''receipt_ref'' isNonEmptyStringValue row,
      if_given ''claims'' idx ''evidence_digest'' isNonEmptyStringValue row]"

definition claim_of :: "gomap \<Rightarrow> claim" where
  "claim_of row =
     \<lparr>cl_id = stringValue (mget row ''id''), cl_status = stringValue (mget row ''status''),
      cl_text = go_sprint (mget row ''text''), cl_bound = given_text row ''bound_input_digest'',
      cl_receipt = given_text row ''receipt_ref'', cl_evidence = given_text row ''evidence_digest''\<rparr>"

fun collect_claims :: "nat \<Rightarrow> gomap list \<Rightarrow> claim list \<Rightarrow> contract_error + claim list" where
  "collect_claims idx [] acc = Inr acc"
| "collect_claims idx (row # rows) acc =
     (case check_claim (map cl_id acc) idx row of Some err \<Rightarrow> Inl err
      | None \<Rightarrow> collect_claims (Suc idx) rows (acc @ [claim_of row]))"

definition ParseClaims :: "goval \<Rightarrow> contract_error + claim list" where
  "ParseClaims v =
     (case mapList v of
        None \<Rightarrow> Inl (DocumentRule ''claim_ledger'' ''claims'')
      | Some rows \<Rightarrow> if rows = [] then Inl (DocumentRule ''claim_ledger'' ''claims'') else collect_claims 0 rows [])"

section \<open>The provenance lint\<close>

definition claim_violation :: "claim \<Rightarrow> string option" where
  "claim_violation c =
     (if cl_status c \<noteq> VERIFIED then None
      else if cl_receipt c = [] then Some (cl_id c @ '' (VERIFIED without a receipt_ref)'')
      else if cl_bound c = [] then Some (cl_id c @ '' (VERIFIED without a bound_input_digest)'')
      else if cl_evidence c = [] then Some (cl_id c @ '' (VERIFIED without an evidence_digest)'')
      else if cl_evidence c \<noteq> cl_bound c
      then Some (cl_id c @ '' (VERIFIED but evidence_digest does not match bound_input_digest '' @ [CHR 0xE2, CHR 0x80, CHR 0x94] @ '' decayed)'')
      else None)"

definition LintClaimLedger :: "claim list \<Rightarrow> contract_error check" where
  "LintClaimLedger claims =
     (let violations = List.map_filter claim_violation claims in
      fail_if (violations \<noteq> []) (UnknownFields ''claim status exceeds evidence'' (sort_strings violations)))"

definition EffectiveClaimStatus :: "claim \<Rightarrow> string" where
  "EffectiveClaimStatus c =
     (if cl_status c \<noteq> VERIFIED then cl_status c
      else if cl_receipt c = [] \<or> cl_bound c = [] \<or> cl_evidence c = [] then ASSERTED
      else if cl_evidence c \<noteq> cl_bound c then ASSERTED
      else VERIFIED)"

definition validateClaimLedger :: "gomap \<Rightarrow> contract_error check" where
  "validateClaimLedger parsed = with_ok (ParseClaims (mget parsed ''claims'')) LintClaimLedger"

definition ClaimsFromFrontMatter :: "gomap \<Rightarrow> claim list" where
  "ClaimsFromFrontMatter parsed = (case ParseClaims (mget parsed ''claims'') of Inl err \<Rightarrow> [] | Inr cs \<Rightarrow> cs)"

definition LedgerSeal :: "gomap \<Rightarrow> int option" where
  "LedgerSeal parsed =
     (case intValue_ok (mget parsed ''ledger_seal'') of None \<Rightarrow> None | Some v \<Rightarrow> if v < 0 then None else Some v)"

section \<open>Laws\<close>

lemma collect_claims_Inr:
  "collect_claims idx rows acc = Inr cs \<Longrightarrow> distinct (map cl_id acc) \<Longrightarrow>
   \<forall>c \<in> set acc. claimStatusRank (cl_status c) \<ge> 0 \<Longrightarrow>
   distinct (map cl_id cs) \<and> (\<forall>c \<in> set cs. claimStatusRank (cl_status c) \<ge> 0) \<and>
   cs = acc @ map claim_of rows"
proof (induction rows arbitrary: idx acc)
  case (Cons row rows)
  from Cons.prems(1) have ok: "check_claim (map cl_id acc) idx row = None"
    and rest: "collect_claims (Suc idx) rows (acc @ [claim_of row]) = Inr cs"
    by (auto split: option.splits)
  from ok have "cl_id (claim_of row) \<notin> set (map cl_id acc)" "claimStatusRank (cl_status (claim_of row)) \<ge> 0"
    by (auto simp: check_claim_def claim_of_def nonEmptyString_Some split: option.splits)
  with Cons.prems(2,3) have "distinct (map cl_id (acc @ [claim_of row]))"
    "\<forall>c \<in> set (acc @ [claim_of row]). claimStatusRank (cl_status c) \<ge> 0" by auto
  note ih = Cons.IH [OF rest this]
  have cs: "acc @ map claim_of (row # rows) = (acc @ [claim_of row]) @ map claim_of rows" by simp
  show ?case unfolding cs by (rule ih)
qed simp

lemma ParseClaims_Inr:
  assumes "ParseClaims v = Inr cs"
  shows "distinct (map cl_id cs)" "cs \<noteq> []" "\<forall>c \<in> set cs. claimStatusRank (cl_status c) \<ge> 0"
  using assms collect_claims_Inr [of 0 _ "[]" cs]
  by (auto simp: ParseClaims_def split: option.splits if_splits)

lemma lint_None: "LintClaimLedger cs = None \<longleftrightarrow> (\<forall>c \<in> set cs. claim_violation c = None)"
proof -
  have "List.map_filter claim_violation cs = [] \<longleftrightarrow> (\<forall>c \<in> set cs. claim_violation c = None)"
    by (induction cs) (auto simp: map_filter_simps split: option.splits)
  then show ?thesis by (simp add: LintClaimLedger_def Let_def)
qed

text \<open>The lint accepts exactly the ledgers whose claims have the status they earn.\<close>

lemma lint_effective: "LintClaimLedger cs = None \<longleftrightarrow> (\<forall>c \<in> set cs. EffectiveClaimStatus c = cl_status c)"
  by (auto simp: lint_None claim_violation_def EffectiveClaimStatus_def)

lemma effective_le: "claimStatusRank (EffectiveClaimStatus c) \<le> claimStatusRank (cl_status c)"
  by (simp add: EffectiveClaimStatus_def claimStatusRank_def)

end
