(* ===== verification/ArtifactContracts.thy ===== *)
theory ArtifactContracts
  imports ClaimContract WorkflowFields
begin

text \<open>
  The contracts of artifacts (\<open>go/pkg/artifactcontracts/contracts.go\<close>): the front matter schema of every
  kind, the validation of a document against it with the rules of single kinds, and the skeleton a
  rejected lane is shown.
\<close>

section \<open>Schemas\<close>

text \<open>A field of a schema: whether it is required, and the check of its value.\<close>

type_synonym schema = "(string \<times> bool \<times> (goval \<Rightarrow> bool)) list"

definition Schemas :: "(string \<times> schema) list" where
  "Schemas =
     [(''decision'',
        [(''schema_version'', True, equalsValue ''striatum.decision.v1''),
         (''artifact_kind'', True, equalsValue ''decision''),
         (''decision_id'', True, isStringValue),
         (''run_id'', True, isStringValue),
         (''owner'', True, equalsValue ''human''),
         (''outcome'', True, oneOfValue [''accepted'', ''rejected'', ''accepted_with_follow_up'']),
         (''follow_up_required'', True, isBoolValue),
         (''title'', True, isStringValue),
         (''created_at'', True, isStringValue),
         (''escape_decision'', False, isBoolValue),
         (''escape_surface'', False, isNonEmptyStringValue),
         (''escape_action'', False, isNonEmptyStringValue)]),
      (''finding'',
        [(''schema_version'', True, equalsValue ''striatum.finding.v1''),
         (''artifact_kind'', True, equalsValue ''finding''),
         (''verdict_intent'', True, oneOfValue [''accept'', ''accept_with_findings'', ''needs_revision'',
            ''reject'']),
         (''severity'', False, oneOfValue [''info'', ''low'', ''medium'', ''high'', ''critical'']),
         (''tags'', False, isStringListValue),
         (''constraint_discharge'', False, isMapListValue)]),
      (''findings_ledger'',
        [(''schema_version'', True, equalsValue ''striatum.findings_ledger.v1''),
         (''artifact_kind'', True, equalsValue ''findings_ledger''),
         (''summary_count'', True, isNonNegativeIntValue),
         (''entries_path'', False, isStringValue),
         (''constraint_discharge'', False, isMapListValue)]),
      (''synthesis'',
        [(''schema_version'', True, equalsValue ''striatum.synthesis.v1''),
         (''artifact_kind'', True, equalsValue ''synthesis''),
         (''inputs'', False, isStringListValue)]),
      (''support_ledger'',
        [(''schema_version'', True, equalsValue ''striatum.support_ledger.v1''),
         (''artifact_kind'', True, equalsValue ''support_ledger''),
         (''audited_artifact'', True, isStringValue),
         (''claim_count'', False, isNonNegativeIntValue)]),
      (''action_item_ledger'',
        [(''schema_version'', True, equalsValue ''striatum.action_item_ledger.v1''),
         (''artifact_kind'', True, equalsValue ''action_item_ledger''),
         (''source_review_artifact'', True, isStringValue),
         (''revision_round'', True, isNonNegativeIntValue),
         (''total_items'', False, isNonNegativeIntValue)]),
      (''harness_improvement_proposal'',
        [(''schema_version'', True, equalsValue ''striatum.harness_improvement_proposal.v1''),
         (''artifact_kind'', True, equalsValue ''harness_improvement_proposal''),
         (''target'', True, oneOfValue [''prompt'', ''workflow'', ''spec'', ''defaults'', ''documentation'']),
         (''expected_benefit'', True, isStringValue),
         (''risk'', False, isStringValue),
         (''rollback'', False, isStringValue)]),
      (''escalation'',
        [(''schema_version'', True, equalsValue ''striatum.escalation.v1''),
         (''artifact_kind'', True, equalsValue ''escalation''),
         (''escalation_id'', True, isNonEmptyStringValue),
         (''run_id'', True, isNonEmptyStringValue),
         (''job_id'', False, isNonEmptyStringValue),
         (''session_id'', False, isNonEmptyStringValue),
         (''severity'', True, oneOfValue [''info'', ''low'', ''medium'', ''high'', ''critical'']),
         (''blocker_kind'', True, oneOfValue [''ambiguous_goal'', ''missing_authority'',
            ''contradicting_decisions'', ''no_available_reviewer_lane'', ''committee_stalemate'',
               ''override_required'']),
         (''description'', True, isNonEmptyStringValue),
         (''reasoning'', True, isNonEmptyStringValue),
         (''requested_action'', True, isNonEmptyStringValue),
         (''related_artifacts'', False, isStringListValue),
         (''created_at'', True, isNonEmptyStringValue)]),
      (''operator_brief'',
        [(''schema_version'', True, equalsValue ''striatum.operator_brief.v1''),
         (''artifact_kind'', True, equalsValue ''operator_brief''),
         (''brief_id'', True, isNonEmptyStringValue),
         (''supersedes'', True, isNullableNonEmptyStringValue),
         (''scope_links'', True, isScopeLinksValue),
         (''context_budget_lines'', True, isNonNegativeIntValue),
         (''retrieval_priority'', True, oneOfValue [''high'', ''medium'', ''low'']),
         (''status'', True, oneOfValue [''current'', ''superseded'']),
         (''author'', False, isNonEmptyStringValue)]),
      (''work_plan'',
        [(''schema_version'', True, equalsValue ''striatum.work_plan.v1''),
         (''artifact_kind'', True, equalsValue ''work_plan''),
         (''plan_id'', True, isNonEmptyStringValue),
         (''scope_kind'', True, oneOfValue [''rfc'', ''phase'', ''initiative'', ''bugfix'']),
         (''scope_ref'', True, isNonEmptyStringValue),
         (''state'', True, oneOfValue [''open'', ''planned'', ''in_progress'', ''closed'']),
         (''opened_at'', True, isNonEmptyStringValue),
         (''closed_at'', True, isNullableNonEmptyStringValue),
         (''closure_summary'', True, isNullableNonEmptyStringValue),
         (''supersedes'', True, isNullableNonEmptyStringValue),
         (''retrieval_priority'', True, oneOfValue [''high'', ''medium'', ''low'']),
         (''author'', False, isNonEmptyStringValue)]),
      (''progress_note'',
        [(''schema_version'', True, equalsValue ''striatum.progress_note.v1''),
         (''artifact_kind'', True, equalsValue ''progress_note''),
         (''note_date'', True, isNonEmptyStringValue),
         (''session_slug'', True, isNonEmptyStringValue),
         (''related_plan'', True, isNullableNonEmptyStringValue),
         (''related_brief'', True, isNullableNonEmptyStringValue),
         (''retrieval_priority'', True, oneOfValue [''high'', ''medium'', ''low'']),
         (''author'', False, isNonEmptyStringValue)]),
      (''operator_report'',
        [(''schema_version'', True, equalsValue ''striatum.operator_report.v1''),
         (''artifact_kind'', True, equalsValue ''operator_report''),
         (''author'', False, isNonEmptyStringValue),
         (''retrieval_priority'', False, oneOfValue [''high'', ''medium'', ''low'']),
         (''supersedes'', False, isNullableNonEmptyStringValue)]),
      (''commit_request'',
        [(''schema_version'', True, equalsValue ''striatum.commit_request.v1''),
         (''artifact_kind'', True, equalsValue ''commit_request''),
         (''request_id'', True, isNonEmptyStringValue),
         (''run_id'', False, isNonEmptyStringValue),
         (''base_head'', True, isNonEmptyStringValue),
         (''branch'', True, isNonEmptyStringValue),
         (''git_snapshot_hash'', True, isNonEmptyStringValue),
         (''included_paths'', True, isNonEmptyStringListValue),
         (''reviewed_artifacts'', False, isNonEmptyStringListValue),
         (''commit_message'', True, isNonEmptyStringValue),
         (''rationale'', True, isNonEmptyStringValue),
         (''confirmation_status'', True, oneOfValue [''pending'', ''operator_confirmed'',
            ''human_confirmed'', ''refused'']),
         (''confirmed_by'', False, isNullableNonEmptyStringValue),
         (''confirmed_at'', False, isNullableNonEmptyStringValue)]),
      (''pr_request'',
        [(''schema_version'', True, equalsValue ''striatum.pr_request.v1''),
         (''artifact_kind'', True, equalsValue ''pr_request''),
         (''request_id'', True, isNonEmptyStringValue),
         (''run_id'', False, isNonEmptyStringValue),
         (''target_branch'', True, isNonEmptyStringValue),
         (''summary'', True, isNonEmptyStringValue),
         (''body_draft'', True, isNonEmptyStringValue),
         (''related_commit_request'', False, isNullableNonEmptyStringValue),
         (''local_commit_sha'', False, isNullableNonEmptyStringValue),
         (''provider_target'', False, isNullableNonEmptyStringValue),
         (''confirmation_status'', True, oneOfValue [''pending'', ''human_confirmed'', ''refused'']),
         (''confirmed_by'', False, isNullableNonEmptyStringValue),
         (''confirmed_at'', False, isNullableNonEmptyStringValue)]),
      (''auto_finalize_gate_evidence'',
        [(''schema_version'', True, equalsValue ''striatum.auto_finalize_gate_evidence.v1''),
         (''artifact_kind'', True, equalsValue ''auto_finalize_gate_evidence''),
         (''decision_id'', True, equalsValue ''D125''),
         (''gate_status'', True, oneOfValue [''pending'', ''satisfied'']),
         (''live_success_count'', True, isNonNegativeIntValue),
         (''lane_shape_count'', True, isNonNegativeIntValue),
         (''lane_shapes'', True, isNonEmptyStringListValue),
         (''contested_audit_chain_events'', True, isNonNegativeIntValue),
         (''evidence_artifacts'', True, isNonEmptyStringListValue),
         (''created_at'', True, isNonEmptyStringValue)]),
      (''collaboration_ledger'',
        [(''schema_version'', True, oneOfValue [''striatum.collaboration_ledger.v1'',
           ''striatum.collaboration_ledger.v1.1'']),
         (''artifact_kind'', True, equalsValue ''collaboration_ledger''),
         (''shape'', True, oneOfValue [''falsification_gate'', ''cross_examination'',
            ''fog_of_war_review'', ''synaptic_prune'', ''adjudicated_constraint_extraction'']),
         (''topic'', True, isNonEmptyStringValue),
         (''participants'', True, isNonEmptyStringListValue),
         (''entries'', True, isCollaborationLedgerEntriesValue),
         (''verdict'', True, oneOfValue [''accept'', ''accept_with_findings'', ''needs_revision'', ''reject'']),
         (''rationale'', True, isNonEmptyStringValue),
         (''cycle'', False, isNonNegativeIntValue),
         (''constraints'', False, isMapListValue),
         (''branches'', False, isStringAnyMapValue),
         (''findings'', False, isMapListValue),
         (''adjudicators'', False, isNonEmptyStringListValue),
         (''adjudication_mode'', False, oneOfValue [''single'', ''second_on_disagreement''])]),
      (''join_manifest'',
        [(''schema_version'', True, equalsValue ''striatum.join_manifest.v1''),
         (''artifact_kind'', True, equalsValue ''join_manifest''),
         (''barrier_id'', True, isNonEmptyStringValue),
         (''entity_kind'', True, oneOfValue [''job'', ''review_seat'', ''review_obligation'', ''run'']),
         (''run_id'', True, isNonEmptyStringValue),
         (''base_oid'', True, isNonEmptyStringValue),
         (''tree_sha'', True, isNonEmptyStringValue),
         (''commit_sha'', True, isNonEmptyStringValue),
         (''in_edges'', True, isMapListValue),
         (''created_at'', True, isNonEmptyStringValue)]),
      (''claim_ledger'',
        [(''schema_version'', True, equalsValue ''striatum.claim_ledger.v1''),
         (''artifact_kind'', True, equalsValue ''claim_ledger''),
         (''run_id'', True, isNonEmptyStringValue),
         (''ledger_seal'', True, isNonNegativeIntValue),
         (''claims'', True, isMapListValue),
         (''created_at'', False, isNonEmptyStringValue)]),
      (''receipt'',
        [(''schema_version'', True, equalsValue ''striatum.receipt.v1''),
         (''artifact_kind'', True, equalsValue ''receipt''),
         (''check_id'', True, isNonEmptyStringValue),
         (''argv'', True, isNonEmptyStringListValue),
         (''binary_sha256'', True, isNonEmptyStringValue),
         (''exit_code'', True, isNonNegativeIntValue),
         (''stdout_sha256'', True, isNonEmptyStringValue),
         (''cwd_tree_sha'', True, isNonEmptyStringValue),
         (''seal_digest'', True, isNonEmptyStringValue),
         (''created_at'', False, isNonEmptyStringValue)]),
      (''advisory_minority_report'',
        [(''schema_version'', True, equalsValue ''striatum.advisory_minority_report.v1''),
         (''artifact_kind'', True, equalsValue ''advisory_minority_report''),
         (''run_id'', True, isNonEmptyStringValue),
         (''gate_workflow_job_id'', True, isNonEmptyStringValue),
         (''guard_fired'', True, oneOfValue [''advisory_corroborated_abstention'',
            ''unanimous_advisory_reject'', ''advisory_only_panel_ungrounded'', ''none'']),
         (''advisory_outcome'', True, oneOfValue [''must_escalate'', ''advisory_noted'']),
         (''seats'', True, isMapListValue),
         (''created_at'', True, isNonEmptyStringValue)])]"

definition StandardOptionalMetadata :: "string list" where
  "StandardOptionalMetadata =
     [''author'', ''workflow'', ''phase'', ''lane'', ''role'', ''model'', ''date'', ''created_at'',
        ''updated_at'', ''visibility'', ''title'', ''status'', ''tags'', ''summary'', ''related'',
           ''run_id'', ''session_id'', ''ordinal'', ''cycle'']"

section \<open>Rules of single kinds\<close>

definition body_lines :: "string \<Rightarrow> nat" where
  "body_lines text =
     (let text' = replace_all [CHR 0x0D, CHR 0x0A] [CHR 0x0A] text;
          lines = split_on (CHR 0x0A) text';
          body = (if FrontMatterBlock text' = None then lines
                  else tl (dropWhile (\<lambda>l. trim_space l \<noteq> ''---'') (tl lines))) in
      length (filter (\<lambda>l. trim_space l \<noteq> []) body))"

definition validateOperatorBrief :: "gomap \<Rightarrow> string \<Rightarrow> contract_error check" where
  "validateOperatorBrief parsed payload =
     (case intValue_ok (mget parsed ''context_budget_lines'') of
        None \<Rightarrow> None
      | Some budget \<Rightarrow> fail_if (0 \<le> budget \<and> int (body_lines payload) > budget)
          (DocumentRule ''operator_brief'' ''context_budget_lines''))"

definition check_in_edge :: "nat \<Rightarrow> gomap \<Rightarrow> contract_error check" where
  "check_in_edge i row =
     (let status = go_sprint (mget row ''status'') in checks
     [need_text ''in_edges'' i ''entity_id'' row,
      fail_if (intValue_ok (mget row ''seal'') = None) (RowRule ''in_edges'' i ''seal''),
      fail_if (nonEmptyString (mget row ''status'') = None \<or>
          status \<notin> {''staged_live'', ''quarantined'', ''dead_seat''}) (RowRule ''in_edges'' i ''status''),
      (if status = ''staged_live''
       then checks [need_text ''in_edges'' i ''commit_sha'' row, need_text ''in_edges'' i ''staging_ref'' row]
       else need_text ''in_edges'' i ''damage_code'' row)])"

definition validateJoinManifest :: "gomap \<Rightarrow> contract_error check" where
  "validateJoinManifest parsed =
     (case mapList (mget parsed ''in_edges'') of
        None \<Rightarrow> Some (DocumentRule ''join_manifest'' ''in_edges'')
      | Some rows \<Rightarrow> checks
          [fail_if (rows = []) (DocumentRule ''join_manifest'' ''in_edges''), check_idx check_in_edge 0 rows])"

definition advisoryMinorityReportSeatVerdicts :: "string list" where
  "advisoryMinorityReportSeatVerdicts =
     [''accept'', ''accept_with_findings'', ''needs_revision'', ''reject'', ''abstain'']"

definition check_seat :: "string list \<Rightarrow> nat \<Rightarrow> gomap \<Rightarrow> contract_error check" where
  "check_seat seen i row = checks
     [row_unknown ''seats'' i [''workflow_job_id'', ''verdict'', ''rationale_excerpt''] row,
      need_text ''seats'' i ''workflow_job_id'' row,
      fail_if (stringValue (mget row ''workflow_job_id'') \<in> set seen) (RowRule ''seats'' i ''duplicate''),
      fail_if (\<not> oneOfValue advisoryMinorityReportSeatVerdicts (mget row ''verdict'')) (RowRule ''seats'' i ''verdict''),
      if_given ''seats'' i ''rationale_excerpt'' isStringValue row]"

fun check_seats :: "string list \<Rightarrow> nat \<Rightarrow> gomap list \<Rightarrow> contract_error check" where
  "check_seats seen i [] = None"
| "check_seats seen i (row # rows) =
     (case check_seat seen i row of Some err \<Rightarrow> Some err
      | None \<Rightarrow> check_seats (stringValue (mget row ''workflow_job_id'') # seen) (Suc i) rows)"

definition validateAdvisoryMinorityReport :: "gomap \<Rightarrow> contract_error check" where
  "validateAdvisoryMinorityReport parsed =
     (let guard = go_sprint (mget parsed ''guard_fired''); outcome = go_sprint (mget parsed ''advisory_outcome'') in
      case mapList (mget parsed ''seats'') of
        None \<Rightarrow> Some (DocumentRule ''advisory_minority_report'' ''seats'')
      | Some rows \<Rightarrow> checks
          [fail_if (rows = []) (DocumentRule ''advisory_minority_report'' ''seats''),
           check_seats [] 0 rows,
           fail_if (guard = ''none'' \<and> outcome \<noteq> ''advisory_noted'')
             (DocumentRule ''advisory_minority_report'' ''advisory_outcome''),
           fail_if (guard \<noteq> ''none'' \<and> outcome \<noteq> ''must_escalate'')
             (DocumentRule ''advisory_minority_report'' ''advisory_outcome'')])"

definition int_or_zero :: "goval \<Rightarrow> int" where
  "int_or_zero v = (case intValue_ok v of None \<Rightarrow> 0 | Some i \<Rightarrow> i)"

definition validateAutoFinalizeGateEvidence :: "gomap \<Rightarrow> contract_error check" where
  "validateAutoFinalizeGateEvidence parsed =
     (let rule = DocumentRule ''auto_finalize_gate_evidence'' in
      if go_sprint (mget parsed ''gate_status'') \<noteq> ''satisfied'' then None
      else checks
        [fail_if (int_or_zero (mget parsed ''live_success_count'') < 3) (rule ''live_success_count''),
         fail_if (int_or_zero (mget parsed ''lane_shape_count'') < 2) (rule ''lane_shape_count''),
         fail_if (case mget parsed ''lane_shapes'' of VStrs ss \<Rightarrow> length ss < 2 | _ \<Rightarrow> True) (rule ''lane_shapes''),
         fail_if (int_or_zero (mget parsed ''contested_audit_chain_events'') \<noteq> 0)
           (rule ''contested_audit_chain_events'')])"

definition validateKindSpecific :: "string \<Rightarrow> gomap \<Rightarrow> string \<Rightarrow> contract_error check" where
  "validateKindSpecific kind parsed payload =
     (if kind = ''operator_brief'' then validateOperatorBrief parsed payload
      else if kind = ''pr_request'' then
        fail_if (mget parsed ''related_commit_request'' = VNil \<and> mget parsed ''local_commit_sha'' = VNil)
          (DocumentRule ''pr_request'' ''related_commit_request'')
      else if kind = ''auto_finalize_gate_evidence'' then validateAutoFinalizeGateEvidence parsed
      else if kind = ''join_manifest'' then validateJoinManifest parsed
      else if kind = ''claim_ledger'' then validateClaimLedger parsed
      else if kind = ''advisory_minority_report'' then validateAdvisoryMinorityReport parsed
      else if kind = ''collaboration_ledger'' then validateCollaborationLedger parsed
      else if kind = ''finding'' \<or> kind = ''findings_ledger'' then
        with_ok (ParseConstraintDischarge (mget parsed ''constraint_discharge'')) (\<lambda>_. None)
      else None)"

section \<open>Validation of a document\<close>

definition check_field :: "string \<Rightarrow> gomap \<Rightarrow> string \<times> bool \<times> (goval \<Rightarrow> bool) \<Rightarrow> contract_error check" where
  "check_field kind parsed f =
     (case f of (name, required, ok) \<Rightarrow>
        if mhas parsed name then fail_if (\<not> ok (mget parsed name)) (InvalidField kind name)
        else fail_if required (MissingRequiredField kind name))"

definition extra_fields :: "schema \<Rightarrow> gomap \<Rightarrow> string list" where
  "extra_fields sch parsed =
     sort_strings (filter (\<lambda>name. name \<notin> set (map fst sch) \<and> name \<notin> set StandardOptionalMetadata) (map fst parsed))"

definition validate_parsed :: "string \<Rightarrow> schema \<Rightarrow> gomap \<Rightarrow> string \<Rightarrow> contract_error check" where
  "validate_parsed kind sch parsed payload = checks
     [check_each (check_field kind parsed) sch,
      fail_if (extra_fields sch parsed \<noteq> []) (UnknownFields kind (extra_fields sch parsed)),
      validateKindSpecific kind parsed payload]"

text \<open>The YAML parser is the argument \<open>unmarshal\<close>.\<close>

definition ValidateFrontMatter ::
  "(string \<Rightarrow> string + ynode) \<Rightarrow> string \<Rightarrow> string \<Rightarrow> string \<Rightarrow> contract_error check" where
  "ValidateFrontMatter unmarshal kind path payload =
     (case map_of Schemas kind of None \<Rightarrow> None
      | Some sch \<Rightarrow>
          if \<not> IsMarkdownPath path then None
          else (case FrontMatterBlock payload of
              None \<Rightarrow> fail_if (kind = ''collaboration_ledger'') (FrontMatterRequired kind)
            | Some block \<Rightarrow>
                (case ParseFrontMatterBlock unmarshal block of
                   Inl err \<Rightarrow> Some (FrontMatterYaml err)
                 | Inr parsed \<Rightarrow> validate_parsed kind sch parsed payload)))"

definition ParseAndValidateFrontMatter ::
  "(string \<Rightarrow> string + ynode) \<Rightarrow> string \<Rightarrow> string \<Rightarrow> string \<Rightarrow> contract_error + gomap" where
  "ParseAndValidateFrontMatter unmarshal kind path payload =
     (if \<not> IsMarkdownPath path then Inl (NotMarkdown kind)
      else (case FrontMatterBlock payload of
          None \<Rightarrow> Inl (FrontMatterRequired kind)
        | Some block \<Rightarrow>
            (case ParseFrontMatterBlock unmarshal block of
               Inl err \<Rightarrow> Inl (FrontMatterYaml err)
             | Inr parsed \<Rightarrow>
                 (case ValidateFrontMatter unmarshal kind path payload of
                    Some err \<Rightarrow> Inl err | None \<Rightarrow> Inr parsed))))"

definition synthesis_header :: string where
  "synthesis_header =
     ''---'' @ [CHR 0x0A] @ ''schema_version: '' @ [CHR 0x22] @ ''striatum.synthesis.v1'' @ [CHR 0x22, CHR 0x0A] @
     ''artifact_kind: '' @ [CHR 0x22] @ ''synthesis'' @ [CHR 0x22, CHR 0x0A] @ ''---'' @ [CHR 0x0A, CHR 0x0A]"

definition EnsureRequiredFrontMatter :: "string \<Rightarrow> string \<Rightarrow> string \<Rightarrow> string" where
  "EnsureRequiredFrontMatter kind path payload =
     (if kind \<noteq> ''synthesis'' \<or> \<not> IsMarkdownPath path then payload
      else if prefix (''---'' @ [CHR 0x0A]) payload \<or> prefix (''---'' @ [CHR 0x0D, CHR 0x0A]) payload then payload
      else synthesis_header @ payload)"

section \<open>Skeletons\<close>

text \<open>
  The block a rejection shows: required fields, then the optional ones, each with an example value and a
  comment.
\<close>

definition enumFieldValues :: "(string \<times> (string \<times> string list) list) list" where
  "enumFieldValues =
     [(''collaboration_ledger'', [(''verdict'', [''accept'', ''accept_with_findings'', ''needs_revision'',
        ''reject'']), (''shape'', [''falsification_gate'', ''cross_examination'', ''fog_of_war_review'',
           ''synaptic_prune'', ''adjudicated_constraint_extraction'']), (''adjudication_mode'',
              [''single'', ''second_on_disagreement''])]),
      (''finding'', [(''verdict_intent'', [''accept'', ''accept_with_findings'', ''needs_revision'',
         ''reject'']), (''severity'', [''info'', ''low'', ''medium'', ''high'', ''critical''])]),
      (''decision'', [(''outcome'', [''accepted'', ''rejected'', ''accepted_with_follow_up''])]),
      (''commit_request'', [(''confirmation_status'', [''pending'', ''operator_confirmed'',
         ''human_confirmed'', ''refused''])]),
      (''pr_request'', [(''confirmation_status'', [''pending'', ''human_confirmed'', ''refused''])]),
      (''harness_improvement_proposal'', [(''target'', [''prompt'', ''workflow'', ''spec'', ''defaults'',
         ''documentation''])]),
      (''escalation'', [(''severity'', [''info'', ''low'', ''medium'', ''high'', ''critical'']),
         (''blocker_kind'', [''ambiguous_goal'', ''missing_authority'', ''contradicting_decisions'',
            ''no_available_reviewer_lane'', ''committee_stalemate'', ''override_required''])]),
      (''operator_brief'', [(''retrieval_priority'', [''high'', ''medium'', ''low'']), (''status'',
         [''current'', ''superseded''])]),
      (''work_plan'', [(''scope_kind'', [''rfc'', ''phase'', ''initiative'', ''bugfix'']), (''state'',
         [''open'', ''planned'', ''in_progress'', ''closed'']), (''retrieval_priority'', [''high'',
            ''medium'', ''low''])]),
      (''progress_note'', [(''retrieval_priority'', [''high'', ''medium'', ''low''])]),
      (''operator_report'', [(''retrieval_priority'', [''high'', ''medium'', ''low''])]),
      (''auto_finalize_gate_evidence'', [(''gate_status'', [''pending'', ''satisfied''])]),
      (''join_manifest'', [(''entity_kind'', [''job'', ''review_seat'', ''review_obligation'', ''run''])]),
      (''advisory_minority_report'', [(''guard_fired'', [''advisory_corroborated_abstention'',
         ''unanimous_advisory_reject'', ''advisory_only_panel_ungrounded'', ''none'']),
            (''advisory_outcome'', [''must_escalate'', ''advisory_noted''])])]"

definition skeletonShapeHints :: "(string \<times> string \<times> string) list" where
  "skeletonShapeHints =
     [(''tags'', ''[]'', ''list of strings''),
      (''constraint_discharge'', ''[]'', ''list of objects''),
      (''inputs'', ''[]'', ''list of upstream artifact refs''),
      (''entries'', ''[]'', ''non-empty list of objects''),
      (''claims'', ''[]'', ''non-empty list of {id, status, text, bound_input_digest?, receipt_ref?,
         evidence_digest?}''),
      (''argv'', ''[]'', ''non-empty list of argv tokens''),
      (''ledger_seal'', ''0'', ''non-negative integer; monotonic append-only seal''),
      (''exit_code'', ''0'', ''non-negative integer''),
      (''summary_count'', ''0'', ''non-negative integer''),
      (''claim_count'', ''0'', ''non-negative integer''),
      (''total_items'', ''0'', ''non-negative integer''),
      (''revision_round'', ''0'', ''non-negative integer''),
      (''follow_up_required'', ''false'', ''boolean''),
      (''created_at'', CHR 0x22 # ''2026-01-01T00:00:00Z'' @ [CHR 0x22], ''RFC3339 timestamp'')]"

definition SchemaKeyNames :: "string \<Rightarrow> (string list \<times> string list) option" where
  "SchemaKeyNames kind =
     map_option (\<lambda>sch. (sort_strings (map fst (filter (\<lambda>(_, required, _). required) sch)),
        sort_strings (map fst (filter (\<lambda>(_, required, _). \<not> required) sch)))) (map_of Schemas kind)"

definition orderSkeletonFields :: "string list \<Rightarrow> string list" where
  "orderSkeletonFields names =
     filter (\<lambda>h. h \<in> set names) [''schema_version'', ''artifact_kind''] @
     filter (\<lambda>n. n \<noteq> ''schema_version'' \<and> n \<noteq> ''artifact_kind'') names"

definition enum_values :: "string \<Rightarrow> string \<Rightarrow> string list" where
  "enum_values kind name =
     (case map_of enumFieldValues kind of None \<Rightarrow> []
      | Some fs \<Rightarrow> (case map_of fs name of None \<Rightarrow> [] | Some values \<Rightarrow> values))"

definition skeletonValue :: "string \<Rightarrow> string \<Rightarrow> string \<times> string" where
  "skeletonValue kind name =
     (if name = ''schema_version'' then (''striatum.'' @ kind @ ''.v1'', [])
      else if name = ''artifact_kind'' then (kind, [])
      else (case enum_values kind name of
          v # vs \<Rightarrow> (v, ''one of: '' @ join '', '' (v # vs))
        | [] \<Rightarrow> (case map_of skeletonShapeHints name of
              Some hint \<Rightarrow> hint
            | None \<Rightarrow> (CHR 0x22 # ''<value>'' @ [CHR 0x22], []))))"

definition skeletonLine :: "string \<Rightarrow> string \<Rightarrow> bool \<Rightarrow> string" where
  "skeletonLine kind name optional =
     (let (value, comment) = skeletonValue kind name;
          note = (if \<not> optional then comment else if comment = [] then ''optional'' else ''optional; '' @ comment) in
      name @ '': '' @ value @ (if note = [] then [] else ''   # '' @ note) @ [CHR 0x0A])"

definition Skeleton :: "string \<Rightarrow> string option" where
  "Skeleton kind =
     map_option (\<lambda>(req, opt).
       ''---'' @ [CHR 0x0A] @
       concat (map (\<lambda>n. skeletonLine kind n False) (orderSkeletonFields req)) @
       concat (map (\<lambda>n. skeletonLine kind n True) (orderSkeletonFields opt)) @ ''---'') (SchemaKeyNames kind)"

text \<open>The required fields of a skeleton with the values a parser reads their examples as.\<close>

definition skeleton_fields :: "(string \<Rightarrow> goval) \<Rightarrow> string \<Rightarrow> gomap" where
  "skeleton_fields read kind =
     (case SchemaKeyNames kind of None \<Rightarrow> []
      | Some (req, opt) \<Rightarrow> map (\<lambda>n. (n, read (fst (skeletonValue kind n)))) (orderSkeletonFields req))"

end
