(* ===== verification/WriteScope.thy ===== *)
theory WriteScope
  imports GoStrings WorkHandlers WorkflowGraphLaws
begin

text \<open>
  The guard of write scopes (\<open>go/pkg/mutations/write_scope_guard.go\<close>): before a job completes,
  every path that git reports as dirty must be one the attempt may have written. The output of
  \<open>git status\<close>, the digests of files and the active worktree of a job are inputs; the reading of the
  output, the paths that belong to siblings and the attribution of the rest are the code.
\<close>

section \<open>Paths of a scope\<close>

definition normalizeScopePath :: "string \<Rightarrow> string option" where
  "normalizeScopePath path =
     (let p = trim_space path in
      if p = [] \<or> p = ''.'' \<or> p = ''./'' then Some ''.''
      else if prefix ''/'' p \<or> contains_str p ''../'' \<or> p = ''..'' then None
      else (let clean = trim_prefix ''./'' (filepath_clean p) in
        if clean = ''.'' \<or> clean = [] then Some ''.''
        else if prefix ''../'' clean \<or> clean = ''..'' \<or> prefix ''/'' clean then None
        else Some (trim_suffix ''/'' clean)))"

definition dedupeStrings :: "string list \<Rightarrow> string list" where
  "dedupeStrings items = remdups_adj (sort_strings items)"

definition normalizedScopeMatchers :: "string list \<Rightarrow> string list" where
  "normalizedScopeMatchers paths = dedupeStrings (List.map_filter normalizeScopePath paths)"

definition pathMatchesAny :: "string \<Rightarrow> string list \<Rightarrow> bool" where
  "pathMatchesAny path matchers \<longleftrightarrow>
     list_ex (\<lambda>m. m = ''.'' \<or> path = m \<or> prefix (m @ ''/'') path) matchers"

fun stringListFromAny :: "goval \<Rightarrow> string list" where
  "stringListFromAny (VList vs) = List.map_filter as_str vs"
| "stringListFromAny (VStrs ss) = ss"
| "stringListFromAny _ = []"

definition isRepoWriteScope :: "gomap \<Rightarrow> bool" where
  "isRepoWriteScope scope \<longleftrightarrow>
     mget scope ''repo_write'' = VBool True \<or> go_sprint (mget scope ''mode'') = ''repo_write''"

section \<open>The output of git status\<close>

text \<open>
  \<open>git status --porcelain=v1 -z\<close>: records separated by NUL bytes, a two-byte status, a space and the
  path; the record of a rename or a copy is followed by its source.
\<close>

record git_entry =
  ge_path :: string
  ge_untracked :: bool

definition renamed :: "string \<Rightarrow> bool" where
  "renamed status \<longleftrightarrow> CHR ''R'' \<in> set status \<or> CHR ''C'' \<in> set status"

fun parse_records :: "string list \<Rightarrow> git_entry list" where
  "parse_records [] = []"
| "parse_records (r # rs) =
     (if length r < 4 then parse_records rs
      else \<lparr>ge_path = drop 3 r, ge_untracked = (take 2 r = ''??'')\<rparr> #
        (if renamed (take 2 r)
         then (case rs of [] \<Rightarrow> []
               | s # rs' \<Rightarrow> if s \<noteq> [] then \<lparr>ge_path = s, ge_untracked = False\<rparr> # parse_records rs'
                            else parse_records rs)
         else parse_records rs))"

text \<open>The first entry of each run of entries with one path.\<close>

fun dedupeGitPorcelainEntries :: "git_entry list \<Rightarrow> git_entry list" where
  "dedupeGitPorcelainEntries [] = []"
| "dedupeGitPorcelainEntries [e] = [e]"
| "dedupeGitPorcelainEntries (e # f # es) =
     (if ge_path e = ge_path f then dedupeGitPorcelainEntries (e # es)
      else e # dedupeGitPorcelainEntries (f # es))"

text \<open>Entries with the same path keep their order, as the sort of up to twelve entries does.\<close>

definition parseGitPorcelainStatusZ :: "string \<Rightarrow> git_entry list" where
  "parseGitPorcelainStatusZ output =
     dedupeGitPorcelainEntries (sort_key ge_path (parse_records (split_on (CHR 0x00) output)))"

section \<open>The checkout\<close>

text \<open>
  A checkout: what \<open>git status\<close> prints (\<open>None\<close> when it fails or times out) and the digest of a
  path: the empty string for a missing file, \<open>dir\<close> for a directory, \<open>None\<close> for a read error.
\<close>

record checkout =
  co_status :: "string option"
  co_hash :: "string \<Rightarrow> string option"

record path_snapshot =
  sn_path :: string
  sn_hash :: string
  sn_untracked :: bool

datatype scope_error =
    ScopeNoRows
  | ScopeWorktree string         \<comment> \<open>the worktree of the job cannot be used\<close>
  | ScopeCheckFailed             \<comment> \<open>\<open>invalid_transition\<close>\<close>
  | ScopeDrift "string list"     \<comment> \<open>\<open>write_scope_drift\<close>, with the violations\<close>

fun hash_entries :: "(string \<Rightarrow> string option) \<Rightarrow> git_entry list \<Rightarrow> path_snapshot list option" where
  "hash_entries h [] = Some []"
| "hash_entries h (e # es) =
     (case h (ge_path e) of None \<Rightarrow> None
      | Some d \<Rightarrow> map_option (\<lambda>ss. \<lparr>sn_path = ge_path e, sn_hash = d, sn_untracked = ge_untracked e\<rparr> # ss)
                    (hash_entries h es))"

definition gitChangedPathSnapshots :: "checkout \<Rightarrow> path_snapshot list option" where
  "gitChangedPathSnapshots c =
     (case co_status c of None \<Rightarrow> None
      | Some out \<Rightarrow> hash_entries (co_hash c) (parseGitPorcelainStatusZ out))"

section \<open>Attribution\<close>

definition scope_violation ::
  "(string \<rightharpoonup> string) \<Rightarrow> string list \<Rightarrow> string list \<Rightarrow> string list \<Rightarrow> path_snapshot \<Rightarrow> string option" where
  "scope_violation baseline allowedMatchers forbiddenMatchers ignored item =
     (case normalizeScopePath (sn_path item) of None \<Rightarrow> Some (sn_path item)
      | Some clean \<Rightarrow>
          if clean \<in> set ignored then None
          else if pathMatchesAny clean forbiddenMatchers then Some clean
          else if allowedMatchers = [] \<or> pathMatchesAny clean allowedMatchers then None
          else (case baseline (sn_path item) of None \<Rightarrow> Some clean
                | Some h \<Rightarrow> if \<not> sn_untracked item \<and> h \<noteq> sn_hash item then Some clean else None))"

definition writeScopeViolationsSinceBaseline ::
  "path_snapshot list \<Rightarrow> (string \<rightharpoonup> string) \<Rightarrow> string list \<Rightarrow> string list \<Rightarrow> string list \<Rightarrow> string list" where
  "writeScopeViolationsSinceBaseline current baseline allowed forbidden ignored =
     dedupeStrings (List.map_filter
       (scope_violation baseline (normalizedScopeMatchers allowed) (normalizedScopeMatchers forbidden) ignored)
       current)"

definition gitBaselineFromJob :: "goval \<Rightarrow> (string \<rightharpoonup> string)" where
  "gitBaselineFromJob baseline =
     fold (\<lambda>entry out. (let item = map_or_empty entry; path = stringValue (mget item ''path'') in
         if path \<noteq> [] then out(path \<mapsto> stringValue (mget item ''hash'')) else out))
       (asList (mget (map_or_empty baseline) ''changed_paths'')) Map.empty"

section \<open>Paths alone\<close>

text \<open>The attribution without a baseline, as the application of a commit request uses it.\<close>

definition parseGitPorcelainZ :: "string \<Rightarrow> string list" where
  "parseGitPorcelainZ output = map ge_path (parseGitPorcelainStatusZ output)"

definition path_violation :: "string list \<Rightarrow> string list \<Rightarrow> string list \<Rightarrow> string \<Rightarrow> string option" where
  "path_violation allowedMatchers forbiddenMatchers ignored path =
     (case normalizeScopePath path of None \<Rightarrow> Some path
      | Some clean \<Rightarrow>
          if clean \<in> set ignored then None
          else if pathMatchesAny clean forbiddenMatchers then Some clean
          else if allowedMatchers \<noteq> [] \<and> \<not> pathMatchesAny clean allowedMatchers then Some clean
          else None)"

definition writeScopeViolationsWithIgnored ::
  "string list \<Rightarrow> string list \<Rightarrow> string list \<Rightarrow> string list \<Rightarrow> string list" where
  "writeScopeViolationsWithIgnored paths allowed forbidden ignored =
     dedupeStrings (List.map_filter
       (path_violation (normalizedScopeMatchers allowed) (normalizedScopeMatchers forbidden) ignored) paths)"

definition writeScopeViolations :: "string list \<Rightarrow> string list \<Rightarrow> string list \<Rightarrow> string list" where
  "writeScopeViolations paths allowed forbidden = writeScopeViolationsWithIgnored paths allowed forbidden []"

section \<open>Paths of siblings\<close>

text \<open>
  The cycle segment in the path of an expected artifact (\<open>collaboration_ledger.go\<close>): a job that is
  opened again publishes under the number of its attempt.
\<close>

definition cycleSegmentForAttempt :: "int \<Rightarrow> string" where
  "cycleSegmentForAttempt attempt = ''cycle_'' @ show_int (if attempt < 1 then 1 else attempt)"

definition cyclePlaceholder :: string where
  "cyclePlaceholder = ''${cycle}''"

definition resolveCyclePlaceholders :: "string \<Rightarrow> int \<Rightarrow> string" where
  "resolveCyclePlaceholders value attempt =
     (if \<not> contains_str value cyclePlaceholder then value
      else replace_all cyclePlaceholder (cycleSegmentForAttempt attempt) value)"

definition resolve_artifact_cycle :: "int \<Rightarrow> goval \<Rightarrow> goval" where
  "resolve_artifact_cycle attempt item =
     (let artifact = map_or_empty item in
      if artifact = [] then item
      else VMap (map (\<lambda>(key, value).
        (key, if key = ''logical_name'' \<or> key = ''path''
              then (case value of VStr text \<Rightarrow> VStr (resolveCyclePlaceholders text attempt) | _ \<Rightarrow> value)
              else value)) artifact))"

definition resolveExpectedArtifactCycles :: "goval list \<Rightarrow> int \<Rightarrow> goval list" where
  "resolveExpectedArtifactCycles expected attempt = map (resolve_artifact_cycle attempt) expected"

definition jobAttemptValue :: "int \<Rightarrow> int" where
  "jobAttemptValue attempt = (if attempt > 0 then attempt else 1)"

text \<open>Rows of published artifacts, and of jobs with what they are expected to publish.\<close>

record artifact_row =
  ar_run :: string
  ar_job :: string
  ar_path :: string
  ar_sha :: string

record scope_job =
  sj_id :: string
  sj_run :: string
  sj_attempt :: int
  sj_scope :: gomap
  sj_expected :: goval
  sj_baseline :: goval
  sj_leased :: bool \<comment> \<open>holds an active lease\<close>

record scope_db =
  sd_artifacts :: "artifact_row list"
  sd_jobs :: "scope_job list"

text \<open>The published artifacts of siblings whose file still has the published digest.\<close>

fun published_ignored ::
  "(string \<Rightarrow> string option) \<Rightarrow> string list \<Rightarrow> artifact_row list \<Rightarrow> string list option" where
  "published_ignored h touched [] = Some []"
| "published_ignored h touched (row # rows) =
     (case normalizeScopePath (ar_path row) of
        None \<Rightarrow> published_ignored h touched rows
      | Some clean \<Rightarrow>
          if clean \<notin> set touched then published_ignored h touched rows
          else (case h clean of None \<Rightarrow> None
                | Some d \<Rightarrow> map_option (\<lambda>ps. if d \<noteq> [] \<and> d = ar_sha row then clean # ps else ps)
                    (published_ignored h touched rows)))"

definition sibling_declared :: "string list \<Rightarrow> scope_job \<Rightarrow> string list" where
  "sibling_declared touched row =
     filter (\<lambda>clean. clean \<in> set touched)
       (List.map_filter (\<lambda>item. normalizeScopePath (go_sprint (mget (map_or_empty item) ''path'')))
         (resolveExpectedArtifactCycles (asList (sj_expected row)) (jobAttemptValue (sj_attempt row))))"

definition publishedRunArtifactIgnoredPaths ::
  "(string \<Rightarrow> string option) \<Rightarrow> scope_db \<Rightarrow> scope_job \<Rightarrow> string list \<Rightarrow> string list option" where
  "publishedRunArtifactIgnoredPaths h db job paths =
     (let touched = List.map_filter normalizeScopePath paths in
      if touched = [] \<or> trim_space (sj_run job) = [] \<or> trim_space (sj_id job) = [] then Some []
      else map_option (\<lambda>ps. ps @ concat (map (sibling_declared touched)
             (filter (\<lambda>r. sj_run r = sj_run job \<and> sj_id r \<noteq> sj_id job \<and> sj_leased r) (sd_jobs db))))
         (published_ignored h touched
           (filter (\<lambda>r. ar_run r = sj_run job \<and> ar_job r \<noteq> sj_id job) (sd_artifacts db))))"

section \<open>The guard\<close>

text \<open>
  The worktree of the job: an error, or the isolated checkout it has. An isolated checkout was clean
  when the job was claimed; the registered one is compared with the snapshot taken at the claim.
\<close>

definition writeScopeCheckSource ::
  "scope_error + checkout option \<Rightarrow> checkout \<Rightarrow> scope_job \<Rightarrow> scope_error + checkout \<times> (string \<rightharpoonup> string)" where
  "writeScopeCheckSource worktree registered job =
     bind_ok worktree (\<lambda>w. case w of
        None \<Rightarrow> Inr (registered, gitBaselineFromJob (sj_baseline job))
      | Some target \<Rightarrow> Inr (target, Map.empty))"

definition enforceWriteScopeClean ::
  "scope_error + checkout option \<Rightarrow> checkout option \<Rightarrow> scope_db \<Rightarrow> scope_job \<Rightarrow> scope_error check" where
  "enforceWriteScopeClean worktree repository db job =
     (let scope = sj_scope job;
          allowed = stringListFromAny (mget scope ''allowed_paths'');
          forbidden = stringListFromAny (mget scope ''forbidden_paths'') in
      if \<not> isRepoWriteScope scope then None
      else if allowed = [] \<and> forbidden = [] then None
      else (case repository of None \<Rightarrow> Some ScopeNoRows
        | Some registered \<Rightarrow>
            with_ok (writeScopeCheckSource worktree registered job) (\<lambda>(source, baseline).
              case gitChangedPathSnapshots source of None \<Rightarrow> Some ScopeCheckFailed
              | Some current \<Rightarrow>
                  (case publishedRunArtifactIgnoredPaths (co_hash source) db job (map sn_path current) of
                     None \<Rightarrow> Some ScopeCheckFailed
                   | Some ignored \<Rightarrow>
                       (let violations = writeScopeViolationsSinceBaseline current baseline allowed forbidden ignored
                        in fail_if (violations \<noteq> []) (ScopeDrift violations))))))"

end
