(* ===== verification/GitCommit.thy ===== *)
theory GitCommit
  imports ArtifactContracts WriteScope
begin

text \<open>
  The application of a confirmed commit request (\<open>go/pkg/mutations/git_commit_apply.go\<close>): the reading of
  the request artifact, its confirmation, the paths it names, and the git commands the handler runs.
  Git is an argument that answers a command in a state of the repository; the commands a handler runs
  thread that state. The file of the request and the resolution of paths are inputs.
\<close>

section \<open>Errors and commands\<close>

text \<open>A refusal: the code and the field or the detail it names.\<close>

datatype commit_error = CommitError string string

datatype git_answer =
    GitOut string
  | GitFailed string  \<comment> \<open>a non-zero exit\<close>
  | GitTimeout

type_synonym 'w git = "string list \<Rightarrow> 'w \<Rightarrow> git_answer \<times> 'w"

type_synonym ('w, 'a) git_step = "'w \<Rightarrow> (commit_error + 'a) \<times> 'w"

definition step_ok :: "'a \<Rightarrow> ('w, 'a) git_step" where
  "step_ok x = (\<lambda>w. (Inr x, w))"

definition step_fail :: "commit_error \<Rightarrow> ('w, 'a) git_step" where
  "step_fail e = (\<lambda>w. (Inl e, w))"

definition step_bind :: "('w, 'a) git_step \<Rightarrow> ('a \<Rightarrow> ('w, 'b) git_step) \<Rightarrow> ('w, 'b) git_step" where
  "step_bind m k = (\<lambda>w. case m w of (Inl e, w') \<Rightarrow> (Inl e, w') | (Inr x, w') \<Rightarrow> k x w')"

definition step_lift :: "commit_error + 'a \<Rightarrow> ('w, 'a) git_step" where
  "step_lift r = (\<lambda>w. (r, w))"

definition step_guard :: "bool \<Rightarrow> commit_error \<Rightarrow> ('w, 'a) git_step \<Rightarrow> ('w, 'a) git_step" where
  "step_guard b e m = (if b then m else step_fail e)"

definition validateGitCommitArgs :: "string list \<Rightarrow> bool" where
  "validateGitCommitArgs args \<longleftrightarrow>
     (case args of [] \<Rightarrow> False | sub # _ \<Rightarrow> sub \<in> {''rev-parse'', ''status'', ''add'', ''commit''})"

definition git_apply_failed :: commit_error where
  "git_apply_failed = CommitError ''git_commit_apply_failed'' []"

text \<open>
  A command is checked before it is run, in the root of the repository; a commit runs with an empty
  directory in place of the hooks. A command that is not allowed fails like one that timed out.
\<close>

record localCommitGit =
  lg_root :: string
  lg_hooks :: string

definition full_args :: "localCommitGit \<Rightarrow> string list \<Rightarrow> string list" where
  "full_args g args =
     [''-C'', lg_root g] @ (if args \<noteq> [] \<and> hd args = ''commit'' then [''-c'', ''core.hooksPath='' @ lg_hooks g] else []) @ args"

definition git_command :: "'w git \<Rightarrow> localCommitGit \<Rightarrow> string list \<Rightarrow> 'w \<Rightarrow> git_answer \<times> 'w" where
  "git_command git g args w =
     (if validateGitCommitArgs args then git (full_args g args) w else (GitTimeout, w))"

definition git_output :: "'w git \<Rightarrow> localCommitGit \<Rightarrow> string list \<Rightarrow> ('w, string) git_step" where
  "git_output git g args = (\<lambda>w. case git_command git g args w of
     (GitOut out, w') \<Rightarrow> (Inr out, w') | (_, w') \<Rightarrow> (Inl git_apply_failed, w'))"

text \<open>A failing \<open>rev-parse\<close> means that the directory is no repository; only a time-out is an error.\<close>

definition gitCommitIsRepository :: "'w git \<Rightarrow> localCommitGit \<Rightarrow> ('w, bool) git_step" where
  "gitCommitIsRepository git g = (\<lambda>w. case git_command git g [''rev-parse'', ''--is-inside-work-tree''] w of
     (GitOut out, w') \<Rightarrow> (Inr (trim_space out = ''true''), w')
   | (GitFailed _, w') \<Rightarrow> (Inr False, w')
   | (GitTimeout, w') \<Rightarrow> (Inl git_apply_failed, w'))"

definition gitCommitHead :: "'w git \<Rightarrow> localCommitGit \<Rightarrow> ('w, string) git_step" where
  "gitCommitHead git g =
     step_bind (git_output git g [''rev-parse'', ''--verify'', ''HEAD^{commit}'']) (\<lambda>out. step_ok (trim_space out))"

definition gitCommitBranch :: "'w git \<Rightarrow> localCommitGit \<Rightarrow> ('w, string) git_step" where
  "gitCommitBranch git g =
     step_bind (git_output git g [''rev-parse'', ''--abbrev-ref'', ''HEAD'']) (\<lambda>out. step_ok (trim_space out))"

definition gitCommitChangedPaths :: "'w git \<Rightarrow> localCommitGit \<Rightarrow> ('w, string list) git_step" where
  "gitCommitChangedPaths git g =
     step_bind (git_output git g [''status'', ''--porcelain=v1'', ''-z'', ''--untracked-files=all''])
       (\<lambda>out. step_ok (parseGitPorcelainZ out))"

section \<open>The request\<close>

record commitRequest =
  cr_id :: string
  cr_base :: string
  cr_branch :: string
  cr_snapshot :: string
  cr_included :: "string list"
  cr_reviewed :: "string list"
  cr_message :: string
  cr_status :: string
  cr_by :: string
  cr_at :: string

definition scalarField :: "gomap \<Rightarrow> string \<Rightarrow> string" where
  "scalarField m key = trim_space (stringValue (mget m key))"

definition listField :: "gomap \<Rightarrow> string \<Rightarrow> string list" where
  "listField m key = stringListFromAny (mget m key)"

definition hex_digit :: "char \<Rightarrow> bool" where
  "hex_digit c \<longleftrightarrow> c \<in> set ''0123456789abcdefABCDEF''"

definition isFullGitSHA :: "string \<Rightarrow> bool" where
  "isFullGitSHA v \<longleftrightarrow> length v = 40 \<and> list_all hex_digit v"

definition request_of :: "gomap \<Rightarrow> commitRequest" where
  "request_of m =
     \<lparr>cr_id = scalarField m ''request_id'', cr_base = scalarField m ''base_head'',
      cr_branch = scalarField m ''branch'', cr_snapshot = scalarField m ''git_snapshot_hash'',
      cr_included = listField m ''included_paths'', cr_reviewed = listField m ''reviewed_artifacts'',
      cr_message = scalarField m ''commit_message'', cr_status = scalarField m ''confirmation_status'',
      cr_by = scalarField m ''confirmed_by'', cr_at = scalarField m ''confirmed_at''\<rparr>"

definition invalid_request :: "string \<Rightarrow> commit_error" where
  "invalid_request field = CommitError ''schema_invalid'' field"

definition check_request :: "commitRequest \<Rightarrow> commit_error check" where
  "check_request r = checks
     [check_each (\<lambda>(field, v). fail_if (trim_space v = []) (invalid_request field))
        [(''request_id'', cr_id r), (''base_head'', cr_base r), (''branch'', cr_branch r),
         (''git_snapshot_hash'', cr_snapshot r), (''commit_message'', cr_message r), (''confirmation_status'', cr_status r)],
      fail_if (\<not> isFullGitSHA (cr_base r)) (invalid_request ''base_head''),
      fail_if (cr_included r = []) (invalid_request ''included_paths''),
      fail_if (CHR 0x00 \<in> set (cr_message r)) (invalid_request ''commit_message''),
      fail_if (length (cr_message r) > 1000) (invalid_request ''commit_message'')]"

definition parseCommitRequestArtifact ::
  "(string \<Rightarrow> string + ynode) \<Rightarrow> string \<Rightarrow> commit_error + commitRequest" where
  "parseCommitRequestArtifact yaml payload =
     (case ParseAndValidateFrontMatter yaml ''commit_request'' ''COMMIT_REQUEST.md'' payload of
        Inl err \<Rightarrow> Inl (invalid_request ''front_matter'')
      | Inr m \<Rightarrow>
          (case check_request (request_of m) of Some err \<Rightarrow> Inl err | None \<Rightarrow> Inr (request_of m)))"

definition validateCommitRequestConfirmation :: "commitRequest \<Rightarrow> commit_error check" where
  "validateCommitRequestConfirmation r = checks
     [fail_if (cr_status r \<noteq> ''operator_confirmed'' \<and> cr_status r \<noteq> ''human_confirmed'')
        (CommitError ''confirmation_required'' ''confirmation_status''),
      fail_if (trim_space (cr_by r) = []) (CommitError ''confirmation_required'' ''confirmed_by'')]"

section \<open>Included paths\<close>

text \<open>
  What the handler reads with: the root of the repository, a fresh directory without hooks, whether git is
  installed, the file of a resolved path, the resolution
  of a repository path, and the path of a resolved one relative to the root.
\<close>

record commit_env =
  ce_root :: "commit_error + string"
  ce_hooks :: "commit_error + string"
  ce_git :: bool
  ce_yaml :: "string \<Rightarrow> string + ynode"
  ce_resolve :: "string \<Rightarrow> string option"
  ce_relative :: "string \<Rightarrow> commit_error + string"
  ce_file :: "string \<Rightarrow> string option"

fun normalize_included :: "commit_env \<Rightarrow> string list \<Rightarrow> string list \<Rightarrow> commit_error + string list" where
  "normalize_included env seen [] = Inr (rev seen)"
| "normalize_included env seen (p # ps) =
     (let path = trim_space p in
      if path = [] then Inl (invalid_request ''included_paths'')
      else (case ce_resolve env path of
          None \<Rightarrow> Inl (invalid_request ''included_paths'')
        | Some target \<Rightarrow> bind_ok (ce_relative env target) (\<lambda>rel.
            if rel = ''.'' \<or> rel = [] then Inl (invalid_request ''included_paths'')
            else normalize_included env (if rel \<in> set seen then seen else rel # seen) ps)))"

definition normalizeCommitIncludedPaths :: "commit_env \<Rightarrow> string list \<Rightarrow> commit_error + string list" where
  "normalizeCommitIncludedPaths env paths = normalize_included env [] paths"

section \<open>The handler\<close>

fun integerParam :: "goval \<Rightarrow> int option" where
  "integerParam (VInt i) = Some i"
| "integerParam (VInt32 i) = Some i"
| "integerParam (VInt64 i) = Some i"
| "integerParam (VFloat f) = (if float_eq_int f (float_trunc f) then Some (float_trunc f) else None)"
| "integerParam (VNumber s) = parse_int64 s"
| "integerParam _ = None"

definition validateGitCommitApplySchema :: "gomap \<Rightarrow> commit_error check" where
  "validateGitCommitApplySchema params =
     fail_if (mget params ''schema_version'' \<noteq> VNil \<and> integerParam (mget params ''schema_version'') \<noteq> Some 1)
       (invalid_request ''schema_version'')"

definition commitSubject :: "string \<Rightarrow> string" where
  "commitSubject message =
     take 240 (hd (split_on (CHR 0x0A) (trim_space (replace_all [CHR 0x0D, CHR 0x0A] [CHR 0x0A] message))))"

text \<open>What is asked before git runs: the request, confirmed and named by the caller, and its paths.\<close>

definition commit_request :: "commit_env \<Rightarrow> gomap \<Rightarrow> commit_error + string \<times> commitRequest \<times> string list" where
  "commit_request env params =
     (let path = trim_space (stringValue (mget params ''commit_request_path''));
          confirm_id = trim_space (stringValue (mget params ''confirm_request_id'')) in
      case validateGitCommitApplySchema params of Some err \<Rightarrow> Inl err | None \<Rightarrow>
      guard_ok (mget params ''confirm'' = VBool True) (CommitError ''confirmation_required'' ''confirm'') (
      guard_ok (path \<noteq> []) (invalid_request ''commit_request_path'') (
      bind_ok (ce_root env) (\<lambda>root.
      case ce_resolve env path of None \<Rightarrow> Inl (invalid_request ''commit_request_path'') | Some target \<Rightarrow>
      (case ce_file env target of None \<Rightarrow> Inl (CommitError ''commit_request_not_found'' path) | Some payload \<Rightarrow>
      bind_ok (parseCommitRequestArtifact (ce_yaml env) payload) (\<lambda>request.
      guard_ok (confirm_id \<noteq> [] \<and> confirm_id = cr_id request)
        (CommitError ''confirmation_required'' ''confirm_request_id'') (
      case validateCommitRequestConfirmation request of Some err \<Rightarrow> Inl err | None \<Rightarrow>
      bind_ok (normalizeCommitIncludedPaths env (cr_included request)) (\<lambda>included.
        Inr (root, request, included)))))))))"

record commit_applied =
  ca_request :: commitRequest
  ca_included :: "string list"
  ca_sha :: string
  ca_short :: string
  ca_subject :: string

definition add_args :: "string list \<Rightarrow> string list" where
  "add_args included = [''add'', ''--''] @ included"

definition commit_args :: "commitRequest \<Rightarrow> string list \<Rightarrow> string list" where
  "commit_args request included = [''commit'', ''--no-gpg-sign'', ''-m'', cr_message request, ''--''] @ included"

definition same_head :: "string \<Rightarrow> string \<Rightarrow> bool" where
  "same_head a b \<longleftrightarrow> to_lower a = to_lower b"

definition run_commit :: "'w git \<Rightarrow> localCommitGit \<Rightarrow> commitRequest \<Rightarrow> string list \<Rightarrow> string \<Rightarrow> ('w, commit_applied) git_step" where
  "run_commit git g request included currentHead =
     step_bind (git_output git g (add_args included)) (\<lambda>_.
     step_bind (git_output git g (commit_args request included)) (\<lambda>_.
     step_bind (gitCommitHead git g) (\<lambda>sha.
     step_guard (sha \<noteq> currentHead) (CommitError ''invalid_transition'' ''no new commit'') (
     step_bind (git_output git g [''rev-parse'', ''--short=12'', ''HEAD'']) (\<lambda>short.
       step_ok \<lparr>ca_request = request, ca_included = included, ca_sha = sha, ca_short = trim_space short,
                ca_subject = commitSubject (cr_message request)\<rparr>)))))"

definition HandleGitCommitApply :: "'w git \<Rightarrow> commit_env \<Rightarrow> gomap \<Rightarrow> ('w, commit_applied) git_step" where
  "HandleGitCommitApply git env params =
     step_bind (step_lift (commit_request env params)) (\<lambda>(root, request, included).
     step_guard (ce_git env) (CommitError ''git_unavailable'' []) (
     step_bind (step_lift (ce_hooks env)) (\<lambda>hooks. (let g = \<lparr>lg_root = root, lg_hooks = hooks\<rparr> in
     step_bind (gitCommitIsRepository git g) (\<lambda>isRepo.
     step_guard isRepo (CommitError ''invalid_transition'' ''not a work tree'') (
     step_bind (gitCommitHead git g) (\<lambda>currentHead.
     step_guard (same_head currentHead (cr_base request)) (CommitError ''base_head_mismatch'' currentHead) (
     step_bind (gitCommitBranch git g) (\<lambda>branch.
     step_guard (branch \<noteq> ''HEAD'' \<and> branch \<noteq> []) (CommitError ''invalid_transition'' ''detached HEAD'') (
     step_guard (branch = cr_branch request) (CommitError ''branch_mismatch'' branch) (
     step_bind (gitCommitChangedPaths git g) (\<lambda>changed.
     step_guard (writeScopeViolations changed included [] = [])
       (CommitError ''dirty_tree_outside_commit_request'' (join '', '' (writeScopeViolations changed included []))) (
     run_commit git g request included currentHead)))))))))))))"

end
