(* ===== verification/WriteScopeLaws.thy ===== *)
theory WriteScopeLaws
  imports WriteScope WorkflowValidate
begin

text \<open>
  What the guard of write scopes decides: containment of paths by their components, the attribution
  of dirty paths, the reading of what git prints, and the disjointness of parallel writers, for which
  it meets the validation of workflows.
\<close>

section \<open>Normal forms\<close>

text \<open>The components of a normalised path; the root has none.\<close>

definition scope_parts :: "string \<Rightarrow> string list" where
  "scope_parts q = (if q = ''.'' then [] else split_on CHR ''/'' q)"

lemma proper_join:
  assumes "ws \<noteq> []" and "list_all proper_part ws"
  shows "split_on CHR ''/'' (join ''/'' ws) = ws" "join ''/'' ws \<noteq> []" "last (join ''/'' ws) \<noteq> CHR ''/''"
    "join ''/'' ws \<noteq> ''.''" "join ''/'' ws \<noteq> ''..''"
    "\<not> prefix ''/'' (join ''/'' ws)" "\<not> prefix ''./'' (join ''/'' ws)" "\<not> prefix ''../'' (join ''/'' ws)"
proof -
  have p: "\<forall>w \<in> set ws. w \<noteq> [] \<and> CHR ''/'' \<notin> set w"
    using assms(2) by (auto simp: list_all_iff proper_part_def)
  show split: "split_on CHR ''/'' (join ''/'' ws) = ws" using assms(1) p by (intro split_join) auto
  from last_join_parts [OF assms(1) p]
  show "join ''/'' ws \<noteq> []" "last (join ''/'' ws) \<noteq> CHR ''/''" by simp_all
  have no: "hd ws \<noteq> u" if "u = [] \<or> u = ''.'' \<or> u = ''..''" for u
    using assms that by (cases ws) (auto simp: proper_part_def)
  show "join ''/'' ws \<noteq> ''.''"
  proof
    assume "join ''/'' ws = ''.''"
    with split have "ws = [''.'']" by simp
    with no [of "''.''"] show False by simp
  qed
  show "join ''/'' ws \<noteq> ''..''"
  proof
    assume "join ''/'' ws = ''..''"
    with split have "ws = [''..'']" by simp
    with no [of "''..''"] show False by simp
  qed
  have pre: "\<not> prefix (u @ ''/'') (join ''/'' ws)" if "u = [] \<or> u = ''.'' \<or> u = ''..''" for u
  proof
    assume "prefix (u @ ''/'') (join ''/'' ws)"
    then obtain t where "join ''/'' ws = u @ CHR ''/'' # t" by (auto simp: prefix_def)
    moreover have "CHR ''/'' \<notin> set u" using that by auto
    ultimately have "ws = u # split_on CHR ''/'' t" using split by (simp add: split_on_append)
    with no [OF that] show False by simp
  qed
  from pre [of "[]"] pre [of "''.''"] pre [of "''..''"]
  show "\<not> prefix ''/'' (join ''/'' ws)" "\<not> prefix ''./'' (join ''/'' ws)" "\<not> prefix ''../'' (join ''/'' ws)"
    by simp_all
qed

lemma normalize_of_clean:
  assumes "normalizeScopePath p = Some q"
  shows "q = ''.'' \<or> (\<exists>ws. ws \<noteq> [] \<and> list_all proper_part ws \<and> q = join ''/'' ws)"
proof -
  define c where "c = filepath_clean (trim_space p)"
  show ?thesis
  proof (cases "q = ''.''")
    case False
    then have nr: "trim_space p \<noteq> []" "\<not> prefix ''/'' (trim_space p)"
      and q: "\<not> prefix ''../'' (trim_prefix ''./'' c)" "trim_prefix ''./'' c \<noteq> ''..''"
        "trim_prefix ''./'' c \<noteq> ''.''" "q = trim_suffix ''/'' (trim_prefix ''./'' c)"
      using assms by (auto simp: normalizeScopePath_def Let_def c_def split: if_splits)
    obtain n us where us: "clean_parts False [] (split_on CHR ''/'' (trim_space p)) = replicate n ''..'' @ us"
      "list_all proper_part us" using clean_parts_split by blast
    have c: "c = (if replicate n ''..'' @ us = [] then ''.'' else join ''/'' (replicate n ''..'' @ us))"
      using nr us(1) by (simp add: c_def filepath_clean_def)
    have "n = 0"
    proof (rule ccontr)
      assume "n \<noteq> 0"
      then obtain m where "n = Suc m" by (cases n) auto
      then have "c = ''..'' \<or> prefix ''../'' c" using c by (cases "replicate m ''..'' @ us") (auto simp: join_Cons)
      moreover have "trim_prefix ''./'' c = c" using calculation by (auto simp: trim_prefix_def prefix_def)
      ultimately show False using q(1,2) by auto
    qed
    with c have c': "c = (if us = [] then ''.'' else join ''/'' us)" by simp
    have "us \<noteq> []" using c' q(3) by (auto simp: trim_prefix_def)
    note j = proper_join [OF this us(2)]
    have "trim_prefix ''./'' c = join ''/'' us" using c' j(7) \<open>us \<noteq> []\<close> by (simp add: trim_prefix_none)
    moreover have "trim_suffix ''/'' (join ''/'' us) = join ''/'' us"
      using j(3) by (intro trim_suffix_none) auto
    ultimately show ?thesis using q(4) \<open>us \<noteq> []\<close> us(2) by auto
  qed simp
qed

lemma normalized_parts:
  assumes "normalizeScopePath p = Some q"
  shows "list_all proper_part (scope_parts q)"
    and "q = (if scope_parts q = [] then ''.'' else join ''/'' (scope_parts q))"
  using normalize_of_clean [OF assms] proper_join(1,4) by (auto simp: scope_parts_def)

text \<open>On normalised paths the test on strings is containment by components.\<close>

lemma scope_match_iff:
  assumes "normalizeScopePath p = Some q" and "normalizeScopePath a = Some m"
  shows "m = ''.'' \<or> q = m \<or> prefix (m @ ''/'') q \<longleftrightarrow> prefix (scope_parts m) (scope_parts q)"
proof (cases "m = ''.''")
  case True
  then show ?thesis by (simp add: scope_parts_def)
next
  case False
  have m: "m = join ''/'' (scope_parts m)" "scope_parts m \<noteq> []"
    using normalized_parts(2) [OF assms(2)] False by (auto split: if_splits)
  have pm: "\<forall>w \<in> set (scope_parts m). w \<noteq> [] \<and> CHR ''/'' \<notin> set w"
    and pq: "\<forall>w \<in> set (scope_parts q). w \<noteq> [] \<and> CHR ''/'' \<notin> set w"
    using normalized_parts(1) assms by (auto simp: list_all_iff proper_part_def)
  show ?thesis
  proof (cases "q = ''.''")
    case True
    have "\<not> prefix (m @ ''/'') ''.''" using m(2) proper_join(2) [OF m(2)] normalized_parts(1) [OF assms(2)] m(1)
      by (cases m) auto
    with True False m(2) show ?thesis by (simp add: scope_parts_def)
  next
    case q: False
    then have "q = join ''/'' (scope_parts q)"
      using normalized_parts(2) [OF assms(1)] by (auto split: if_splits)
    with join_prefix_iff [OF m(2) pm pq] m(1) False show ?thesis by simp
  qed
qed

text \<open>A path lies under an entry of a scope; an entry that has no normal form covers nothing.\<close>

definition under :: "string \<Rightarrow> string \<Rightarrow> bool" where
  "under q a \<longleftrightarrow>
     (case normalizeScopePath a of None \<Rightarrow> False | Some m \<Rightarrow> prefix (scope_parts m) (scope_parts q))"

lemma matchers_set [simp]: "set (normalizedScopeMatchers as) = {m. \<exists>a \<in> set as. normalizeScopePath a = Some m}"
  by (auto simp: normalizedScopeMatchers_def dedupeStrings_def)

lemma dedupeStrings_Nil: "dedupeStrings xs = [] \<longleftrightarrow> xs = []"
  unfolding dedupeStrings_def remdups_adj_Nil_iff by (metis set_empty set_sort)

lemma map_filter_Nil: "List.map_filter f xs = [] \<longleftrightarrow> (\<forall>x \<in> set xs. f x = None)"
  by (induction xs) (auto simp: map_filter_simps split: option.splits)

lemma matchers_Nil: "normalizedScopeMatchers as = [] \<longleftrightarrow> (\<forall>a \<in> set as. normalizeScopePath a = None)"
  by (simp only: normalizedScopeMatchers_def dedupeStrings_Nil map_filter_Nil)

lemma matches_under:
  assumes "normalizeScopePath p = Some q"
  shows "pathMatchesAny q (normalizedScopeMatchers as) \<longleftrightarrow> (\<exists>a \<in> set as. under q a)"
proof -
  have "pathMatchesAny q (normalizedScopeMatchers as) \<longleftrightarrow>
      (\<exists>a \<in> set as. \<exists>m. normalizeScopePath a = Some m \<and> (m = ''.'' \<or> q = m \<or> prefix (m @ ''/'') q))"
    unfolding pathMatchesAny_def list_ex_iff matchers_set by blast
  also have "\<dots> \<longleftrightarrow> (\<exists>a \<in> set as. under q a)"
    by (intro bex_cong refl) (auto simp: under_def scope_match_iff [OF assms] split: option.splits)
  finally show ?thesis .
qed

section \<open>Attribution\<close>

text \<open>What the attempt may leave dirty at a path with normal form \<open>q\<close>.\<close>

definition permitted ::
  "(string \<rightharpoonup> string) \<Rightarrow> string list \<Rightarrow> string list \<Rightarrow> path_snapshot \<Rightarrow> string \<Rightarrow> bool" where
  "permitted baseline allowed forbidden item q \<longleftrightarrow>
     \<not> (\<exists>f \<in> set forbidden. under q f) \<and>
     ((\<exists>a \<in> set allowed. under q a) \<or> (\<forall>a \<in> set allowed. normalizeScopePath a = None) \<or>
      (\<exists>h. baseline (sn_path item) = Some h \<and> (sn_untracked item \<or> h = sn_hash item)))"

lemma scope_violation_None:
  "scope_violation baseline (normalizedScopeMatchers allowed) (normalizedScopeMatchers forbidden) ignored item = None \<longleftrightarrow>
   (\<exists>q. normalizeScopePath (sn_path item) = Some q \<and> (q \<in> set ignored \<or> permitted baseline allowed forbidden item q))"
proof (cases "normalizeScopePath (sn_path item)")
  case None
  then show ?thesis by (simp add: scope_violation_def)
next
  case (Some q)
  then show ?thesis
    by (auto simp: scope_violation_def permitted_def matches_under [OF Some] matchers_Nil split: option.splits)
qed

lemma violations_Nil:
  "writeScopeViolationsSinceBaseline current baseline allowed forbidden ignored = [] \<longleftrightarrow>
   (\<forall>item \<in> set current. \<exists>q. normalizeScopePath (sn_path item) = Some q \<and>
      (q \<in> set ignored \<or> permitted baseline allowed forbidden item q))"
  by (simp only: writeScopeViolationsSinceBaseline_def dedupeStrings_Nil map_filter_Nil scope_violation_None)

lemma enforce_clean:
  assumes "isRepoWriteScope (sj_scope job)"
    and "stringListFromAny (mget (sj_scope job) ''allowed_paths'') = allowed"
    and "stringListFromAny (mget (sj_scope job) ''forbidden_paths'') = forbidden"
    and "allowed \<noteq> [] \<or> forbidden \<noteq> []"
    and "writeScopeCheckSource worktree registered job = Inr (source, baseline)"
    and "gitChangedPathSnapshots source = Some current"
    and "publishedRunArtifactIgnoredPaths (co_hash source) db job (map sn_path current) = Some ignored"
  shows "enforceWriteScopeClean worktree (Some registered) db job = None \<longleftrightarrow>
    (\<forall>item \<in> set current. \<exists>q. normalizeScopePath (sn_path item) = Some q \<and>
      (q \<in> set ignored \<or> permitted baseline allowed forbidden item q))"
  using assms by (auto simp: enforceWriteScopeClean_def Let_def violations_Nil)

section \<open>Validated scopes\<close>

text \<open>
  An entry of a scope that both the validator and the guard read as the same directory: no space
  around it and no component that ends in two dots.
\<close>

definition plain_entry :: "string \<Rightarrow> bool" where
  "plain_entry a \<longleftrightarrow> trim_space a = a \<and> \<not> contains_str a ''../'' \<and> normalizeRepoPath a \<noteq> []"

lemma valid_no_dotdot: "\<not> repoPathInvalid a \<Longrightarrow> ''..'' \<notin> set (split_on CHR ''/'' a)"
  by (auto simp: repoPathInvalid_def list_ex_iff)

lemma plain_normal:
  assumes "\<not> repoPathInvalid a" and "plain_entry a"
  shows "\<exists>m. normalizeScopePath a = Some m \<and> scope_parts m = path_parts a"
proof -
  have ne: "path_parts a \<noteq> []" using assms(2) by (simp add: plain_entry_def)
  have dots: "path_parts ''.'' = []" "path_parts ''./'' = []" by code_simp+
  have a: "a \<noteq> []" "a \<noteq> ''.''" "a \<noteq> ''./''" "\<not> prefix ''/'' a" "a \<noteq> ''..''"
    using assms(1) ne dots by (auto simp: repoPathInvalid_def)
  have proper: "list_all proper_part (path_parts a)"
    using path_parts_ok [of _ a] valid_no_dotdot [OF assms(1)]
    by (auto simp: list_all_iff proper_part_def path_parts_def)
  have "clean_parts False [] (split_on CHR ''/'' a) = path_parts a"
    using clean_parts_plain [OF valid_no_dotdot [OF assms(1)]] by (simp add: path_parts_def)
  then have c: "filepath_clean a = join ''/'' (path_parts a)"
    using a ne by (simp add: filepath_clean_def)
  note j = proper_join [OF ne proper]
  have "trim_suffix ''/'' (join ''/'' (path_parts a)) = join ''/'' (path_parts a)"
    using j(3) by (intro trim_suffix_none) auto
  then have "normalizeScopePath a = Some (join ''/'' (path_parts a))"
    using a j assms(2) by (simp add: normalizeScopePath_def Let_def c trim_prefix_none plain_entry_def)
  with j(1,4) show ?thesis by (auto simp: scope_parts_def)
qed

lemma normalized_path_parts:
  assumes "normalizeScopePath p = Some q"
  shows "path_parts q = scope_parts q"
proof (cases "q = ''.''")
  case True
  have "path_parts ''.'' = []" by code_simp
  with True show ?thesis by (simp add: scope_parts_def)
next
  case False
  have "filter (\<lambda>part. \<not> (part = [] \<or> part = ''.'')) (scope_parts q) = scope_parts q"
    using normalized_parts(1) [OF assms] by (auto simp: filter_id_conv list_all_iff proper_part_def)
  with False show ?thesis by (simp add: scope_parts_def path_parts_def)
qed

lemma under_within:
  assumes "normalizeScopePath p = Some q" and "\<not> repoPathInvalid a" and "plain_entry a"
  shows "under q a \<longleftrightarrow> repoPathWithin q a"
  using plain_normal [OF assms(2,3)] normalized_path_parts [OF assms(1)]
  by (auto simp: under_def repoPathWithin_iff)

lemma stringListFromAny_eq: "stringListFromAny v = stringsFromSlice v"
proof (cases v)
  case (VMaps ms)
  have "List.map_filter as_str (map VMap ms) = []" by (simp add: map_filter_Nil)
  with VMaps show ?thesis by simp
qed (simp_all add: map_filter_simps)

lemma validated_entry:
  assumes "Validate workflow = None" and "j \<in> set (workflow_jobs workflow)" and "repo_write j"
    and "p \<in> set (allowed_paths (job_scope j))"
  shows "\<not> repoPathInvalid p"
proof -
  have scope: "mget j ''write_scope'' = VMap (job_scope j)"
    using assms(3) by (cases "mget j ''write_scope''") (auto simp: repo_write_def job_scope_def map_or_empty_def mget_def [of "[]"])
  from assms(1,2) obtain roles lanes i where "check_job roles lanes (mhas workflow ''repositories'') i (job_id j) j = None"
    by (meson Validate_parts)
  then have "validateJobPaths i (job_id j) j = None" by (auto simp: check_job_def with_ok_None Let_def)
  from job_paths_allowed(1) [OF this scope assms(4)] show ?thesis .
qed

text \<open>A path that the guard lets an attempt create lies in its scope, for a plain scope.\<close>

definition plain_scope :: "gomap \<Rightarrow> bool" where
  "plain_scope j \<longleftrightarrow> allowed_paths (job_scope j) \<noteq> [] \<and> list_all plain_entry (allowed_paths (job_scope j))"

lemma isolated_write_in_scope:
  assumes "Validate workflow = None" and "j \<in> set (workflow_jobs workflow)" and "repo_write j" and "plain_scope j"
    and "sj_scope row = job_scope j" and "enforceWriteScopeClean (Inr (Some target)) (Some registered) db row = None"
    and "gitChangedPathSnapshots target = Some current" and "x \<in> set current"
    and "normalizeScopePath (sn_path x) = Some q"
  shows "(\<exists>ignored. publishedRunArtifactIgnoredPaths (co_hash target) db row (map sn_path current) = Some ignored \<and> q \<in> set ignored) \<or>
    (\<exists>p \<in> set (allowed_paths (job_scope j)). normalizeRepoPath p \<noteq> [] \<and> repoPathWithin q p)"
proof -
  let ?allowed = "allowed_paths (job_scope j)" and ?forbidden = "stringListFromAny (mget (job_scope j) ''forbidden_paths'')"
  have rw: "isRepoWriteScope (sj_scope row)" using assms(3,5) by (simp add: repo_write_def isRepoWriteScope_def)
  have al: "stringListFromAny (mget (sj_scope row) ''allowed_paths'') = ?allowed"
    by (simp add: assms(5) allowed_paths_def stringListFromAny_eq)
  have ne: "?allowed \<noteq> [] \<or> ?forbidden \<noteq> []" using assms(4) by (simp add: plain_scope_def)
  have src: "writeScopeCheckSource (Inr (Some target)) registered row = Inr (target, Map.empty)"
    by (simp add: writeScopeCheckSource_def)
  obtain ignored where ig: "publishedRunArtifactIgnoredPaths (co_hash target) db row (map sn_path current) = Some ignored"
    using assms(6,7) rw al ne
    by (auto simp: enforceWriteScopeClean_def writeScopeCheckSource_def Let_def assms(5) split: option.splits)
  from enforce_clean [OF rw al _ ne src assms(7) ig] assms(5,6,8,9)
  have "q \<in> set ignored \<or> permitted Map.empty ?allowed ?forbidden x q" by fastforce
  moreover have "\<exists>a \<in> set ?allowed. normalizeScopePath a \<noteq> None"
    using assms(4) plain_normal validated_entry [OF assms(1-3)]
    by (cases ?allowed) (fastforce simp: plain_scope_def)+
  ultimately show ?thesis
    using ig assms(4) under_within [OF assms(9)] validated_entry [OF assms(1-3)]
    by (auto simp: permitted_def plain_scope_def list_all_iff plain_entry_def)
qed

section \<open>Reading git status\<close>

text \<open>A changed path as git prints it: the status, the path, and the source of a rename or a copy.\<close>

record git_line =
  gl_status :: string
  gl_path :: string
  gl_source :: "string option"

definition print_line :: "git_line \<Rightarrow> string" where
  "print_line l = gl_status l @ '' '' @ gl_path l @ [CHR 0x00] @
     (case gl_source l of None \<Rightarrow> [] | Some s \<Rightarrow> s @ [CHR 0x00])"

definition line_ok :: "git_line \<Rightarrow> bool" where
  "line_ok l \<longleftrightarrow> length (gl_status l) = 2 \<and> gl_path l \<noteq> [] \<and>
     CHR 0x00 \<notin> set (gl_status l) \<and> CHR 0x00 \<notin> set (gl_path l) \<and>
     (case gl_source l of None \<Rightarrow> \<not> renamed (gl_status l)
      | Some s \<Rightarrow> renamed (gl_status l) \<and> s \<noteq> [] \<and> CHR 0x00 \<notin> set s)"

definition line_entries :: "git_line \<Rightarrow> git_entry list" where
  "line_entries l = \<lparr>ge_path = gl_path l, ge_untracked = (gl_status l = ''??'')\<rparr> #
     (case gl_source l of None \<Rightarrow> [] | Some s \<Rightarrow> [\<lparr>ge_path = s, ge_untracked = False\<rparr>])"

lemma parse_line:
  assumes "line_ok l"
  shows "parse_records (split_on (CHR 0x00) (print_line l @ rest)) =
    line_entries l @ parse_records (split_on (CHR 0x00) rest)"
proof -
  obtain a b where ab: "gl_status l = [a, b]"
    using assms by (auto simp: line_ok_def length_Suc_conv numeral_2_eq_2)
  obtain c p where cp: "gl_path l = c # p" using assms by (cases "gl_path l") (auto simp: line_ok_def)
  let ?r = "a # b # CHR '' '' # c # p"
  have nul: "CHR 0x00 \<notin> set ?r" using assms ab cp by (auto simp: line_ok_def)
  show ?thesis
  proof (cases "gl_source l")
    case None
    then have "print_line l @ rest = ?r @ CHR 0x00 # rest" by (simp add: print_line_def ab cp)
    with None assms ab cp show ?thesis
      by (simp only: split_on_append [OF nul]) (simp add: line_ok_def line_entries_def)
  next
    case (Some s)
    then have p: "print_line l @ rest = ?r @ CHR 0x00 # s @ CHR 0x00 # rest" by (simp add: print_line_def ab cp)
    have "CHR 0x00 \<notin> set s" using assms Some by (simp add: line_ok_def)
    with Some assms ab cp show ?thesis
      unfolding p split_on_append [OF nul] by (simp add: split_on_append line_ok_def line_entries_def)
  qed
qed

lemma parse_lines:
  "list_all line_ok ls \<Longrightarrow>
   parse_records (split_on (CHR 0x00) (concat (map print_line ls))) = concat (map line_entries ls)"
  by (induction ls) (simp_all add: parse_line)

lemma dedupe_entries_paths: "map ge_path (dedupeGitPorcelainEntries es) = remdups_adj (map ge_path es)"
  by (induction es rule: dedupeGitPorcelainEntries.induct) simp_all

lemma dedupe_entries_id: "distinct (map ge_path es) \<Longrightarrow> dedupeGitPorcelainEntries es = es"
  by (induction es rule: dedupeGitPorcelainEntries.induct) simp_all

lemma sorted_remdups_adj_strict: "sorted (xs :: 'a :: linorder list) \<Longrightarrow> sorted_wrt (<) (remdups_adj xs)"
  by (induction xs rule: remdups_adj.induct) (auto simp: less_le)

section \<open>Properties\<close>



text \<open>C39: A scope that forbids nothing and whose allowed entries all contain a component that ends in two
  dots, such as \<open>build../out\<close>, passes the validation of workflows, and the guard drops all of its entries:
  the job may then complete with any path of the repository changed.\<close>

theorem unreadable_scope_allows_all:
  assumes "isRepoWriteScope (sj_scope job)"
    and "stringListFromAny (mget (sj_scope job) ''allowed_paths'') = allowed" and "allowed \<noteq> []"
    and "stringListFromAny (mget (sj_scope job) ''forbidden_paths'') = []"
    and "\<forall>a \<in> set allowed. \<exists>u v. a = u @ ''../'' @ v \<and> trim_space a = a \<and> \<not> prefix ''/'' a"
    and "writeScopeCheckSource worktree registered job = Inr (source, baseline)"
    and "gitChangedPathSnapshots source = Some current"
    and "publishedRunArtifactIgnoredPaths (co_hash source) db job (map sn_path current) = Some ignored"
    and "\<forall>item \<in> set current. normalizeScopePath (sn_path item) \<noteq> None"
  shows "enforceWriteScopeClean worktree (Some registered) db job = None"
proof -
  have "normalizeScopePath a = None" if "a \<in> set allowed" for a
  proof -
    from assms(5) that obtain u v where a: "a = u @ ''../'' @ v" "trim_space a = a" by blast
    then have "contains_str a ''../''" using contains_strI by blast
    moreover from this have "a \<noteq> []" "a \<noteq> ''.''" "a \<noteq> ''./''" by (auto simp: prefix_def)
    ultimately show ?thesis using a(2) by (simp add: normalizeScopePath_def Let_def)
  qed
  then show ?thesis
    using enforce_clean [OF assms(1,2,4) _ assms(6-8)] assms(3,9) by (fastforce simp: permitted_def)
qed

text \<open>C36: Reading back what \<open>git status --porcelain=v1 -z\<close> prints: every path and every source of a rename
  is found exactly once, in order, and, where no path is printed twice, with the right untracked mark.\<close>

theorem porcelain_roundtrip:
  assumes "list_all line_ok ls"
  shows "map ge_path (parseGitPorcelainStatusZ (concat (map print_line ls))) =
      sort (remdups (map ge_path (concat (map line_entries ls)))) \<and>
    (distinct (map ge_path (concat (map line_entries ls))) \<longrightarrow>
      set (parseGitPorcelainStatusZ (concat (map print_line ls))) = set (concat (map line_entries ls)))"
proof -
  let ?es = "concat (map line_entries ls)"
  have p: "parseGitPorcelainStatusZ (concat (map print_line ls)) = dedupeGitPorcelainEntries (sort_key ge_path ?es)"
    by (simp add: parseGitPorcelainStatusZ_def parse_lines [OF assms])
  have "sorted_wrt (<) (remdups_adj (map ge_path (sort_key ge_path ?es)))"
    by (intro sorted_remdups_adj_strict) simp
  moreover have "sorted_wrt (<) (sort (remdups (map ge_path ?es)))"
    by (simp add: strict_sorted_iff)
  ultimately have "remdups_adj (map ge_path (sort_key ge_path ?es)) = sort (remdups (map ge_path ?es))"
    by (intro strict_sorted_equal) auto
  moreover have "distinct (map ge_path ?es) \<Longrightarrow> distinct (map ge_path (sort_key ge_path ?es))"
    by (simp add: distinct_map)
  ultimately show ?thesis unfolding p by (simp add: dedupe_entries_paths dedupe_entries_id)
qed

section \<open>Witnesses\<close>

definition ex_scope_row :: "gomap \<Rightarrow> goval \<Rightarrow> scope_job" where
  "ex_scope_row scope baseline =
     \<lparr>sj_id = ''j1'', sj_run = ''r1'', sj_attempt = 1, sj_scope = scope, sj_expected = VNil, sj_baseline = baseline,
      sj_leased = True\<rparr>"

definition ex_scope_of :: "string \<Rightarrow> gomap" where
  "ex_scope_of p = [(''repo_write'', VBool True), (''allowed_paths'', VStrs [p])]"

definition ex_checkout :: "string \<Rightarrow> checkout" where
  "ex_checkout out = \<lparr>co_status = Some out, co_hash = (\<lambda>_. Some ''h'')\<rparr>"

definition ex_empty_db :: scope_db where
  "ex_empty_db = \<lparr>sd_artifacts = [], sd_jobs = []\<rparr>"

definition ex_git_lines :: "git_line list" where
  "ex_git_lines =
     [\<lparr>gl_status = ''R '', gl_path = ''src/b'', gl_source = Some ''src/a''\<rparr>,
      \<lparr>gl_status = ''??'', gl_path = ''notes'', gl_source = None\<rparr>]"

definition ex_output :: string where
  "ex_output = concat (map print_line ex_git_lines)"

definition ex_baseline :: goval where
  "ex_baseline = VMap [(''changed_paths'', VList [VMap [(''path'', VStr ''notes''), (''hash'', VStr ''old'')]])]"

definition ex_snapshots :: "path_snapshot list" where
  "ex_snapshots =
     [\<lparr>sn_path = ''notes'', sn_hash = ''h'', sn_untracked = True\<rparr>,
      \<lparr>sn_path = ''src/a'', sn_hash = ''h'', sn_untracked = False\<rparr>,
      \<lparr>sn_path = ''src/b'', sn_hash = ''h'', sn_untracked = False\<rparr>]"

lemma ex_current: "gitChangedPathSnapshots (ex_checkout ex_output) = Some ex_snapshots"
  by code_simp

lemma ex_not_ignored: "publishedRunArtifactIgnoredPaths h ex_empty_db (ex_scope_row scope baseline) paths = Some []"
  by (simp add: publishedRunArtifactIgnoredPaths_def ex_empty_db_def Let_def)


definition ex_docs :: gomap where "ex_docs = workflow_jobs ex_wf ! 1"


theorem unreadable_scope_allows_all_witness:
  "\<not> repoPathInvalid ''build../out'' \<and> \<not> writeScopePathHasGlob ''build../out'' \<and>
   enforceWriteScopeClean (Inr None) (Some (ex_checkout ''?? secret/key'')) ex_empty_db
     (ex_scope_row (ex_scope_of ''build../out'') VNil) = None"
proof -
  let ?row = "ex_scope_row (ex_scope_of ''build../out'') VNil" and ?c = "ex_checkout ''?? secret/key''"
  have s: "sj_scope ?row = ex_scope_of ''build../out''" by (simp add: ex_scope_row_def)
  have w: "isRepoWriteScope (ex_scope_of ''build../out'')"
    "stringListFromAny (mget (ex_scope_of ''build../out'') ''allowed_paths'') = [''build../out'']"
    "stringListFromAny (mget (ex_scope_of ''build../out'') ''forbidden_paths'') = []"
    "\<not> repoPathInvalid ''build../out''" "\<not> writeScopePathHasGlob ''build../out''" by code_simp+
  have e: "\<forall>a \<in> set [''build../out'']. \<exists>u v. a = u @ ''../'' @ v \<and> trim_space a = a \<and> \<not> prefix ''/'' a"
  proof -
    have "''build../out'' = ''build'' @ ''../'' @ ''out''" "trim_space ''build../out'' = ''build../out''"
      "\<not> prefix ''/'' ''build../out''" by code_simp+
    then show ?thesis by (metis list.set(1,2) insert_iff empty_iff)
  qed
  let ?s = "\<lparr>sn_path = ''secret/key'', sn_hash = ''h'', sn_untracked = True\<rparr>"
  have cur: "gitChangedPathSnapshots ?c = Some [?s]" and n: "normalizeScopePath ''secret/key'' \<noteq> None" by code_simp+
  have "writeScopeCheckSource (Inr None) ?c ?row = Inr (?c, gitBaselineFromJob VNil)"
    by (simp add: writeScopeCheckSource_def ex_scope_row_def)
  from unreadable_scope_allows_all [of ?row, unfolded s, OF w(1,2) _ w(3) e this cur ex_not_ignored] n w(4,5)
  show ?thesis by simp
qed

theorem porcelain_roundtrip_witness:
  "map ge_path (parseGitPorcelainStatusZ ex_output) = [''notes'', ''src/a'', ''src/b'']"
proof -
  have ok: "list_all line_ok ex_git_lines" by code_simp
  have "sort (remdups (map ge_path (concat (map line_entries ex_git_lines)))) = [''notes'', ''src/a'', ''src/b'']"
    by code_simp
  with conjunct1 [OF porcelain_roundtrip [OF ok]] show ?thesis unfolding ex_output_def by simp
qed

end
