(* ===== verification/GitCommitLaws.thy ===== *)
theory GitCommitLaws
  imports GitCommit WriteScopeLaws
begin

text \<open>
  What the application of a commit request does to the repository: the commands it runs, in which order,
  and what must have been asked and answered before one of them changes anything. The commands are
  observed by a git that keeps a log of them and of its answers.
\<close>

section \<open>The guard without a baseline\<close>

text \<open>Without a baseline the two forms of the attribution agree.\<close>

lemma violations_without_baseline:
  "writeScopeViolationsWithIgnored (map sn_path current) allowed forbidden ignored =
   writeScopeViolationsSinceBaseline current Map.empty allowed forbidden ignored"
proof -
  have "path_violation as fs ignored (sn_path item) = scope_violation Map.empty as fs ignored item" for as fs item
    by (auto simp: path_violation_def scope_violation_def split: option.splits)
  then have "List.map_filter (path_violation as fs ignored) (map sn_path current) =
      List.map_filter (scope_violation Map.empty as fs ignored) current" for as fs
    by (induction current) (simp_all add: map_filter_simps split: option.split)
  then show ?thesis
    by (simp only: writeScopeViolationsWithIgnored_def writeScopeViolationsSinceBaseline_def)
qed

lemma path_violations_Nil:
  "writeScopeViolations paths allowed [] = [] \<longleftrightarrow>
   (\<forall>p \<in> set paths. \<exists>q. normalizeScopePath p = Some q \<and>
      ((\<exists>a \<in> set allowed. under q a) \<or> (\<forall>a \<in> set allowed. normalizeScopePath a = None)))"
proof -
  define current where "current = map (\<lambda>p. \<lparr>sn_path = p, sn_hash = [], sn_untracked = False\<rparr>) paths"
  have "map sn_path current = paths" by (simp add: current_def comp_def)
  then have "writeScopeViolations paths allowed [] = writeScopeViolationsSinceBaseline current Map.empty allowed [] []"
    unfolding writeScopeViolations_def violations_without_baseline [symmetric] by simp
  then show ?thesis by (simp add: violations_Nil permitted_def current_def)
qed

section \<open>Steps and their log\<close>

type_synonym 'w logged = "'w \<times> (string list \<times> git_answer) list"

definition traced :: "'w git \<Rightarrow> 'w logged git" where
  "traced git args s = (case git args (fst s) of (a, w') \<Rightarrow> (a, (w', snd s @ [(args, a)])))"

text \<open>What holds of the result and the log of a step, whatever state git starts in.\<close>

definition ensures :: "('w logged, 'a) git_step \<Rightarrow> (commit_error + 'a \<Rightarrow> (string list \<times> git_answer) list \<Rightarrow> bool) \<Rightarrow>
    (string list \<times> git_answer) list \<Rightarrow> bool" where
  "ensures m Q log \<longleftrightarrow> (\<forall>w r w' log'. m (w, log) = (r, (w', log')) \<longrightarrow> Q r log')"

named_theorems step_intros

lemma ensures_bind:
  assumes "ensures m (\<lambda>r l. case r of Inl e \<Rightarrow> Q (Inl e) l | Inr x \<Rightarrow> ensures (k x) Q l) log"
  shows "ensures (step_bind m k) Q log"
  using assms by (fastforce simp: ensures_def step_bind_def split: prod.splits sum.splits)

lemma ensures_guard [step_intros]:
  assumes "\<not> b \<Longrightarrow> Q (Inl e) log" and "b \<Longrightarrow> ensures m Q log"
  shows "ensures (step_guard b e m) Q log"
  using assms by (simp add: ensures_def step_guard_def step_fail_def)

lemma ensures_ok [step_intros]: "Q (Inr x) log \<Longrightarrow> ensures (step_ok x) Q log"
  by (simp add: ensures_def step_ok_def)

lemma ensures_output:
  assumes "validateGitCommitArgs args"
    and "\<And>a. Q (Inl git_apply_failed) (log @ [(full_args g args, a)])"
    and "\<And>out. Q (Inr out) (log @ [(full_args g args, GitOut out)])"
  shows "ensures (git_output (traced git) g args) Q log"
  using assms
  by (auto simp: ensures_def git_output_def git_command_def traced_def split: prod.splits git_answer.splits)

lemma ensures_command [step_intros]:
  assumes "validateGitCommitArgs args"
    and "\<And>a. Q (Inl git_apply_failed) (log @ [(full_args g args, a)])"
    and "\<And>out. ensures (k out) Q (log @ [(full_args g args, GitOut out)])"
  shows "ensures (step_bind (git_output (traced git) g args) k) Q log"
  using assms by (auto intro!: ensures_bind ensures_output)

text \<open>The commands, in the order in which they are run.\<close>

abbreviation inside_args :: "string list" where
  "inside_args \<equiv> [''rev-parse'', ''--is-inside-work-tree'']"

abbreviation head_args :: "string list" where
  "head_args \<equiv> [''rev-parse'', ''--verify'', ''HEAD^{commit}'']"

abbreviation branch_args :: "string list" where
  "branch_args \<equiv> [''rev-parse'', ''--abbrev-ref'', ''HEAD'']"

abbreviation status_args :: "string list" where
  "status_args \<equiv> [''status'', ''--porcelain=v1'', ''-z'', ''--untracked-files=all'']"

abbreviation short_args :: "string list" where
  "short_args \<equiv> [''rev-parse'', ''--short=12'', ''HEAD'']"

lemma valid_args:
  "validateGitCommitArgs inside_args" "validateGitCommitArgs head_args" "validateGitCommitArgs branch_args"
  "validateGitCommitArgs status_args" "validateGitCommitArgs short_args"
  "validateGitCommitArgs (add_args included)" "validateGitCommitArgs (commit_args request included)"
  by (simp_all add: validateGitCommitArgs_def add_args_def commit_args_def)

lemma ensures_head [step_intros]:
  assumes "\<And>a. Q (Inl git_apply_failed) (log @ [(full_args g head_args, a)])"
    and "\<And>out. ensures (k (trim_space out)) Q (log @ [(full_args g head_args, GitOut out)])"
  shows "ensures (step_bind (gitCommitHead (traced git) g) k) Q log"
  unfolding gitCommitHead_def using assms by (intro ensures_bind ensures_command valid_args ensures_ok) simp_all

lemma ensures_branch [step_intros]:
  assumes "\<And>a. Q (Inl git_apply_failed) (log @ [(full_args g branch_args, a)])"
    and "\<And>out. ensures (k (trim_space out)) Q (log @ [(full_args g branch_args, GitOut out)])"
  shows "ensures (step_bind (gitCommitBranch (traced git) g) k) Q log"
  unfolding gitCommitBranch_def using assms by (intro ensures_bind ensures_command valid_args ensures_ok) simp_all

lemma ensures_changed [step_intros]:
  assumes "\<And>a. Q (Inl git_apply_failed) (log @ [(full_args g status_args, a)])"
    and "\<And>out. ensures (k (parseGitPorcelainZ out)) Q (log @ [(full_args g status_args, GitOut out)])"
  shows "ensures (step_bind (gitCommitChangedPaths (traced git) g) k) Q log"
  unfolding gitCommitChangedPaths_def using assms by (intro ensures_bind ensures_command valid_args ensures_ok) simp_all

lemma ensures_inside [step_intros]:
  assumes "\<And>a. Q (Inl git_apply_failed) (log @ [(full_args g inside_args, a)])"
    and "\<And>a b. ensures (k b) Q (log @ [(full_args g inside_args, a)])"
  shows "ensures (step_bind (gitCommitIsRepository (traced git) g) k) Q log"
  using assms
  by (intro ensures_bind)
    (auto simp: ensures_def gitCommitIsRepository_def git_command_def traced_def valid_args
      split: prod.splits git_answer.splits)

text \<open>The commands that only read, and those that follow.\<close>

definition reading :: "localCommitGit \<Rightarrow> string list list" where
  "reading g = map (full_args g) [inside_args, head_args, branch_args, status_args]"

definition writing :: "localCommitGit \<Rightarrow> commitRequest \<Rightarrow> string list \<Rightarrow> string list list" where
  "writing g request included =
     map (full_args g) [add_args included, commit_args request included, head_args, short_args]"

definition written ::
  "localCommitGit \<Rightarrow> commitRequest \<Rightarrow> string list \<Rightarrow> string \<Rightarrow> commit_error + commit_applied \<Rightarrow>
    (string list \<times> git_answer) list \<Rightarrow> bool" where
  "written g request included head r tail \<longleftrightarrow>
     prefix (map fst tail) (writing g request included) \<and>
     (\<forall>x. r = Inr x \<longrightarrow> map fst tail = writing g request included \<and> ca_sha x \<noteq> head \<and>
        ca_request x = request \<and> ca_included x = included)"

lemma run_commit_log:
  "ensures (run_commit (traced git) g request included head)
     (\<lambda>r log. \<exists>tail. log = before @ tail \<and> written g request included head r tail) before"
  unfolding run_commit_def
  by (intro step_intros valid_args) (simp_all add: written_def writing_def)

text \<open>What git answered before anything is written: the head, the branch and the changed paths fit the request.\<close>

definition git_answered ::
  "localCommitGit \<Rightarrow> commitRequest \<Rightarrow> string list \<Rightarrow> string \<Rightarrow> (string list \<times> git_answer) list \<Rightarrow> bool" where
  "git_answered g request included head log \<longleftrightarrow>
     (\<exists>inside out branch status. log =
        [(full_args g inside_args, inside), (full_args g head_args, GitOut out),
         (full_args g branch_args, GitOut branch), (full_args g status_args, GitOut status)] \<and>
      head = trim_space out \<and> same_head head (cr_base request) \<and> trim_space branch \<noteq> ''HEAD'' \<and>
      trim_space branch = cr_branch request \<and> writeScopeViolations (parseGitPorcelainZ status) included [] = [])"

text \<open>
  A run of the handler is refused before git runs, or stops while it only reads, or goes on to write
  after every answer fitted.
\<close>

definition commit_outcome ::
  "commit_env \<Rightarrow> gomap \<Rightarrow> commit_error + commit_applied \<Rightarrow> (string list \<times> git_answer) list \<Rightarrow> bool" where
  "commit_outcome env params r log \<longleftrightarrow>
     (\<exists>e. r = Inl e \<and> log = []) \<or>
     (\<exists>root request included hooks. commit_request env params = Inr (root, request, included) \<and>
        ce_hooks env = Inr hooks \<and>
        (let g = \<lparr>lg_root = root, lg_hooks = hooks\<rparr> in
         (\<exists>e. r = Inl e \<and> prefix (map fst log) (reading g)) \<or>
         (\<exists>head before tail. log = before @ tail \<and> git_answered g request included head before \<and>
            written g request included head r tail)))"

lemma step_lift_simps [simp]: "step_bind (step_lift (Inr x)) k = k x" "step_bind (step_lift (Inl e)) k = step_fail e"
  by (simp_all add: fun_eq_iff step_bind_def step_lift_def step_fail_def)

lemma ensures_weaken: "ensures m Q log \<Longrightarrow> (\<And>r l. Q r l \<Longrightarrow> R r l) \<Longrightarrow> ensures m R log"
  by (auto simp: ensures_def)

lemma handler_outcome: "ensures (HandleGitCommitApply (traced git) env params) (commit_outcome env params) []"
proof (cases "commit_request env params")
  case (Inl e)
  then show ?thesis by (simp add: HandleGitCommitApply_def ensures_def step_fail_def commit_outcome_def)
next
  case (Inr v)
  obtain root request included where v: "v = (root, request, included)" by (cases v) auto
  have idle: "commit_outcome env params (Inl e) []" for e by (simp add: commit_outcome_def)
  show ?thesis
  proof (cases "ce_hooks env")
    case (Inl e)
    then show ?thesis by (auto simp: HandleGitCommitApply_def Inr v step_guard_def ensures_def step_fail_def intro: idle)
  next
    case (Inr h)
    have stop: "commit_outcome env params (Inl e) l" if "prefix (map fst l) (reading \<lparr>lg_root = root, lg_hooks = h\<rparr>)" for e l
      using that \<open>commit_request env params = Inr v\<close> v Inr by (auto simp: commit_outcome_def Let_def)
    have go: "ensures (run_commit (traced git) g request included head) (commit_outcome env params) before"
      if "git_answered g request included head before" and "lg_root g = root" and "lg_hooks g = h" for g head before
      using that \<open>commit_request env params = Inr v\<close> v Inr
      by (intro ensures_weaken [OF run_commit_log]) (cases g; fastforce simp: commit_outcome_def Let_def)
    show ?thesis
      unfolding HandleGitCommitApply_def \<open>commit_request env params = Inr v\<close> v step_lift_simps prod.case Inr Let_def
      by (intro step_intros go stop idle) (auto simp: git_answered_def reading_def)
  qed
qed

lemma handler_run:
  "HandleGitCommitApply (traced git) env params (w, []) = (r, (w', log)) \<Longrightarrow> commit_outcome env params r log"
  using handler_outcome [of git env params] unfolding ensures_def by blast

lemma read_only: "prefix (map fst log) (reading g) \<Longrightarrow> (args, answer) \<in> set log \<Longrightarrow> args \<in> set (reading g)"
  by (drule set_mono_prefix) force

section \<open>Before git runs\<close>

lemma commit_request_confirmed:
  assumes "commit_request env params = Inr (root, request, included)"
  shows "mget params ''confirm'' = VBool True" "cr_id request \<noteq> []"
    "trim_space (stringValue (mget params ''confirm_request_id'')) = cr_id request"
    "cr_status request = ''operator_confirmed'' \<or> cr_status request = ''human_confirmed''"
    "trim_space (cr_by request) \<noteq> []" "ce_root env = Inr root"
    "normalizeCommitIncludedPaths env (cr_included request) = Inr included"
  using assms
  by (auto simp: commit_request_def Let_def check_simps validateCommitRequestConfirmation_def split: option.splits)

lemma written_args:
  assumes "git_answered g request included head before" and "written g request included head r tail"
    and "(args, answer) \<in> set (before @ tail)" and "args \<notin> set (reading g)"
  shows "args \<in> set (writing g request included)"
proof -
  have "args \<notin> fst ` set before" using assms(1,4) by (auto simp: git_answered_def reading_def)
  then have "args \<in> set (map fst tail)" using assms(3) by force
  with assms(2) set_mono_prefix show ?thesis unfolding written_def by blast
qed

text \<open>Included paths none of which has a normal form hold nothing back.\<close>

lemma unreadable_paths_commit:
  "\<forall>a \<in> set included. normalizeScopePath a = None \<Longrightarrow> \<forall>p \<in> set changed. normalizeScopePath p \<noteq> None \<Longrightarrow>
   writeScopeViolations changed included [] = []"
  by (auto simp: path_violations_Nil)

section \<open>Properties\<close>


text \<open>C17: A successful application runs eight commands, in this order: it looks at the repository, the head,
  the branch and the changes, adds and commits the included paths, the commit without hooks and with the
  message of the request, and reads the new head, which is another one. No command reaches a remote.\<close>

theorem commit_apply_commands:
  assumes "HandleGitCommitApply (traced git) env params (w, []) = (Inr x, (w', log))"
  shows "\<exists>root hooks head. ce_hooks env = Inr hooks \<and>
    map fst log =
      [[''-C'', root] @ inside_args, [''-C'', root] @ head_args, [''-C'', root] @ branch_args, [''-C'', root] @ status_args,
       [''-C'', root, ''add'', ''--''] @ ca_included x,
       [''-C'', root, ''-c'', ''core.hooksPath='' @ hooks, ''commit'', ''--no-gpg-sign'', ''-m'', cr_message (ca_request x), ''--'']
         @ ca_included x,
       [''-C'', root] @ head_args, [''-C'', root] @ short_args] \<and>
    ce_root env = Inr root \<and> normalizeCommitIncludedPaths env (cr_included (ca_request x)) = Inr (ca_included x) \<and>
    same_head head (cr_base (ca_request x)) \<and> ca_sha x \<noteq> head"
proof -
  have "commit_outcome env params (Inr x) log" by (rule handler_run [OF assms(1)])
  then obtain root request included hooks g head before tail where
      c: "commit_request env params = Inr (root, request, included)" and g: "g = \<lparr>lg_root = root, lg_hooks = hooks\<rparr>"
      and h: "ce_hooks env = Inr hooks" and l: "log = before @ tail" and a: "git_answered g request included head before"
      and t: "written g request included head (Inr x) tail"
    unfolding commit_outcome_def Let_def by blast
  have "map fst log = reading g @ writing g request included" "ca_request x = request" "ca_included x = included" "ca_sha x \<noteq> head"
    using a t unfolding l git_answered_def written_def reading_def by auto
  moreover have "same_head head (cr_base request)" using a by (auto simp: git_answered_def)
  ultimately show ?thesis using commit_request_confirmed(6,7) [OF c] h
    by (auto simp: reading_def writing_def full_args_def g add_args_def commit_args_def)
qed

section \<open>Witnesses\<close>

definition ex_head :: string where
  "ex_head = replicate 40 (CHR ''a'')"

definition ex_request_node :: ynode where
  "ex_request_node = YDocument [YMapping
     (map (\<lambda>(k, s). (k, YScalar (Inr (VStr s))))
       [(''schema_version'', ''striatum.commit_request.v1''), (''artifact_kind'', ''commit_request''),
        (''request_id'', ''r1''), (''base_head'', ex_head), (''branch'', ''main''), (''git_snapshot_hash'', ''s''),
        (''commit_message'', ''m''), (''rationale'', ''why''), (''confirmation_status'', ''human_confirmed''),
        (''confirmed_by'', ''me'')] @
      [(''included_paths'', YSequence [YScalar (Inr (VStr ''src''))])])]"

definition ex_commit_env :: commit_env where
  "ex_commit_env =
     \<lparr>ce_root = Inr ''/repo'', ce_hooks = Inr ''/tmp/hooks'', ce_git = True, ce_yaml = (\<lambda>_. Inr ex_request_node),
      ce_resolve = (\<lambda>p. Some (''/repo/'' @ p)), ce_relative = (\<lambda>p. Inr (drop 6 p)),
      ce_file = (\<lambda>_. Some (''---'' @ [CHR 0x0A] @ ''x'' @ [CHR 0x0A] @ ''---''))\<rparr>"

text \<open>A repository that is in its second state after a commit.\<close>

definition ex_commit_git :: "bool git" where
  "ex_commit_git args committed =
     (if list_ex (\<lambda>a. a = ''commit'') args then (GitOut [], True)
      else if list_ex (\<lambda>a. a = ''--is-inside-work-tree'') args then (GitOut ''true'', committed)
      else if list_ex (\<lambda>a. a = ''--verify'') args then (GitOut (if committed then ''b'' else ex_head), committed)
      else if list_ex (\<lambda>a. a = ''--abbrev-ref'') args then (GitOut ''main'', committed)
      else if list_ex (\<lambda>a. a = ''status'') args then (GitOut ('' M src/a'' @ [CHR 0x00]), committed)
      else (GitOut [], committed))"

definition ex_commit_params :: gomap where
  "ex_commit_params =
     [(''confirm'', VBool True), (''confirm_request_id'', VStr ''r1''), (''commit_request_path'', VStr ''request.md'')]"

lemma ex_commit_run:
  "case HandleGitCommitApply (traced ex_commit_git) ex_commit_env ex_commit_params (False, []) of
     (Inr x, (w, log)) \<Rightarrow> w \<and> ca_included x = [''src''] \<and>
       (case map fst log ! 5 of args \<Rightarrow> drop 4 args = [''commit'', ''--no-gpg-sign'', ''-m'', ''m'', ''--'', ''src'']) \<and> length log = 8
   | _ \<Rightarrow> False"
  by code_simp

lemma ex_commit_log:
  obtains x w log answer args where
    "HandleGitCommitApply (traced ex_commit_git) ex_commit_env ex_commit_params (False, []) = (Inr x, (w, log))"
    "ca_included x = [''src'']" "(args, answer) \<in> set log" "\<forall>g. args \<notin> set (reading g)"
proof -
  obtain r s where run: "HandleGitCommitApply (traced ex_commit_git) ex_commit_env ex_commit_params (False, []) = (r, s)"
    by (cases "HandleGitCommitApply (traced ex_commit_git) ex_commit_env ex_commit_params (False, [])")
  obtain w log where s: "s = (w, log)" by (cases s)
  from ex_commit_run obtain x where r: "r = Inr x" and i: "ca_included x = [''src'']" and l: "length log = 8"
    and d: "drop 4 (map fst log ! 5) = [''commit'', ''--no-gpg-sign'', ''-m'', ''m'', ''--'', ''src'']"
    unfolding run s by (cases r) auto
  have "(fst (log ! 5), snd (log ! 5)) \<in> set log" using l by simp
  moreover have "fst (log ! 5) \<notin> set (reading g)" for g
    using d l by (auto simp: reading_def full_args_def)
  ultimately show thesis using that run r s i by blast
qed


theorem commit_apply_commands_witness:
  "\<exists>(x :: commit_applied) root. normalizeCommitIncludedPaths ex_commit_env (cr_included (ca_request x)) = Inr [''src''] \<and>
     ce_root ex_commit_env = Inr root \<and> ca_included x = [''src'']"
proof -
  obtain x w log answer args where
    "HandleGitCommitApply (traced ex_commit_git) ex_commit_env ex_commit_params (False, []) = (Inr x, (w, log))"
    and i: "ca_included x = [''src'']" by (rule ex_commit_log)
  from commit_apply_commands [OF this(1)] obtain root where "ce_root ex_commit_env = Inr root"
    "normalizeCommitIncludedPaths ex_commit_env (cr_included (ca_request x)) = Inr (ca_included x)" by blast
  with i show ?thesis by (intro exI [of _ x] exI [of _ root]) simp
qed

end
