(* ===== verification/ArtifactGates.thy ===== *)
theory ArtifactGates
  imports ArtifactContracts WriteScope
begin

text \<open>
  The gates of a publication that read earlier artifacts (\<open>go/pkg/mutations/collaboration_ledger.go\<close>,
  \<open>claim_ledger.go\<close>): the verdict of a review agrees with its collaboration ledger, a final review
  discharges every binding constraint of the latest cleared ledger, and a claim ledger only moves on
  from the one before it. The parser, the resolution of a repository path and the files are inputs.
\<close>

section \<open>Published ledgers\<close>

record ledger_row =
  lr_kind :: string
  lr_path :: string
  lr_created :: int
  lr_id :: string

text \<open>
  What a gate reads with: the YAML parser, the resolution of a repository path (\<open>repoRelativePath\<close>,
  \<open>None\<close> when it is refused) and the files under the resolved paths.
\<close>

record reader =
  rd_yaml :: "string \<Rightarrow> string + ynode"
  rd_resolve :: "string \<Rightarrow> string option"
  rd_file :: "string \<Rightarrow> string option"

datatype publish_error =
    Refused contract_error
  | Undischarged "string list"
  | SealNotAdvanced int int
  | Promoted "string list"
  | LedgerPath
  | LedgerMissing
  | VerdictMismatch string string

text \<open>The front matter of a file as the gates read it: \<open>None\<close> when it is gone or cannot be read.\<close>

definition payload_fields :: "(string \<Rightarrow> string + ynode) \<Rightarrow> string \<Rightarrow> gomap option" where
  "payload_fields yaml payload =
     (case FrontMatterBlock payload of None \<Rightarrow> None
      | Some block \<Rightarrow> (case ParseFrontMatterBlock yaml block of Inl err \<Rightarrow> None | Inr m \<Rightarrow> Some m))"

definition file_fields :: "reader \<Rightarrow> string \<Rightarrow> gomap option" where
  "file_fields rd path =
     (case rd_resolve rd path of None \<Rightarrow> None
      | Some p \<Rightarrow> (case rd_file rd p of None \<Rightarrow> None | Some payload \<Rightarrow> payload_fields (rd_yaml rd) payload))"

definition newest_first :: "string \<Rightarrow> ledger_row list \<Rightarrow> ledger_row list" where
  "newest_first kind rows =
     rev (sort_key lr_created (sort_key lr_id (filter (\<lambda>r. lr_kind r = kind) rows)))"

section \<open>The verdict agrees with the ledger\<close>

definition required_ledger :: "goval \<Rightarrow> string option" where
  "required_ledger item =
     (let artifact = map_or_empty item; path = stringValue (mget artifact ''path'') in
      if mget artifact ''kind'' = VStr ''collaboration_ledger'' \<and> mget artifact ''required'' = VBool True \<and> path \<noteq> []
      then Some path else None)"

definition ledger_path :: "goval list \<Rightarrow> int \<Rightarrow> string option" where
  "ledger_path expected attempt =
     (case List.map_filter required_ledger (resolveExpectedArtifactCycles expected attempt) of
        [] \<Rightarrow> None | p # _ \<Rightarrow> Some p)"

definition enforceCollaborationLedgerVerdict ::
  "reader \<Rightarrow> goval list \<Rightarrow> int \<Rightarrow> string \<Rightarrow> publish_error check" where
  "enforceCollaborationLedgerVerdict rd expected attempt recorded =
     (case ledger_path expected attempt of None \<Rightarrow> None
      | Some path \<Rightarrow>
          (case rd_resolve rd path of None \<Rightarrow> Some LedgerPath
           | Some p \<Rightarrow>
               (case rd_file rd p of None \<Rightarrow> Some LedgerMissing
                | Some payload \<Rightarrow>
                    (case ParseAndValidateFrontMatter (rd_yaml rd) ''collaboration_ledger'' p payload of
                       Inl err \<Rightarrow> Some (Refused err)
                     | Inr m \<Rightarrow> fail_if (go_sprint (mget m ''verdict'') \<noteq> recorded)
                         (VerdictMismatch recorded (go_sprint (mget m ''verdict'')))))))"

section \<open>Discharge of binding constraints\<close>

definition cleared_extraction :: "gomap \<Rightarrow> bool" where
  "cleared_extraction parsed \<longleftrightarrow>
     go_sprint (mget parsed ''shape'') = ''adjudicated_constraint_extraction'' \<and>
     clearing_verdict (go_sprint (mget parsed ''verdict''))"

fun first_binding :: "reader \<Rightarrow> ledger_row list \<Rightarrow> binding_constraint list" where
  "first_binding rd [] = []"
| "first_binding rd (row # rows) =
     (case file_fields rd (lr_path row) of
        None \<Rightarrow> first_binding rd rows
      | Some parsed \<Rightarrow>
          if cleared_extraction parsed \<and> BindingConstraintsFromLedger parsed \<noteq> []
          then BindingConstraintsFromLedger parsed else first_binding rd rows)"

definition clearedACEBindingConstraints :: "reader \<Rightarrow> ledger_row list \<Rightarrow> binding_constraint list" where
  "clearedACEBindingConstraints rd rows = first_binding rd (newest_first ''collaboration_ledger'' rows)"

definition undischarged :: "discharge_row list \<Rightarrow> binding_constraint \<Rightarrow> string option" where
  "undischarged table c =
     (if \<not> bc_final_review c then None
      else (case map_of (rev (map (\<lambda>r. (dr_constraint r, dr_status r)) table)) (bc_id c) of
          None \<Rightarrow> Some (bc_id c @ '' (no discharge row)'')
        | Some status \<Rightarrow>
            if status = ''discharged'' \<or> status = ''accepted_risk'' then None
            else if status = ''partial'' then Some (bc_id c @ '' (partial, not accepted as risk)'')
            else Some (bc_id c @ '' ('' @ status @ '')'')))"

definition enforceConstraintDischarge ::
  "reader \<Rightarrow> ledger_row list \<Rightarrow> string \<Rightarrow> string \<Rightarrow> publish_error check" where
  "enforceConstraintDischarge rd rows kind payload =
     (if kind \<noteq> ''finding'' \<and> kind \<noteq> ''findings_ledger'' then None
      else (case payload_fields (rd_yaml rd) payload of
          None \<Rightarrow> None
        | Some m \<Rightarrow>
            if mget m ''constraint_discharge'' = VNil then None
            else (case ParseConstraintDischarge (mget m ''constraint_discharge'') of
                Inl err \<Rightarrow> Some (Refused err)
              | Inr table \<Rightarrow>
                  (let missing = List.map_filter (undischarged table) (clearedACEBindingConstraints rd rows)
                   in fail_if (missing \<noteq> []) (Undischarged (sort_strings missing))))))"

section \<open>The claim ledger moves on\<close>

definition sameResolvedPath :: "string \<Rightarrow> string \<Rightarrow> bool" where
  "sameResolvedPath a b \<longleftrightarrow> filepath_clean a = filepath_clean b"

fun first_prior :: "reader \<Rightarrow> string \<Rightarrow> ledger_row list \<Rightarrow> (claim list \<times> int) option" where
  "first_prior rd current [] = None"
| "first_prior rd current (row # rows) =
     (case rd_resolve rd (lr_path row) of
        None \<Rightarrow> first_prior rd current rows
      | Some p \<Rightarrow>
          if sameResolvedPath p current then first_prior rd current rows
          else (case file_fields rd (lr_path row) of
              None \<Rightarrow> first_prior rd current rows
            | Some parsed \<Rightarrow>
                (case LedgerSeal parsed of None \<Rightarrow> first_prior rd current rows
                 | Some s \<Rightarrow> Some (ClaimsFromFrontMatter parsed, s))))"

definition latestPriorClaimLedger :: "reader \<Rightarrow> ledger_row list \<Rightarrow> string \<Rightarrow> (claim list \<times> int) option" where
  "latestPriorClaimLedger rd rows current = first_prior rd current (newest_first ''claim_ledger'' rows)"

definition promoted_claim :: "claim list \<Rightarrow> claim \<Rightarrow> string option" where
  "promoted_claim prior c =
     (case map_of (rev (map (\<lambda>p. (cl_id p, EffectiveClaimStatus p)) prior)) (cl_id c) of
        None \<Rightarrow> None
      | Some status \<Rightarrow>
          if claimStatusRank (EffectiveClaimStatus c) > claimStatusRank status
          then Some (cl_id c @ '' ('' @ status @ '' '' @ [CHR 0xE2, CHR 0x86, CHR 0x92] @ '' '' @ EffectiveClaimStatus c @ '')'') else None)"

definition enforceClaimLedgerLattice ::
  "reader \<Rightarrow> ledger_row list \<Rightarrow> string \<Rightarrow> string \<Rightarrow> string \<Rightarrow> publish_error check" where
  "enforceClaimLedgerLattice rd rows kind path payload =
     (if kind \<noteq> ''claim_ledger'' then None
      else (case payload_fields (rd_yaml rd) payload of
          None \<Rightarrow> None
        | Some m \<Rightarrow>
            (case LedgerSeal m of None \<Rightarrow> None
             | Some newSeal \<Rightarrow>
                 (case latestPriorClaimLedger rd rows path of None \<Rightarrow> None
                  | Some (prior, priorSeal) \<Rightarrow>
                      if newSeal \<le> priorSeal then Some (SealNotAdvanced newSeal priorSeal)
                      else (let raised = List.map_filter (promoted_claim prior) (ClaimsFromFrontMatter m)
                            in fail_if (raised \<noteq> []) (Promoted (sort_strings raised)))))))"

section \<open>The gates of a publication\<close>

text \<open>The checks of \<open>publishArtifactWithOptions\<close> on the document, in their order.\<close>

definition publish_gates ::
  "reader \<Rightarrow> ledger_row list \<Rightarrow> string \<Rightarrow> string \<Rightarrow> string \<Rightarrow> publish_error check" where
  "publish_gates rd rows kind path payload0 =
     (let payload = EnsureRequiredFrontMatter kind path payload0 in checks
       [map_option Refused (ValidateFrontMatter (rd_yaml rd) kind path payload),
        enforceConstraintDischarge rd rows kind payload,
        enforceClaimLedgerLattice rd rows kind path payload])"

end
