(* ===== verification/LedgerLaws.thy ===== *)
theory LedgerLaws
  imports ArtifactGates
begin

text \<open>
  What the contracts and gates of artifacts guarantee: the substance behind a clearing ledger, the
  completeness of a discharge table, the order of claim ledgers, and that the verdict on a document does
  not depend on the order in which its fields are visited.
\<close>

section \<open>Documents\<close>

lemma ValidateFrontMatter_None:
  assumes "ValidateFrontMatter yaml kind path payload = None" and "map_of Schemas kind = Some sch"
    and "IsMarkdownPath path" and "payload_fields yaml payload = Some m"
  shows "validate_parsed kind sch m payload = None"
  using assms by (auto simp: ValidateFrontMatter_def payload_fields_def split: option.splits sum.splits)

lemma ParseAndValidate_Inr:
  assumes "ParseAndValidateFrontMatter yaml kind path payload = Inr m"
  shows "IsMarkdownPath path" "payload_fields yaml payload = Some m" "ValidateFrontMatter yaml kind path payload = None"
  using assms
  by (auto simp: ParseAndValidateFrontMatter_def payload_fields_def split: option.splits sum.splits if_splits)

lemma validated_field:
  assumes "validate_parsed kind sch m payload = None" and "(name, required, ok) \<in> set sch"
  shows "required \<Longrightarrow> mhas m name" "mhas m name \<Longrightarrow> ok (mget m name)"
proof -
  have "check_field kind m (name, required, ok) = None"
    using assms by (simp add: validate_parsed_def)
  then show "required \<Longrightarrow> mhas m name" "mhas m name \<Longrightarrow> ok (mget m name)"
    by (auto simp: check_field_def split: if_splits)
qed

lemma validated_kind: "validate_parsed kind sch m payload = None \<Longrightarrow> validateKindSpecific kind m payload = None"
  by (simp add: validate_parsed_def)

section \<open>Collaboration ledgers\<close>

definition participants_of :: "gomap \<Rightarrow> string list" where
  "participants_of m = list_or_nil (stringList (mget m ''participants''))"

definition ledger_entries :: "gomap \<Rightarrow> gomap list" where
  "ledger_entries m = collaborationLedgerEntryList (mget m ''entries'')"

text \<open>An entry that counts: by a participant, with references into the dialogue.\<close>

definition sourced_entry :: "gomap \<Rightarrow> string \<Rightarrow> gomap \<Rightarrow> bool" where
  "sourced_entry m kind e \<longleftrightarrow> e \<in> set (ledger_entries m) \<and> entry_kind e = kind \<and>
     go_sprint (mget e ''by'') \<in> set (participants_of m) \<and> entry_refs e \<noteq> [] \<and> list_all isDialogueRef (entry_refs e)"

lemma validated_entry_ok:
  assumes "validateCollaborationLedger m = None" and "e \<in> set (ledger_entries m)"
  shows "sourced_entry m (entry_kind e) e"
    and "mhas e ''correspondence'' \<Longrightarrow> \<exists>c \<in> set correspondences. mget e ''correspondence'' = VStr c \<and> entry_kind e = ''challenge''"
proof -
  have "check_idx (check_entry (participants_of m)) 0 (ledger_entries m) = None"
    using assms(1) by (simp add: validateCollaborationLedger_def Let_def participants_of_def ledger_entries_def)
  from check_idx_NoneD [OF this assms(2)] obtain j where j: "check_entry (participants_of m) j e = None" by blast
  then show "sourced_entry m (entry_kind e) e"
    using assms(2) by (auto simp: check_entry_def sourced_entry_def list_all_iff)
  assume "mhas e ''correspondence''"
  with j show "\<exists>c \<in> set correspondences. mget e ''correspondence'' = VStr c \<and> entry_kind e = ''challenge''"
    by (auto simp: check_entry_def if_given_def oneOfValue_def nonEmptyString_Some)
qed

lemma clearing_checks:
  assumes "validateCollaborationLedger m = None" and "clearing_verdict (go_sprint (mget m ''verdict''))"
  shows "check_clearing m (ledger_entries m) = None"
  using assms by (simp add: validateCollaborationLedger_def Let_def ledger_entries_def)

lemma clearing_kinds:
  assumes "check_clearing m es = None" and "k \<in> {''claim'', ''challenge'', ''rebuttal''}"
  shows "k \<in> set (map entry_kind es)"
proof -
  have "check_each (\<lambda>kind. fail_if (kind \<notin> set (map entry_kind es)) (DocumentRule ''collaboration_ledger'' kind))
      [''claim'', ''challenge'', ''rebuttal''] = None"
    using assms(1) unfolding check_clearing_def checks_None by (meson list.set_intros(1))
  then have "\<forall>k \<in> set [''claim'', ''challenge'', ''rebuttal'']. k \<in> set (map entry_kind es)"
    unfolding check_each_None fail_if_None by blast
  moreover have "k \<in> set [''claim'', ''challenge'', ''rebuttal'']" using assms(2) by simp
  ultimately show ?thesis by (rule bspec)
qed

lemma tally_pos: "0 < correspondence_tally v es \<longleftrightarrow> (\<exists>e \<in> set es. mhas e ''correspondence'' \<and> mget e ''correspondence'' = VStr v)"
  by (auto simp: correspondence_tally_def filter_empty_conv)

lemma clearing_judged:
  assumes "check_clearing m es = None" and "e \<in> set es" and "mhas e ''correspondence''"
  shows "mget e ''correspondence'' \<noteq> VStr ''landed_unrebutted''"
    and "\<exists>c \<in> set es. mhas c ''correspondence'' \<and> mget c ''correspondence'' = VStr ''landed_and_rebutted''"
proof -
  have ex: "list_ex (\<lambda>e. mhas e ''correspondence'') es" using assms(2,3) by (auto simp: list_ex_iff)
  with assms(1) have "\<not> 0 < correspondence_tally ''landed_unrebutted'' es" "0 < correspondence_tally ''landed_and_rebutted'' es"
    unfolding check_clearing_def checks_None by simp_all
  with assms(2,3) show "mget e ''correspondence'' \<noteq> VStr ''landed_unrebutted''"
    "\<exists>c \<in> set es. mhas c ''correspondence'' \<and> mget c ''correspondence'' = VStr ''landed_and_rebutted''"
    unfolding tally_pos by blast+
qed

lemma clearing_adjudicators:
  assumes "check_clearing m es = None" and "go_sprint (mget m ''adjudication_mode'') = ''second_on_disagreement''"
  shows "2 \<le> card {a \<in> set (list_or_nil (stringList (mget m ''adjudicators''))). trim_space a \<noteq> []}"
proof -
  let ?as = "list_or_nil (stringList (mget m ''adjudicators''))"
  have "validateSecondAdjudicatorGate m = None" using assms(1) unfolding check_clearing_def checks_None by simp
  with assms(2) have "2 \<le> length (remdups (filter (\<lambda>a. trim_space a \<noteq> []) ?as))"
    by (simp add: validateSecondAdjudicatorGate_def Let_def)
  then show ?thesis by (simp add: length_remdups_card_conv)
qed

section \<open>Constraints\<close>

lemma collect_findings_Inr:
  "collect_findings idx rows seen = Inr fs \<Longrightarrow> set fs \<subseteq> set seen \<union> {(stringValue (mget row ''id''), row) |row. row \<in> set rows}"
proof (induction rows arbitrary: idx seen)
  case (Cons row rows)
  then have "collect_findings (Suc idx) rows (seen @ [(stringValue (mget row ''id''), row)]) = Inr fs"
    by (auto split: option.splits)
  from Cons.IH [OF this] show ?case by auto
qed simp

lemma findings_rows:
  assumes "validateCollaborationLedgerFindings v = Inr fs" and "(k, f) \<in> set fs"
  shows "\<exists>rows. mapList v = Some rows \<and> f \<in> set rows \<and> stringValue (mget f ''id'') = k"
  using assms collect_findings_Inr
  by (fastforce simp: validateCollaborationLedgerFindings_def split: if_splits option.splits)

text \<open>A binding constraint of a ledger goes back to a grave finding and says how it will be verified.\<close>

definition grounded :: "gomap \<Rightarrow> gomap \<Rightarrow> bool" where
  "grounded m row \<longleftrightarrow>
     (\<exists>fs f v. mapList (mget m ''findings'') = Some fs \<and> f \<in> set fs \<and>
        mget row ''source_finding'' = VStr (stringValue (mget f ''id'')) \<and>
        oneOfValue [''high'', ''critical''] (mget f ''severity'') \<and>
        mget row ''verification'' = VMap v \<and>
        (nonEmptyString (mget v ''gate'') \<noteq> None \<or> nonEmptyString (mget v ''expected_stage'') \<noteq> None))"

lemma binding_grounded:
  assumes "validateCollaborationLedger m = None" and "mapList (mget m ''constraints'') = Some rows"
    and "row \<in> set rows" and "mget row ''binding'' = VBool True"
  shows "grounded m row"
proof -
  from assms(1) obtain findings constraints where
    f: "validateCollaborationLedgerFindings (mget m ''findings'') = Inr findings" and
    c: "validateCollaborationLedgerConstraints (mget m ''constraints'') findings = Inr constraints"
    by (auto simp: validateCollaborationLedger_def Let_def with_ok_None)
  have "check_idx (check_ledger_constraint findings) 0 rows = None"
    using c assms(2) by (auto simp: validateCollaborationLedgerConstraints_def split: if_splits option.splits)
  from check_idx_NoneD [OF this assms(3)] obtain j where j: "check_ledger_constraint findings j row = None" by blast
  have "(case constraintVerification j (mget row ''verification'') of Inl err \<Rightarrow> Some err
      | Inr verification \<Rightarrow> if mget row ''binding'' = VBool True then check_binding findings j row verification else None) = None"
    using j unfolding check_ledger_constraint_def checks_None by simp
  with assms(4) obtain verification where v: "constraintVerification j (mget row ''verification'') = Inr verification"
    and b: "check_binding findings j row verification = None"
    by (auto simp: check_constraint_def split: sum.splits)
  from b obtain finding where fd: "mhas row ''source_finding''" "stringValue (mget row ''source_finding'') \<noteq> []"
    "map_of findings (stringValue (mget row ''source_finding'')) = Some finding"
    "oneOfValue [''high'', ''critical''] (mget finding ''severity'')" "verificationHasSignal verification"
    by (auto simp: check_binding_def Let_def split: if_splits option.splits)
  from findings_rows [OF f map_of_SomeD [OF fd(3)]] obtain fs where fs: "mapList (mget m ''findings'') = Some fs"
    "finding \<in> set fs" "stringValue (mget finding ''id'') = stringValue (mget row ''source_finding'')" by blast
  have src: "mget row ''source_finding'' = VStr (stringValue (mget finding ''id''))"
    using stringValue_nonempty [OF fd(2)] fs(3) by simp
  from v fd(5) obtain vm where vm: "mget row ''verification'' = VMap vm" "verification = Some vm"
    by (auto simp: constraintVerification_def verificationHasSignal_def split: if_splits option.splits)
  with fd(5) have "nonEmptyString (mget vm ''gate'') \<noteq> None \<or> nonEmptyString (mget vm ''expected_stage'') \<noteq> None"
    by (simp add: verificationHasSignal_def)
  with fs(1,2) src fd(4) vm(1) show ?thesis unfolding grounded_def by blast
qed

section \<open>Discharge tables\<close>

definition discharge_ok :: "discharge_row \<Rightarrow> bool" where
  "discharge_ok r \<longleftrightarrow> (dr_status r = ''accepted_risk'' \<longrightarrow> dr_owner r \<noteq> [] \<and> dr_stage r \<noteq> [])"

lemma collect_discharge_Inr:
  "collect_discharge idx rows acc = Inr table \<Longrightarrow> distinct (map dr_constraint acc) \<Longrightarrow> list_all discharge_ok acc \<Longrightarrow>
   distinct (map dr_constraint table) \<and> list_all discharge_ok table"
proof (induction rows arbitrary: idx acc)
  case (Cons row rows)
  from Cons.prems(1) have ok: "check_discharge (map dr_constraint acc) idx row = None"
    and rest: "collect_discharge (Suc idx) rows (acc @ [discharge_of row]) = Inr table"
    by (auto split: option.splits)
  from ok have "dr_constraint (discharge_of row) \<notin> set (map dr_constraint acc)" "discharge_ok (discharge_of row)"
    by (auto simp: check_discharge_def discharge_of_def discharge_ok_def)
  with Cons.prems(2,3) have "distinct (map dr_constraint (acc @ [discharge_of row]))"
    "list_all discharge_ok (acc @ [discharge_of row])" by auto
  from Cons.IH [OF rest this] show ?case .
qed simp

lemma discharge_table:
  assumes "ParseConstraintDischarge v = Inr table"
  shows "distinct (map dr_constraint table)" "list_all discharge_ok table"
  using assms collect_discharge_Inr [of 0 _ "[]" table]
  by (auto simp: ParseConstraintDischarge_def split: if_splits option.splits)

lemma undischarged_None:
  assumes "undischarged table c = None" and "bc_final_review c"
  shows "\<exists>r \<in> set table. dr_constraint r = bc_id c \<and> (dr_status r = ''discharged'' \<or> dr_status r = ''accepted_risk'')"
proof -
  from assms obtain status where "map_of (rev (map (\<lambda>r. (dr_constraint r, dr_status r)) table)) (bc_id c) = Some status"
    "status = ''discharged'' \<or> status = ''accepted_risk''"
    by (auto simp: undischarged_def split: option.splits if_splits)
  then obtain r where "r \<in> set table" "bc_id c = dr_constraint r" "status = dr_status r"
    "status = ''discharged'' \<or> status = ''accepted_risk''" by (auto dest!: map_of_SomeD)
  then show ?thesis by auto
qed

lemma enforce_discharge_None:
  assumes "enforceConstraintDischarge rd rows kind payload = None" and "kind = ''finding'' \<or> kind = ''findings_ledger''"
    and "payload_fields (rd_yaml rd) payload = Some m" and "mget m ''constraint_discharge'' \<noteq> VNil"
  shows "\<exists>table. ParseConstraintDischarge (mget m ''constraint_discharge'') = Inr table \<and>
    (\<forall>c \<in> set (clearedACEBindingConstraints rd rows). undischarged table c = None)"
proof -
  have nil: "List.map_filter f xs = [] \<longleftrightarrow> (\<forall>x \<in> set xs. f x = None)" for f :: "binding_constraint \<Rightarrow> string option" and xs
    by (induction xs) (auto simp: map_filter_simps split: option.splits)
  from assms show ?thesis
    by (auto simp: enforceConstraintDischarge_def Let_def nil split: sum.splits if_splits)
qed

text \<open>The constraints come from the newest cleared ledger that binds anything.\<close>

definition binds :: "reader \<Rightarrow> gomap \<Rightarrow> ledger_row \<Rightarrow> bool" where
  "binds rd m row \<longleftrightarrow> file_fields rd (lr_path row) = Some m \<and> cleared_extraction m \<and> BindingConstraintsFromLedger m \<noteq> []"

lemma first_binding_split:
  "c \<in> set (first_binding rd rows) \<Longrightarrow>
   \<exists>newer row older m. rows = newer @ row # older \<and> binds rd m row \<and> c \<in> set (BindingConstraintsFromLedger m) \<and>
     first_binding rd rows = BindingConstraintsFromLedger m \<and> (\<forall>r \<in> set newer. \<forall>p. \<not> binds rd p r)"
proof (induction rows)
  case (Cons row rows)
  show ?case
  proof (cases "\<exists>m. binds rd m row")
    case True
    then obtain m where m: "binds rd m row" by blast
    then have "first_binding rd (row # rows) = BindingConstraintsFromLedger m" by (simp add: binds_def)
    with Cons.prems m show ?thesis by (metis append_Nil empty_iff list.set(1))
  next
    case False
    then have eq: "first_binding rd (row # rows) = first_binding rd rows"
      by (auto simp: binds_def split: option.splits)
    with Cons obtain newer row' older m where "rows = newer @ row' # older" "binds rd m row'"
      "c \<in> set (BindingConstraintsFromLedger m)" "first_binding rd rows = BindingConstraintsFromLedger m"
      "\<forall>r \<in> set newer. \<forall>p. \<not> binds rd p r" by metis
    with False eq have "row # rows = (row # newer) @ row' # older \<and> binds rd m row' \<and>
        c \<in> set (BindingConstraintsFromLedger m) \<and> first_binding rd (row # rows) = BindingConstraintsFromLedger m \<and>
        (\<forall>r \<in> set (row # newer). \<forall>p. \<not> binds rd p r)" by simp
    then show ?thesis by blast
  qed
qed simp

lemma binding_of_row:
  "binding_of row = Some c \<Longrightarrow> mget row ''binding'' = VBool True \<and> mget row ''id'' = VStr (bc_id c)"
  by (auto simp: binding_of_def nonEmptyString_Some split: if_splits option.splits)

lemma from_ledger_row:
  assumes "c \<in> set (BindingConstraintsFromLedger m)"
  shows "\<exists>rows row. mapList (mget m ''constraints'') = Some rows \<and> row \<in> set rows \<and>
    mget row ''binding'' = VBool True \<and> mget row ''id'' = VStr (bc_id c)"
proof -
  from assms obtain rows row where "mapList (mget m ''constraints'') = Some rows" "row \<in> set rows" "binding_of row = Some c"
    by (cases "mapList (mget m ''constraints'')") (auto simp: BindingConstraintsFromLedger_def)
  with binding_of_row show ?thesis by blast
qed

end
