(* ===== verification/LedgerSafety.thy ===== *)
theory LedgerSafety
  imports LedgerLaws
begin

text \<open>
  The properties of the gates on collaboration ledgers and final reviews, with a ledger and a finding at
  which they apply.
\<close>

section \<open>Properties\<close>

text \<open>C6: A clearing verdict has substance. When a job that must publish a collaboration ledger records an
  accepting verdict, the ledger was validated and says so itself; it has a claim, a challenge and a
  rebuttal, each by a participant and with references into the dialogue; if any challenge was judged, one
  was rebutted and none was left standing; where a second adjudicator is asked for there are two; and
  every binding constraint goes back to a grave finding and names its verification.\<close>

theorem clearing_verdict_substantiated:
  assumes "enforceCollaborationLedgerVerdict rd expected attempt verdict = None"
    and "ledger_path expected attempt = Some path" and "clearing_verdict verdict"
  shows "\<exists>p payload m. rd_resolve rd path = Some p \<and> rd_file rd p = Some payload \<and>
    payload_fields (rd_yaml rd) payload = Some m \<and> go_sprint (mget m ''verdict'') = verdict \<and>
    (\<forall>k \<in> {''claim'', ''challenge'', ''rebuttal''}. \<exists>e. sourced_entry m k e) \<and>
    (\<forall>e \<in> set (ledger_entries m). mhas e ''correspondence'' \<longrightarrow>
       mget e ''correspondence'' \<noteq> VStr ''landed_unrebutted'' \<and>
       (\<exists>c. sourced_entry m ''challenge'' c \<and> mget c ''correspondence'' = VStr ''landed_and_rebutted'')) \<and>
    (go_sprint (mget m ''adjudication_mode'') = ''second_on_disagreement'' \<longrightarrow>
       2 \<le> card {a \<in> set (list_or_nil (stringList (mget m ''adjudicators''))). trim_space a \<noteq> []}) \<and>
    (\<forall>rows. mapList (mget m ''constraints'') = Some rows \<longrightarrow>
       (\<forall>row \<in> set rows. mget row ''binding'' = VBool True \<longrightarrow> grounded m row))"
proof -
  from assms(1,2) obtain p payload m where r: "rd_resolve rd path = Some p" "rd_file rd p = Some payload"
    and doc: "ParseAndValidateFrontMatter (rd_yaml rd) ''collaboration_ledger'' p payload = Inr m"
    and v: "go_sprint (mget m ''verdict'') = verdict"
    by (auto simp: enforceCollaborationLedgerVerdict_def split: option.splits sum.splits)
  note d = ParseAndValidate_Inr [OF doc]
  have "map_of Schemas ''collaboration_ledger'' \<noteq> None" by code_simp
  then obtain sch where sch: "map_of Schemas ''collaboration_ledger'' = Some sch" by blast
  from validated_kind [OF ValidateFrontMatter_None [OF d(3) sch d(1,2)]]
  have valid: "validateCollaborationLedger m = None" by (simp add: validateKindSpecific_def)
  note clear = clearing_checks [OF valid assms(3) [folded v]]
  have kinds: "\<exists>e. sourced_entry m k e" if "k \<in> {''claim'', ''challenge'', ''rebuttal''}" for k
  proof -
    from clearing_kinds [OF clear that] obtain e where "e \<in> set (ledger_entries m)" "entry_kind e = k" by auto
    with validated_entry_ok(1) [OF valid] show ?thesis by blast
  qed
  have judged: "mget e ''correspondence'' \<noteq> VStr ''landed_unrebutted'' \<and>
      (\<exists>c. sourced_entry m ''challenge'' c \<and> mget c ''correspondence'' = VStr ''landed_and_rebutted'')"
    if "e \<in> set (ledger_entries m)" "mhas e ''correspondence''" for e
  proof -
    from clearing_judged [OF clear that] obtain c where "c \<in> set (ledger_entries m)" "mhas c ''correspondence''"
      "mget c ''correspondence'' = VStr ''landed_and_rebutted''" by blast
    with validated_entry_ok [OF valid, of c] clearing_judged(1) [OF clear that] show ?thesis by metis
  qed
  from r d(2) v kinds judged clearing_adjudicators [OF clear] binding_grounded [OF valid] show ?thesis by blast
qed


text \<open>C38: The gate of the final review fails open. The ledgers are read from the root of the repository, and
  one that cannot be read there is passed over: while the cleared ledger only exists in the worktree of the
  job that published it, any well-formed table passes, one that reports every constraint missing included.\<close>

theorem unread_ledger_binds_nothing:
  assumes "\<forall>row \<in> set rows. lr_kind row = ''collaboration_ledger'' \<longrightarrow> file_fields rd (lr_path row) = None"
    and "payload_fields (rd_yaml rd) payload = Some m"
    and "ParseConstraintDischarge (mget m ''constraint_discharge'') = Inr table"
  shows "enforceConstraintDischarge rd rows kind payload = None"
proof -
  have "first_binding rd ls = []" if "\<forall>row \<in> set ls. file_fields rd (lr_path row) = None" for ls
    using that by (induction ls) auto
  then have "clearedACEBindingConstraints rd rows = []"
    using assms(1) by (simp add: clearedACEBindingConstraints_def newest_first_def)
  with assms(2,3) show ?thesis by (simp add: enforceConstraintDischarge_def map_filter_simps)
qed

section \<open>Witnesses\<close>

definition yaml_text :: "string \<Rightarrow> ynode" where
  "yaml_text s = YScalar (Inr (VStr s))"

definition yaml_row :: "(string \<times> string) list \<Rightarrow> (string \<times> ynode) list" where
  "yaml_row kvs = map (\<lambda>(k, s). (k, yaml_text s)) kvs"

definition yaml_entry :: "string \<Rightarrow> string \<Rightarrow> ynode" where
  "yaml_entry kind by_whom = YMapping (yaml_row [(''kind'', kind), (''by'', by_whom), (''text'', ''t'')] @
     [(''refs'', YSequence [yaml_text ''dialogue:1''])])"

definition ex_ledger_node :: ynode where
  "ex_ledger_node = YDocument [YMapping (yaml_row
     [(''schema_version'', ''striatum.collaboration_ledger.v1.1''), (''artifact_kind'', ''collaboration_ledger''),
      (''shape'', ''adjudicated_constraint_extraction''), (''topic'', ''t''), (''verdict'', ''accept''),
      (''rationale'', ''r'')] @
     [(''participants'', YSequence [yaml_text ''a'', yaml_text ''b'']),
      (''entries'', YSequence [yaml_entry ''claim'' ''a'', yaml_entry ''challenge'' ''b'', yaml_entry ''rebuttal'' ''a'']),
      (''findings'', YSequence [YMapping (yaml_row
         [(''id'', ''f1''), (''severity'', ''high''), (''posture'', ''p''), (''status'', ''accepted''), (''challenge'', ''x'')])]),
      (''constraints'', YSequence [YMapping (yaml_row
         [(''id'', ''c1''), (''posture'', ''p''), (''severity'', ''high''), (''kind'', ''gate''), (''text'', ''x''),
          (''source_finding'', ''f1'')] @
         [(''binding'', YScalar (Inr (VBool True))),
          (''verification'', YMapping (yaml_row [(''gate'', ''g'')]))])])])]"

definition ex_finding_node :: "string \<Rightarrow> ynode" where
  "ex_finding_node status = YDocument [YMapping (yaml_row
     [(''schema_version'', ''striatum.finding.v1''), (''artifact_kind'', ''finding''), (''verdict_intent'', ''accept'')] @
     [(''constraint_discharge'', YSequence [YMapping (yaml_row [(''constraint_id'', ''c1''), (''status'', status)])])])]"

text \<open>A document whose block names the node the parser returns.\<close>

definition ex_document :: "string \<Rightarrow> string" where
  "ex_document block = ''---'' @ [CHR 0x0A] @ block @ [CHR 0x0A] @ ''---'' @ [CHR 0x0A]"

definition ex_yaml :: "string \<Rightarrow> string + ynode" where
  "ex_yaml block =
     (if block = ''ledger'' then Inr ex_ledger_node
      else if block = ''done'' then Inr (ex_finding_node ''discharged'')
      else if block = ''open'' then Inr (ex_finding_node ''missing'') else Inl ''syntax'')"

definition ex_reader :: "(string \<Rightarrow> string option) \<Rightarrow> reader" where
  "ex_reader file = \<lparr>rd_yaml = ex_yaml, rd_resolve = (\<lambda>p. Some (''/repo/'' @ p)), rd_file = file\<rparr>"

definition ex_ledger_file :: "string \<Rightarrow> string option" where
  "ex_ledger_file p = (if p = ''/repo/ledger.md'' then Some (ex_document ''ledger'') else None)"

definition ex_expected :: "goval list" where
  "ex_expected = [VMap [(''kind'', VStr ''collaboration_ledger''), (''required'', VBool True), (''path'', VStr ''ledger.md'')]]"

definition ex_ledger_rows :: "ledger_row list" where
  "ex_ledger_rows = [\<lparr>lr_kind = ''collaboration_ledger'', lr_path = ''ledger.md'', lr_created = 1, lr_id = ''a1''\<rparr>]"

theorem clearing_verdict_substantiated_witness:
  "\<exists>p payload m. rd_file (ex_reader ex_ledger_file) p = Some payload \<and> payload_fields ex_yaml payload = Some m \<and>
    (\<exists>e. sourced_entry m ''rebuttal'' e)"
proof -
  have "enforceCollaborationLedgerVerdict (ex_reader ex_ledger_file) ex_expected 1 ''accept'' = None"
    "ledger_path ex_expected 1 = Some ''ledger.md''" "clearing_verdict ''accept''" by code_simp+
  from clearing_verdict_substantiated [OF this] show ?thesis by (auto simp: ex_reader_def)
qed

definition ex_binding :: binding_constraint where
  "ex_binding = \<lparr>bc_id = ''c1'', bc_final_review = True\<rparr>"

lemma ex_bindings: "clearedACEBindingConstraints (ex_reader ex_ledger_file) ex_ledger_rows = [ex_binding]"
  by code_simp

definition ex_done :: gomap where
  "ex_done = [(''schema_version'', VStr ''striatum.finding.v1''), (''artifact_kind'', VStr ''finding''),
     (''verdict_intent'', VStr ''accept''),
     (''constraint_discharge'', VList [VMap [(''constraint_id'', VStr ''c1''), (''status'', VStr ''discharged'')]])]"


theorem unread_ledger_binds_nothing_witness:
  "enforceConstraintDischarge (ex_reader (\<lambda>_. None)) ex_ledger_rows ''finding'' (ex_document ''open'') = None \<and>
   enforceConstraintDischarge (ex_reader ex_ledger_file) ex_ledger_rows ''finding'' (ex_document ''open'') \<noteq> None"
proof
  have "payload_fields ex_yaml (ex_document ''open'') \<noteq> None \<and>
    (case payload_fields ex_yaml (ex_document ''open'') of None \<Rightarrow> False
     | Some m \<Rightarrow> (case ParseConstraintDischarge (mget m ''constraint_discharge'') of Inl _ \<Rightarrow> False | Inr _ \<Rightarrow> True))"
    by code_simp
  then obtain m where m: "payload_fields ex_yaml (ex_document ''open'') = Some m"
    "case ParseConstraintDischarge (mget m ''constraint_discharge'') of Inl _ \<Rightarrow> False | Inr _ \<Rightarrow> True" by auto
  from m(2) obtain table where p: "ParseConstraintDischarge (mget m ''constraint_discharge'') = Inr table"
    by (cases "ParseConstraintDischarge (mget m ''constraint_discharge'')") auto
  have "\<forall>row \<in> set ex_ledger_rows. lr_kind row = ''collaboration_ledger'' \<longrightarrow>
      file_fields (ex_reader (\<lambda>_. None)) (lr_path row) = None"
    by (simp add: file_fields_def ex_reader_def)
  from unread_ledger_binds_nothing [OF this _ p] m(1)
  show "enforceConstraintDischarge (ex_reader (\<lambda>_. None)) ex_ledger_rows ''finding'' (ex_document ''open'') = None"
    by (simp add: ex_reader_def)
  show "enforceConstraintDischarge (ex_reader ex_ledger_file) ex_ledger_rows ''finding'' (ex_document ''open'') \<noteq> None"
    by code_simp
qed

end
