(* ===== verification/ClaimHistory.thy ===== *)
theory ClaimHistory
  imports LedgerSafety
begin

text \<open>
  The claim ledgers a run publishes one after the other: an inductive history whose step is an accepted
  publication at a path of its own, the invariant that the gate reads the ledger before it, and what
  follows for the seals and the claims; and where the gate looks away.
\<close>

section \<open>Histories\<close>

definition claim_row :: "string \<Rightarrow> int \<Rightarrow> string \<Rightarrow> ledger_row" where
  "claim_row path now k = \<lparr>lr_kind = ''claim_ledger'', lr_path = path, lr_created = now, lr_id = k\<rparr>"

text \<open>
  The file of a publication is in place when the gates run. Each has a path of its own and, as the
  clock of the rows has a resolution of a second, a later second than those before.
\<close>

inductive claim_history ::
  "(string \<Rightarrow> string + ynode) \<Rightarrow> (string \<Rightarrow> string option) \<Rightarrow>
   ledger_row list \<Rightarrow> (string \<rightharpoonup> string) \<Rightarrow> gomap list \<Rightarrow> bool"
  for yaml resolve where
  start: "claim_history yaml resolve [] Map.empty []"
| publish: "claim_history yaml resolve rows files docs \<Longrightarrow> resolve path = Some p \<Longrightarrow> IsMarkdownPath p \<Longrightarrow>
    (\<forall>r \<in> set rows. \<forall>q. resolve (lr_path r) = Some q \<longrightarrow> \<not> sameResolvedPath q p) \<Longrightarrow>
    (\<forall>r \<in> set rows. lr_created r < now) \<Longrightarrow> payload_fields yaml payload = Some m \<Longrightarrow>
    publish_gates \<lparr>rd_yaml = yaml, rd_resolve = resolve, rd_file = files(p \<mapsto> payload)\<rparr> rows ''claim_ledger'' p payload = None \<Longrightarrow>
    claim_history yaml resolve (rows @ [claim_row path now k]) (files(p \<mapsto> payload)) (docs @ [m])"

definition earned :: "gomap \<Rightarrow> bool" where
  "earned m \<longleftrightarrow> LedgerSeal m \<noteq> None \<and> (\<forall>c \<in> set (ClaimsFromFrontMatter m). EffectiveClaimStatus c = cl_status c)"

definition steps_down :: "gomap \<Rightarrow> gomap \<Rightarrow> bool" where
  "steps_down a b \<longleftrightarrow> the (LedgerSeal a) < the (LedgerSeal b) \<and>
     (\<forall>c \<in> set (ClaimsFromFrontMatter b). \<forall>c' \<in> set (ClaimsFromFrontMatter a).
        cl_id c = cl_id c' \<longrightarrow> claimStatusRank (cl_status c) \<le> claimStatusRank (cl_status c'))"

text \<open>What every history keeps: the rows are in order, and each file reads as the document published with it.\<close>

definition history_ok ::
  "(string \<Rightarrow> string + ynode) \<Rightarrow> (string \<Rightarrow> string option) \<Rightarrow> ledger_row list \<Rightarrow> (string \<rightharpoonup> string) \<Rightarrow> gomap list \<Rightarrow> bool" where
  "history_ok yaml resolve rows files docs \<longleftrightarrow>
     list_all2 (\<lambda>r m. lr_kind r = ''claim_ledger'' \<and> earned m \<and>
       file_fields \<lparr>rd_yaml = yaml, rd_resolve = resolve, rd_file = files\<rparr> (lr_path r) = Some m) rows docs \<and>
     sorted_wrt (\<lambda>a b. lr_created a < lr_created b) rows \<and>
     (\<forall>i. Suc i < length docs \<longrightarrow> steps_down (docs ! i) (docs ! Suc i))"

section \<open>The step\<close>

lemma claim_gates:
  assumes "publish_gates rd rows ''claim_ledger'' p payload = None" and "IsMarkdownPath p"
    and "payload_fields (rd_yaml rd) payload = Some m"
  shows "earned m" "enforceClaimLedgerLattice rd rows ''claim_ledger'' p payload = None"
proof -
  have g: "ValidateFrontMatter (rd_yaml rd) ''claim_ledger'' p payload = None"
    "enforceClaimLedgerLattice rd rows ''claim_ledger'' p payload = None"
    using assms(1) by (simp_all add: publish_gates_def EnsureRequiredFrontMatter_def)
  show "enforceClaimLedgerLattice rd rows ''claim_ledger'' p payload = None" by (rule g(2))
  have "map_of Schemas ''claim_ledger'' = Some
      [(''schema_version'', True, equalsValue ''striatum.claim_ledger.v1''),
       (''artifact_kind'', True, equalsValue ''claim_ledger''), (''run_id'', True, isNonEmptyStringValue),
       (''ledger_seal'', True, isNonNegativeIntValue), (''claims'', True, isMapListValue),
       (''created_at'', False, isNonEmptyStringValue)]"
    by (simp add: Schemas_def)
  note v = ValidateFrontMatter_None [OF g(1) this assms(2,3)]
  have "mhas m ''ledger_seal''" using validated_field(1) [OF v, of "''ledger_seal''" True] by simp
  then have "isNonNegativeIntValue (mget m ''ledger_seal'')" using validated_field(2) [OF v, of "''ledger_seal''" True] by simp
  moreover have "validateClaimLedger m = None"
    using validated_kind [OF v] by (simp add: validateKindSpecific_def)
  ultimately show "earned m"
    by (auto simp: earned_def LedgerSeal_def isNonNegativeIntValue_def validateClaimLedger_def ClaimsFromFrontMatter_def
        with_ok_None lint_effective split: option.splits)
qed

lemma newest_first_sorted:
  assumes "sorted_wrt (\<lambda>a b. lr_created a < lr_created b) rows" and "\<forall>r \<in> set rows. lr_kind r = kind"
  shows "newest_first kind rows = rev rows"
proof -
  have s: "sorted_wrt (<) (map lr_created rows)" using assms(1) by (simp add: sorted_wrt_map)
  then have "sorted (map lr_created rows)" "distinct (map lr_created rows)" by (simp_all add: strict_sorted_iff)
  then have "sort_key lr_created (sort_key lr_id rows) = rows"
    by (intro sort_key_inj_key_eq) (simp_all add: distinct_map)
  with assms(2) show ?thesis by (simp add: newest_first_def)
qed

lemma promoted_None:
  assumes "promoted_claim prior c = None" and "c' \<in> set prior" and "cl_id c = cl_id c'" and "distinct (map cl_id prior)"
  shows "claimStatusRank (EffectiveClaimStatus c) \<le> claimStatusRank (EffectiveClaimStatus c')"
proof -
  let ?t = "map (\<lambda>p. (cl_id p, EffectiveClaimStatus p)) prior"
  have "map_of (rev ?t) (cl_id c) = Some (EffectiveClaimStatus c')"
    using assms(2-4) by (intro map_of_is_SomeI) (auto simp: comp_def rev_map [symmetric])
  then show ?thesis using assms(1) by (auto simp: promoted_claim_def split: if_splits)
qed

lemma claims_distinct: "distinct (map cl_id (ClaimsFromFrontMatter m))"
  by (auto simp: ClaimsFromFrontMatter_def split: sum.splits dest: ParseClaims_Inr(1))

lemma lattice_step:
  assumes "enforceClaimLedgerLattice rd rows ''claim_ledger'' p payload = None"
    and "payload_fields (rd_yaml rd) payload = Some m" and "earned m" and "earned prior"
    and "latestPriorClaimLedger rd rows p = Some (ClaimsFromFrontMatter prior, the (LedgerSeal prior))"
  shows "steps_down prior m"
proof -
  from assms(3) obtain s where s: "LedgerSeal m = Some s" by (auto simp: earned_def)
  have nil: "List.map_filter f xs = [] \<longleftrightarrow> (\<forall>x \<in> set xs. f x = None)" for f :: "claim \<Rightarrow> string option" and xs
    by (induction xs) (auto simp: map_filter_simps split: option.splits)
  have e: "the (LedgerSeal prior) < s" "\<forall>c \<in> set (ClaimsFromFrontMatter m). promoted_claim (ClaimsFromFrontMatter prior) c = None"
    using assms(1,2,5) s by (auto simp: enforceClaimLedgerLattice_def Let_def nil split: if_splits)
  have "claimStatusRank (cl_status c) \<le> claimStatusRank (cl_status c')"
    if "c \<in> set (ClaimsFromFrontMatter m)" "c' \<in> set (ClaimsFromFrontMatter prior)" "cl_id c = cl_id c'" for c c'
    using promoted_None [OF bspec [OF e(2) that(1)] that(2,3) claims_distinct] that(1,2) assms(3,4)
    by (simp add: earned_def)
  with e(1) s show ?thesis by (simp add: steps_down_def)
qed

lemma file_fields_other:
  assumes "file_fields \<lparr>rd_yaml = yaml, rd_resolve = resolve, rd_file = files\<rparr> path = Some m"
    and "\<forall>q. resolve path = Some q \<longrightarrow> \<not> sameResolvedPath q p"
  shows "file_fields \<lparr>rd_yaml = yaml, rd_resolve = resolve, rd_file = files(p \<mapsto> payload)\<rparr> path = Some m"
  using assms by (auto simp: file_fields_def sameResolvedPath_def split: option.splits)

section \<open>The invariant\<close>

lemma history_invariant: "claim_history yaml resolve rows files docs \<Longrightarrow> history_ok yaml resolve rows files docs"
proof (induction rule: claim_history.induct)
  case start
  show ?case by (simp add: history_ok_def)
next
  case (publish rows files docs path p now payload m k)
  let ?rd = "\<lparr>rd_yaml = yaml, rd_resolve = resolve, rd_file = files(p \<mapsto> payload)\<rparr>"
  have gates: "earned m" "enforceClaimLedgerLattice ?rd rows ''claim_ledger'' p payload = None"
    using claim_gates [OF publish.hyps(7,3)] publish.hyps(6) by simp_all
  have old: "list_all2 (\<lambda>r m. lr_kind r = ''claim_ledger'' \<and> earned m \<and> file_fields ?rd (lr_path r) = Some m) rows docs"
  proof (rule list_all2_all_nthI)
    have all2: "list_all2 (\<lambda>r m. lr_kind r = ''claim_ledger'' \<and> earned m \<and>
        file_fields \<lparr>rd_yaml = yaml, rd_resolve = resolve, rd_file = files\<rparr> (lr_path r) = Some m) rows docs"
      using publish.IH by (simp add: history_ok_def)
    then show "length rows = length docs" by (rule list_all2_lengthD)
    fix n assume n: "n < length rows"
    from list_all2_nthD [OF all2 n] publish.hyps(4) nth_mem [OF n]
    show "lr_kind (rows ! n) = ''claim_ledger'' \<and> earned (docs ! n) \<and> file_fields ?rd (lr_path (rows ! n)) = Some (docs ! n)"
      using file_fields_other by blast
  qed
  have new: "file_fields ?rd path = Some m"
    using publish.hyps(2,6) by (simp add: file_fields_def)
  have sorted: "sorted_wrt (\<lambda>a b. lr_created a < lr_created b) (rows @ [claim_row path now k])"
    using publish.IH publish.hyps(5) by (simp add: history_ok_def sorted_wrt_append claim_row_def)
  have step: "steps_down (last docs) m" if "docs \<noteq> []"
  proof -
    have len: "length rows = length docs" using old by (rule list_all2_lengthD)
    with that have ne: "rows \<noteq> []" by auto
    have kinds: "\<forall>r \<in> set rows. lr_kind r = ''claim_ledger''" using old by (auto simp: list_all2_conv_all_nth in_set_conv_nth)
    have lastr: "earned (last docs)" "file_fields ?rd (lr_path (last rows)) = Some (last docs)"
      using old that ne len by (auto simp: list_all2_conv_all_nth last_conv_nth)
    have order: "newest_first ''claim_ledger'' rows = last rows # rev (butlast rows)"
    proof -
      have "newest_first ''claim_ledger'' rows = rev rows"
        using publish.IH unfolding history_ok_def by (intro newest_first_sorted [OF _ kinds]) blast
      then show ?thesis using ne by (cases rows rule: rev_cases) simp_all
    qed
    from lastr(2) obtain q where q: "resolve (lr_path (last rows)) = Some q"
      by (auto simp: file_fields_def split: option.splits)
    with bspec [OF publish.hyps(4) last_in_set [OF ne]] have "\<not> sameResolvedPath q p" by blast
    with q lastr order have "latestPriorClaimLedger ?rd rows p = Some (ClaimsFromFrontMatter (last docs), the (LedgerSeal (last docs)))"
      by (auto simp: latestPriorClaimLedger_def earned_def)
    from lattice_step [OF gates(2) _ gates(1) lastr(1) this] publish.hyps(6) show ?thesis by simp
  qed
  have "steps_down ((docs @ [m]) ! i) ((docs @ [m]) ! Suc i)" if "Suc i < length (docs @ [m])" for i
  proof (cases "Suc i < length docs")
    case True
    with publish.IH show ?thesis by (simp add: history_ok_def nth_append)
  next
    case False
    with that have "Suc i = length docs" by simp
    then show ?thesis using step by (cases docs rule: rev_cases) (auto simp: nth_append)
  qed
  moreover have "list_all2 (\<lambda>r m. lr_kind r = ''claim_ledger'' \<and> earned m \<and> file_fields ?rd (lr_path r) = Some m)
      (rows @ [claim_row path now k]) (docs @ [m])"
    by (intro list_all2_appendI [OF old]) (simp only: list_all2_Cons list.rel_inject claim_row_def ledger_row.simps new gates(1) list_all2_Nil simp_thms)
  ultimately show ?case using sorted unfolding history_ok_def by blast
qed

lemma steps_sorted:
  "\<forall>i. Suc i < length docs \<longrightarrow> steps_down (docs ! i) (docs ! Suc i) \<Longrightarrow> sorted_wrt (<) (map (\<lambda>m. the (LedgerSeal m)) docs)"
  by (rule sorted_wrt_iff_nth_Suc_transp [THEN iffD2]) (auto simp: steps_down_def transp_def)

section \<open>Properties\<close>


section \<open>Where the gate looks away\<close>

text \<open>A file that is published again at its own path has no ledger before it.\<close>

lemma republish_unchecked:
  assumes "\<forall>r \<in> set rows. rd_resolve rd (lr_path r) = Some p"
  shows "enforceClaimLedgerLattice rd rows kind p payload = None"
proof -
  have "first_prior rd p rs = None" if "\<forall>r \<in> set rs. rd_resolve rd (lr_path r) = Some p" for rs
    using that by (induction rs) (simp_all add: sameResolvedPath_def)
  then have "latestPriorClaimLedger rd rows p = None"
    using assms by (simp add: latestPriorClaimLedger_def newest_first_def)
  then show ?thesis by (simp add: enforceClaimLedgerLattice_def split: option.splits)
qed

definition ex_claims_node :: "string \<Rightarrow> (string \<times> string) list \<Rightarrow> (string \<times> string) list \<Rightarrow> ynode" where
  "ex_claims_node s k extra = YDocument [YMapping (yaml_row
     [(''schema_version'', ''striatum.claim_ledger.v1''), (''artifact_kind'', ''claim_ledger''), (''run_id'', ''r'')] @
     [(''ledger_seal'', YScalar (Inr (VInt (int (length s))))),
      (''claims'', YSequence [YMapping (yaml_row (k @ [(''text'', ''t'')] @ extra))])])]"

definition ex_claims_yaml :: "string \<Rightarrow> string + ynode" where
  "ex_claims_yaml block =
     (if block = ''1'' then Inr (ex_claims_node ''1'' [(''id'', ''k''), (''status'', ''ASSERTED'')] [])
      else if block = ''22'' then Inr (ex_claims_node ''22'' [(''id'', ''other''), (''status'', ''DESIGNED'')] [])
      else Inr (ex_claims_node ''333'' [(''id'', ''k''), (''status'', ''VERIFIED'')]
        [(''bound_input_digest'', ''d''), (''receipt_ref'', ''r.md''), (''evidence_digest'', ''d'')]))"

definition ex_resolve :: "string \<Rightarrow> string option" where
  "ex_resolve path = Some (''/'' @ path @ ''.md'')"

definition ex_doc :: "string \<Rightarrow> gomap" where
  "ex_doc block = the (payload_fields ex_claims_yaml (ex_document block))"

definition ex_step_reader :: "(string \<rightharpoonup> string) \<Rightarrow> reader" where
  "ex_step_reader files = \<lparr>rd_yaml = ex_claims_yaml, rd_resolve = ex_resolve, rd_file = files\<rparr>"

abbreviation ex_rows :: "ledger_row list" where
  "ex_rows \<equiv> [claim_row ''1'' 1 ''a'', claim_row ''22'' 2 ''b'', claim_row ''333'' 3 ''c'']"

abbreviation ex_files :: "string \<rightharpoonup> string" where
  "ex_files \<equiv> [''/1.md'' \<mapsto> ex_document ''1'', ''/22.md'' \<mapsto> ex_document ''22'', ''/333.md'' \<mapsto> ex_document ''333'']"

lemma ex_history: "claim_history ex_claims_yaml ex_resolve ex_rows ex_files [ex_doc ''1'', ex_doc ''22'', ex_doc ''333'']"
proof -
  have fields: "payload_fields ex_claims_yaml (ex_document b) = Some (ex_doc b)" if "b \<in> {''1'', ''22'', ''333''}" for b
  proof -
    have "payload_fields ex_claims_yaml (ex_document ''1'') \<noteq> None" "payload_fields ex_claims_yaml (ex_document ''22'') \<noteq> None"
      "payload_fields ex_claims_yaml (ex_document ''333'') \<noteq> None" by code_simp+
    with that show ?thesis by (auto simp: ex_doc_def)
  qed
  have md: "IsMarkdownPath ''/1.md''" "IsMarkdownPath ''/22.md''" "IsMarkdownPath ''/333.md''" by code_simp+
  have r: "ex_resolve ''1'' = Some ''/1.md''" "ex_resolve ''22'' = Some ''/22.md''" "ex_resolve ''333'' = Some ''/333.md''"
    by (simp_all add: ex_resolve_def)
  have other: "\<not> sameResolvedPath ''/1.md'' ''/22.md''" "\<not> sameResolvedPath ''/1.md'' ''/333.md''"
    "\<not> sameResolvedPath ''/22.md'' ''/333.md''" by code_simp+
  have g: "publish_gates (ex_step_reader [''/1.md'' \<mapsto> ex_document ''1'']) [] ''claim_ledger'' ''/1.md'' (ex_document ''1'') = None"
    "publish_gates (ex_step_reader [''/1.md'' \<mapsto> ex_document ''1'', ''/22.md'' \<mapsto> ex_document ''22''])
       [claim_row ''1'' 1 ''a''] ''claim_ledger'' ''/22.md'' (ex_document ''22'') = None"
    "publish_gates (ex_step_reader ex_files)
       [claim_row ''1'' 1 ''a'', claim_row ''22'' 2 ''b''] ''claim_ledger'' ''/333.md'' (ex_document ''333'') = None"
    by code_simp+
  note g = g [unfolded ex_step_reader_def]
  have "claim_history ex_claims_yaml ex_resolve [claim_row ''1'' 1 ''a''] [''/1.md'' \<mapsto> ex_document ''1''] [ex_doc ''1'']"
    using claim_history.publish [OF claim_history.start r(1) md(1) _ _ fields g(1)] by simp
  from claim_history.publish [OF this r(2) md(2) _ _ fields g(2)] r other
  have "claim_history ex_claims_yaml ex_resolve [claim_row ''1'' 1 ''a'', claim_row ''22'' 2 ''b'']
      [''/1.md'' \<mapsto> ex_document ''1'', ''/22.md'' \<mapsto> ex_document ''22''] [ex_doc ''1'', ex_doc ''22'']"
    by (simp add: claim_row_def)
  from claim_history.publish [OF this r(3) md(3) _ _ fields g(3)] r other
  show ?thesis by (simp add: claim_row_def)
qed

text \<open>A claim is only compared with the ledger before. There is a history in which a claim is asserted in
  the first ledger, left out of the second and verified in the third.\<close>

theorem dropped_claim_rises:
  "\<exists>rows files docs. claim_history ex_claims_yaml ex_resolve rows files docs \<and> length docs = 3 \<and>
    (\<exists>c \<in> set (ClaimsFromFrontMatter (docs ! 0)). \<exists>c' \<in> set (ClaimsFromFrontMatter (docs ! 2)).
       cl_id c = cl_id c' \<and> EffectiveClaimStatus c = ''ASSERTED'' \<and> EffectiveClaimStatus c' = ''VERIFIED'')"
proof -
  have "list_ex (\<lambda>c. list_ex (\<lambda>c'. cl_id c = cl_id c' \<and> EffectiveClaimStatus c = ''ASSERTED'' \<and> EffectiveClaimStatus c' = ''VERIFIED'')
      (ClaimsFromFrontMatter (ex_doc ''333''))) (ClaimsFromFrontMatter (ex_doc ''1''))" by code_simp
  then have "\<exists>c \<in> set (ClaimsFromFrontMatter ([ex_doc ''1'', ex_doc ''22'', ex_doc ''333''] ! 0)).
      \<exists>c' \<in> set (ClaimsFromFrontMatter ([ex_doc ''1'', ex_doc ''22'', ex_doc ''333''] ! 2)).
       cl_id c = cl_id c' \<and> EffectiveClaimStatus c = ''ASSERTED'' \<and> EffectiveClaimStatus c' = ''VERIFIED''"
    by (simp add: list_ex_iff)
  moreover have "length [ex_doc ''1'', ex_doc ''22'', ex_doc ''333''] = 3" by simp
  ultimately show ?thesis using ex_history by blast
qed


end
