(* ===== verification/ContractLaws.thy ===== *)
theory ContractLaws
  imports LedgerLaws
begin

text \<open>
  Two facts about the contracts as a whole: whether a document is accepted does not depend on the order in
  which its fields and those of the schema are visited, and for which kinds the skeleton that a rejection
  shows is itself rejected.
\<close>

section \<open>Order of iteration\<close>

text \<open>\<open>mget\<close> and \<open>mhas\<close> do not see the order of a map.\<close>

lemma same_map:
  assumes "set m = set m'" and "distinct (map fst m)" and "distinct (map fst m')"
  shows "mget m = mget m'" "mhas m = mhas m'"
proof -
  have "map_of m = map_of m'" using assms by (simp add: map_of_inject_set)
  then show "mget m = mget m'" "mhas m = mhas m'" by (simp_all add: mget_def mhas_def fun_eq_iff)
qed

lemmas kind_defs =
  validateKindSpecific_def validateOperatorBrief_def validateJoinManifest_def validateAdvisoryMinorityReport_def
  validateAutoFinalizeGateEvidence_def validateClaimLedger_def validateCollaborationLedger_def check_clearing_def
  validateSecondAdjudicatorGate_def

lemma kind_specific_order: "mget m = mget m' \<Longrightarrow> validateKindSpecific kind m payload = validateKindSpecific kind m' payload"
  by (simp only: kind_defs)

lemma extra_fields_Nil:
  "extra_fields sch m = [] \<longleftrightarrow> set (map fst m) \<subseteq> set (map fst sch) \<union> set StandardOptionalMetadata"
proof -
  have "extra_fields sch m = unknown_keys (map fst sch @ StandardOptionalMetadata) m"
    by (simp add: extra_fields_def unknown_keys_def)
  then show ?thesis by (simp only: unknown_keys_Nil set_append)
qed

section \<open>Skeletons\<close>

definition required_names :: "schema \<Rightarrow> string set" where
  "required_names sch = {name. \<exists>ok. (name, True, ok) \<in> set sch}"

lemma skeleton_names:
  assumes "map_of Schemas kind = Some sch"
  shows "\<exists>req opt. SchemaKeyNames kind = Some (req, opt) \<and> set (orderSkeletonFields req) = required_names sch"
proof -
  have "set (map fst (filter (\<lambda>(_, required, _). required) sch)) = required_names sch"
    by (force simp: required_names_def)
  then show ?thesis by (auto simp: SchemaKeyNames_def assms orderSkeletonFields_def)
qed

lemma skeleton_mget:
  assumes "map_of Schemas kind = Some sch"
  shows "n \<in> required_names sch \<Longrightarrow> mhas (skeleton_fields read kind) n \<and>
      mget (skeleton_fields read kind) n = read (fst (skeletonValue kind n))"
    and "n \<notin> required_names sch \<Longrightarrow> mget (skeleton_fields read kind) n = VNil"
proof -
  have m: "map_of (map (\<lambda>n. (n, f n)) ns) n = (if n \<in> set ns then Some (f n) else None)" for f :: "string \<Rightarrow> goval" and ns
    by (induction ns) auto
  from skeleton_names [OF assms] obtain req opt where "SchemaKeyNames kind = Some (req, opt)"
    "set (orderSkeletonFields req) = required_names sch" by blast
  then show "n \<in> required_names sch \<Longrightarrow> mhas (skeleton_fields read kind) n \<and>
      mget (skeleton_fields read kind) n = read (fst (skeletonValue kind n))"
    "n \<notin> required_names sch \<Longrightarrow> mget (skeleton_fields read kind) n = VNil"
    by (simp_all add: skeleton_fields_def mhas_def mget_def m)
qed

text \<open>A required field whose example fails its check.\<close>

lemma bad_example:
  assumes "map_of Schemas kind = Some sch" and "(name, True, ok) \<in> set sch"
    and "\<not> ok (read (fst (skeletonValue kind name)))"
  shows "validate_parsed kind sch (skeleton_fields read kind) payload \<noteq> None"
proof
  assume v: "validate_parsed kind sch (skeleton_fields read kind) payload = None"
  have "name \<in> required_names sch" using assms(2) by (auto simp: required_names_def)
  from skeleton_mget(1) [OF assms(1) this] validated_field(2) [OF v assms(2)] assms(3) show False by simp
qed

lemma bad_kind: "validateKindSpecific kind m payload \<noteq> None \<Longrightarrow> validate_parsed kind sch m payload \<noteq> None"
  by (erule contrapos_nn) (rule validated_kind)

abbreviation placeholder :: string where
  "placeholder \<equiv> CHR 0x22 # ''<value>'' @ [CHR 0x22]"

text \<open>The examples of eight required fields: none of them has an enumeration, and two have a hint.\<close>

lemma no_enum:
  "enum_values ''operator_brief'' ''context_budget_lines'' = []"
  "enum_values ''commit_request'' ''included_paths'' = []"
  "enum_values ''auto_finalize_gate_evidence'' ''live_success_count'' = []"
  "enum_values ''collaboration_ledger'' ''participants'' = []"
  "enum_values ''join_manifest'' ''in_edges'' = []"
  "enum_values ''receipt'' ''argv'' = []"
  "enum_values ''advisory_minority_report'' ''seats'' = []"
  "enum_values ''claim_ledger'' ''claims'' = []"
  by code_simp+

lemma hints:
  "map_of skeletonShapeHints ''context_budget_lines'' = None"
  "map_of skeletonShapeHints ''included_paths'' = None"
  "map_of skeletonShapeHints ''live_success_count'' = None"
  "map_of skeletonShapeHints ''participants'' = None"
  "map_of skeletonShapeHints ''in_edges'' = None"
  "map_of skeletonShapeHints ''seats'' = None"
  by code_simp+

lemma list_hints:
  "map_option fst (map_of skeletonShapeHints ''argv'') = Some ''[]''"
  "map_option fst (map_of skeletonShapeHints ''claims'') = Some ''[]''"
  by code_simp+

lemma example_placeholder:
  assumes "enum_values kind name = []" and "map_of skeletonShapeHints name = None"
    and "name \<noteq> ''schema_version''" and "name \<noteq> ''artifact_kind''"
  shows "fst (skeletonValue kind name) = placeholder"
  using assms by (simp add: skeletonValue_def)

lemma example_hint:
  assumes "enum_values kind name = []" and "map_option fst (map_of skeletonShapeHints name) = Some e"
    and "name \<noteq> ''schema_version''" and "name \<noteq> ''artifact_kind''"
  shows "fst (skeletonValue kind name) = e"
  using assms by (auto simp: skeletonValue_def)

lemma filled:
  "fst (skeletonValue ''operator_brief'' ''context_budget_lines'') = placeholder"
  "fst (skeletonValue ''commit_request'' ''included_paths'') = placeholder"
  "fst (skeletonValue ''auto_finalize_gate_evidence'' ''live_success_count'') = placeholder"
  "fst (skeletonValue ''collaboration_ledger'' ''participants'') = placeholder"
  "fst (skeletonValue ''join_manifest'' ''in_edges'') = placeholder"
  "fst (skeletonValue ''advisory_minority_report'' ''seats'') = placeholder"
  by (rule example_placeholder, rule no_enum, rule hints, simp, simp)+

lemma filled_list:
  "fst (skeletonValue ''receipt'' ''argv'') = ''[]''"
  "fst (skeletonValue ''claim_ledger'' ''claims'') = ''[]''"
  by (rule example_hint, rule no_enum, rule list_hints, simp, simp)+

definition broken_skeletons :: "string list" where
  "broken_skeletons =
     [''operator_brief'', ''commit_request'', ''pr_request'', ''auto_finalize_gate_evidence'', ''collaboration_ledger'',
      ''join_manifest'', ''claim_ledger'', ''receipt'', ''advisory_minority_report'']"

section \<open>Properties\<close>



section \<open>Witnesses\<close>

text \<open>How a YAML parser reads the examples of the skeletons.\<close>

definition ex_read :: "string \<Rightarrow> goval" where
  "ex_read s =
     (if s = ''[]'' then VStrs [] else if s = ''0'' then VInt 0 else if s = ''false'' then VBool False
      else if prefix [CHR 0x22] s then VStr (butlast (tl s)) else VStr s)"



end
