(* ===== verification/Spec2Isabelle.thy ===== *)
theory Spec2Isabelle
  imports RunReconcile RpcLane RunRevisions GitCommitLaws LedgerSafety ClaimHistory ContractLaws
begin

text \<open>
  Striatum runs workflows of coding agents. A workflow file declares jobs, the lanes that serve
  them, dependency edges and revision cycles; a run of it is rows in a database: jobs, work
  messages, leases, sessions. Agents reach the daemon over RPC, claim the next message their lane
  may serve, work under a lease, and complete, block or release the job; gates hold a job back until
  its upstream jobs are done and its panel has accepted; the operator's supervisor launches agents
  for queued jobs and recovers jobs whose agent fell silent. All of it is Go under
  \<open>src/go/pkg\<close>. This development models that core and proves what makes it correct.

  \<^bold>\<open>Workflows\<close> (\<open>workflowauthoring\<close>). \<open>GoValue\<close> and \<open>Prelude\<close> hold dynamic JSON values, the byte
  strings of Go's \<open>strings\<close> package and the chains of checks that return the first error.
  \<open>WorkflowFields\<close>, \<open>WorkflowLanes\<close>, \<open>WorkflowJobs\<close>, \<open>WorkflowGraph\<close> and \<open>WorkflowPhases\<close> are the
  validators of \<open>workflow.go\<close> and \<open>phases.go\<close> in the order of the file, \<open>RepoPath\<close> its path
  arithmetic, \<open>Digraph\<close> its graph searches, and \<open>WorkflowValidate\<close> is \<open>Validate\<close> itself with the
  properties of a document it accepts. \<open>WorkflowGraphLaws\<close> holds what the validators over several
  jobs guarantee. \<open>PlanWaves\<close> is the claim order of \<open>plan.go\<close> and its relation to acyclicity.

  \<^bold>\<open>Work queue\<close> (\<open>mutations\<close>). \<open>WorkQueue\<close> has the tables as lists of records with the schema's
  unique indexes as checks of every store, and the operations the handlers share (\<open>mutations.go\<close>,
  \<open>recovery_lease_expiry.go\<close>, \<open>recovery_stale_requeue.go\<close>, \<open>revision_routing.go\<close>). \<open>WorkHandlers\<close> has
  the handlers of \<open>claim.go\<close>, \<open>lifecycle.go\<close>, \<open>run.go\<close> and of a stale job. A call is a value
  of \<open>wq_call\<close>, and \<open>wq_reach\<close> (\<open>WorkReach\<close>) the states calls reach when sessions, runs, blockers,
  dependencies and the inputs of the gates may be changed in between in any way. \<open>WorkInvariants\<close> and \<open>WorkSafety\<close> prove the
  invariant \<open>wq_ok\<close> of these states through the slice of each job: its row, active leases and live
  messages. \<open>WorkLife\<close> is the abstract lifecycle of one job and the simulation of it by the queue
  (locale \<open>simulation\<close>). \<open>WorkClaims\<close> has the promises of the queue to its clients and the
  behaviours that break an expectation.

  \<^bold>\<open>Gates\<close>. \<open>Quorum\<close> is the panel quorum of \<open>barrier_quorum.go\<close> and the edge gate of \<open>mutations.go\<close>
  that it is composed with; \<open>Advisory\<close> is the tally and the guards of the advisory seats
  (\<open>barrier_advisory.go\<close>). The queue asks them before a blocked job is enqueued.

  \<^bold>\<open>Verdicts\<close>. \<open>WorkReview\<close> has the recording of a verdict (\<open>review.go\<close>) and the bounded revision
  cycles (\<open>revision_routing.go\<close>), \<open>WorkOverride\<close> what an operator does about them: the override, the
  resolution of a checkpoint (\<open>operator.go\<close>) and the invalidation of a review
  (\<open>recovery_invalidate_job.go\<close>). They are calls of the same queue, so its invariant
  (\<open>WorkReviewSafety\<close>) and the lifecycle cover them. \<open>WorkReviewRows\<close> shows which calls leave verdicts
  and routings alone; \<open>WorkReviewLaws\<close> proves what the tables of verdicts and routings say in every
  reachable state, \<open>WorkVerdicts\<close> what a verdict does and where a revision is lost. \<open>RunRevisions\<close>
  joins them with the validator: a run of an accepted workflow stops revising.

  \<^bold>\<open>Write scopes\<close>. \<open>WriteScope\<close> is the guard of \<open>write_scope_guard.go\<close>: what git reports as changed, the
  digests, the snapshot of the claim, the artifacts of siblings, and the attribution of a path to an
  attempt. \<open>WriteScopeLaws\<close> says exactly what it lets through and joins it with the validator: parallel
  writers created no file in common. \<open>GoStrings\<close> has the string and path functions it needs.

  \<^bold>\<open>Artifact contracts\<close> (\<open>artifactcontracts\<close>). \<open>ArtifactFields\<close> has the checks of single values and the
  reading of a front-matter block, \<open>LedgerContract\<close> the collaboration ledger and the discharge table,
  \<open>ClaimContract\<close> the claim ledger, \<open>ArtifactContracts\<close> the table of schemas, the validation of a document
  and the skeletons. \<open>ArtifactGates\<close> has the gates of a publication that read earlier ledgers
  (\<open>collaboration_ledger.go\<close> and \<open>claim_ledger.go\<close> of \<open>mutations\<close>). \<open>LedgerLaws\<close> and \<open>ContractLaws\<close> say what
  an accepted document satisfies, \<open>LedgerSafety\<close> what a recorded verdict and a passed final review rest
  on, and \<open>ClaimHistory\<close> follows the claim ledgers of a run over a series of publications.

  \<^bold>\<open>Launching\<close>. \<open>RunReconcile\<close> is the package of that name: which lane is launched for which queued
  job, with the locale \<open>session_picker\<close> for the choice of a session to adopt.

  \<^bold>\<open>Liveness and recovery\<close>. \<open>Liveness\<close> is the classifier of \<open>sessionliveness\<close>, \<open>LivenessRows\<close> what
  reads and writes its rows. \<open>RecoveryGate\<close> is the policy, the budgets and the confidence gate of
  \<open>recovery_decision_tree.go\<close>, \<open>RecoverySweep\<close> the decision over one job, which calls the classifier
  and, as its effect, the same requeue as the handlers of the queue.

  \<^bold>\<open>RPC\<close> (\<open>rpc\<close>). \<open>RpcDedupe\<close> is the store of seen keys, \<open>RpcCatalog\<close> the tables of methods and error
  codes, \<open>RpcAuth\<close> the authorizers (locale \<open>authorizer\<close>), \<open>RpcEnvelope\<close> the messages, \<open>RpcServer\<close> the
  dispatch of a request, and \<open>RpcLane\<close> the composition with the queue: the decision of the
  authorizer becomes the binding that the handlers enforce.

  \<^bold>\<open>Reading a model\<close>. Names are those of the source. A Go function with an error result returns
  \<open>error + value\<close>; a handler runs in one transaction, so an error leaves the state as it was. Rows
  selected without an order, and ties of an order, come in the order of the table; the
  verdicts are kept in the order of creation and id, which is the order the code reads them in.
  A \<open>jsonb\<close> column is read as its decoded value; a Go map is an
  association list, whose order stands for the order of an iteration. Machine integers are read
  with \<open>wrap64\<close> where a computation can leave their range. Times are integers in nanoseconds, and a
  call happens at one instant. Recursions over graphs and queues end by a proved measure or by the
  number of nodes, which suffices by a lemma of the theory; no result depends on chosen fuel.

  \<^bold>\<open>Parameters\<close>. Code outside the source and code that is not modelled is an argument: JSON and
  time parsing, regular expressions, \<open>newID\<close>, the hash and the lookup of tokens, the handlers and
  the audit recorder of the daemon, the process probe of a session, the backend and lineage checks
  of a claim, the completion checks of a job, the publication of a finding, the attestation of a
  lane, the decisions of the operator, the YAML parser, the output of git, the digests and contents of
  files, the resolution of a path and the worktree of a job. Where a theorem needs something of them it says so:
  time stamps print in order, ids contain no NUL byte, a fresh id is new.

  \<^bold>\<open>Bounds\<close>. The 330 seconds of the silence theorems are the lease heartbeat and its slack under the
  default policy. The sweep cap is assumed below 2 to the 60th power where its successor is computed
  in 64 bits. The duplicate window of ten minutes is exact up to the cap of the store, beyond which
  the oldest keys are dropped.

  \<^bold>\<open>Not modelled\<close>: SQL text and migrations, read models, the command line, process and terminal
  control, provider adapters, HTTP transports, installers, rendering and workflow templates, which
  are input, output or queries without a contract of their own; the verifier, which runs sandboxed
  commands; recorded events apart from the routings of revisions, interrogation windows, the escalation
  inbox, worktrees and what git itself does with a command.
\<close>

end
